(* ===== verification/Prelude.thy ===== *)
theory Prelude
  imports Main "HOL-Library.Word"
begin

text \<open>
  Shared vocabulary of the development: the two status codes of
  \<open>sharecommon.h\<close>, C integers with their wrap-around written out, C strings
  as character lists, the functions of the C library that the sources call
  (\<open>strchr\<close>, \<open>strrchr\<close>, \<open>strstr\<close>, \<open>strcasecmp\<close>,
  \<open>atoi\<close>, \<open>atoll\<close>, the conversion \<open>%d\<close> of
  \<open>sprintf\<close>), and the generic list lemmas the components share.

  A C string is the list of its characters before the terminating NUL; a pointer
  that may be NULL is an option. The data model is LP64 (\<open>int\<close> 32 bits,
  \<open>long\<close>, \<open>long long\<close> and \<open>size_t\<close> 64 bits), the one of the
  64-bit Linux the README names.
\<close>

named_theorems cstr_simps
  \<open>equations that evaluate the C string functions on constructors\<close>

section \<open>Status codes and C integers\<close>

abbreviation (input) SUCCESS :: int where "SUCCESS \<equiv> 0"
abbreviation (input) FAILURE :: int where "FAILURE \<equiv> - 1"

type_synonym byte = "8 word"

definition INT_MAX :: int where "INT_MAX = 2147483647"
definition INT_MIN :: int where "INT_MIN = - 2147483648"
definition LONG_MAX :: int where "LONG_MAX = 9223372036854775807"
definition LONG_MIN :: int where "LONG_MIN = - 9223372036854775808"

text \<open>Conversion of an integer to \<open>int\<close>: two's complement truncation.\<close>

definition wrap32 :: "int \<Rightarrow> int" where
  "wrap32 i = (i + 2 ^ 31) mod 2 ^ 32 - 2 ^ 31"

text \<open>Unsigned 64-bit arithmetic (\<open>unsigned long\<close>, \<open>size_t\<close>) on \<open>nat\<close>.\<close>

definition ULONG_MOD :: nat where "ULONG_MOD = 2 ^ 64"

definition usub64 :: "nat \<Rightarrow> nat \<Rightarrow> nat" where
  "usub64 a b = (a + (ULONG_MOD - b mod ULONG_MOD)) mod ULONG_MOD"

definition is_int32 :: "int \<Rightarrow> bool" where
  "is_int32 i \<longleftrightarrow> INT_MIN \<le> i \<and> i \<le> INT_MAX"

definition is_int64 :: "int \<Rightarrow> bool" where
  "is_int64 i \<longleftrightarrow> LONG_MIN \<le> i \<and> i \<le> LONG_MAX"

lemmas int_limits = INT_MAX_def INT_MIN_def LONG_MAX_def LONG_MIN_def

section \<open>Characters and C strings\<close>

definition chr_code :: "char \<Rightarrow> nat" where
  "chr_code c = of_char c"

abbreviation (input) NUL :: char where "NUL \<equiv> CHR 0x00"
abbreviation (input) LF :: char where "LF \<equiv> CHR 0x0A"
abbreviation (input) CR :: char where "CR \<equiv> CHR 0x0D"

definition is_cstr :: "string \<Rightarrow> bool" where
  "is_cstr s \<longleftrightarrow> NUL \<notin> set s"

definition is_digit :: "char \<Rightarrow> bool" where
  "is_digit c \<longleftrightarrow> 48 \<le> chr_code c \<and> chr_code c \<le> 57"

definition digit_val :: "char \<Rightarrow> nat" where
  "digit_val c = chr_code c - 48"

definition digit_chr :: "nat \<Rightarrow> char" where
  "digit_chr d = char_of (48 + d)"

text \<open>\<open>isspace\<close> in the C locale.\<close>

definition is_space :: "char \<Rightarrow> bool" where
  "is_space c \<longleftrightarrow> chr_code c = 32 \<or> 9 \<le> chr_code c \<and> chr_code c \<le> 13"

definition chr_upper :: "char \<Rightarrow> char" where
  "chr_upper c = (if 97 \<le> chr_code c \<and> chr_code c \<le> 122 then char_of (chr_code c - 32) else c)"

definition chr_lower :: "char \<Rightarrow> char" where
  "chr_lower c = (if 65 \<le> chr_code c \<and> chr_code c \<le> 90 then char_of (chr_code c + 32) else c)"

text \<open>
  \<open>strchr\<close> and \<open>strrchr\<close> return a pointer into the string: here the
  suffix it points to.
\<close>

fun strchr :: "string \<Rightarrow> char \<Rightarrow> string option" where
  "strchr [] c = None"
| "strchr (x # xs) c = (if x = c then Some (x # xs) else strchr xs c)"

fun strrchr :: "string \<Rightarrow> char \<Rightarrow> string option" where
  "strrchr [] c = None"
| "strrchr (x # xs) c =
     (case strrchr xs c of Some t \<Rightarrow> Some t | None \<Rightarrow> if x = c then Some (x # xs) else None)"

fun str_starts :: "string \<Rightarrow> string \<Rightarrow> bool" where
  "str_starts [] s = True"
| "str_starts (x # xs) [] = False"
| "str_starts (x # xs) (y # ys) = (x = y \<and> str_starts xs ys)"

fun strstr :: "string \<Rightarrow> string \<Rightarrow> string option" where
  "strstr [] p = (if p = [] then Some [] else None)"
| "strstr (x # xs) p = (if str_starts p (x # xs) then Some (x # xs) else strstr xs p)"

text \<open>The C string that starts at a sequence of bytes: what \<open>strlen\<close> counts.\<close>

definition c_bytes :: "byte list \<Rightarrow> byte list" where
  "c_bytes bs = takeWhile (\<lambda>b. b \<noteq> 0) bs"

lemma c_bytes_id: "0 \<notin> set bs \<Longrightarrow> c_bytes bs = bs"
  by (auto simp: c_bytes_def takeWhile_eq_all_conv)

text \<open>\<open>strcasecmp (a, b) == 0\<close>.\<close>

definition strcase_eq :: "string \<Rightarrow> string \<Rightarrow> bool" where
  "strcase_eq a b \<longleftrightarrow> map chr_lower a = map chr_lower b"

section \<open>Decimal conversion\<close>

text \<open>
  \<open>strtol (s, NULL, 10)\<close>: white space, an optional sign, then the longest run
  of digits, saturated to the 64-bit range. \<open>atoll\<close> is that value and
  \<open>atoi\<close> its truncation to \<open>int\<close>.
\<close>

fun digits_val :: "nat \<Rightarrow> string \<Rightarrow> nat" where
  "digits_val n [] = n"
| "digits_val n (c # cs) = (if is_digit c then digits_val (10 * n + digit_val c) cs else n)"

definition sat64 :: "int \<Rightarrow> int" where
  "sat64 i = (if i < LONG_MIN then LONG_MIN else if LONG_MAX < i then LONG_MAX else i)"

definition strtol10 :: "string \<Rightarrow> int" where
  "strtol10 s = sat64
     (case dropWhile is_space s of
        [] \<Rightarrow> 0
      | c # cs \<Rightarrow>
          if c = CHR ''-'' then - int (digits_val 0 cs)
          else if c = CHR ''+'' then int (digits_val 0 cs)
          else int (digits_val 0 (c # cs)))"

definition atoll :: "string \<Rightarrow> int" where
  "atoll s = strtol10 s"

definition atoi :: "string \<Rightarrow> int" where
  "atoi s = wrap32 (strtol10 s)"

text \<open>The conversions \<open>%d\<close> and \<open>%lld\<close> of \<open>sprintf\<close>.\<close>

fun show_nat :: "nat \<Rightarrow> string" where
  "show_nat n = (if n < 10 then [digit_chr n] else show_nat (n div 10) @ [digit_chr (n mod 10)])"

declare show_nat.simps [simp del]

definition show_int :: "int \<Rightarrow> string" where
  "show_int i = (if i < 0 then CHR ''-'' # show_nat (nat (- i)) else show_nat (nat i))"

section \<open>Lists\<close>

fun remove_first :: "('a \<Rightarrow> bool) \<Rightarrow> 'a list \<Rightarrow> 'a list" where
  "remove_first P [] = []"
| "remove_first P (x # xs) = (if P x then xs else x # remove_first P xs)"

section \<open>Lemmas: integers\<close>

lemma wrap32_id: "is_int32 i \<Longrightarrow> wrap32 i = i"
  by (simp add: wrap32_def is_int32_def int_limits)

lemma wrap32_range: "is_int32 (wrap32 i)"
proof -
  have "0 \<le> (i + 2 ^ 31) mod 2 ^ 32" and "(i + 2 ^ 31) mod 2 ^ 32 < (2 :: int) ^ 32"
    by simp_all
  then show ?thesis by (simp add: wrap32_def is_int32_def int_limits)
qed

lemma sat64_id: "is_int64 i \<Longrightarrow> sat64 i = i"
  by (simp add: sat64_def is_int64_def)

lemma usub64_le: "b \<le> a \<Longrightarrow> a < ULONG_MOD \<Longrightarrow> usub64 a b = a - b"
proof -
  assume ba: "b \<le> a" and a: "a < ULONG_MOD"
  then have "b mod ULONG_MOD = b" by simp
  then have "usub64 a b = (a + (ULONG_MOD - b)) mod ULONG_MOD"
    by (simp add: usub64_def)
  also have "a + (ULONG_MOD - b) = (a - b) + ULONG_MOD" using ba a by simp
  also have "\<dots> mod ULONG_MOD = a - b" using a by simp
  finally show ?thesis .
qed

section \<open>Lemmas: characters\<close>

lemma chr_code_less [simp]: "chr_code c < 256"
  by (simp add: chr_code_def of_char_of)

lemma chr_code_char_of: "n < 256 \<Longrightarrow> chr_code (char_of n) = n"
  by (simp add: chr_code_def)

lemma char_of_chr_code [simp]: "char_of (chr_code c) = c"
  by (simp add: chr_code_def)

lemma chr_code_inject: "chr_code a = chr_code b \<longleftrightarrow> a = b"
  by (metis char_of_chr_code)

lemma chr_code_eq_iff: "n < 256 \<Longrightarrow> chr_code c = n \<longleftrightarrow> c = char_of n"
  by (metis char_of_chr_code chr_code_char_of)

lemma is_digit_digit_chr: "d < 10 \<Longrightarrow> is_digit (digit_chr d)"
  by (simp add: is_digit_def digit_chr_def chr_code_char_of)

lemma digit_val_digit_chr: "d < 10 \<Longrightarrow> digit_val (digit_chr d) = d"
  by (simp add: digit_val_def digit_chr_def chr_code_char_of)

lemma not_space_digit: "is_digit c \<Longrightarrow> \<not> is_space c"
  by (auto simp: is_digit_def is_space_def)

lemma digit_not_sign: "is_digit c \<Longrightarrow> c \<noteq> CHR ''-'' \<and> c \<noteq> CHR ''+''"
  by (auto simp: is_digit_def chr_code_def)

section \<open>Lemmas: decimal round trip\<close>

lemma show_nat_not_Nil [simp]: "show_nat n \<noteq> []"
  by (subst show_nat.simps) simp

lemma show_nat_digits: "\<forall>c \<in> set (show_nat n). is_digit c"
proof (induction n rule: show_nat.induct)
  case (1 n)
  then show ?case
    by (subst show_nat.simps) (auto simp: is_digit_digit_chr)
qed

lemma digits_val_append:
  "\<forall>c \<in> set xs. is_digit c \<Longrightarrow> digits_val n (xs @ ys) = digits_val (digits_val n xs) ys"
  by (induction xs arbitrary: n) auto

lemma digits_val_show_nat: "digits_val 0 (show_nat n) = n"
proof (induction n rule: show_nat.induct)
  case (1 n)
  show ?case
  proof (cases "n < 10")
    case True
    then show ?thesis
      by (subst show_nat.simps) (simp add: is_digit_digit_chr digit_val_digit_chr)
  next
    case False
    with "1.IH" have "digits_val 0 (show_nat (n div 10) @ [digit_chr (n mod 10)])
        = 10 * (n div 10) + n mod 10"
      by (simp add: digits_val_append show_nat_digits is_digit_digit_chr digit_val_digit_chr)
    with False show ?thesis by (subst show_nat.simps) simp
  qed
qed

lemma digits_val_stop:
  "\<forall>c \<in> set xs. is_digit c \<Longrightarrow> ys = [] \<or> \<not> is_digit (hd ys)
    \<Longrightarrow> digits_val 0 (xs @ ys) = digits_val 0 xs"
  by (cases ys) (auto simp: digits_val_append)

lemma show_nat_Cons: "\<exists>c cs. show_nat n = c # cs \<and> is_digit c"
  using show_nat_digits [of n] by (cases "show_nat n") auto

lemma strtol10_show_nat: "strtol10 (show_nat n) = sat64 (int n)"
proof -
  obtain c cs where c: "show_nat n = c # cs" "is_digit c"
    using show_nat_Cons by blast
  then have "digits_val 0 (c # cs) = n" using digits_val_show_nat [of n] by simp
  moreover from c have "dropWhile is_space (show_nat n) = c # cs"
    by (simp add: not_space_digit)
  ultimately show ?thesis
    using digit_not_sign [OF c(2)] by (simp add: strtol10_def)
qed

lemma strtol10_show_int: "is_int64 i \<Longrightarrow> strtol10 (show_int i) = i"
proof (cases "i < 0")
  case True
  assume i: "is_int64 i"
  have "\<not> is_space CHR ''-''" by (simp add: is_space_def chr_code_def)
  with True i show ?thesis
    by (simp add: show_int_def strtol10_def digits_val_show_nat sat64_id)
next
  case False
  assume "is_int64 i"
  with False show ?thesis
    by (simp add: show_int_def strtol10_show_nat sat64_id)
qed

lemma atoll_show_int: "is_int64 i \<Longrightarrow> atoll (show_int i) = i"
  by (simp add: atoll_def strtol10_show_int)

lemma int32_int64: "is_int32 i \<Longrightarrow> is_int64 i"
  by (simp add: is_int32_def is_int64_def int_limits)

lemma atoi_show_int: "is_int32 i \<Longrightarrow> atoi (show_int i) = i"
  by (simp add: atoi_def strtol10_show_int int32_int64 wrap32_id)

lemma length_show_nat: "n < 10 ^ k \<Longrightarrow> 0 < k \<Longrightarrow> length (show_nat n) \<le> k"
proof (induction n arbitrary: k rule: show_nat.induct)
  case (1 n)
  show ?case
  proof (cases "n < 10")
    case True
    then show ?thesis using 1 by (subst show_nat.simps) simp
  next
    case False
    obtain j where j: "k = Suc j" using 1(3) by (cases k) auto
    have "0 < j" using 1(2) False j by (cases j) auto
    moreover have "n div 10 < 10 ^ j" using 1(2) j by (simp add: div_less_iff_less_mult mult.commute)
    ultimately have "length (show_nat (n div 10)) \<le> j" using 1(1) False by blast
    then show ?thesis using False j by (subst show_nat.simps) simp
  qed
qed

section \<open>Lemmas: searching in strings\<close>

lemma strchr_None_iff: "strchr s c = None \<longleftrightarrow> c \<notin> set s"
  by (induction s) auto

lemma strchr_append: "c \<notin> set xs \<Longrightarrow> strchr (xs @ c # ys) c = Some (c # ys)"
  by (induction xs) auto

lemma strrchr_None_iff: "strrchr s c = None \<longleftrightarrow> c \<notin> set s"
  by (induction s) (auto split: option.splits)

lemma strrchr_append: "c \<notin> set ys \<Longrightarrow> strrchr (xs @ c # ys) c = Some (c # ys)"
proof (induction xs)
  case Nil
  then have "strrchr ys c = None" by (simp add: strrchr_None_iff)
  then show ?case by simp
next
  case (Cons x xs)
  then show ?case by simp
qed

lemma strrchr_SomeD: "strrchr s c = Some t \<Longrightarrow> \<exists>us ys. s = us @ t \<and> t = c # ys \<and> c \<notin> set ys"
proof (induction s)
  case Nil
  then show ?case by simp
next
  case (Cons x xs)
  show ?case
  proof (cases "strrchr xs c")
    case None
    with Cons.prems have "x = c" and "t = x # xs" by (auto split: if_splits)
    with None show ?thesis by (auto simp: strrchr_None_iff)
  next
    case (Some t')
    with Cons obtain us ys where "xs = us @ t" "t = c # ys" "c \<notin> set ys" by auto
    then show ?thesis by (metis append_Cons)
  qed
qed

lemma str_starts_append [simp]: "str_starts p (p @ s)"
  by (induction p) auto

lemma str_starts_iff: "str_starts p s \<longleftrightarrow> (\<exists>t. s = p @ t)"
  by (induction p s rule: str_starts.induct) auto

lemma strstr_prefix: "strstr (p @ s) p = Some (p @ s)"
proof (cases "p @ s")
  case Nil
  then show ?thesis by simp
next
  case (Cons x xs)
  moreover have "str_starts p (p @ s)" by simp
  ultimately show ?thesis by simp
qed

lemma strstr_SomeD: "strstr s p = Some t \<Longrightarrow> \<exists>us. s = us @ t \<and> str_starts p t"
proof (induction s)
  case Nil
  then show ?case by (auto split: if_splits)
next
  case (Cons x xs)
  then show ?case by (cases "str_starts p (x # xs)") (auto intro: exI [of _ "x # _"])
qed

section \<open>Lemmas: lists\<close>

lemma length_filter_eq_iff: "length (filter P xs) = length xs \<longleftrightarrow> (\<forall>x \<in> set xs. P x)"
proof (induction xs)
  case Nil
  then show ?case by simp
next
  case (Cons x xs)
  have "length (filter P xs) \<noteq> Suc (length xs)"
    using length_filter_le [of P xs] by linarith
  with Cons show ?case by simp
qed

lemma length_filter_update:
  "i < length xs \<Longrightarrow> length (filter P (xs[i := x])) + (if P (xs ! i) then 1 else 0) =
     length (filter P xs) + (if P x then 1 else 0)"
proof (induction xs arbitrary: i)
  case (Cons y ys)
  then show ?case by (cases i) auto
qed simp

lemma remove_first_absent: "find P xs = None \<Longrightarrow> remove_first P xs = xs"
  by (induction xs) (auto split: if_splits)

lemma remove_first_split:
  "find P xs = Some y \<Longrightarrow>
     \<exists>as bs. xs = as @ y # bs \<and> remove_first P xs = as @ bs \<and> P y \<and> (\<forall>x \<in> set as. \<not> P x)"
proof (induction xs)
  case Nil
  then show ?case by simp
next
  case (Cons x xs)
  show ?case
  proof (cases "P x")
    case True
    with Cons.prems have "x # xs = [] @ y # xs \<and> remove_first P (x # xs) = [] @ xs \<and> P y" by auto
    then show ?thesis by (metis empty_iff empty_set)
  next
    case False
    with Cons obtain as bs where "xs = as @ y # bs" "remove_first P xs = as @ bs" "P y" "\<forall>x \<in> set as. \<not> P x"
      by auto
    with False show ?thesis by (intro exI [of _ "x # as"] exI [of _ bs]) auto
  qed
qed

lemma find_append: "find P (xs @ ys) = (case find P xs of None \<Rightarrow> find P ys | Some x \<Rightarrow> Some x)"
  by (induction xs) auto

lemma find_map: "find P (map f xs) = map_option f (find (\<lambda>x. P (f x)) xs)"
  by (induction xs) auto

section \<open>Simulation with a budget\<close>

text \<open>
  A detailed machine \<open>exec\<close>, whose steps may fail, implements an abstract one
  \<open>spec\<close> as long as a budget of steps lasts (the room that a bounded integer or a
  bounded buffer leaves). One step law gives the law for every sequence of operations.
\<close>

fun run_ops :: "('op \<Rightarrow> 's \<Rightarrow> 's option) \<Rightarrow> 'op list \<Rightarrow> 's \<Rightarrow> 's option" where
  "run_ops exec [] s = Some s"
| "run_ops exec (op # ops) s = (case exec op s of None \<Rightarrow> None | Some s' \<Rightarrow> run_ops exec ops s')"

locale budgeted_simulation =
  fixes exec :: "'op \<Rightarrow> 's \<Rightarrow> 's option"
    and spec :: "'op \<Rightarrow> 'a \<Rightarrow> 'a"
    and rel :: "nat \<Rightarrow> 's \<Rightarrow> 'a \<Rightarrow> bool"
  assumes step: "rel (Suc n) s a \<Longrightarrow> \<exists>s'. exec op s = Some s' \<and> rel n s' (spec op a)"
begin

lemma run_simulates:
  "rel (length ops + n) s a \<Longrightarrow> \<exists>s'. run_ops exec ops s = Some s' \<and> rel n s' (fold spec ops a)"
proof (induction ops arbitrary: s a)
  case Nil
  then show ?case by simp
next
  case (Cons op ops)
  then have "rel (Suc (length ops + n)) s a" by simp
  then obtain s1 where "exec op s = Some s1" "rel (length ops + n) s1 (spec op a)"
    using step by blast
  with Cons.IH [of s1 "spec op a"] show ?case by simp
qed

end

lemmas [cstr_simps] = strchr.simps strrchr.simps strstr.simps str_starts.simps

end
