(* ===== verification/Base64.thy ===== *)
theory Base64
  imports Prelude
begin

unbundle bit_operations_syntax

text \<open>
  The Base64 codec of \<open>sharelibs/utils/source/base64.c\<close>. The loops keep the
  source's indices \<open>i\<close> and \<open>j\<close>; input bytes are \<open>8 word\<close>, table
  values are read as \<open>unsigned int\<close> (\<open>32 word\<close>), and every read and write
  outside an array is the result \<open>None\<close>.

  Main results: the encoder computes the chunk-wise reference encoding, it fits the
  size \<open>calc_base64_encrypted_size\<close> reserves, and the decoder inverts it while
  writing no more than the decoded bytes.
\<close>

section \<open>Definitions\<close>

definition base64en :: string where
  "base64en = ''ABCDEFGHIJKLMNOPQRSTUVWXYZabcdefghijklmnopqrstuvwxyz0123456789+/''"

definition BASE64_PAD :: char where "BASE64_PAD = CHR ''=''"
definition BASE64DE_FIRST :: nat where "BASE64DE_FIRST = 43"
definition BASE64DE_LAST :: nat where "BASE64DE_LAST = 122"

definition base64de :: "int list" where
  "base64de =
    [62, -1, -1, -1, 63, 52, 53, 54,
     55, 56, 57, 58, 59, 60, 61, -1,
     -1, -1, -1, -1, -1, -1, 0, 1,
     2, 3, 4, 5, 6, 7, 8, 9,
     10, 11, 12, 13, 14, 15, 16, 17,
     18, 19, 20, 21, 22, 23, 24, 25,
     -1, -1, -1, -1, -1, -1, 26, 27,
     28, 29, 30, 31, 32, 33, 34, 35,
     36, 37, 38, 39, 40, 41, 42, 43,
     44, 45, 46, 47, 48, 49, 50, 51]"

abbreviation (input) BASE64_OK :: int where "BASE64_OK \<equiv> 0"
abbreviation (input) BASE64_INVALID :: int where "BASE64_INVALID \<equiv> 1"

definition en :: "byte \<Rightarrow> char" where
  "en k = base64en ! unat k"

text \<open>The \<open>for\<close> loop of \<open>base64_encrypt\<close>: \<open>out\<close> holds \<open>out[0..j-1]\<close>.\<close>

function enc_loop :: "byte list \<Rightarrow> nat \<Rightarrow> string \<Rightarrow> string" where
  "enc_loop inp i out =
     (if i < length inp then
        (if i mod 3 = 0 then
           enc_loop inp (i + 1) (out @ [en (drop_bit 2 (inp ! i) AND 0x3F)])
         else if i mod 3 = 1 then
           enc_loop inp (i + 1)
             (out @ [en (push_bit 4 (inp ! (i - 1) AND 0x3) + (drop_bit 4 (inp ! i) AND 0xF))])
         else
           enc_loop inp (i + 1)
             (out @ [en (push_bit 2 (inp ! (i - 1) AND 0xF) + (drop_bit 6 (inp ! i) AND 0x3)),
                     en (inp ! i AND 0x3F)]))
      else out)"
  by pat_completeness auto
termination
  by (relation "measure (\<lambda>(inp, i, out). length inp - i)") auto

declare enc_loop.simps [simp del]

text \<open>After the loop \<open>i -= 1\<close>, which wraps for an empty input.\<close>

definition base64_encrypt :: "byte list \<Rightarrow> string option" where
  "base64_encrypt inp =
     (let out = enc_loop inp 0 []; i = usub64 (length inp) 1
      in if i mod 3 = 0 then
           (if i < length inp
            then Some (out @ [en (push_bit 4 (inp ! i AND 0x3)), BASE64_PAD, BASE64_PAD])
            else None)
         else if i mod 3 = 1 then
           (if i < length inp
            then Some (out @ [en (push_bit 2 (inp ! i AND 0xF)), BASE64_PAD])
            else None)
         else Some out)"

text \<open>
  The decoding loop. \<open>wr\<close> is an assignment to an element of the output array.
\<close>

definition wr :: "byte list \<Rightarrow> nat \<Rightarrow> byte \<Rightarrow> byte list option" where
  "wr out j v = (if j < length out then Some (out[j := v]) else None)"

definition rd :: "byte list \<Rightarrow> nat \<Rightarrow> byte option" where
  "rd out j = (if j < length out then Some (out ! j) else None)"

definition add_at :: "byte list \<Rightarrow> nat \<Rightarrow> byte \<Rightarrow> byte list option" where
  "add_at out j v = (case rd out j of None \<Rightarrow> None | Some b \<Rightarrow> wr out j (b + v))"

definition de :: "char \<Rightarrow> int" where
  "de ch =
     (if chr_code ch < BASE64DE_FIRST \<or> chr_code ch > BASE64DE_LAST then -1
      else base64de ! (chr_code ch - BASE64DE_FIRST))"

function dec_loop :: "string \<Rightarrow> nat \<Rightarrow> nat \<Rightarrow> byte list \<Rightarrow> nat
    \<Rightarrow> (int \<times> byte list \<times> nat) option" where
  "dec_loop inp i j out outLen =
     (if \<not> i < length inp then Some (BASE64_OK, out, outLen)
      else if inp ! i = CHR ''='' then Some (BASE64_OK, out, outLen)
      else if de (inp ! i) = -1 then Some (BASE64_INVALID, out, outLen)
      else
        (let c = (word_of_int (de (inp ! i)) :: 32 word); inlen = length inp
         in if i mod 4 = 0 then
              (case wr out j (ucast (push_bit 2 c AND 0xFF)) of
                 None \<Rightarrow> None | Some out' \<Rightarrow> dec_loop inp (i + 1) j out' outLen)
            else if i mod 4 = 1 then
              (case add_at out j (ucast (drop_bit 4 c AND 0x3)) of
                 None \<Rightarrow> None
               | Some out' \<Rightarrow>
                   (if i < usub64 inlen 3 \<or> inp ! usub64 inlen 2 \<noteq> CHR ''='' then
                      (case wr out' (j + 1) (ucast (push_bit 4 (c AND 0xF))) of
                         None \<Rightarrow> None
                       | Some out'' \<Rightarrow> dec_loop inp (i + 1) (j + 1) out'' (outLen + 1))
                    else dec_loop inp (i + 1) (j + 1) out' (outLen + 1)))
            else if i mod 4 = 2 then
              (case add_at out j (ucast (drop_bit 2 c AND 0xF)) of
                 None \<Rightarrow> None
               | Some out' \<Rightarrow>
                   (if i < usub64 inlen 2 \<or> inp ! usub64 inlen 1 \<noteq> CHR ''='' then
                      (case wr out' (j + 1) (ucast (push_bit 6 (c AND 0x3))) of
                         None \<Rightarrow> None
                       | Some out'' \<Rightarrow> dec_loop inp (i + 1) (j + 1) out'' (outLen + 1))
                    else dec_loop inp (i + 1) (j + 1) out' (outLen + 1)))
            else
              (case add_at out j (ucast c) of
                 None \<Rightarrow> None | Some out' \<Rightarrow> dec_loop inp (i + 1) (j + 1) out' (outLen + 1))))"
  by pat_completeness auto
termination
  by (relation "measure (\<lambda>(inp, i, j, out, outLen). length inp - i)") auto

declare dec_loop.simps [simp del]

text \<open>\<open>base64_decrypt (in, strlen in, out, outLen)\<close>: return code, buffer, \<open>*outLen\<close>.\<close>

definition base64_decrypt :: "string \<Rightarrow> byte list \<Rightarrow> (int \<times> byte list \<times> nat) option" where
  "base64_decrypt inp out = dec_loop inp 0 0 out 0"

definition calc_base64_encrypted_size :: "nat \<Rightarrow> nat" where
  "calc_base64_encrypted_size input_size =
     (((input_size * 4) mod ULONG_MOD) div 3 + input_size div 96 + 6) mod ULONG_MOD"

section \<open>The reference encoding, three bytes at a time\<close>

definition q0 :: "byte \<Rightarrow> byte" where "q0 a = drop_bit 2 a AND 0x3F"
definition q1 :: "byte \<Rightarrow> byte \<Rightarrow> byte" where
  "q1 a b = push_bit 4 (a AND 0x3) + (drop_bit 4 b AND 0xF)"
definition q2 :: "byte \<Rightarrow> byte \<Rightarrow> byte" where
  "q2 b c = push_bit 2 (b AND 0xF) + (drop_bit 6 c AND 0x3)"
definition q3 :: "byte \<Rightarrow> byte" where "q3 c = c AND 0x3F"

fun b64_ref :: "byte list \<Rightarrow> string" where
  "b64_ref [] = []"
| "b64_ref [a] = [en (q0 a), en (q1 a 0), BASE64_PAD, BASE64_PAD]"
| "b64_ref [a, b] = [en (q0 a), en (q1 a b), en (q2 b 0), BASE64_PAD]"
| "b64_ref (a # b # c # r) = en (q0 a) # en (q1 a b) # en (q2 b c) # en (q3 c) # b64_ref r"

lemmas quad_defs = q0_def q1_def q2_def q3_def

lemma q_pad: "q1 a 0 = push_bit 4 (a AND 0x3)" "q2 b 0 = push_bit 2 (b AND 0xF)"
  by (simp_all add: quad_defs)

lemma enc_loop_end: "length inp \<le> i \<Longrightarrow> enc_loop inp i out = out"
  by (subst enc_loop.simps) simp

lemma drop_Cons_nth: "drop i xs = y # ys \<Longrightarrow> i < length xs \<and> xs ! i = y \<and> drop (Suc i) xs = ys"
  by (metis Cons_nth_drop_Suc drop_all list.distinct(1) list.inject not_le)

lemma enc_step0: "i mod 3 = 0 \<Longrightarrow> drop i inp = a # r \<Longrightarrow>
    enc_loop inp i out = enc_loop inp (Suc i) (out @ [en (q0 a)])"
  using drop_Cons_nth [of i inp a r] by (subst enc_loop.simps) (simp add: quad_defs)

lemma enc_step1: "i mod 3 = 0 \<Longrightarrow> drop i inp = a # b # r \<Longrightarrow>
    enc_loop inp (Suc i) out = enc_loop inp (Suc (Suc i)) (out @ [en (q1 a b)])"
  using drop_Cons_nth [of i inp a "b # r"] drop_Cons_nth [of "Suc i" inp b r]
  by (subst enc_loop.simps) (simp add: quad_defs mod_Suc)

lemma enc_step2: "i mod 3 = 0 \<Longrightarrow> drop i inp = a # b # c # r \<Longrightarrow>
    enc_loop inp (Suc (Suc i)) out
      = enc_loop inp (Suc (Suc (Suc i))) (out @ [en (q2 b c), en (q3 c)])"
  using drop_Cons_nth [of i inp a "b # c # r"] drop_Cons_nth [of "Suc i" inp b "c # r"]
    drop_Cons_nth [of "Suc (Suc i)" inp c r]
  by (subst enc_loop.simps) (simp add: quad_defs mod_Suc)

text \<open>What the loop leaves out of the reference: the padded end.\<close>

fun b64_body :: "byte list \<Rightarrow> string" where
  "b64_body [] = []"
| "b64_body [a] = [en (q0 a)]"
| "b64_body [a, b] = [en (q0 a), en (q1 a b)]"
| "b64_body (a # b # c # r) = en (q0 a) # en (q1 a b) # en (q2 b c) # en (q3 c) # b64_body r"

lemma enc_loop_body: "i mod 3 = 0 \<Longrightarrow> drop i inp = r \<Longrightarrow> enc_loop inp i out = out @ b64_body r"
proof (induction r arbitrary: i out rule: b64_body.induct)
  case 1
  then show ?case by (simp add: enc_loop_end)
next
  case (2 a)
  then show ?case
    using drop_Cons_nth [of i inp a "[]"] by (simp add: enc_step0 enc_loop_end)
next
  case (3 a b)
  then show ?case
    using drop_Cons_nth [of i inp a "[b]"] drop_Cons_nth [of "Suc i" inp b "[]"]
    by (simp add: enc_step0 enc_step1 enc_loop_end)
next
  case (4 a b c r)
  have "drop (Suc (Suc (Suc i))) inp = r"
    using "4.prems" drop_Cons_nth [of i inp a "b # c # r"] drop_Cons_nth [of "Suc i" inp b "c # r"]
      drop_Cons_nth [of "Suc (Suc i)" inp c r] by simp
  moreover have "Suc (Suc (Suc i)) mod 3 = 0" using "4.prems" by (simp add: mod_Suc)
  ultimately have "enc_loop inp (Suc (Suc (Suc i))) out' = out' @ b64_body r" for out'
    by (rule "4.IH" [rotated])
  with "4.prems" show ?case by (simp add: enc_step0 enc_step1 enc_step2)
qed

lemma b64_ref_body:
  "bs \<noteq> [] \<Longrightarrow> b64_ref bs = b64_body bs @
     (if (length bs - 1) mod 3 = 0 then [en (q1 (last bs) 0), BASE64_PAD, BASE64_PAD]
      else if (length bs - 1) mod 3 = 1 then [en (q2 (last bs) 0), BASE64_PAD] else [])"
proof (induction bs rule: b64_ref.induct)
  case (4 a b c r)
  show ?case
  proof (cases "r = []")
    case True
    then show ?thesis by simp
  next
    case False
    then have "length (a # b # c # r) - 1 = (length r - 1) + 3" by (cases r) auto
    then have "(length (a # b # c # r) - 1) mod 3 = (length r - 1) mod 3"
      by (simp only: mod_add_self2)
    moreover have "last (a # b # c # r) = last r" using False by simp
    ultimately show ?thesis using "4.IH" [OF False] by (simp only: b64_ref.simps b64_body.simps append_Cons)
  qed
qed simp_all


lemma base64_encrypt_ref:
  assumes "bs \<noteq> []" and "length bs < ULONG_MOD"
  shows "base64_encrypt bs = Some (b64_ref bs)"
proof -
  have i: "usub64 (length bs) 1 = length bs - 1"
    using assms by (intro usub64_le) (auto simp: Suc_le_eq)
  have "length bs - 1 < length bs" using assms(1) by simp
  moreover have "bs ! (length bs - 1) = last bs" using assms(1) by (simp add: last_conv_nth)
  moreover have "enc_loop bs 0 [] = b64_body bs" by (simp add: enc_loop_body)
  ultimately show ?thesis
    by (simp only: base64_encrypt_def Let_def i b64_ref_body [OF assms(1)] q_pad if_True)
      (simp split: if_splits)
qed

lemma length_b64_ref: "length (b64_ref bs) = (length bs + 2) div 3 * 4"
proof (induction bs rule: b64_ref.induct)
  case (4 a b c r)
  have "(length (a # b # c # r) + 2) div 3 = (length r + 2) div 3 + 1" by simp
  with "4" show ?case by simp
qed simp_all

section \<open>Decoding one quantum\<close>

lemma masks:
  "(x :: byte) AND 0x3F = take_bit 6 x" "(x :: byte) AND 0x3 = take_bit 2 x"
  "(x :: byte) AND 0xF = take_bit 4 x" "(y :: 32 word) AND 0xFF = take_bit 8 y"
  "(y :: 32 word) AND 0x3 = take_bit 2 y" "(y :: 32 word) AND 0xF = take_bit 4 y"
  by (simp_all add: take_bit_eq_mask mask_eq_exp_minus_1)

lemma q1_or: "q1 a b = push_bit 4 (take_bit 2 a) OR take_bit 4 (drop_bit 4 b)"
  unfolding q1_def masks
  by (rule disjunctive_add_eq_or) (auto intro!: bit_word_eqI simp: bit_simps)

lemma q2_or: "q2 b c = push_bit 2 (take_bit 4 b) OR take_bit 2 (drop_bit 6 c)"
  unfolding q2_def masks
  by (rule disjunctive_add_eq_or) (auto intro!: bit_word_eqI simp: bit_simps)

definition v0 :: "byte \<Rightarrow> byte" where "v0 k = ucast (push_bit 2 (ucast k :: 32 word) AND 0xFF)"
definition v1 :: "byte \<Rightarrow> byte" where "v1 k = ucast (drop_bit 4 (ucast k :: 32 word) AND 0x3)"
definition w1 :: "byte \<Rightarrow> byte" where "w1 k = ucast (push_bit 4 ((ucast k :: 32 word) AND 0xF))"
definition v2 :: "byte \<Rightarrow> byte" where "v2 k = ucast (drop_bit 2 (ucast k :: 32 word) AND 0xF)"
definition w2 :: "byte \<Rightarrow> byte" where "w2 k = ucast (push_bit 6 ((ucast k :: 32 word) AND 0x3))"
definition v3 :: "byte \<Rightarrow> byte" where "v3 k = ucast (ucast k :: 32 word)"

lemmas val_defs = v0_def v1_def w1_def v2_def w2_def v3_def

lemma plus_diff: "m \<le> n \<Longrightarrow> m + (n - m) = (n :: nat)" "\<not> n < m \<Longrightarrow> m + (n - m) = (n :: nat)"
  by simp_all

lemma recomb0: "v0 (q0 a) + v1 (q1 a b) = a"
proof -
  have "v0 (q0 a) + v1 (q1 a b) = v0 (q0 a) OR v1 (q1 a b)"
    unfolding val_defs q0_def q1_or masks
    by (rule disjunctive_add_eq_or) (auto intro!: bit_word_eqI simp: bit_simps)
  also have "\<dots> = a"
    unfolding val_defs q0_def q1_or masks
    by (rule bit_word_eqI) (auto simp: bit_simps plus_diff simp flip: add_2_eq_Suc)
  finally show ?thesis .
qed

lemma recomb1: "w1 (q1 a b) + v2 (q2 b c) = b"
proof -
  have "w1 (q1 a b) + v2 (q2 b c) = w1 (q1 a b) OR v2 (q2 b c)"
    unfolding val_defs q1_or q2_or masks
    by (rule disjunctive_add_eq_or) (auto intro!: bit_word_eqI simp: bit_simps)
  also have "\<dots> = b"
    unfolding val_defs q1_or q2_or masks
    by (rule bit_word_eqI) (auto simp: bit_simps plus_diff)
  finally show ?thesis .
qed

lemma recomb2: "w2 (q2 b c) + v3 (q3 c) = c"
proof -
  have "w2 (q2 b c) + v3 (q3 c) = w2 (q2 b c) OR v3 (q3 c)"
    unfolding val_defs q2_or q3_def masks
    by (rule disjunctive_add_eq_or) (auto intro!: bit_word_eqI simp: bit_simps)
  also have "\<dots> = c"
    unfolding val_defs q2_or q3_def masks
    by (rule bit_word_eqI) (auto simp: bit_simps plus_diff)
  finally show ?thesis .
qed

lemma take_bit_6_less: "unat (take_bit 6 (x :: byte)) < 64"
  using take_bit_nat_less_exp [of 6 "unat x"] by (simp add: unsigned_take_bit_eq)

lemma quads_take6: "take_bit 6 (q0 a) = q0 a" "take_bit 6 (q1 a b) = q1 a b"
  "take_bit 6 (q2 b c) = q2 b c" "take_bit 6 (q3 c) = q3 c"
  unfolding q0_def q1_or q2_or q3_def masks
  by (rule bit_word_eqI; auto simp: bit_simps)+

lemma quads_less: "unat (q0 a) < 64" "unat (q1 a b) < 64" "unat (q2 b c) < 64" "unat (q3 c) < 64"
  by (subst quads_take6 [symmetric], rule take_bit_6_less)+

lemma tables_agree:
  "list_all (\<lambda>v. de (base64en ! v) = int v \<and> base64en ! v \<noteq> CHR ''='') [0..<64]"
  by code_simp

lemma de_en: "unat k < 64 \<Longrightarrow> de (en k) = int (unat k) \<and> de (en k) \<noteq> -1 \<and> en k \<noteq> CHR ''=''"
proof -
  assume "unat k < 64"
  then have "de (en k) = int (unat k) \<and> en k \<noteq> CHR ''=''"
    using tables_agree by (simp add: list_all_iff en_def)
  moreover have "int (unat k) \<noteq> -1" by linarith
  ultimately show ?thesis by simp
qed

lemma word_de_en: "unat k < 64 \<Longrightarrow> (word_of_int (de (en k)) :: 32 word) = ucast k"
  unfolding ucast_eq using de_en [of k] by simp

section \<open>Steps of the decoder\<close>

lemma dec_step0:
  assumes "i mod 4 = 0" "i < length inp" "inp ! i = en k" "unat k < 64" "j < length out"
  shows "dec_loop inp i j out n = dec_loop inp (Suc i) j (out[j := v0 k]) n"
  using assms de_en [of k]
  by (subst dec_loop.simps) (simp add: Let_def wr_def v0_def word_de_en)

lemma dec_step1:
  assumes "i mod 4 = 1" "i < length inp" "inp ! i = en k" "unat k < 64" "j < length out"
    and "i < usub64 (length inp) 3 \<or> inp ! usub64 (length inp) 2 \<noteq> CHR ''=''" "Suc j < length out"
  shows "dec_loop inp i j out n
     = dec_loop inp (Suc i) (Suc j) (out[j := out ! j + v1 k, Suc j := w1 k]) (Suc n)"
  using assms de_en [of k]
  by (subst dec_loop.simps) (simp add: Let_def wr_def rd_def add_at_def v1_def w1_def word_de_en)

lemma dec_step1_pad:
  assumes "i mod 4 = 1" "i < length inp" "inp ! i = en k" "unat k < 64" "j < length out"
    and "\<not> i < usub64 (length inp) 3" "inp ! usub64 (length inp) 2 = CHR ''=''"
  shows "dec_loop inp i j out n
     = dec_loop inp (Suc i) (Suc j) (out[j := out ! j + v1 k]) (Suc n)"
  using assms de_en [of k]
  by (subst dec_loop.simps) (simp add: Let_def wr_def rd_def add_at_def v1_def word_de_en)

lemma dec_step2:
  assumes "i mod 4 = 2" "i < length inp" "inp ! i = en k" "unat k < 64" "j < length out"
    and "i < usub64 (length inp) 2 \<or> inp ! usub64 (length inp) 1 \<noteq> CHR ''=''" "Suc j < length out"
  shows "dec_loop inp i j out n
     = dec_loop inp (Suc i) (Suc j) (out[j := out ! j + v2 k, Suc j := w2 k]) (Suc n)"
  using assms de_en [of k]
  by (subst dec_loop.simps) (simp add: Let_def wr_def rd_def add_at_def v2_def w2_def word_de_en)

lemma dec_step2_pad:
  assumes "i mod 4 = 2" "i < length inp" "inp ! i = en k" "unat k < 64" "j < length out"
    and "\<not> i < usub64 (length inp) 2" "inp ! usub64 (length inp) 1 = CHR ''=''"
  shows "dec_loop inp i j out n
     = dec_loop inp (Suc i) (Suc j) (out[j := out ! j + v2 k]) (Suc n)"
  using assms de_en [of k]
  by (subst dec_loop.simps) (simp add: Let_def wr_def rd_def add_at_def v2_def word_de_en)

lemma dec_step3:
  assumes "i mod 4 = 3" "i < length inp" "inp ! i = en k" "unat k < 64" "j < length out"
  shows "dec_loop inp i j out n = dec_loop inp (Suc i) (Suc j) (out[j := out ! j + v3 k]) (Suc n)"
  using assms de_en [of k]
  by (subst dec_loop.simps) (simp add: Let_def wr_def rd_def add_at_def v3_def word_de_en)

lemma dec_pad:
  assumes "i < length inp" "inp ! i = BASE64_PAD"
  shows "dec_loop inp i j out n = Some (BASE64_OK, out, n)"
  using assms by (subst dec_loop.simps) (simp add: BASE64_PAD_def)

lemma dec_end: "length inp \<le> i \<Longrightarrow> dec_loop inp i j out n = Some (BASE64_OK, out, n)"
  by (subst dec_loop.simps) simp

lemma upd_at: "length pre = j \<Longrightarrow> (pre @ x # suf)[j := y] = pre @ y # suf"
  "length pre = j \<Longrightarrow> (pre @ x # y # suf)[Suc j := z] = pre @ x # z # suf"
  "length pre = j \<Longrightarrow> (pre @ x # suf) ! j = x"
  "length pre = j \<Longrightarrow> (pre @ x # y # suf) ! Suc j = y"
  by (auto simp: list_update_append nth_append)

lemma mod4_Suc: "i mod 4 = 0 \<Longrightarrow> Suc i mod 4 = 1 \<and> Suc (Suc i) mod 4 = 2 \<and> Suc (Suc (Suc i)) mod 4 = 3
    \<and> Suc (Suc (Suc (Suc i))) mod (4 :: nat) = 0"
  by presburger

lemma drop_quad:
  assumes "drop i inp = a # b # c # d # r"
  shows "inp ! i = a" "inp ! Suc i = b" "inp ! Suc (Suc i) = c" "inp ! Suc (Suc (Suc i)) = d"
    "drop (Suc (Suc (Suc (Suc i)))) inp = r" "length inp = i + 4 + length r"
proof -
  note d = drop_Cons_nth
  from d [OF assms] have 1: "inp ! i = a" "drop (Suc i) inp = b # c # d # r" "i < length inp" by auto
  from d [OF 1(2)] have 2: "inp ! Suc i = b" "drop (Suc (Suc i)) inp = c # d # r" by auto
  from d [OF 2(2)] have 3: "inp ! Suc (Suc i) = c" "drop (Suc (Suc (Suc i))) inp = d # r" by auto
  from d [OF 3(2)] have 4: "inp ! Suc (Suc (Suc i)) = d" "drop (Suc (Suc (Suc (Suc i)))) inp = r"
    by auto
  have "length (drop i inp) = 4 + length r" by (simp add: assms)
  with 1(3) have 5: "length inp = i + 4 + length r" by simp
  show "inp ! i = a" "inp ! Suc i = b" "inp ! Suc (Suc i) = c" "inp ! Suc (Suc (Suc i)) = d"
    "drop (Suc (Suc (Suc (Suc i)))) inp = r" "length inp = i + 4 + length r"
    using 1 2 3 4 5 by auto
qed

lemma dec_quad:
  assumes d: "drop i inp = en (q0 a) # en (q1 a b) # en (q2 b c) # en (q3 c) # r"
    and r: "r = [] \<or> 4 \<le> length r" and i: "i mod 4 = 0" and L: "length inp < ULONG_MOD"
    and j: "length pre = j"
  shows "dec_loop inp i j (pre @ x # y # z # suf) n
     = dec_loop inp (Suc (Suc (Suc (Suc i)))) (Suc (Suc (Suc j)))
         (pre @ a # b # c # suf) (Suc (Suc (Suc n)))"
proof -
  note q = drop_quad [OF d]
  have len: "length inp = i + 4 + length r" by (rule q(6))
  have u: "usub64 (length inp) 3 = length inp - 3" "usub64 (length inp) 2 = length inp - 2"
    "usub64 (length inp) 1 = length inp - 1"
    by (rule usub64_le; use len L in linarith)+
  have c1: "Suc i < usub64 (length inp) 3 \<or> inp ! usub64 (length inp) 2 \<noteq> CHR ''=''"
  proof (cases "r = []")
    case True
    then have "usub64 (length inp) 2 = Suc (Suc i)" unfolding u using len by simp
    then show ?thesis using q(3) de_en [OF quads_less(3) [of b c]] by simp
  next
    case False
    with r have "Suc i < usub64 (length inp) 3" unfolding u using len by linarith
    then show ?thesis ..
  qed
  have c2: "Suc (Suc i) < usub64 (length inp) 2 \<or> inp ! usub64 (length inp) 1 \<noteq> CHR ''=''"
  proof (cases "r = []")
    case True
    then have "usub64 (length inp) 1 = Suc (Suc (Suc i))" unfolding u using len by simp
    then show ?thesis using q(4) de_en [OF quads_less(4) [of c]] by simp
  next
    case False
    with r have "Suc (Suc i) < usub64 (length inp) 2" unfolding u using len by linarith
    then show ?thesis ..
  qed
  have "dec_loop inp i j (pre @ x # y # z # suf) n
      = dec_loop inp (Suc i) j (pre @ v0 (q0 a) # y # z # suf) n"
    using i len q(1) j by (subst dec_step0 [where k = "q0 a"]) (auto simp: quads_less upd_at)
  also have "\<dots> = dec_loop inp (Suc (Suc i)) (Suc j) (pre @ a # w1 (q1 a b) # z # suf) (Suc n)"
    using mod4_Suc [OF i] len q(2) j c1
    by (subst dec_step1 [where k = "q1 a b"]) (auto simp: quads_less upd_at recomb0)
  also have "\<dots> = dec_loop inp (Suc (Suc (Suc i))) (Suc (Suc j))
      ((pre @ [a]) @ b # w2 (q2 b c) # suf) (Suc (Suc n))"
    using mod4_Suc [OF i] len q(3) j c2 upd_at [of "pre @ [a]" "Suc j"]
    by (subst dec_step2 [where k = "q2 b c"]) (auto simp: quads_less recomb1)
  also have "\<dots> = dec_loop inp (Suc (Suc (Suc (Suc i)))) (Suc (Suc (Suc j)))
      ((pre @ [a, b]) @ c # suf) (Suc (Suc (Suc n)))"
    using mod4_Suc [OF i] len q(4) j upd_at [of "pre @ [a, b]" "Suc (Suc j)"]
    by (subst dec_step3 [where k = "q3 c"]) (auto simp: quads_less recomb2)
  finally show ?thesis by simp
qed

text \<open>The two padded ends: one or two bytes left.\<close>

lemma dec_last1:
  assumes d: "drop i inp = [en (q0 a), en (q1 a b), BASE64_PAD, BASE64_PAD]"
    and i: "i mod 4 = 0" and L: "length inp < ULONG_MOD" and j: "length pre = j"
  shows "dec_loop inp i j (pre @ x # suf) n = Some (BASE64_OK, pre @ a # suf, Suc n)"
proof -
  note q = drop_quad [OF d]
  have len: "length inp = i + 4" using q(6) by simp
  have u: "usub64 (length inp) 3 = Suc i" "usub64 (length inp) 2 = Suc (Suc i)"
    by (subst usub64_le; use len L in simp)+
  have "dec_loop inp i j (pre @ x # suf) n = dec_loop inp (Suc i) j (pre @ v0 (q0 a) # suf) n"
    using i len q(1) j by (subst dec_step0 [where k = "q0 a"]) (auto simp: quads_less upd_at)
  also have "\<dots> = dec_loop inp (Suc (Suc i)) (Suc j) (pre @ a # suf) (Suc n)"
    using mod4_Suc [OF i] len q(2,3) j u
    by (subst dec_step1_pad [where k = "q1 a b"]) (auto simp: quads_less upd_at recomb0 BASE64_PAD_def)
  also have "\<dots> = Some (BASE64_OK, pre @ a # suf, Suc n)"
    using len q(3) by (intro dec_pad) auto
  finally show ?thesis .
qed

lemma dec_last2:
  assumes d: "drop i inp = [en (q0 a), en (q1 a b), en (q2 b c), BASE64_PAD]"
    and i: "i mod 4 = 0" and L: "length inp < ULONG_MOD" and j: "length pre = j"
  shows "dec_loop inp i j (pre @ x # y # suf) n = Some (BASE64_OK, pre @ a # b # suf, Suc (Suc n))"
proof -
  note q = drop_quad [OF d]
  have len: "length inp = i + 4" using q(6) by simp
  have u: "usub64 (length inp) 2 = Suc (Suc i)" "usub64 (length inp) 1 = Suc (Suc (Suc i))"
    by (subst usub64_le; use len L in simp)+
  have c1: "Suc i < usub64 (length inp) 3 \<or> inp ! usub64 (length inp) 2 \<noteq> CHR ''=''"
    using q(3) de_en [OF quads_less(3) [of b c]] by (simp add: u)
  have "dec_loop inp i j (pre @ x # y # suf) n = dec_loop inp (Suc i) j (pre @ v0 (q0 a) # y # suf) n"
    using i len q(1) j by (subst dec_step0 [where k = "q0 a"]) (auto simp: quads_less upd_at)
  also have "\<dots> = dec_loop inp (Suc (Suc i)) (Suc j) ((pre @ [a]) @ w1 (q1 a b) # suf) (Suc n)"
    using mod4_Suc [OF i] len q(2) j c1
    by (subst dec_step1 [where k = "q1 a b"]) (auto simp: quads_less upd_at recomb0)
  also have "\<dots> = dec_loop inp (Suc (Suc (Suc i))) (Suc (Suc j)) ((pre @ [a]) @ b # suf) (Suc (Suc n))"
    using mod4_Suc [OF i] len q(3,4) j u upd_at [of "pre @ [a]" "Suc j"]
    by (subst dec_step2_pad [where k = "q2 b c"]) (auto simp: quads_less recomb1 BASE64_PAD_def)
  also have "\<dots> = Some (BASE64_OK, (pre @ [a]) @ b # suf, Suc (Suc n))"
    using len q(4) by (intro dec_pad) auto
  finally show ?thesis by simp
qed

lemma dec_ref:
  assumes "drop i inp = b64_ref bs" "i mod 4 = 0" "length inp < ULONG_MOD" "length bs \<le> length suf"
    "length inp = i + length (b64_ref bs)"
  shows "dec_loop inp i (length pre) (pre @ suf) n
     = Some (BASE64_OK, pre @ bs @ drop (length bs) suf, n + length bs)"
  using assms
proof (induction bs arbitrary: i pre suf n rule: b64_ref.induct)
  case 1
  then show ?case by (simp add: dec_end)
next
  case (2 a)
  then obtain x s where "suf = x # s" by (cases suf) auto
  with 2 show ?case using dec_last1 [of i inp a 0 pre "length pre" x s n] by simp
next
  case (3 a b)
  then obtain x y s where "suf = x # y # s" by (cases suf; cases "tl suf") auto
  with 3 show ?case using dec_last2 [of i inp a b 0 pre "length pre" x y s n] by simp
next
  case (4 a b c r)
  obtain x y z s where suf: "suf = x # y # z # s"
    using "4.prems"(4) by (cases suf; cases "tl suf"; cases "tl (tl suf)") auto
  let ?i = "Suc (Suc (Suc (Suc i)))"
  have r4: "b64_ref r = [] \<or> 4 \<le> length (b64_ref r)"
    by (cases r rule: b64_ref.cases) auto
  have d: "drop i inp = en (q0 a) # en (q1 a b) # en (q2 b c) # en (q3 c) # b64_ref r"
    using "4.prems"(1) by simp
  have "dec_loop inp i (length pre) (pre @ suf) n
      = dec_loop inp ?i (Suc (Suc (Suc (length pre)))) (pre @ a # b # c # s) (Suc (Suc (Suc n)))"
    unfolding suf by (rule dec_quad [OF d r4 "4.prems"(2,3) refl])
  also have "\<dots> = dec_loop inp ?i (length (pre @ [a, b, c])) ((pre @ [a, b, c]) @ s) (Suc (Suc (Suc n)))"
    by simp
  also have "\<dots> = Some (BASE64_OK, (pre @ [a, b, c]) @ r @ drop (length r) s, Suc (Suc (Suc n)) + length r)"
  proof (rule "4.IH")
    show "drop ?i inp = b64_ref r" by (rule drop_quad [OF d])
    show "?i mod 4 = 0" using mod4_Suc [OF "4.prems"(2)] by blast
    show "length r \<le> length s" using "4.prems"(4) suf by simp
    show "length inp = ?i + length (b64_ref r)" using "4.prems"(5) by simp
  qed (use "4.prems" in simp)
  finally show ?case using suf by simp
qed

section \<open>Properties\<close>

lemma base64_decodes:
  assumes "bs \<noteq> []" and "length bs \<le> length out" and "(length bs + 2) div 3 * 4 < ULONG_MOD"
  shows "\<exists>text. base64_encrypt bs = Some text \<and>
     base64_decrypt text out = Some (BASE64_OK, bs @ drop (length bs) out, length bs)"
proof -
  have "length bs < ULONG_MOD" using assms(3) by linarith
  then have "base64_encrypt bs = Some (b64_ref bs)" using assms(1) by (intro base64_encrypt_ref)
  moreover have "dec_loop (b64_ref bs) 0 (length []) ([] @ out) 0
      = Some (BASE64_OK, [] @ bs @ drop (length bs) out, 0 + length bs)"
    using dec_ref [of 0 "b64_ref bs" bs out "[]" 0] assms by (simp add: length_b64_ref)
  ultimately show ?thesis by (simp add: base64_decrypt_def)
qed

theorem base64_round_trip:
  assumes "bs \<noteq> []" and "length bs \<le> length out" and "(length bs + 2) div 3 * 4 < ULONG_MOD"
  shows "\<exists>text. base64_encrypt bs = Some text \<and>
     base64_decrypt text out = Some (BASE64_OK, bs @ drop (length bs) out, length bs)"
  using assms by (rule base64_decodes)

lemma base64_encrypt_nonempty:
  assumes "bs \<noteq> []" and "length bs * 4 < ULONG_MOD" and "base64_encrypt bs = Some b"
  shows "b \<noteq> []"
proof -
  have "b = b64_ref bs" using assms base64_encrypt_ref [of bs] by (simp add: ULONG_MOD_def)
  moreover have "0 < length (b64_ref bs)" using assms(1) by (simp add: length_b64_ref) (cases bs; simp)
  ultimately show ?thesis by auto
qed

lemma base64_encrypted_fits:
  assumes "bs \<noteq> []" and "length bs * 4 < ULONG_MOD"
  shows "\<exists>text. base64_encrypt bs = Some text \<and> Suc (length text) \<le> calc_base64_encrypted_size (length bs)"
proof -
  let ?n = "length bs"
  have "base64_encrypt bs = Some (b64_ref bs)" using assms by (intro base64_encrypt_ref) auto
  moreover have "(?n * 4) div 3 + ?n div 96 + 6 < ULONG_MOD"
    using assms(2) by (simp add: ULONG_MOD_def)
  then have "calc_base64_encrypted_size ?n = (?n * 4) div 3 + ?n div 96 + 6"
    using assms(2) by (simp add: calc_base64_encrypted_size_def)
  moreover have "3 * ((?n + 2) div 3) \<le> ?n + 2" and "?n * 4 \<le> 3 * ((?n * 4) div 3) + 2"
    by linarith+
  then have "(?n + 2) div 3 * 4 + 1 \<le> (?n * 4) div 3 + ?n div 96 + 6" by linarith
  ultimately show ?thesis by (simp add: length_b64_ref)
qed

theorem base64_encrypt_fits:
  assumes "bs \<noteq> []" and "length bs * 4 < ULONG_MOD"
  shows "\<exists>text. base64_encrypt bs = Some text \<and> Suc (length text) \<le> calc_base64_encrypted_size (length bs)"
  using assms by (rule base64_encrypted_fits)

theorem base64_encrypt_empty: "base64_encrypt [] = None"
  by (simp add: base64_encrypt_def usub64_def ULONG_MOD_def Let_def)

end
