(* ===== verification/StringUtils.thy ===== *)
theory StringUtils
  imports Prelude
begin

text \<open>
  The string helpers of \<open>sharelibs/utils/source/stringutils.c\<close>. A
  \<open>char *\<close> is a \<open>string option\<close> where the code tests it against NULL
  and a \<open>string\<close> where it dereferences it without a test. A function that
  fills a heap buffer of a computed size writes through \<open>buf_put\<close>, which
  checks the size: the result \<open>None\<close> is a write past the end of the buffer.

  Main results: trimming computes the two-sided \<open>dropWhile\<close>; splitting inverts
  joining; \<open>string_replace_char\<close> allocates exactly what it writes;
  \<open>string_json_friendly\<close> overruns its buffer exactly when every character of
  its argument is escaped.
\<close>

section \<open>Definitions\<close>

definition string_is_empty :: "string option \<Rightarrow> bool" where
  "string_is_empty s = (case s of None \<Rightarrow> True | Some t \<Rightarrow> length t = 0)"

fun all_digits :: "string \<Rightarrow> bool" where
  "all_digits [] = True"
| "all_digits (c # cs) = (if chr_code c < 48 \<or> chr_code c > 57 then False else all_digits cs)"

definition string_is_number :: "string option \<Rightarrow> bool" where
  "string_is_number s =
     (if string_is_empty s then False
      else (case s of None \<Rightarrow> False | Some t \<Rightarrow> all_digits t))"

definition string_equals :: "string \<Rightarrow> string \<Rightarrow> bool \<Rightarrow> bool" where
  "string_equals s1 s2 ignoreCase = (if ignoreCase then strcase_eq s1 s2 else s1 = s2)"

definition safe_string :: "string option \<Rightarrow> string" where
  "safe_string s = (case s of None \<Rightarrow> '''' | Some t \<Rightarrow> t)"

text \<open>
  \<open>strtok\<close>: skip delimiters, take the token, and continue after the delimiter
  that ended it. The first token is duplicated before it is tested, so a string
  without a token makes \<open>string_split\<close> pass NULL to \<open>strdup\<close>: \<open>None\<close>.
\<close>

definition strtok :: "string \<Rightarrow> string \<Rightarrow> (string \<times> string) option" where
  "strtok delim s =
     (case dropWhile (\<lambda>c. c \<in> set delim) s of
        [] \<Rightarrow> None
      | t \<Rightarrow> Some (takeWhile (\<lambda>c. c \<notin> set delim) t, tl (dropWhile (\<lambda>c. c \<notin> set delim) t)))"

lemma strtok_shorter: "strtok delim s = Some (t, r) \<Longrightarrow> length r < length s"
proof -
  assume a: "strtok delim s = Some (t, r)"
  let ?u = "dropWhile (\<lambda>c. c \<in> set delim) s"
  from a have "?u \<noteq> []" and r: "r = tl (dropWhile (\<lambda>c. c \<notin> set delim) ?u)"
    by (auto simp: strtok_def simp del: dropWhile_eq_Nil_conv split: list.splits)
  then have "length ?u > 0" by simp
  moreover have "length (dropWhile (\<lambda>c. c \<notin> set delim) ?u) \<le> length ?u" and "length ?u \<le> length s"
    by (simp_all add: length_dropWhile_le)
  moreover have "length r = length (dropWhile (\<lambda>c. c \<notin> set delim) ?u) - 1"
    by (subst r) simp
  ultimately show ?thesis by linarith
qed

function split_rest :: "string \<Rightarrow> string \<Rightarrow> string list" where
  "split_rest delim s =
     (case strtok delim s of None \<Rightarrow> [] | Some (t, r) \<Rightarrow> t # split_rest delim r)"
  by pat_completeness auto
termination
  by (relation "measure (\<lambda>(delim, s). length s)") (auto dest: strtok_shorter)

declare split_rest.simps [simp del]

definition string_split :: "string \<Rightarrow> string \<Rightarrow> string list option" where
  "string_split str delimiter =
     (case strtok delimiter str of
        None \<Rightarrow> None
      | Some (t, r) \<Rightarrow> Some (t # split_rest delimiter r))"

definition string_trim_left :: "string \<Rightarrow> char \<Rightarrow> string" where
  "string_trim_left str trim = dropWhile (\<lambda>c. c = trim) str"

text \<open>The loop \<open>while (end > str && *end == trim) end--\<close> on the index of \<open>end\<close>.\<close>

fun trim_end :: "string \<Rightarrow> char \<Rightarrow> nat \<Rightarrow> nat" where
  "trim_end str trim 0 = 0"
| "trim_end str trim (Suc e) = (if str ! Suc e = trim then trim_end str trim e else Suc e)"

definition string_trim_right :: "string \<Rightarrow> char \<Rightarrow> string" where
  "string_trim_right str trim =
     (if str = [] then [] else take (Suc (trim_end str trim (length str - 1))) str)"

definition string_trim :: "string \<Rightarrow> char \<Rightarrow> string" where
  "string_trim str trim =
     (let s = dropWhile (\<lambda>c. c = trim) str
      in if s = [] then s else take (Suc (trim_end s trim (length s - 1))) s)"

text \<open>A heap buffer of \<open>cap\<close> bytes filled from the left.\<close>

definition buf_put :: "nat \<Rightarrow> string \<Rightarrow> char \<Rightarrow> string option" where
  "buf_put cap out c = (if length out < cap then Some (out @ [c]) else None)"

fun buf_puts :: "nat \<Rightarrow> string \<Rightarrow> string \<Rightarrow> string option" where
  "buf_puts cap out [] = Some out"
| "buf_puts cap out (c # cs) =
     (case buf_put cap out c of None \<Rightarrow> None | Some out' \<Rightarrow> buf_puts cap out' cs)"

definition g_jsonReplaceChars :: "(char \<times> string) list" where
  "g_jsonReplaceChars =
    [(CHR 0x5C, [CHR 0x5C, CHR 0x5C]),
     (CHR ''/'', [CHR 0x5C, CHR ''/'']),
     (CHR 0x08, [CHR 0x5C, CHR ''b'']),
     (CHR 0x0C, [CHR 0x5C, CHR ''f'']),
     (CHR 0x0A, [CHR 0x5C, CHR ''n'']),
     (CHR 0x0D, [CHR 0x5C, CHR ''r'']),
     (CHR 0x09, [CHR 0x5C, CHR ''t'']),
     (CHR 0x27, [CHR 0x5C, CHR 0x27]),
     (CHR 0x22, [CHR 0x5C, CHR 0x22])]"

definition find_json_replace_char :: "char \<Rightarrow> string option" where
  "find_json_replace_char c = map_of g_jsonReplaceChars c"

fun json_friendly_loop :: "nat \<Rightarrow> string \<Rightarrow> string \<Rightarrow> string option" where
  "json_friendly_loop cap out [] = Some out"
| "json_friendly_loop cap out (p # ps) =
     (case (case find_json_replace_char p of
              Some r \<Rightarrow> buf_puts cap out r
            | None \<Rightarrow> buf_put cap out p) of
        None \<Rightarrow> None
      | Some out' \<Rightarrow> json_friendly_loop cap out' ps)"

text \<open>
  \<open>string_json_friendly str\<close>, where \<open>room\<close> is the size of the caller's
  buffer that holds \<open>str\<close> and receives the result.
\<close>

definition string_json_friendly :: "nat \<Rightarrow> string \<Rightarrow> string option" where
  "string_json_friendly room str =
     (case json_friendly_loop (length str * 2) [] str of
        None \<Rightarrow> None
      | Some q \<Rightarrow>
          (case buf_put (length str * 2) q NUL of
             None \<Rightarrow> None
           | Some _ \<Rightarrow> if Suc (length q) \<le> room then Some q else None))"

fun string_upper_case :: "string \<Rightarrow> string" where
  "string_upper_case [] = []"
| "string_upper_case (c # cs) =
     (if 97 \<le> chr_code c \<and> chr_code c \<le> 122 then char_of (chr_code c - 32) else c)
     # string_upper_case cs"

fun string_lower_case :: "string \<Rightarrow> string" where
  "string_lower_case [] = []"
| "string_lower_case (c # cs) =
     (if 65 \<le> chr_code c \<and> chr_code c \<le> 90 then char_of (chr_code c + 32) else c)
     # string_lower_case cs"

fun replace_char_loop :: "nat \<Rightarrow> char \<Rightarrow> string \<Rightarrow> string \<Rightarrow> string \<Rightarrow> string option" where
  "replace_char_loop cap c replace out [] = buf_put cap out NUL"
| "replace_char_loop cap c replace out (p # ps) =
     (case (if p = c then buf_puts cap out replace else buf_put cap out p) of
        None \<Rightarrow> None
      | Some out' \<Rightarrow> replace_char_loop cap c replace out' ps)"

text \<open>
  \<open>string_replace_char\<close>: the outer option is a write past the buffer, the inner
  one is \<open>*newstr\<close> (\<open>None\<close>: left as it was, because nothing matched). The
  buffer's content ends with its NUL.
\<close>

definition string_replace_char :: "string \<Rightarrow> char \<Rightarrow> string \<Rightarrow> string option option" where
  "string_replace_char str c replace =
     (let count = length (filter (\<lambda>p. p = c) str)
      in if count = 0 then Some None
         else map_option Some
           (replace_char_loop (length str - count + count * length replace + 1) c replace [] str))"

section \<open>Lemmas\<close>

lemma string_is_empty_simps [simp]:
  "string_is_empty None" "string_is_empty (Some s) \<longleftrightarrow> s = []"
  by (simp_all add: string_is_empty_def)

lemma all_digits_iff: "all_digits s \<longleftrightarrow> (\<forall>c \<in> set s. is_digit c)"
  by (induction s) (auto simp: is_digit_def not_less)

lemma string_is_number_Some:
  "string_is_number (Some s) \<longleftrightarrow> s \<noteq> [] \<and> (\<forall>c \<in> set s. is_digit c)"
  by (simp add: string_is_number_def all_digits_iff)

lemma string_is_number_show_nat: "string_is_number (Some (show_nat n))"
  by (simp add: string_is_number_Some show_nat_digits)

lemma chr_upper_fold: "(if 97 \<le> chr_code c \<and> chr_code c \<le> 122
    then char_of (chr_code c - 32) else c) = chr_upper c"
  by (simp add: chr_upper_def)

lemma string_upper_case_map: "string_upper_case s = map chr_upper s"
  by (induction s) (simp_all add: chr_upper_fold)

lemma string_lower_case_map: "string_lower_case s = map chr_lower s"
  by (induction s) (simp_all add: chr_lower_def)

lemma chr_lower_upper: "chr_lower (chr_upper c) = chr_lower c"
  by (auto simp: chr_lower_def chr_upper_def chr_code_char_of)

lemma chr_upper_idem: "chr_upper (chr_upper c) = chr_upper c"
  by (auto simp: chr_upper_def chr_code_char_of)

lemma trim_end_le: "trim_end s t e \<le> e"
  by (induction s t e rule: trim_end.induct) auto

lemma trim_end_take:
  "e < length s \<Longrightarrow> s \<noteq> [] \<Longrightarrow>
    take (Suc (trim_end s t e)) s = hd s # rev (dropWhile (\<lambda>c. c = t) (rev (tl (take (Suc e) s))))"
proof (induction s t e rule: trim_end.induct)
  case (1 s t)
  then show ?case by (cases s) auto
next
  case (2 s t e)
  have snoc: "tl (take (Suc (Suc e)) s) = tl (take (Suc e) s) @ [s ! Suc e]"
    using "2.prems" by (cases s) (simp_all add: take_Suc_conv_app_nth)
  show ?case
  proof (cases "s ! Suc e = t")
    case True
    with "2" snoc show ?thesis by simp
  next
    case False
    have "take (Suc (Suc e)) s = hd s # tl (take (Suc (Suc e)) s)"
      using "2.prems" by (cases s) auto
    with False snoc show ?thesis by simp
  qed
qed

text \<open>Right trimming keeps the first character whatever it is.\<close>

lemma string_trim_right_Cons:
  "string_trim_right (c # cs) t = c # rev (dropWhile (\<lambda>x. x = t) (rev cs))"
  using trim_end_take [of "length cs" "c # cs" t] by (simp add: string_trim_right_def)

lemma dropWhile_rev_snoc:
  "c \<noteq> t \<Longrightarrow> rev (dropWhile (\<lambda>x. x = t) (rev (c # cs))) = c # rev (dropWhile (\<lambda>x. x = t) (rev cs))"
  by (simp add: dropWhile_append)

lemma string_trim_eq:
  "string_trim s t = rev (dropWhile (\<lambda>c. c = t) (rev (dropWhile (\<lambda>c. c = t) s)))"
proof (cases "dropWhile (\<lambda>c. c = t) s")
  case Nil
  then show ?thesis by (simp add: string_trim_def del: dropWhile_eq_Nil_conv)
next
  case (Cons c cs)
  then have "c \<noteq> t" using hd_dropWhile [of "\<lambda>c. c = t" s] by auto
  moreover have "string_trim s t = string_trim_right (c # cs) t"
    using Cons by (simp add: string_trim_def string_trim_right_def)
  ultimately show ?thesis
    using Cons by (simp add: string_trim_right_Cons dropWhile_rev_snoc del: rev.simps)
qed

subsection \<open>Splitting\<close>

text \<open>The reference: the tokens of a joined list are its parts.\<close>

fun join :: "char \<Rightarrow> string list \<Rightarrow> string" where
  "join d [] = []"
| "join d [t] = t"
| "join d (t # u # ts) = t @ d # join d (u # ts)"

definition token_ok :: "char \<Rightarrow> string \<Rightarrow> bool" where
  "token_ok d t \<longleftrightarrow> t \<noteq> [] \<and> d \<notin> set t"

lemma strtok_token:
  assumes "token_ok d t" and "r = [] \<or> hd r = d"
  shows "strtok [d] (t @ r) = Some (t, tl r)"
proof -
  have "dropWhile (\<lambda>c. c \<in> set [d]) (t @ r) = t @ r"
    using assms(1) by (cases t) (auto simp: token_ok_def)
  moreover have "takeWhile (\<lambda>c. c \<notin> set [d]) (t @ r) = t"
    and "dropWhile (\<lambda>c. c \<notin> set [d]) (t @ r) = r"
    using assms by (cases r; auto simp: token_ok_def takeWhile_append dropWhile_append)+
  moreover have "t @ r \<noteq> []" using assms(1) by (simp add: token_ok_def)
  ultimately show ?thesis by (auto simp: strtok_def split: list.splits)
qed

lemma split_rest_join: "\<forall>t \<in> set ts. token_ok d t \<Longrightarrow> split_rest [d] (join d ts) = ts"
proof (induction d ts rule: join.induct)
  case (1 d)
  then show ?case by (simp add: split_rest.simps strtok_def)
next
  case (2 d t)
  then have "strtok [d] (t @ []) = Some (t, tl [])" by (intro strtok_token) auto
  then have "strtok [d] t = Some (t, [])" by simp
  moreover have "split_rest [d] [] = []" by (simp add: split_rest.simps strtok_def)
  ultimately show ?case by (simp add: split_rest.simps [of "[d]" t])
next
  case (3 d t u ts)
  then have "strtok [d] (t @ d # join d (u # ts)) = Some (t, tl (d # join d (u # ts)))"
    by (intro strtok_token) auto
  with "3" show ?case by (simp add: split_rest.simps [of "[d]" "t @ d # join d (u # ts)"])
qed

subsection \<open>Buffers\<close>

lemma buf_puts_eq:
  "buf_puts cap out cs = (if cs = [] \<or> length out + length cs \<le> cap then Some (out @ cs) else None)"
  by (induction cs arbitrary: out) (auto simp: buf_put_def)

definition escape1 :: "char \<Rightarrow> string" where
  "escape1 c = (case find_json_replace_char c of Some r \<Rightarrow> r | None \<Rightarrow> [c])"

lemma find_json_replace_char_len: "find_json_replace_char c = Some r \<Longrightarrow> length r = 2"
  by (auto simp: find_json_replace_char_def g_jsonReplaceChars_def split: if_splits)

lemma escape1_len: "length (escape1 c) = (if find_json_replace_char c = None then 1 else 2)"
  by (auto simp: escape1_def find_json_replace_char_len split: option.splits)

lemma escape1_not_Nil [simp]: "escape1 c \<noteq> []"
  using escape1_len [of c] by (auto split: if_splits)

lemma json_friendly_step:
  "(case find_json_replace_char p of Some r \<Rightarrow> buf_puts cap out r | None \<Rightarrow> buf_put cap out p)
     = buf_puts cap out (escape1 p)"
  by (auto simp: escape1_def buf_puts_eq buf_put_def split: option.splits)

lemma json_friendly_loop_eq:
  "json_friendly_loop cap out s =
     (if s = [] \<or> length out + length (concat (map escape1 s)) \<le> cap
      then Some (out @ concat (map escape1 s)) else None)"
proof (induction s arbitrary: out)
  case Nil
  then show ?case by simp
next
  case (Cons p ps)
  have "length out + length (concat (map escape1 (p # ps))) \<le> cap
      \<Longrightarrow> length out + length (escape1 p) \<le> cap" by simp
  with Cons show ?case by (auto simp: json_friendly_step buf_puts_eq)
qed

lemma escaped_length:
  "length (concat (map escape1 s)) =
     length s + length (filter (\<lambda>c. find_json_replace_char c \<noteq> None) s)"
  by (induction s) (auto simp: escape1_len)

lemma replace_char_loop_eq:
  "length out + length (concat (map (\<lambda>p. if p = c then r else [p]) s)) < cap \<Longrightarrow>
   replace_char_loop cap c r out s
     = Some (out @ concat (map (\<lambda>p. if p = c then r else [p]) s) @ [NUL])"
  by (induction s arbitrary: out) (auto simp: buf_put_def buf_puts_eq)

lemma replaced_length:
  "length (concat (map (\<lambda>p. if p = c then r else [p]) s)) =
     length s - length (filter (\<lambda>p. p = c) s) + length (filter (\<lambda>p. p = c) s) * length r"
proof (induction s)
  case Nil
  then show ?case by simp
next
  case (Cons p ps)
  have "length (filter (\<lambda>p. p = c) ps) \<le> length ps" by simp
  with Cons show ?case by (auto simp: algebra_simps Suc_diff_le)
qed

section \<open>Properties\<close>

lemma dropWhile_eq_replicate: "\<exists>a. s = replicate a t @ dropWhile (\<lambda>c. c = t) s"
proof (induction s)
  case Nil
  then show ?case by simp
next
  case (Cons x xs)
  then obtain a where a: "xs = replicate a t @ dropWhile (\<lambda>c. c = t) xs" by blast
  show ?case
  proof (cases "x = t")
    case True
    with a have "x # xs = replicate (Suc a) t @ dropWhile (\<lambda>c. c = t) (x # xs)" by simp
    then show ?thesis by blast
  next
    case False
    then show ?thesis by (intro exI [of _ 0]) simp
  qed
qed

lemma string_trim_decompose:
  "\<exists>a b. s = replicate a t @ string_trim s t @ replicate b t"
proof -
  let ?d = "dropWhile (\<lambda>c. c = t)"
  obtain a where a: "s = replicate a t @ ?d s" using dropWhile_eq_replicate [of s t] by blast
  obtain b where "rev (?d s) = replicate b t @ ?d (rev (?d s))"
    using dropWhile_eq_replicate [of "rev (?d s)" t] by blast
  then have "?d s = rev (replicate b t @ ?d (rev (?d s)))" by (metis rev_rev_ident)
  then have b: "?d s = string_trim s t @ replicate b t"
    unfolding string_trim_eq rev_append rev_replicate .
  note a
  also note b
  finally show ?thesis by blast
qed

lemma string_trim_ends:
  assumes "string_trim s t \<noteq> []"
  shows "hd (string_trim s t) \<noteq> t \<and> last (string_trim s t) \<noteq> t"
proof -
  let ?u = "dropWhile (\<lambda>c. c = t) s"
  let ?v = "dropWhile (\<lambda>c. c = t) (rev ?u)"
  have v: "?v \<noteq> []" and eq: "string_trim s t = rev ?v" using assms by (simp_all add: string_trim_eq)
  then have "last (string_trim s t) \<noteq> t" using hd_dropWhile [OF v] by (simp add: last_rev)
  moreover from v have u: "?u \<noteq> []" by force
  moreover have "string_trim s t = take (Suc (trim_end ?u t (length ?u - 1))) ?u"
    using u by (simp only: string_trim_def Let_def if_False)
  then have "hd (string_trim s t) = hd ?u" by (simp add: hd_take)
  ultimately show ?thesis using hd_dropWhile [OF u] by simp
qed

text \<open>
  The whole contract of \<open>string_trim\<close>: only copies of the trimmed character go,
  from the two ends, and none is left there.
\<close>

theorem string_trim_correct:
  "(\<exists>a b. s = replicate a t @ string_trim s t @ replicate b t) \<and>
   (string_trim s t = [] \<or> (hd (string_trim s t) \<noteq> t \<and> last (string_trim s t) \<noteq> t))"
  using string_trim_decompose string_trim_ends by blast

theorem string_split_join:
  assumes "ts \<noteq> []" and "\<forall>t \<in> set ts. token_ok d t"
  shows "string_split (join d ts) [d] = Some ts"
proof -
  have eq: "split_rest [d] (join d ts) = ts" using assms(2) by (rule split_rest_join)
  with assms(1) obtain t r where "strtok [d] (join d ts) = Some (t, r)"
    by (cases "strtok [d] (join d ts)") (auto simp: split_rest.simps)
  moreover from this eq have "t # split_rest [d] r = ts"
    by (simp add: split_rest.simps [of "[d]" "join d ts"])
  ultimately show ?thesis by (simp add: string_split_def)
qed

theorem string_json_friendly_overrun:
  "string_json_friendly room str = None \<longleftrightarrow>
     (\<forall>c. c \<in> set str \<longrightarrow> find_json_replace_char c \<noteq> None) \<or>
     room \<le> length (concat (map escape1 str))"
proof -
  let ?q = "concat (map escape1 str)"
  let ?esc = "\<lambda>c. find_json_replace_char c \<noteq> None"
  have le: "length (filter ?esc str) \<le> length str" by simp
  have len: "length ?q = length str + length (filter ?esc str)" by (rule escaped_length)
  have "(\<forall>c. c \<in> set str \<longrightarrow> ?esc c) \<longleftrightarrow> length (filter ?esc str) = length str"
    unfolding length_filter_eq_iff by blast
  moreover have "length (filter ?esc str) = length str \<longleftrightarrow> length str * 2 \<le> length ?q"
    using le len by linarith
  ultimately have all: "(\<forall>c. c \<in> set str \<longrightarrow> ?esc c) \<longleftrightarrow> length str * 2 \<le> length ?q"
    by (rule trans)
  have "length ?q \<le> length str * 2" using le len by linarith
  then have "json_friendly_loop (length str * 2) [] str = Some ?q"
    by (simp add: json_friendly_loop_eq)
  then have "string_json_friendly room str = None \<longleftrightarrow>
      length str * 2 \<le> length ?q \<or> room \<le> length ?q"
    by (auto simp: string_json_friendly_def buf_put_def)
  with all show ?thesis by blast
qed

theorem string_replace_char_fits:
  "string_replace_char str c r =
     Some (if c \<in> set str
           then Some (concat (map (\<lambda>p. if p = c then r else [p]) str) @ [NUL]) else None)"
proof -
  let ?n = "length (filter (\<lambda>p. p = c) str)"
  have "?n = 0 \<longleftrightarrow> c \<notin> set str" by (auto simp: filter_empty_conv)
  moreover have "replace_char_loop (length str - ?n + ?n * length r + 1) c r [] str
      = Some ([] @ concat (map (\<lambda>p. if p = c then r else [p]) str) @ [NUL])"
    by (rule replace_char_loop_eq) (use replaced_length [of c r str] in simp)
  ultimately show ?thesis by (auto simp: string_replace_char_def Let_def)
qed

end
