(* ===== verification/FilePath.thy ===== *)
theory FilePath
  imports StringUtils
begin

text \<open>
  The path and file helpers of \<open>sharelibs/utils/source/filepathutils.c\<close> over an
  explicit file system: the regular files with their contents, the directories, and
  what the operating system decides (which paths can be opened for writing, how many
  bytes a write stores). The record is the root of the hub's state; the components
  extend it.

  \<open>size_t\<close> results stay unsigned: the \<open>-1\<close> that \<open>write_file_string\<close> and
  \<open>read_file_string\<close> return on a failed \<open>fopen\<close> is \<open>SIZE_MAX\<close>.
\<close>

section \<open>Definitions\<close>

record fs_state =
  fs_files :: "string \<rightharpoonup> string"
  fs_dirs :: "string list"
  fs_open_ok :: "string \<Rightarrow> bool"
  fs_mkdir_ok :: "string \<Rightarrow> bool"
  fs_room :: nat
  fs_exe :: string
  fs_passwd_dir :: string
  gHomePath :: string

definition SIZE_MAX :: nat where "SIZE_MAX = ULONG_MOD - 1"

definition c_str :: "string \<Rightarrow> string" where
  "c_str s = takeWhile (\<lambda>c. c \<noteq> NUL) s"

subsection \<open>Operating system calls\<close>

definition unlink :: "string \<Rightarrow> 'a fs_state_scheme \<Rightarrow> 'a fs_state_scheme" where
  "unlink p s = s\<lparr>fs_files := (fs_files s)(p := None)\<rparr>"

definition os_exists :: "string \<Rightarrow> 'a fs_state_scheme \<Rightarrow> bool" where
  "os_exists p s \<longleftrightarrow> fs_files s p \<noteq> None \<or> p \<in> set (fs_dirs s)"

text \<open>The directory part of a path for the kernel: up to the last slash, \<open>/\<close> itself at the root.\<close>

definition os_dirname :: "string \<Rightarrow> string" where
  "os_dirname p =
     (let d = rev (tl (dropWhile (\<lambda>c. c \<noteq> CHR ''/'') (rev p))) in if d = [] then ''/'' else d)"

text \<open>\<open>mkdir\<close>: 0, or -1 with \<open>errno = EEXIST\<close> (first component of the result true).\<close>

definition os_mkdir :: "string \<Rightarrow> 'a fs_state_scheme \<Rightarrow> bool \<times> int \<times> 'a fs_state_scheme" where
  "os_mkdir p s =
     (let q = (if length p > 1 \<and> last p = CHR ''/'' then butlast p else p)
      in if os_exists q s then (True, -1, s)
         else if os_dirname q \<in> set (fs_dirs s) \<and> fs_mkdir_ok s q
         then (False, 0, s\<lparr>fs_dirs := q # fs_dirs s\<rparr>)
         else (False, -1, s))"

subsection \<open>Executable and home directory\<close>

fun last_slash :: "string \<Rightarrow> nat \<Rightarrow> nat" where
  "last_slash p 0 = 0"
| "last_slash p (Suc i) = (if p ! Suc i \<noteq> CHR ''/'' then last_slash p i else Suc i)"

definition local_path :: "'a fs_state_scheme \<Rightarrow> string" where
  "local_path s = take (last_slash (fs_exe s) (length (fs_exe s) - 1)) (fs_exe s)"

definition home_path :: "'a fs_state_scheme \<Rightarrow> string \<times> 'a fs_state_scheme" where
  "home_path s =
     (if length (gHomePath s) = 0
      then (fs_passwd_dir s, s\<lparr>gHomePath := fs_passwd_dir s\<rparr>)
      else (gHomePath s, s))"

subsection \<open>Directories\<close>

fun norm_loop :: "bool \<Rightarrow> string \<Rightarrow> string" where
  "norm_loop skip [] = []"
| "norm_loop skip (c # cs) =
     (if skip \<and> c = CHR ''/'' then norm_loop True cs
      else c # norm_loop (c = CHR ''/'') cs)"

text \<open>\<open>skip\<close>: the inner loop over the slashes that follow a copied slash.\<close>

definition path_normalize :: "string \<Rightarrow> string" where
  "path_normalize path = norm_loop False path"

text \<open>The scan \<open>p--\<close> from the terminating NUL to a separator or the first character.\<close>

fun sep_back :: "string \<Rightarrow> nat \<Rightarrow> nat" where
  "sep_back s 0 = 0"
| "sep_back s (Suc p) =
     (if Suc p < length s \<and> s ! Suc p = CHR ''/'' then Suc p else sep_back s p)"

lemma norm_loop_length: "length (norm_loop b s) \<le> length s"
  by (induction b s rule: norm_loop.induct) auto

lemma sep_back_less: "sep_back s (length s) \<noteq> 0 \<Longrightarrow> sep_back s (length s) < length s"
proof -
  have "sep_back s p \<noteq> 0 \<Longrightarrow> sep_back s p < length s" for p
    by (induction s p rule: sep_back.induct) (auto split: if_splits)
  then show "sep_back s (length s) \<noteq> 0 \<Longrightarrow> sep_back s (length s) < length s" by blast
qed

lemma sep_back_shorter:
  "0 < sep_back (path_normalize path) (length (path_normalize path)) \<Longrightarrow>
     sep_back (path_normalize path) (length (path_normalize path)) < length path"
  using sep_back_less [of "path_normalize path"] norm_loop_length [of False path]
  by (simp add: path_normalize_def)

function mkdirp :: "string \<Rightarrow> 'a fs_state_scheme \<Rightarrow> int \<times> 'a fs_state_scheme" where
  "mkdirp path s =
     (let pathname = path_normalize path; p = sep_back pathname (length pathname)
      in (case (if p \<noteq> 0 then mkdirp (take p pathname) s else (0, s)) of
            (rc, s1) \<Rightarrow>
              if rc \<noteq> 0 then (-1, s1)
              else (case os_mkdir pathname s1 of
                      (eexist, rc2, s2) \<Rightarrow> (if rc2 = 0 \<or> eexist then 0 else -1, s2))))"
  by pat_completeness auto
termination
  by (relation "measure (\<lambda>(path, s). length path)") (auto dest: sep_back_shorter)

declare mkdirp.simps [simp del]

definition path_exists :: "string \<Rightarrow> 'a fs_state_scheme \<Rightarrow> bool" where
  "path_exists path s = os_exists path s"

definition file_exists :: "string \<Rightarrow> 'a fs_state_scheme \<Rightarrow> bool" where
  "file_exists path s = os_exists path s"

definition is_file :: "string \<Rightarrow> 'a fs_state_scheme \<Rightarrow> bool" where
  "is_file path s = (if \<not> os_exists path s then False else fs_files s path \<noteq> None)"

definition is_dir :: "string \<Rightarrow> 'a fs_state_scheme \<Rightarrow> bool" where
  "is_dir path s = (if \<not> os_exists path s then False else path \<in> set (fs_dirs s))"

subsection \<open>Parts of a path\<close>

definition before_last :: "string \<Rightarrow> char \<Rightarrow> string" where
  "before_last s c =
     (case strrchr s c of None \<Rightarrow> s | Some t \<Rightarrow> take (length s - length t) s)"

definition get_parent_dir :: "string \<Rightarrow> string" where
  "get_parent_dir dirOrFile =
     before_last (string_trim_right (string_trim dirOrFile (CHR '' '')) (CHR ''/'')) (CHR ''/'')"

definition get_file_suffix :: "string option \<Rightarrow> string" where
  "get_file_suffix path =
     (case path of
        None \<Rightarrow> ''''
      | Some p \<Rightarrow>
          if length p = 0 then ''''
          else (case strrchr p (CHR ''.'') of None \<Rightarrow> '''' | Some dot \<Rightarrow> dot))"

definition get_file_base_name :: "string option \<Rightarrow> string" where
  "get_file_base_name path =
     (case path of
        None \<Rightarrow> ''''
      | Some p \<Rightarrow>
          if length p = 0 then ''''
          else (case strrchr p (CHR ''.'') of
                  None \<Rightarrow> '''' | Some dot \<Rightarrow> take (length p - length dot) p))"

text \<open>\<open>None\<close>: no slash, and the caller's buffer is left as it was.\<close>

definition get_name_from_path :: "string \<Rightarrow> string option" where
  "get_name_from_path path =
     (case strrchr path (CHR ''/'') of None \<Rightarrow> None | Some p \<Rightarrow> Some (tl p))"

subsection \<open>Whole files\<close>

text \<open>
  \<open>fopen (filePath, "w")\<close> fails or truncates; \<open>fwrite\<close> stores what there is
  room for and returns that count.
\<close>

definition write_file_string ::
    "string \<Rightarrow> string \<Rightarrow> 'a fs_state_scheme \<Rightarrow> nat \<times> 'a fs_state_scheme" where
  "write_file_string ptr filePath s =
     (if \<not> fs_open_ok s filePath then (SIZE_MAX, s)
      else let written = take (fs_room s) ptr
           in (length written, s\<lparr>fs_files := (fs_files s)(filePath \<mapsto> written)\<rparr>))"

definition read_file_string :: "string \<Rightarrow> 'a fs_state_scheme \<Rightarrow> nat \<times> string option" where
  "read_file_string filePath s =
     (case fs_files s filePath of
        None \<Rightarrow> (SIZE_MAX, None)
      | Some content \<Rightarrow> (length content, if length content > 0 then Some content else None))"

definition get_local_file_path :: "string \<Rightarrow> 'a fs_state_scheme \<Rightarrow> int \<times> string" where
  "get_local_file_path fileName s =
     (let path = local_path s @ ''/'' @ fileName
      in (if \<not> os_exists path s then -1 else 0, path))"

definition get_local_dir_path :: "string \<Rightarrow> 'a fs_state_scheme \<Rightarrow> int \<times> string" where
  "get_local_dir_path dirName s = (0, local_path s @ ''/'' @ dirName)"

definition run_version_path :: "string \<Rightarrow> string" where
  "run_version_path appName = ''/tmp/'' @ appName @ ''-ver-runtime''"

text \<open>The test \<open>writeSize <= 0\<close> is on a \<open>size_t\<close>.\<close>

definition write_app_run_version_file ::
    "string \<Rightarrow> string \<Rightarrow> 'a fs_state_scheme \<Rightarrow> int \<times> 'a fs_state_scheme" where
  "write_app_run_version_file appName version s =
     (case write_file_string version (run_version_path appName) s of
        (writeSize, s') \<Rightarrow> (if writeSize \<le> 0 then -1 else 0, s'))"

definition delete_app_run_version_file :: "string \<Rightarrow> 'a fs_state_scheme \<Rightarrow> 'a fs_state_scheme" where
  "delete_app_run_version_file appName s = unlink (run_version_path appName) s"

section \<open>Lemmas\<close>

lemma SIZE_MAX_pos [simp]: "0 < SIZE_MAX" "SIZE_MAX \<noteq> 0"
  by (simp_all add: SIZE_MAX_def ULONG_MOD_def)

lemma base_suffix_split:
  "CHR ''.'' \<notin> set ext \<Longrightarrow>
     get_file_base_name (Some (b @ CHR ''.'' # ext)) = b \<and>
     get_file_suffix (Some (b @ CHR ''.'' # ext)) = CHR ''.'' # ext"
  by (simp add: get_file_base_name_def get_file_suffix_def strrchr_append)

lemma base_suffix_append:
  "get_file_suffix (Some p) \<noteq> [] \<Longrightarrow> get_file_base_name (Some p) @ get_file_suffix (Some p) = p"
  by (auto simp: get_file_base_name_def get_file_suffix_def
      dest: strrchr_SomeD split: option.splits if_splits)

lemma write_then_read:
  assumes "fs_open_ok s p" and "length d \<le> fs_room s" and "d \<noteq> []"
  shows "read_file_string p (snd (write_file_string d p s)) = (length d, Some d)"
  using assms by (simp add: write_file_string_def read_file_string_def Let_def)

lemma unlink_not_exists: "p \<notin> set (fs_dirs s) \<Longrightarrow> \<not> file_exists p (unlink p s)"
  by (simp add: file_exists_def os_exists_def unlink_def)

lemma unlink_frame [simp]: "p \<noteq> q \<Longrightarrow> fs_files (unlink p s) q = fs_files s q"
  by (simp add: unlink_def)

lemma norm_loop_no_double:
  "norm_loop b s = xs @ CHR ''/'' # CHR ''/'' # ys \<Longrightarrow> False"
proof (induction b s arbitrary: xs rule: norm_loop.induct)
  case (2 b c cs)
  show ?case
  proof (cases "b \<and> c = CHR ''/''")
    case True
    with 2 show ?thesis by auto
  next
    case False
    with "2.prems" have eq: "c # norm_loop (c = CHR ''/'') cs = xs @ CHR ''/'' # CHR ''/'' # ys"
      by auto
    show ?thesis
    proof (cases xs)
      case Nil
      with eq have "norm_loop True cs = CHR ''/'' # ys" by auto
      moreover have "norm_loop True cs \<noteq> CHR ''/'' # zs" for zs
        by (induction cs) auto
      ultimately show ?thesis by blast
    next
      case (Cons x xs')
      with eq have "norm_loop (c = CHR ''/'') cs = xs' @ CHR ''/'' # CHR ''/'' # ys" by auto
      with "2.IH"(2) False show ?thesis by blast
    qed
  qed
qed simp

lemma path_normalize_idem: "norm_loop b (norm_loop b s) = norm_loop b s"
proof (induction b s rule: norm_loop.induct)
  case (2 b c cs)
  then show ?case by (cases "b \<and> c = CHR ''/''") auto
qed simp

end
