(* ===== verification/Cipher.thy ===== *)
theory Cipher
  imports Base64 FilePath "HOL-Library.Monad_Syntax"
begin

unbundle bit_operations_syntax

text \<open>
  The payload cipher (\<open>cipher/source/aescbc.c\<close>, \<open>mqttpayloadcipher.c\<close>), the
  CBC mode of LibTomCrypt that it drives (\<open>cbc_start.c\<close>, \<open>cbc_encrypt.c\<close>,
  \<open>cbc_decrypt.c\<close>), and the verification of command signatures
  (\<open>rsaverifysig.c\<close>). The AES block transformation, SHA-256 and RSA of LibTomCrypt
  are parameters: records of functions.

  Memory: an input pointer is the list of the bytes readable from it on. A read past
  that list is the result \<open>None\<close>. Main results: decryption inverts encryption
  exactly when the length is not a multiple of the block size, whatever bytes follow the
  message in memory; for a multiple of 16 the decrypted buffer has no terminator and
  \<open>strlen\<close> leaves it; how many bytes past the message the encryption reads.
\<close>

section \<open>Definitions\<close>

subsection \<open>CBC mode\<close>

abbreviation (input) CRYPT_INVALID_CIPHER :: int where "CRYPT_INVALID_CIPHER \<equiv> 10"
abbreviation (input) CRYPT_INVALID_ARG :: int where "CRYPT_INVALID_ARG \<equiv> 16"
definition MAXBLOCKSIZE :: nat where "MAXBLOCKSIZE = 128"

text \<open>
  The registered descriptor of the cipher \<open>aes\<close>: whether \<open>find_cipher\<close> finds
  it, its block length, key setup and the two ECB transformations; \<open>Inl\<close> is an
  error code.
\<close>

record 'k cipher_descriptor =
  registered :: bool
  block_length :: nat
  setup_key :: "byte list \<Rightarrow> int + 'k"
  ecb_encrypt :: "'k \<Rightarrow> byte list \<Rightarrow> int + byte list"
  ecb_decrypt :: "'k \<Rightarrow> byte list \<Rightarrow> int + byte list"

record 'k symmetric_CBC =
  cbc_IV :: "byte list"
  blocklen :: nat
  cbc_skey :: 'k

definition xor_bytes :: "byte list \<Rightarrow> byte list \<Rightarrow> byte list" where
  "xor_bytes a b = map2 (XOR) a b"

definition cbc_start :: "'k cipher_descriptor \<Rightarrow> byte list \<Rightarrow> byte list \<Rightarrow> int + 'k symmetric_CBC" where
  "cbc_start d IV key =
     (if \<not> registered d then Inl CRYPT_INVALID_CIPHER
      else case setup_key d key of
             Inl err \<Rightarrow> Inl err
           | Inr k \<Rightarrow> Inr \<lparr>cbc_IV = take (block_length d) IV, blocklen = block_length d, cbc_skey = k\<rparr>)"

text \<open>The \<open>while (len)\<close> loops, counted in blocks.\<close>

fun cbc_encrypt_loop ::
    "('k \<Rightarrow> byte list \<Rightarrow> int + byte list) \<Rightarrow> 'k \<Rightarrow> nat \<Rightarrow> nat \<Rightarrow> byte list \<Rightarrow> byte list \<Rightarrow> (int + byte list) option" where
  "cbc_encrypt_loop enc k bl 0 IV pt = Some (Inr [])"
| "cbc_encrypt_loop enc k bl (Suc n) IV pt =
     (if length pt < bl then None
      else case enc k (xor_bytes IV (take bl pt)) of
             Inl err \<Rightarrow> Some (Inl err)
           | Inr c \<Rightarrow>
               (case cbc_encrypt_loop enc k bl n c (drop bl pt) of
                  None \<Rightarrow> None
                | Some (Inl err) \<Rightarrow> Some (Inl err)
                | Some (Inr ct) \<Rightarrow> Some (Inr (c @ ct))))"

fun cbc_decrypt_loop ::
    "('k \<Rightarrow> byte list \<Rightarrow> int + byte list) \<Rightarrow> 'k \<Rightarrow> nat \<Rightarrow> nat \<Rightarrow> byte list \<Rightarrow> byte list \<Rightarrow> (int + byte list) option" where
  "cbc_decrypt_loop dec k bl 0 IV ct = Some (Inr [])"
| "cbc_decrypt_loop dec k bl (Suc n) IV ct =
     (if length ct < bl then None
      else case dec k (take bl ct) of
             Inl err \<Rightarrow> Some (Inl err)
           | Inr tmp \<Rightarrow>
               (case cbc_decrypt_loop dec k bl n (take bl ct) (drop bl ct) of
                  None \<Rightarrow> None
                | Some (Inl err) \<Rightarrow> Some (Inl err)
                | Some (Inr pt) \<Rightarrow> Some (Inr (xor_bytes tmp IV @ pt))))"

definition cbc_args_ok :: "'k cipher_descriptor \<Rightarrow> nat \<Rightarrow> 'k symmetric_CBC \<Rightarrow> bool" where
  "cbc_args_ok d len cbc \<longleftrightarrow> \<not> (blocklen cbc < 1 \<or> blocklen cbc > MAXBLOCKSIZE) \<and>
     len mod blocklen cbc = 0 \<and> blocklen cbc mod 8 = 0"

definition cbc_encrypt ::
    "'k cipher_descriptor \<Rightarrow> byte list \<Rightarrow> nat \<Rightarrow> 'k symmetric_CBC \<Rightarrow> (int + byte list) option" where
  "cbc_encrypt d pt len cbc =
     (if \<not> registered d then Some (Inl CRYPT_INVALID_CIPHER)
      else if \<not> cbc_args_ok d len cbc then Some (Inl CRYPT_INVALID_ARG)
      else cbc_encrypt_loop (ecb_encrypt d) (cbc_skey cbc) (blocklen cbc) (len div blocklen cbc) (cbc_IV cbc) pt)"

definition cbc_decrypt ::
    "'k cipher_descriptor \<Rightarrow> byte list \<Rightarrow> nat \<Rightarrow> 'k symmetric_CBC \<Rightarrow> (int + byte list) option" where
  "cbc_decrypt d ct len cbc =
     (if \<not> registered d then Some (Inl CRYPT_INVALID_CIPHER)
      else if \<not> cbc_args_ok d len cbc then Some (Inl CRYPT_INVALID_ARG)
      else cbc_decrypt_loop (ecb_decrypt d) (cbc_skey cbc) (blocklen cbc) (len div blocklen cbc) (cbc_IV cbc) ct)"

subsection \<open>aescbc.c\<close>

definition init_cbc_key ::
    "'k cipher_descriptor \<Rightarrow> byte list \<Rightarrow> byte list \<Rightarrow> int \<times> 'k symmetric_CBC option" where
  "init_cbc_key d iv key =
     (if \<not> registered d then (FAILURE, None)
      else case cbc_start d iv key of
             Inl err \<Rightarrow> (FAILURE, None)
           | Inr cbc \<Rightarrow> (SUCCESS, Some cbc))"

text \<open>C division truncates toward zero.\<close>

definition cdiv :: "int \<Rightarrow> int \<Rightarrow> int" where
  "cdiv a b = sgn a * sgn b * (\<bar>a\<bar> div \<bar>b\<bar>)"

definition cbc_outlen :: "nat \<Rightarrow> nat" where
  "cbc_outlen len = nat ((cdiv (wrap32 (int len + 15)) 16 * 16) mod 2 ^ 64)"

text \<open>Return code and \<open>*out\<close>; \<open>*outlen\<close> is the length of \<open>*out\<close>.\<close>

definition aes_cbc_encrypt ::
    "'k cipher_descriptor \<Rightarrow> byte list \<Rightarrow> nat \<Rightarrow> byte list \<Rightarrow> byte list \<Rightarrow> (int \<times> byte list option) option" where
  "aes_cbc_encrypt d inp len iv key =
     (case init_cbc_key d iv key of
        (_, None) \<Rightarrow> Some (FAILURE, None)
      | (_, Some cbc) \<Rightarrow>
          (case cbc_encrypt d inp (cbc_outlen len) cbc of
             None \<Rightarrow> None
           | Some (Inl err) \<Rightarrow> Some (FAILURE, None)
           | Some (Inr out) \<Rightarrow> Some (SUCCESS, Some out)))"

text \<open>
  \<open>strlen\<close> of the output buffer: without a zero byte in it, it reads past its end.
  The result holds the buffer and \<open>*outlen\<close>.
\<close>

definition aes_cbc_decrypt ::
    "'k cipher_descriptor \<Rightarrow> byte list \<Rightarrow> nat \<Rightarrow> byte list \<Rightarrow> byte list
       \<Rightarrow> (int \<times> (byte list \<times> nat) option) option" where
  "aes_cbc_decrypt d inp len iv key =
     (case init_cbc_key d iv key of
        (_, None) \<Rightarrow> Some (FAILURE, None)
      | (_, Some cbc) \<Rightarrow>
          (case cbc_decrypt d inp len cbc of
             None \<Rightarrow> None
           | Some (Inl err) \<Rightarrow> Some (FAILURE, None)
           | Some (Inr out) \<Rightarrow>
               if 0 \<in> set out then Some (SUCCESS, Some (out, length (takeWhile (\<lambda>b. b \<noteq> 0) out)))
               else None))"

subsection \<open>mqttpayloadcipher.c\<close>

record mqtt_encrypted_payload_header =
  encryptMethod :: "16 word"
  version :: "16 word"
  contentSize :: "32 word"
  reserved :: "32 word"

abbreviation (input) ENCRYPT_CBC :: "16 word" where "ENCRYPT_CBC \<equiv> 1"
abbreviation (input) ENCRYPT_CBC_VERSION :: "16 word" where "ENCRYPT_CBC_VERSION \<equiv> 1"

definition PAYLOAD_HEADER_SIZE :: nat where "PAYLOAD_HEADER_SIZE = 12"
definition CBC_EX_DATA_SIZE :: nat where "CBC_EX_DATA_SIZE = 16"

text \<open>The key of \<open>secdef.h\<close>.\<close>

definition cbc_key :: "byte list" where "cbc_key = replicate 16 0"

text \<open>The bytes of the header in memory: little-endian, no padding between the fields.\<close>

definition header_bytes :: "mqtt_encrypted_payload_header \<Rightarrow> byte list" where
  "header_bytes h =
     [ucast (encryptMethod h), ucast (drop_bit 8 (encryptMethod h)),
      ucast (version h), ucast (drop_bit 8 (version h)),
      ucast (contentSize h), ucast (drop_bit 8 (contentSize h)),
      ucast (drop_bit 16 (contentSize h)), ucast (drop_bit 24 (contentSize h)),
      ucast (reserved h), ucast (drop_bit 8 (reserved h)),
      ucast (drop_bit 16 (reserved h)), ucast (drop_bit 24 (reserved h))]"

definition le16 :: "byte \<Rightarrow> byte \<Rightarrow> 16 word" where
  "le16 a b = ucast a OR push_bit 8 (ucast b)"

definition le32 :: "byte \<Rightarrow> byte \<Rightarrow> byte \<Rightarrow> byte \<Rightarrow> 32 word" where
  "le32 a b c d = ucast a OR push_bit 8 (ucast b) OR push_bit 16 (ucast c) OR push_bit 24 (ucast d)"

definition bytes_header :: "byte list \<Rightarrow> mqtt_encrypted_payload_header" where
  "bytes_header p = \<lparr>encryptMethod = le16 (p ! 0) (p ! 1), version = le16 (p ! 2) (p ! 3),
     contentSize = le32 (p ! 4) (p ! 5) (p ! 6) (p ! 7), reserved = le32 (p ! 8) (p ! 9) (p ! 10) (p ! 11)\<rparr>"

text \<open>\<open>rand\<close> after \<open>srand (seed)\<close>: the \<open>i\<close>-th number of the sequence.\<close>

definition generate_random_iv :: "(int \<Rightarrow> nat \<Rightarrow> nat) \<Rightarrow> int \<Rightarrow> nat \<Rightarrow> byte list" where
  "generate_random_iv rand now len = map (\<lambda>i. word_of_nat (rand now i mod 256)) [0..<len]"

definition mqtt_payload_encrypt ::
    "'k cipher_descriptor \<Rightarrow> (int \<Rightarrow> nat \<Rightarrow> nat) \<Rightarrow> int \<Rightarrow> byte list \<Rightarrow> nat \<Rightarrow> (int \<times> byte list option) option" where
  "mqtt_payload_encrypt d rand now content len =
     (let iv = generate_random_iv rand now 16
      in case aes_cbc_encrypt d content len iv cbc_key of
           None \<Rightarrow> None
         | Some (rc, None) \<Rightarrow> Some (rc, None)
         | Some (rc, Some encryptContent) \<Rightarrow>
             let header = \<lparr>encryptMethod = ENCRYPT_CBC, version = ENCRYPT_CBC_VERSION,
                           contentSize = word_of_nat len, reserved = 0\<rparr>
             in Some (SUCCESS, Some (header_bytes header @ iv @ encryptContent)))"

definition mqtt_payload_decrypt ::
    "'k cipher_descriptor \<Rightarrow> byte list \<Rightarrow> nat \<Rightarrow> (int \<times> (byte list \<times> nat) option) option" where
  "mqtt_payload_decrypt d payload len =
     (if len \<le> PAYLOAD_HEADER_SIZE + CBC_EX_DATA_SIZE then Some (FAILURE, None)
      else if encryptMethod (bytes_header payload) \<noteq> ENCRYPT_CBC then Some (FAILURE, None)
      else aes_cbc_decrypt d (drop (PAYLOAD_HEADER_SIZE + CBC_EX_DATA_SIZE) payload)
             (len - PAYLOAD_HEADER_SIZE - CBC_EX_DATA_SIZE)
             (take CBC_EX_DATA_SIZE (drop PAYLOAD_HEADER_SIZE payload)) cbc_key)"

subsection \<open>rsaverifysig.c\<close>

record 'r rsa_functions =
  rsa_import :: "byte list \<Rightarrow> int + 'r"
  sha256_found :: bool
  sha256 :: "byte list \<Rightarrow> byte list"
  rsa_verify_hash_ex :: "byte list \<Rightarrow> byte list \<Rightarrow> 'r \<Rightarrow> int \<times> int"

text \<open>
  The result is the return code, the error text and \<open>*stat\<close>; \<open>heap n\<close> are the
  bytes a \<open>malloc (n)\<close> returns.
\<close>

definition rsa_verify_signature ::
    "'r rsa_functions \<Rightarrow> (nat \<Rightarrow> byte list) \<Rightarrow> byte list \<Rightarrow> string \<Rightarrow> string \<Rightarrow> int
       \<Rightarrow> (int \<times> string \<times> int) option" where
  "rsa_verify_signature r heap inp sigbase64 keybase64 stat = do {
     (rc, pubKeyBuffer, pubKeyBufferLen) \<leftarrow> base64_decrypt keybase64 (replicate (1024 * 5) 0);
     (if rc \<noteq> BASE64_OK then Some (FAILURE, ''base64_decrypt public key failed'', stat)
      else case rsa_import r (take pubKeyBufferLen pubKeyBuffer) of
        Inl rc \<Rightarrow> Some (FAILURE, ''rsa_import pubic key failed: '' @ show_int rc, stat)
      | Inr pubKey \<Rightarrow> do {
          (rc, sig, siglen) \<leftarrow> base64_decrypt sigbase64 (heap (length sigbase64));
          (if rc \<noteq> BASE64_OK then Some (FAILURE, ''base64_decrypt failed'', stat)
           else if \<not> sha256_found r then Some (FAILURE, ''find sha256 hash index failed'', stat)
           else case rsa_verify_hash_ex r (take siglen sig) (sha256 r inp) pubKey of
             (rc, stat') \<Rightarrow>
               if rc \<noteq> 0 then Some (FAILURE, ''Verify error '' @ show_int rc, stat')
               else Some (SUCCESS, '''', stat')) }) }"

text \<open>
  The test \<open>readSize <= 0\<close> is on a \<open>size_t\<close>, so a file that cannot be
  opened passes it and leaves \<open>*keyBase64\<close> NULL.
\<close>

definition read_public_key :: "string \<Rightarrow> 'a fs_state_scheme \<Rightarrow> int \<times> string option \<times> string" where
  "read_public_key keyFilePath s =
     (if \<not> file_exists keyFilePath s
      then (FAILURE, None, ''Key file '' @ keyFilePath @ '' doesn't exist'')
      else case read_file_string keyFilePath s of
             (readSize, keyBase64) \<Rightarrow>
               if readSize \<le> 0 then (FAILURE, keyBase64, ''Read size is 0: '' @ keyFilePath)
               else (SUCCESS, keyBase64, ''''))"

definition rsa_verify_cmd_signature ::
    "'r rsa_functions \<Rightarrow> (nat \<Rightarrow> byte list) \<Rightarrow> string option \<Rightarrow> string \<Rightarrow> byte list \<Rightarrow> string \<Rightarrow> int
       \<Rightarrow> 'a fs_state_scheme \<Rightarrow> (int \<times> string \<times> int) option" where
  "rsa_verify_cmd_signature r heap keystring keyfile inp sigbase64 stat s =
     (case keystring of
        Some k \<Rightarrow> rsa_verify_signature r heap inp sigbase64 k stat
      | None \<Rightarrow>
          (case read_public_key keyfile s of
             (rc, keyBase64, errmsg) \<Rightarrow>
               if rc \<noteq> SUCCESS then Some (FAILURE, errmsg, stat)
               else (case keyBase64 of
                       None \<Rightarrow> None
                     | Some k \<Rightarrow> rsa_verify_signature r heap inp sigbase64 (c_str k) stat)))"

section \<open>Lemmas\<close>

text \<open>What the hub relies on of the block cipher: AES with a 16-byte block and a key that sets up.\<close>

definition aes_ok :: "'k cipher_descriptor \<Rightarrow> bool" where
  "aes_ok d \<longleftrightarrow> registered d \<and> block_length d = 16 \<and>
     (\<exists>k. setup_key d cbc_key = Inr k \<and>
       (\<forall>b. length b = 16 \<longrightarrow> (\<exists>c. ecb_encrypt d k b = Inr c \<and> length c = 16 \<and> ecb_decrypt d k c = Inr b)))"

lemma xor_bytes_length [simp]: "length (xor_bytes a b) = min (length a) (length b)"
  by (simp add: xor_bytes_def)

lemma xor_bytes_cancel: "length a = length b \<Longrightarrow> xor_bytes (xor_bytes a b) a = b"
proof (rule nth_equalityI)
  assume "length a = length b"
  then show "length (xor_bytes (xor_bytes a b) a) = length b" by simp
next
  fix i assume l: "length a = length b" and "i < length (xor_bytes (xor_bytes a b) a)"
  then show "xor_bytes (xor_bytes a b) a ! i = b ! i"
    by (simp add: xor_bytes_def) (metis xor.assoc xor.commute xor_self_eq xor.left_neutral)
qed

lemma cbc_inverse:
  assumes blk: "\<And>b. length b = bl \<Longrightarrow> \<exists>c. enc k b = Inr c \<and> length c = bl \<and> dec k c = Inr b"
    and "length IV = bl" and "n * bl \<le> length pt"
  shows "\<exists>ct. cbc_encrypt_loop enc k bl n IV pt = Some (Inr ct) \<and> length ct = n * bl \<and>
    cbc_decrypt_loop dec k bl n IV ct = Some (Inr (take (n * bl) pt))"
  using assms(2,3)
proof (induction n arbitrary: IV pt)
  case 0
  then show ?case by simp
next
  case (Suc n)
  have l: "length (take bl pt) = bl" "\<not> length pt < bl" using Suc.prems by auto
  then obtain c where c: "enc k (xor_bytes IV (take bl pt)) = Inr c" "length c = bl"
      "dec k c = Inr (xor_bytes IV (take bl pt))"
    using blk [of "xor_bytes IV (take bl pt)"] Suc.prems by auto
  have "n * bl \<le> length (drop bl pt)" using Suc.prems by auto
  then obtain ct where ct: "cbc_encrypt_loop enc k bl n c (drop bl pt) = Some (Inr ct)" "length ct = n * bl"
      "cbc_decrypt_loop dec k bl n c ct = Some (Inr (take (n * bl) (drop bl pt)))"
    using Suc.IH [of c "drop bl pt"] c(2) by blast
  have "xor_bytes (xor_bytes IV (take bl pt)) IV = take bl pt"
    using Suc.prems l by (intro xor_bytes_cancel) simp
  then have "cbc_decrypt_loop dec k bl (Suc n) IV (c @ ct) = Some (Inr (take (Suc n * bl) pt))"
    using c ct by (simp add: take_add)
  then show ?case using c ct l by auto
qed

lemma cbc_encrypt_short:
  assumes blk: "\<And>b. length b = bl \<Longrightarrow> \<exists>c. enc k b = Inr c \<and> length c = bl"
    and "length IV = bl" and "length pt < n * bl"
  shows "cbc_encrypt_loop enc k bl n IV pt = None"
  using assms(2,3)
proof (induction n arbitrary: IV pt)
  case 0
  then show ?case by simp
next
  case (Suc n)
  show ?case
  proof (cases "length pt < bl")
    case False
    then obtain c where "enc k (xor_bytes IV (take bl pt)) = Inr c" "length c = bl"
      using blk [of "xor_bytes IV (take bl pt)"] Suc.prems by auto
    moreover from this have "cbc_encrypt_loop enc k bl n c (drop bl pt) = None"
      using Suc False by auto
    ultimately show ?thesis using False by simp
  qed simp
qed

lemma le16_split: "le16 (ucast h) (ucast (drop_bit 8 h)) = h"
  unfolding le16_def by (rule bit_word_eqI) (auto simp: bit_simps)

lemma le32_split:
  "le32 (ucast h) (ucast (drop_bit 8 h)) (ucast (drop_bit 16 h)) (ucast (drop_bit 24 h)) = h"
  unfolding le32_def
  apply (rule bit_word_eqI)
  subgoal for n by (cases "n < 8"; cases "n < 16"; cases "n < 24") (auto simp: bit_simps)
  done

lemma bytes_header_bytes: "bytes_header (header_bytes h @ r) = h"
  by (simp add: bytes_header_def header_bytes_def le16_split le32_split)

lemma length_header_bytes [simp]: "length (header_bytes h) = 12"
  by (simp add: header_bytes_def)

lemma cbc_outlen_eq: "len < 2147483633 \<Longrightarrow> cbc_outlen len = (len + 15) div 16 * 16"
proof -
  assume l: "len < 2147483633"
  then have "wrap32 (int len + 15) = int len + 15" by (simp add: wrap32_id is_int32_def int_limits)
  then have "cdiv (wrap32 (int len + 15)) 16 * 16 = int ((len + 15) div 16 * 16)"
    by (simp add: cdiv_def zdiv_int sgn_if)
  moreover have "(len + 15) div 16 * 16 < 2 ^ 64" using l by (auto intro: le_less_trans [OF div_times_less_eq_dividend])
  ultimately show ?thesis by (simp add: cbc_outlen_def)
qed

text \<open>The two layers above the loops, on a memory that holds the rounded-up length.\<close>

lemma aes_cbc_inverse:
  assumes d: "aes_ok d" and iv: "length iv = 16" and len: "len < 2147483633"
    and mem: "(len + 15) div 16 * 16 \<le> length mem"
  shows "\<exists>out. aes_cbc_encrypt d mem len iv cbc_key = Some (SUCCESS, Some out) \<and>
    length out = (len + 15) div 16 * 16 \<and>
    aes_cbc_decrypt d out (length out) iv cbc_key =
      (let pt = take ((len + 15) div 16 * 16) mem
       in if 0 \<in> set pt then Some (SUCCESS, Some (pt, length (takeWhile (\<lambda>b. b \<noteq> 0) pt))) else None)"
proof -
  obtain k where k: "setup_key d cbc_key = Inr k" and reg: "registered d" and bl: "block_length d = 16"
    and blk: "\<And>b. length b = 16 \<Longrightarrow> \<exists>c. ecb_encrypt d k b = Inr c \<and> length c = 16 \<and> ecb_decrypt d k c = Inr b"
    using d unfolding aes_ok_def by blast
  let ?n = "(len + 15) div 16" and ?cbc = "\<lparr>cbc_IV = iv, blocklen = 16, cbc_skey = k\<rparr>"
  have init: "init_cbc_key d iv cbc_key = (SUCCESS, Some ?cbc)"
    using k reg bl iv by (simp add: init_cbc_key_def cbc_start_def)
  have "?n * 16 \<le> length mem" using mem by simp
  then obtain ct where ct: "cbc_encrypt_loop (ecb_encrypt d) k 16 ?n iv mem = Some (Inr ct)" "length ct = ?n * 16"
      "cbc_decrypt_loop (ecb_decrypt d) k 16 ?n iv ct = Some (Inr (take (?n * 16) mem))"
    using cbc_inverse [of 16 "ecb_encrypt d" k "ecb_decrypt d" iv ?n mem] blk iv by blast
  have args: "cbc_args_ok d (?n * 16) ?cbc" by (simp add: cbc_args_ok_def MAXBLOCKSIZE_def)
  have "aes_cbc_encrypt d mem len iv cbc_key = Some (SUCCESS, Some ct)"
    using init reg ct(1) args by (simp add: aes_cbc_encrypt_def cbc_encrypt_def cbc_outlen_eq [OF len])
  moreover have "aes_cbc_decrypt d ct (length ct) iv cbc_key =
      (let pt = take (?n * 16) mem
       in if 0 \<in> set pt then Some (SUCCESS, Some (pt, length (takeWhile (\<lambda>b. b \<noteq> 0) pt))) else None)"
    using init reg ct(2,3) args by (simp add: aes_cbc_decrypt_def cbc_decrypt_def Let_def)
  ultimately show ?thesis using ct(2) by blast
qed

lemma aes_cbc_encrypt_short:
  assumes d: "aes_ok d" and iv: "length iv = 16" and len: "len < 2147483633"
    and mem: "length mem < (len + 15) div 16 * 16"
  shows "aes_cbc_encrypt d mem len iv cbc_key = None"
proof -
  obtain k where k: "setup_key d cbc_key = Inr k" and reg: "registered d" and bl: "block_length d = 16"
    and blk: "\<And>b. length b = 16 \<Longrightarrow> \<exists>c. ecb_encrypt d k b = Inr c \<and> length c = 16"
    using d unfolding aes_ok_def by blast
  have "cbc_encrypt_loop (ecb_encrypt d) k 16 ((len + 15) div 16) iv mem = None"
    using cbc_encrypt_short [of 16 "ecb_encrypt d" k iv mem] blk iv mem by blast
  then show ?thesis
    using k reg bl iv by (simp add: aes_cbc_encrypt_def init_cbc_key_def cbc_start_def cbc_encrypt_def
        cbc_outlen_eq [OF len] cbc_args_ok_def MAXBLOCKSIZE_def)
qed

lemma length_generate_random_iv [simp]: "length (generate_random_iv rand now n) = n"
  by (simp add: generate_random_iv_def)

lemma payload_inverse:
  assumes d: "aes_ok d" and len: "0 < len" "len < 2147483633"
    and mem: "(len + 15) div 16 * 16 \<le> length mem"
  shows "\<exists>payload. mqtt_payload_encrypt d rand now mem len = Some (SUCCESS, Some payload) \<and>
    length payload = 28 + (len + 15) div 16 * 16 \<and>
    mqtt_payload_decrypt d payload (length payload) =
      (let pt = take ((len + 15) div 16 * 16) mem
       in if 0 \<in> set pt then Some (SUCCESS, Some (pt, length (takeWhile (\<lambda>b. b \<noteq> 0) pt))) else None)"
proof -
  let ?iv = "generate_random_iv rand now 16"
  let ?h = "\<lparr>encryptMethod = ENCRYPT_CBC, version = ENCRYPT_CBC_VERSION, contentSize = word_of_nat len, reserved = 0\<rparr>"
  obtain out where out: "aes_cbc_encrypt d mem len ?iv cbc_key = Some (SUCCESS, Some out)"
      "length out = (len + 15) div 16 * 16"
      "aes_cbc_decrypt d out (length out) ?iv cbc_key =
        (let pt = take ((len + 15) div 16 * 16) mem
         in if 0 \<in> set pt then Some (SUCCESS, Some (pt, length (takeWhile (\<lambda>b. b \<noteq> 0) pt))) else None)"
    using aes_cbc_inverse [OF d _ len(2) mem, of ?iv] by auto
  let ?p = "header_bytes ?h @ ?iv @ out"
  have enc: "mqtt_payload_encrypt d rand now mem len = Some (SUCCESS, Some ?p)"
    using out(1) by (simp add: mqtt_payload_encrypt_def Let_def)
  have lp: "length ?p = 28 + (len + 15) div 16 * 16" using out(2) by simp
  have pos: "0 < length out" using out(2) len(1) by simp
  have "encryptMethod (bytes_header ?p) = ENCRYPT_CBC" by (simp add: bytes_header_bytes)
  then have "mqtt_payload_decrypt d ?p (length ?p) = aes_cbc_decrypt d out (length out) ?iv cbc_key"
    using pos by (simp add: mqtt_payload_decrypt_def PAYLOAD_HEADER_SIZE_def CBC_EX_DATA_SIZE_def)
  with enc lp out(3) show ?thesis by (intro exI [of _ ?p]) simp
qed

lemma block_round_up:
  fixes len :: nat
  shows "len mod 16 \<noteq> 0 \<Longrightarrow> len < (len + 15) div 16 * 16" and "len mod 16 = 0 \<Longrightarrow> (len + 15) div 16 * 16 = len"
  by presburger+

lemma takeWhile_nonzero_prefix:
  "0 \<notin> set (m :: byte list) \<Longrightarrow> takeWhile (\<lambda>b. b \<noteq> 0) (m @ 0 # r) = m"
  by (induction m) auto

lemma payload_decrypts:
  assumes "aes_ok d" and "0 \<notin> set m" and "length m mod 16 \<noteq> 0" and "length m < 2147483633"
    and "15 \<le> length tail"
  shows "\<exists>payload buf. mqtt_payload_encrypt d rand now (m @ 0 # tail) (length m) = Some (SUCCESS, Some payload) \<and>
    length payload = 28 + (length m + 15) div 16 * 16 \<and>
    mqtt_payload_decrypt d payload (length payload) = Some (SUCCESS, Some (buf, length m)) \<and>
    take (length m) buf = m"
proof -
  let ?N = "(length m + 15) div 16 * 16" and ?mem = "m @ 0 # tail"
  have lt: "length m < ?N" using assms(3) by (rule block_round_up)
  have pos: "0 < length m" using assms(3) by (cases m) auto
  have mem: "?N \<le> length ?mem" using assms(5) by simp
  let ?pt = "take ?N ?mem"
  have pt: "?pt = m @ 0 # take (?N - length m - 1) tail"
    using lt by (simp add: take_Cons')
  have z: "0 \<in> set ?pt" and tw: "takeWhile (\<lambda>b. b \<noteq> 0) ?pt = m"
    unfolding pt using assms(2) takeWhile_nonzero_prefix by simp_all
  have "take (length m) ?pt = m" by (simp only: pt) simp
  moreover note payload_inverse [OF assms(1) pos assms(4) mem, of rand now]
  ultimately show ?thesis using z tw by (auto simp: Let_def)
qed

section \<open>Properties\<close>

text \<open>
  C40: For a message whose length is a positive multiple of 16 the decryption reads past its
  buffer: it looks for the terminating zero in a buffer that has none.
\<close>

theorem payload_block_multiple_overrun:
  assumes "aes_ok d" and "0 \<notin> set m" and "length m mod 16 = 0" and "m \<noteq> []" and "length m < 2147483633"
  shows "\<exists>payload. mqtt_payload_encrypt d rand now (m @ 0 # tail) (length m) = Some (SUCCESS, Some payload) \<and>
    mqtt_payload_decrypt d payload (length payload) = None"
proof -
  have e: "(length m + 15) div 16 * 16 = length m" using assms(3) by (rule block_round_up)
  show ?thesis
    using payload_inverse [OF assms(1), of "length m" "m @ 0 # tail" rand now] assms e by (auto simp: Let_def)
qed

theorem payload_encrypt_reads_past_string:
  assumes "aes_ok d" and "length m < 2147483633" and "m \<noteq> []"
  shows "mqtt_payload_encrypt d rand now (m @ [0]) (length m) = None \<longleftrightarrow> length m mod 16 \<notin> {0, 15}"
proof -
  let ?N = "(length m + 15) div 16 * 16"
  have iff: "?N \<le> length m + 1 \<longleftrightarrow> length m mod 16 \<in> {0, 15}" by (simp; presburger)
  have "mqtt_payload_encrypt d rand now (m @ [0]) (length m) \<noteq> None" if "?N \<le> length m + 1"
    using payload_inverse [OF assms(1), of "length m" "m @ [0]" rand now] assms that by auto
  moreover have "mqtt_payload_encrypt d rand now (m @ [0]) (length m) = None" if "\<not> ?N \<le> length m + 1"
    using aes_cbc_encrypt_short [OF assms(1) _ assms(2), of "generate_random_iv rand now 16" "m @ [0]"] that
    by (simp add: mqtt_payload_encrypt_def)
  ultimately show ?thesis using iff by metis
qed

end
