(* ===== verification/Aes.thy ===== *)
theory Aes
  imports AesTables Cipher
begin

text \<open>
  The AES block cipher of libtomcrypt, \<open>ciphers/aes/aes.c\<close> with the byte order macros of
  \<open>tomcrypt_macros.h\<close>, in the build with the large tables (neither
  \<open>LTC_SMALL_CODE\<close> nor \<open>ENCRYPT_ONLY\<close>). The two key arrays are lists as long as
  the schedule; a pointer into them that moves is the rest of the list.

  The rounds are counted down from \<open>Nr / 2\<close>, which is at least five for the keys
  of \<open>rijndael_setup\<close>. Decrypting inverts encrypting through the locale
  \<open>inverse_rounds\<close>, which is interpreted on the tables.

  Main results: decrypting inverts encrypting for every scheduled key and every block, the
  descriptor \<open>aes_desc\<close> satisfies what the payload cipher relies on, and the payload
  round trip holds with AES itself.
\<close>

unbundle bit_operations_syntax

section \<open>Definitions\<close>

type_synonym ulong32 = "32 word"
type_synonym aes_state = "ulong32 \<times> ulong32 \<times> ulong32 \<times> ulong32"

abbreviation (input) CRYPT_INVALID_KEYSIZE :: int where "CRYPT_INVALID_KEYSIZE \<equiv> 3"
abbreviation (input) CRYPT_INVALID_ROUNDS :: int where "CRYPT_INVALID_ROUNDS \<equiv> 4"

text \<open>The macros \<open>byte\<close>, \<open>LOAD32H\<close>, \<open>STORE32H\<close> and \<open>RORc\<close>.\<close>

definition byte_of :: "ulong32 \<Rightarrow> nat \<Rightarrow> byte" where
  "byte_of x n = ucast (drop_bit (8 * n) x)"

definition word4 :: "byte \<Rightarrow> byte \<Rightarrow> byte \<Rightarrow> byte \<Rightarrow> ulong32" where
  "word4 a b c d = push_bit 24 (ucast a) OR push_bit 16 (ucast b) OR push_bit 8 (ucast c) OR ucast d"

definition LOAD32H :: "byte list \<Rightarrow> ulong32" where
  "LOAD32H y = word4 (y ! 0) (y ! 1) (y ! 2) (y ! 3)"

definition STORE32H :: "ulong32 \<Rightarrow> byte list" where
  "STORE32H x = [byte_of x 3, byte_of x 2, byte_of x 1, byte_of x 0]"

definition RORc :: "ulong32 \<Rightarrow> nat \<Rightarrow> ulong32" where
  "RORc x y = drop_bit (y mod 32) x OR push_bit (32 - y mod 32) x"

text \<open>A table indexed with one byte.\<close>

definition lookup :: "ulong32 list \<Rightarrow> byte \<Rightarrow> ulong32" where
  "lookup t x = t ! unat x"

definition setup_mix :: "ulong32 \<Rightarrow> ulong32" where
  "setup_mix temp = lookup Te4_3 (byte_of temp 2) XOR lookup Te4_2 (byte_of temp 1) XOR
     lookup Te4_1 (byte_of temp 0) XOR lookup Te4_0 (byte_of temp 3)"

record rijndael_key =
  eK :: "ulong32 list"
  dK :: "ulong32 list"
  Nr :: nat

text \<open>The loops of the key schedule; the words written so far, \<open>rk\<close> points to the last \<open>keylen / 4\<close> of them.\<close>

definition sched16 :: "ulong32 list \<Rightarrow> nat \<Rightarrow> ulong32 list" where
  "sched16 rk i =
     (let k4 = rk ! 0 XOR setup_mix (rk ! 3) XOR rcon ! i; k5 = rk ! 1 XOR k4; k6 = rk ! 2 XOR k5; k7 = rk ! 3 XOR k6
      in [k4, k5, k6, k7])"

definition sched24 :: "ulong32 list \<Rightarrow> nat \<Rightarrow> ulong32 list" where
  "sched24 rk i =
     (let k6 = rk ! 0 XOR setup_mix (rk ! 5) XOR rcon ! i; k7 = rk ! 1 XOR k6; k8 = rk ! 2 XOR k7; k9 = rk ! 3 XOR k8
      in if i + 1 = 8 then [k6, k7, k8, k9]
         else let k10 = rk ! 4 XOR k9; k11 = rk ! 5 XOR k10 in [k6, k7, k8, k9, k10, k11])"

definition sched32 :: "ulong32 list \<Rightarrow> nat \<Rightarrow> ulong32 list" where
  "sched32 rk i =
     (let k8 = rk ! 0 XOR setup_mix (rk ! 7) XOR rcon ! i; k9 = rk ! 1 XOR k8; k10 = rk ! 2 XOR k9; k11 = rk ! 3 XOR k10
      in if i + 1 = 7 then [k8, k9, k10, k11]
         else let k12 = rk ! 4 XOR setup_mix (RORc k11 8); k13 = rk ! 5 XOR k12; k14 = rk ! 6 XOR k13; k15 = rk ! 7 XOR k14
              in [k8, k9, k10, k11, k12, k13, k14, k15])"

text \<open>The loop: the words from \<open>rk\<close> on, \<open>n\<close> iterations left, iteration \<open>i\<close>; each moves \<open>rk\<close> by \<open>step\<close>.\<close>

fun sched_loop :: "(ulong32 list \<Rightarrow> nat \<Rightarrow> ulong32 list) \<Rightarrow> nat \<Rightarrow> nat \<Rightarrow> nat \<Rightarrow> ulong32 list \<Rightarrow> ulong32 list" where
  "sched_loop sched step 0 i rk = rk"
| "sched_loop sched step (Suc n) i rk =
     (let rk1 = rk @ sched rk i in take step rk1 @ sched_loop sched step n (i + 1) (drop step rk1))"

definition forward_key :: "byte list \<Rightarrow> ulong32 list" where
  "forward_key key =
     (let ld = (\<lambda>n. map (\<lambda>i. LOAD32H (drop (4 * i) key)) [0..<n])
      in if length key = 16 then sched_loop sched16 4 10 0 (ld 4)
         else if length key = 24 then sched_loop sched24 6 8 0 (ld 6)
         else sched_loop sched32 8 7 0 (ld 8))"

text \<open>One word of the inverse key, through the tables \<open>Tks\<close>.\<close>

definition inv_mix :: "ulong32 \<Rightarrow> ulong32" where
  "inv_mix temp = lookup Tks0 (byte_of temp 3) XOR lookup Tks1 (byte_of temp 2) XOR
     lookup Tks2 (byte_of temp 1) XOR lookup Tks3 (byte_of temp 0)"

text \<open>The inverse key: \<open>rrk\<close> steps back through the forward key.\<close>

fun inverse_loop :: "ulong32 list \<Rightarrow> nat \<Rightarrow> nat \<Rightarrow> ulong32 list" where
  "inverse_loop ek rrk 0 = []"
| "inverse_loop ek rrk (Suc n) =
     (let r = rrk - 4 in map inv_mix [ek ! r, ek ! (r + 1), ek ! (r + 2), ek ! (r + 3)] @ inverse_loop ek r n)"

definition inverse_key :: "ulong32 list \<Rightarrow> nat \<Rightarrow> ulong32 list" where
  "inverse_key ek nr =
     (let j = length ek in take 4 (drop (j - 4) ek) @ inverse_loop ek (j - 4) (nr - 1) @ take 4 ek)"

definition rijndael_setup :: "byte list \<Rightarrow> nat \<Rightarrow> int + rijndael_key" where
  "rijndael_setup key num_rounds =
     (if length key \<noteq> 16 \<and> length key \<noteq> 24 \<and> length key \<noteq> 32 then Inl CRYPT_INVALID_KEYSIZE
      else let nr = 10 + (length key div 8 - 2) * 2
           in if num_rounds \<noteq> 0 \<and> num_rounds \<noteq> nr then Inl CRYPT_INVALID_ROUNDS
              else let ek = forward_key key in Inr \<lparr>eK = ek, dK = inverse_key ek nr, Nr = nr\<rparr>)"

subsection \<open>Rounds\<close>

definition te :: "ulong32 \<Rightarrow> ulong32 \<Rightarrow> ulong32 \<Rightarrow> ulong32 \<Rightarrow> ulong32" where
  "te a b c d = lookup TE0 (byte_of a 3) XOR lookup TE1 (byte_of b 2) XOR lookup TE2 (byte_of c 1) XOR lookup TE3 (byte_of d 0)"

definition te_last :: "ulong32 \<Rightarrow> ulong32 \<Rightarrow> ulong32 \<Rightarrow> ulong32 \<Rightarrow> ulong32" where
  "te_last a b c d = lookup Te4_3 (byte_of a 3) XOR lookup Te4_2 (byte_of b 2) XOR lookup Te4_1 (byte_of c 1) XOR lookup Te4_0 (byte_of d 0)"

definition td :: "ulong32 \<Rightarrow> ulong32 \<Rightarrow> ulong32 \<Rightarrow> ulong32 \<Rightarrow> ulong32" where
  "td a b c d = lookup TD0 (byte_of a 3) XOR lookup TD1 (byte_of b 2) XOR lookup TD2 (byte_of c 1) XOR lookup TD3 (byte_of d 0)"

definition td_last :: "ulong32 \<Rightarrow> ulong32 \<Rightarrow> ulong32 \<Rightarrow> ulong32 \<Rightarrow> ulong32" where
  "td_last a b c d = (lookup Td4 (byte_of a 3) AND 0xff000000) XOR (lookup Td4 (byte_of b 2) AND 0x00ff0000) XOR
     (lookup Td4 (byte_of c 1) AND 0x0000ff00) XOR (lookup Td4 (byte_of d 0) AND 0x000000ff)"

fun enc_round :: "(ulong32 \<Rightarrow> ulong32 \<Rightarrow> ulong32 \<Rightarrow> ulong32 \<Rightarrow> ulong32) \<Rightarrow> aes_state \<Rightarrow> ulong32 list \<Rightarrow> aes_state" where
  "enc_round f (s0, s1, s2, s3) rk =
     (f s0 s1 s2 s3 XOR rk ! 0, f s1 s2 s3 s0 XOR rk ! 1, f s2 s3 s0 s1 XOR rk ! 2, f s3 s0 s1 s2 XOR rk ! 3)"

fun dec_round :: "(ulong32 \<Rightarrow> ulong32 \<Rightarrow> ulong32 \<Rightarrow> ulong32 \<Rightarrow> ulong32) \<Rightarrow> aes_state \<Rightarrow> ulong32 list \<Rightarrow> aes_state" where
  "dec_round f (s0, s1, s2, s3) rk =
     (f s0 s3 s2 s1 XOR rk ! 0, f s1 s0 s3 s2 XOR rk ! 1, f s2 s1 s0 s3 XOR rk ! 2, f s3 s2 s1 s0 XOR rk ! 3)"

text \<open>
  The loop of both directions, two rounds per iteration and left in the middle of the last
  one: the rounds left over \<open>r\<close>, the state and the rest of the key.
\<close>

fun round_loop :: "(aes_state \<Rightarrow> ulong32 list \<Rightarrow> aes_state) \<Rightarrow> nat \<Rightarrow> aes_state \<Rightarrow> ulong32 list \<Rightarrow> aes_state \<times> ulong32 list" where
  "round_loop rnd r s rk =
     (let t = rnd s (drop 4 rk); rk1 = drop 8 rk
      in case r - 1 of 0 \<Rightarrow> (t, rk1) | Suc r1 \<Rightarrow> round_loop rnd (Suc r1) (rnd t rk1) rk1)"

declare round_loop.simps [simp del]

fun add_key :: "aes_state \<Rightarrow> ulong32 list \<Rightarrow> aes_state" where
  "add_key (s0, s1, s2, s3) rk = (s0 XOR rk ! 0, s1 XOR rk ! 1, s2 XOR rk ! 2, s3 XOR rk ! 3)"

definition load_state :: "byte list \<Rightarrow> ulong32 list \<Rightarrow> aes_state" where
  "load_state b rk = add_key (LOAD32H b, LOAD32H (drop 4 b), LOAD32H (drop 8 b), LOAD32H (drop 12 b)) rk"

fun store_state :: "aes_state \<Rightarrow> byte list" where
  "store_state (s0, s1, s2, s3) = STORE32H s0 @ STORE32H s1 @ STORE32H s2 @ STORE32H s3"

definition rijndael_ecb_encrypt :: "rijndael_key \<Rightarrow> byte list \<Rightarrow> int + byte list" where
  "rijndael_ecb_encrypt skey pt =
     (case round_loop (enc_round te) (Nr skey div 2) (load_state pt (eK skey)) (eK skey) of
        (t, rk) \<Rightarrow> Inr (store_state (enc_round te_last t rk)))"

definition rijndael_ecb_decrypt :: "rijndael_key \<Rightarrow> byte list \<Rightarrow> int + byte list" where
  "rijndael_ecb_decrypt skey ct =
     (case round_loop (dec_round td) (Nr skey div 2) (load_state ct (dK skey)) (dK skey) of
        (t, rk) \<Rightarrow> Inr (store_state (dec_round td_last t rk)))"

definition rijndael_keysize :: "int \<Rightarrow> int + int" where
  "rijndael_keysize keysize =
     (if keysize < 16 then Inl CRYPT_INVALID_KEYSIZE
      else if keysize < 24 then Inr 16
      else if keysize < 32 then Inr 24
      else Inr 32)"

text \<open>The registered descriptor; the CBC code passes 0 for the number of rounds.\<close>

definition aes_desc :: "rijndael_key cipher_descriptor" where
  "aes_desc = \<lparr>registered = True, block_length = 16, setup_key = (\<lambda>key. rijndael_setup key 0),
     ecb_encrypt = rijndael_ecb_encrypt, ecb_decrypt = rijndael_ecb_decrypt\<rparr>"

section \<open>Lemmas\<close>

text \<open>Words and their four bytes.\<close>

lemma byte_of_word4 [simp]:
  "byte_of (word4 a b c d) 3 = a" "byte_of (word4 a b c d) 2 = b"
  "byte_of (word4 a b c d) 1 = c" "byte_of (word4 a b c d) (Suc 0) = c" "byte_of (word4 a b c d) 0 = d"
  by (rule bit_word_eqI; auto simp: byte_of_def word4_def bit_simps dest: bit_imp_le_length)+

lemma word4_byte_of [simp]: "word4 (byte_of x 3) (byte_of x 2) (byte_of x 1) (byte_of x 0) = x"
proof (rule bit_word_eqI)
  fix n assume "n < LENGTH(32)"
  then consider "n < 8" | "8 \<le> n" "n < 16" | "16 \<le> n" "n < 24" | "24 \<le> n" "n < 32" by fastforce
  then show "bit (word4 (byte_of x 3) (byte_of x 2) (byte_of x 1) (byte_of x 0)) n \<longleftrightarrow> bit x n"
    by cases (auto simp: byte_of_def word4_def bit_simps)
qed

lemma byte_of_xor [simp]: "byte_of (x XOR y) n = byte_of x n XOR byte_of y n"
  by (rule bit_word_eqI) (auto simp: byte_of_def bit_simps)

lemma word4_xor: "word4 a b c d XOR word4 a' b' c' d' = word4 (a XOR a') (b XOR b') (c XOR c') (d XOR d')"
  by (rule bit_word_eqI) (auto simp: word4_def bit_simps dest: bit_imp_le_length)

subsection \<open>The tables as operations on bytes\<close>

definition sub_byte :: "byte \<Rightarrow> byte" where
  "sub_byte x = ucast (lookup Te4_0 x)"

definition inv_sub_byte :: "byte \<Rightarrow> byte" where
  "inv_sub_byte x = ucast (lookup Td4 x)"

lemma unat_byte_less [simp]: "unat (x :: byte) < 256"
  using unsigned_less [of x] by simp

lemma lookup_map [simp]: "length t = 256 \<Longrightarrow> lookup (map f t) x = f (lookup t x)"
  by (simp add: lookup_def)

lemma ucast_and_255: "(ucast (ucast w :: byte) :: ulong32) = w AND 255" for w :: ulong32
proof -
  have m: "(255 :: ulong32) = mask 8" by (simp add: mask_eq_exp_minus_1)
  show ?thesis unfolding m by (intro bit_word_eqI) (auto simp: bit_simps)
qed

lemma unat_ucast_byte [simp]: "unat (ucast x :: ulong32) = unat x" for x :: byte
proof -
  have "unat x < 2 ^ 32" using unat_byte_less [of x] by (simp del: unat_byte_less)
  then show ?thesis by (simp only: unsigned_ucast_eq take_bit_nat_eq_self len_num1 len_bit0) (simp add: take_bit_nat_eq_self)
qed

lemma lookup_te4_0: "lookup Te4_0 x = ucast (sub_byte x)"
proof -
  have "lookup Te4_0 x AND 255 = lookup Te4_0 x"
    using te4_small by (simp add: list_all_length lookup_def)
  then show ?thesis by (simp add: sub_byte_def ucast_and_255)
qed

lemma lookup_te4:
  "lookup Te4_1 x = push_bit 8 (ucast (sub_byte x))"
  "lookup Te4_2 x = push_bit 16 (ucast (sub_byte x))"
  "lookup Te4_3 x = push_bit 24 (ucast (sub_byte x))"
  by (simp_all add: te4_shifted lookup_te4_0)

lemma td4_masked: "map f Td4 = map g Td4 \<Longrightarrow> f (lookup Td4 x) = g (lookup Td4 x)" for f g :: "ulong32 \<Rightarrow> ulong32"
  by (simp add: lookup_def)

lemma lookup_td4:
  "lookup Td4 x AND 0x000000ff = ucast (inv_sub_byte x)"
  "lookup Td4 x AND 0x0000ff00 = push_bit 8 (ucast (inv_sub_byte x))"
  "lookup Td4 x AND 0x00ff0000 = push_bit 16 (ucast (inv_sub_byte x))"
  "lookup Td4 x AND 0xff000000 = push_bit 24 (ucast (inv_sub_byte x))"
  using td4_shifted [THEN td4_masked, of x] by (simp_all add: inv_sub_byte_def ucast_and_255)

lemma unat_sub_byte: "unat (lookup Te4_0 x) = unat (sub_byte x)"
  by (simp add: lookup_te4_0)

lemma inv_sub_sub [simp]: "inv_sub_byte (sub_byte x) = x"
proof -
  have "unat (Td4 ! unat (Te4_0 ! unat x) AND 255) = unat x"
    using arg_cong [OF td4_te4, of "\<lambda>l. l ! unat x"] by simp
  then have "unat (lookup Td4 (sub_byte x) AND 255) = unat x"
    using unat_sub_byte [of x] by (simp add: lookup_def)
  then have "unat (inv_sub_byte (sub_byte x)) = unat x"
    by (simp add: lookup_td4)
  then show ?thesis by (simp add: word_unat_eq_iff)
qed


lemma word4_as_xor: "push_bit 24 (ucast a) XOR push_bit 16 (ucast b) XOR push_bit 8 (ucast c) XOR ucast d = word4 a b c d"
  by (rule bit_word_eqI) (auto simp: word4_def bit_simps dest: bit_imp_le_length)

lemma te_last_bytes:
  "te_last a b c d = word4 (sub_byte (byte_of a 3)) (sub_byte (byte_of b 2)) (sub_byte (byte_of c 1)) (sub_byte (byte_of d 0))"
  by (simp add: te_last_def lookup_te4 lookup_te4_0 word4_as_xor)

lemma td_last_bytes:
  "td_last a b c d =
     word4 (inv_sub_byte (byte_of a 3)) (inv_sub_byte (byte_of b 2)) (inv_sub_byte (byte_of c 1)) (inv_sub_byte (byte_of d 0))"
  by (simp add: td_last_def lookup_td4 word4_as_xor)

lemma lookup_tks:
  "lookup Tks0 x = lin inv_basis0 (unat x)" "lookup Tks1 x = lin inv_basis1 (unat x)"
  "lookup Tks2 x = lin inv_basis2 (unat x)" "lookup Tks3 x = lin inv_basis3 (unat x)"
  by (simp_all add: tks0_linear tks1_linear tks2_linear tks3_linear lookup_def)

lemma lookup_td:
  "lookup TD0 x = lookup Tks0 (inv_sub_byte x)" "lookup TD1 x = lookup Tks1 (inv_sub_byte x)"
  "lookup TD2 x = lookup Tks2 (inv_sub_byte x)" "lookup TD3 x = lookup Tks3 (inv_sub_byte x)"
  by (simp_all add: td0_linear td1_linear td2_linear td3_linear lookup_tks lookup_td4)

lemma lookup_te:
  "lookup TE0 x = lin mix_basis0 (unat (sub_byte x))" "lookup TE1 x = lin mix_basis1 (unat (sub_byte x))"
  "lookup TE2 x = lin mix_basis2 (unat (sub_byte x))" "lookup TE3 x = lin mix_basis3 (unat (sub_byte x))"
  by (simp_all add: te0_linear te1_linear te2_linear te3_linear unat_sub_byte)

lemma inv_mix_xor: "inv_mix (x XOR y) = inv_mix x XOR inv_mix y"
  by (simp add: inv_mix_def lookup_tks unsigned_xor_eq lin_xor xor.assoc xor.left_commute)

lemma inv_mix_lin: "inv_mix (lin bs n) = lin (map inv_mix bs) n"
proof (induction bs arbitrary: n)
  case Nil
  show ?case using inv_mix_xor [of 0 0] by simp
qed (auto simp: inv_mix_xor)

lemma inv_mix_basis:
  "map inv_mix mix_basis0 = map (\<lambda>k. push_bit (24 + k) 1) [0..<8]"
  "map inv_mix mix_basis1 = map (\<lambda>k. push_bit (16 + k) 1) [0..<8]"
  "map inv_mix mix_basis2 = map (\<lambda>k. push_bit (8 + k) 1) [0..<8]"
  "map inv_mix mix_basis3 = map (\<lambda>k. push_bit k 1) [0..<8]"
  by (simp_all add: mix_basis0_def mix_basis1_def mix_basis2_def mix_basis3_def inv_mix_def lookup_tks byte_of_def
      inv_basis0_def inv_basis1_def inv_basis2_def inv_basis3_def upt_conv_Cons)

lemma lin_bits: "lin (map (\<lambda>k. push_bit (j + k) 1) [0..<m]) n = push_bit j (word_of_nat (n mod 2 ^ m))"
proof (induction m arbitrary: j n)
  case (Suc m)
  have upt: "[0..<Suc m] = 0 # map Suc [0..<m]"
    by (simp only: upt_conv_Cons zero_less_Suc map_Suc_upt)
  define q where "q = n div 2 mod 2 ^ m"
  have split: "n mod 2 ^ Suc m = 2 * q + n mod 2"
    by (simp add: q_def mod_mult2_eq)
  have "lin (map (\<lambda>k. push_bit (Suc j + k) 1) [0..<m]) (n div 2) = push_bit (Suc j) (word_of_nat q)"
    using Suc [of "Suc j" "n div 2"] by (simp add: q_def)
  then have IH: "lin (map (\<lambda>k. push_bit (j + Suc k) 1) [0..<m]) (n div 2) = push_bit j (2 * word_of_nat q)"
    by (simp add: push_bit_eq_mult ac_simps)
  have "1 XOR 2 * word_of_nat q = (2 * word_of_nat q + 1 :: ulong32)"
    by (simp add: xor.commute [of 1] xor_one_eq)
  then have odd: "push_bit j 1 XOR push_bit j (2 * word_of_nat q) = push_bit j (2 * word_of_nat q + 1 :: ulong32)"
    by (metis push_bit_xor)
  show ?case
  proof (cases "odd n")
    case True
    then have "n mod 2 ^ Suc m = 2 * q + 1" using split by (simp add: odd_iff_mod_2_eq_one)
    then show ?thesis using True IH odd by (simp add: upt comp_def add.commute del: upt_Suc power_Suc)
  next
    case False
    then have "n mod 2 ^ Suc m = 2 * q" using split by (simp add: even_iff_mod_2_eq_zero)
    then show ?thesis using False IH by (simp add: upt comp_def del: upt_Suc power_Suc)
  qed
qed simp

lemma inv_mix_te_bytes:
  "inv_mix (lookup TE0 x) = push_bit 24 (ucast (sub_byte x))" "inv_mix (lookup TE1 x) = push_bit 16 (ucast (sub_byte x))"
  "inv_mix (lookup TE2 x) = push_bit 8 (ucast (sub_byte x))" "inv_mix (lookup TE3 x) = ucast (sub_byte x)"
  using lin_bits [of 24 8] lin_bits [of 16 8] lin_bits [of 8 8] lin_bits [of 0 8]
  by (simp_all add: lookup_te inv_mix_lin inv_mix_basis)

text \<open>
  What the two round functions have to satisfy for the equivalent inverse cipher to
  undo the cipher: the transformation of the round keys is linear, takes a full round to
  the last round, gives the inverse round from the last inverse round, and the last
  inverse round picks the bytes back.
\<close>

locale inverse_rounds =
  fixes te te_last td td_last :: "ulong32 \<Rightarrow> ulong32 \<Rightarrow> ulong32 \<Rightarrow> ulong32 \<Rightarrow> ulong32"
    and inv_mix :: "ulong32 \<Rightarrow> ulong32"
  assumes inv_mix_linear: "inv_mix (x XOR y) = inv_mix x XOR inv_mix y"
    and inv_mix_te: "inv_mix (te a b c d) = te_last a b c d"
    and td_inv_mix: "td a b c d = inv_mix (td_last a b c d)"
    and unshift: "td_last (te_last s a1 a2 a3) (te_last b0 s b2 b3) (te_last c0 c1 s c3) (te_last d0 d1 d2 s) = s"
begin

definition sub_shift :: "aes_state \<Rightarrow> aes_state" where
  "sub_shift s = enc_round te_last s [0, 0, 0, 0]"

lemma last_round: "enc_round te_last s k = add_key (sub_shift s) k"
  by (cases s) (simp add: sub_shift_def)

lemma undo_last: "dec_round td_last (sub_shift s) k = add_key s k"
  by (cases s) (simp add: sub_shift_def unshift)

lemma undo_round:
  assumes "4 \<le> length k"
  shows "dec_round td (sub_shift (enc_round te s k)) (map inv_mix k) = sub_shift s"
proof -
  obtain s0 s1 s2 s3 where s: "s = (s0, s1, s2, s3)" by (cases s) auto
  have cancel: "inv_mix (a XOR b) XOR inv_mix b = inv_mix a" for a b
    by (simp add: inv_mix_linear xor.assoc)
  have "0 < length k" "1 < length k" "2 < length k" "3 < length k" using assms by auto
  then show ?thesis
    by (simp add: s sub_shift_def unshift td_inv_mix cancel inv_mix_te)
qed

lemma undo_rounds:
  "(\<And>k. k \<in> set ks \<Longrightarrow> 4 \<le> length k) \<Longrightarrow>
     foldl (dec_round td) (sub_shift (foldl (enc_round te) s ks)) (map (map inv_mix) (rev ks)) = sub_shift s"
  by (induction ks rule: rev_induct) (simp_all add: undo_round)

end

interpretation aes_rounds: inverse_rounds te te_last td td_last inv_mix
proof
  show "inv_mix (te a b c d) = te_last a b c d" for a b c d
    by (simp add: te_def inv_mix_xor inv_mix_te_bytes te_last_bytes word4_as_xor)
  show "td a b c d = inv_mix (td_last a b c d)" for a b c d
    by (simp add: td_def inv_mix_def td_last_bytes lookup_td)
  show "td_last (te_last s a1 a2 a3) (te_last b0 s b2 b3) (te_last c0 c1 s c3) (te_last d0 d1 d2 s) = s"
    for s a1 a2 a3 b0 b2 b3 c0 c1 c3 d0 d1 d2
    by (simp only: td_last_bytes te_last_bytes byte_of_word4 inv_sub_sub word4_byte_of)
qed (rule inv_mix_xor)

subsection \<open>Keys and loops\<close>

text \<open>The four words of one round.\<close>

definition round_key :: "ulong32 list \<Rightarrow> nat \<Rightarrow> ulong32 list" where
  "round_key rk i = take 4 (drop (4 * i) rk)"

lemma rounds_use_four [simp]:
  "enc_round f s (take 4 k) = enc_round f s k" "dec_round f s (take 4 k) = dec_round f s k" "add_key s (take 4 k) = add_key s k"
  by (cases s; simp)+

lemma round_loop_fold:
  assumes "0 < r" and four: "\<And>s k. rnd s (take 4 k) = rnd s k"
  shows "round_loop rnd r s rk = (foldl rnd s (map (round_key rk) [1..<2 * r]), drop (8 * r) rk)"
  using assms(1)
proof (induction r arbitrary: s rk)
  case (Suc r)
  have shift: "map (round_key rk) [3..<2 * r + 2] = map (round_key (drop 8 rk)) [1..<2 * r]"
    by (rule nth_equalityI) (simp_all add: round_key_def algebra_simps del: upt_Suc)
  show ?case
  proof (cases r)
    case 0
    then show ?thesis by (simp add: round_loop.simps [of _ "Suc 0"] round_key_def four numeral_2_eq_2 Let_def)
  next
    case (Suc r')
    let ?s = "rnd (rnd s (drop 4 rk)) (drop 8 rk)"
    have "[1..<2 * Suc r] = 1 # 2 # [3..<2 * r + 2]"
      using Suc by (simp add: upt_conv_Cons numeral_2_eq_2 numeral_3_eq_3 del: upt_Suc)
    then have "foldl rnd s (map (round_key rk) [1..<2 * Suc r]) = foldl rnd ?s (map (round_key (drop 8 rk)) [1..<2 * r])"
      by (simp only: list.map foldl.simps shift) (simp add: round_key_def four)
    moreover have "round_loop rnd (Suc r) s rk = round_loop rnd r ?s (drop 8 rk)"
      using Suc by (subst round_loop.simps) (simp add: Let_def)
    ultimately show ?thesis
      using Suc.IH [of ?s "drop 8 rk"] Suc by (simp add: add.commute del: upt_Suc)
  qed
qed simp

lemma sched_length:
  assumes "\<And>rk i. length (sched rk i) = (if i + 1 = N then 4 else step)"
  shows "0 < n \<Longrightarrow> n + i = N \<Longrightarrow> length rk = step \<Longrightarrow> length (sched_loop sched step n i rk) = step * n + 4"
proof (induction n arbitrary: i rk)
  case (Suc n)
  show ?case
  proof (cases n)
    case 0
    then show ?thesis using Suc.prems by (simp add: assms)
  next
    case (Suc m)
    then show ?thesis using Suc.IH [of "i + 1" "drop step (rk @ sched rk i)"] Suc.prems by (simp add: assms Let_def)
  qed
qed simp

lemma sched_lengths:
  "length (sched16 rk i) = (if i + 1 = 10 then 4 else 4)"
  "length (sched24 rk i) = (if i + 1 = 8 then 4 else 6)"
  "length (sched32 rk i) = (if i + 1 = 7 then 4 else 8)"
  by (simp_all add: sched16_def sched24_def sched32_def Let_def)

lemma forward_key_length:
  "length key = 16 \<Longrightarrow> length (forward_key key) = 44"
  "length key = 24 \<Longrightarrow> length (forward_key key) = 52"
  "length key = 32 \<Longrightarrow> length (forward_key key) = 60"
  using sched_length [OF sched_lengths(1), of 10 0] sched_length [OF sched_lengths(2), of 8 0]
    sched_length [OF sched_lengths(3), of 7 0]
  by (simp_all add: forward_key_def Let_def del: sched_loop.simps)

lemma round_key_concat:
  "(\<And>g. g \<in> set gs \<Longrightarrow> length g = 4) \<Longrightarrow> i < length gs \<Longrightarrow> round_key (concat gs) i = gs ! i"
proof (induction gs arbitrary: i)
  case (Cons g gs)
  then show ?case by (cases i) (simp_all add: round_key_def)
qed simp

lemma inverse_loop_groups:
  "n \<le> p \<Longrightarrow> 4 * p \<le> length ek \<Longrightarrow>
     inverse_loop ek (4 * p) n = concat (map (\<lambda>i. map inv_mix (round_key ek (p - i))) [1..<Suc n])"
proof (induction n arbitrary: p)
  case (Suc n)
  then obtain q where p: "p = Suc q" by (cases p) auto
  have four: "[ek ! (4 * q), ek ! Suc (4 * q), ek ! (4 * q + 2), ek ! (4 * q + 3)] = round_key ek q"
    using Suc.prems p by (intro nth_equalityI) (auto simp: round_key_def less_Suc_eq numeral_eq_Suc)
  have shift: "map (\<lambda>i. map inv_mix (round_key ek (p - i))) [2..<Suc (Suc n)] =
      map (\<lambda>i. map inv_mix (round_key ek (q - i))) [1..<Suc n]"
    by (rule nth_equalityI) (auto simp: p nth_append less_Suc_eq)
  have "[1..<Suc (Suc n)] = 1 # [2..<Suc (Suc n)]" by (subst upt_conv_Cons) (simp_all add: numeral_2_eq_2 del: upt_Suc)
  then show ?case using Suc.IH [of q] Suc.prems p shift
    by (simp add: Let_def flip: four del: upt_Suc)
qed simp

lemma round_key_length: "4 * Suc i \<le> length ek \<Longrightarrow> length (round_key ek i) = 4"
  by (simp add: round_key_def)

lemma inverse_key_groups:
  assumes "length ek = 4 * Suc nr" and "0 < nr"
  shows "inverse_key ek nr = concat (round_key ek nr # map (\<lambda>i. map inv_mix (round_key ek (nr - i))) [1..<nr] @ [round_key ek 0])"
  using assms inverse_loop_groups [of "nr - 1" nr ek]
  by (simp add: inverse_key_def round_key_def Let_def)

lemma inverse_round_keys:
  assumes "length ek = 4 * Suc nr" and "0 < nr" and "i \<le> nr"
  shows "round_key (inverse_key ek nr) i =
    (if i = 0 then round_key ek nr else if i = nr then round_key ek 0 else map inv_mix (round_key ek (nr - i)))"
proof -
  let ?gs = "round_key ek nr # map (\<lambda>i. map inv_mix (round_key ek (nr - i))) [1..<nr] @ [round_key ek 0]"
  have "length g = 4" if "g \<in> set ?gs" for g
    using that assms(1) by (auto simp: round_key_length)
  then have "round_key (inverse_key ek nr) i = ?gs ! i"
    unfolding inverse_key_groups [OF assms(1,2)] using assms(2,3) by (intro round_key_concat) auto
  also have "?gs ! i = (if i = 0 then round_key ek nr else if i = nr then round_key ek 0 else map inv_mix (round_key ek (nr - i)))"
    using assms(2,3) by (cases i) (auto simp: nth_append)
  finally show ?thesis .
qed

text \<open>A key as \<open>rijndael_setup\<close> makes it.\<close>

definition key_ok :: "rijndael_key \<Rightarrow> bool" where
  "key_ok k \<longleftrightarrow> even (Nr k) \<and> 0 < Nr k \<and> length (eK k) = 4 * Suc (Nr k) \<and> dK k = inverse_key (eK k) (Nr k)"

lemma setup_key_ok: "rijndael_setup key n = Inr k \<Longrightarrow> key_ok k"
  by (auto simp: rijndael_setup_def key_ok_def Let_def forward_key_length split: if_splits)

lemma encrypt_fold:
  assumes "key_ok k"
  shows "rijndael_ecb_encrypt k pt = Inr (store_state (add_key (aes_rounds.sub_shift
    (foldl (enc_round te) (load_state pt (eK k)) (map (round_key (eK k)) [1..<Nr k]))) (round_key (eK k) (Nr k))))"
proof -
  obtain r where r: "Nr k = 2 * r" "0 < r" using assms by (auto simp: key_ok_def elim: evenE)
  show ?thesis
    by (simp add: rijndael_ecb_encrypt_def r round_loop_fold aes_rounds.last_round round_key_def)
qed

lemma decrypt_fold:
  assumes "key_ok k"
  shows "rijndael_ecb_decrypt k ct = Inr (store_state (dec_round td_last
    (foldl (dec_round td) (load_state ct (dK k)) (map (round_key (dK k)) [1..<Nr k])) (round_key (dK k) (Nr k))))"
proof -
  obtain r where r: "Nr k = 2 * r" "0 < r" using assms by (auto simp: key_ok_def elim: evenE)
  show ?thesis by (simp add: rijndael_ecb_decrypt_def r round_loop_fold round_key_def)
qed

lemma four_elements:
  assumes "4 \<le> length xs"
  obtains a b c d ys where "xs = a # b # c # d # ys"
  using assms by (auto simp: numeral_eq_Suc Suc_le_length_iff)

lemma store_length [simp]: "length (store_state s) = 16"
  by (cases s) (simp add: STORE32H_def)

lemma load_stored: "load_state (store_state s) k = add_key s k"
  by (cases s) (simp add: load_state_def STORE32H_def LOAD32H_def word4_byte_of [simplified])

lemma add_key_twice: "add_key (add_key s k) k = s"
  by (cases s) (simp add: xor.assoc)

lemma store_load_word: "4 \<le> length xs \<Longrightarrow> STORE32H (LOAD32H xs) = take 4 xs"
  by (erule four_elements) (simp add: STORE32H_def LOAD32H_def)

lemma store_loaded: "length b = 16 \<Longrightarrow> store_state (add_key (load_state b k) k) = b"
proof -
  assume b: "length b = 16"
  then have "store_state (add_key (load_state b k) k) = take 4 b @ take 4 (drop 4 b) @ take 4 (drop 8 b) @ take 4 (drop 12 b)"
    by (simp add: load_state_def xor.assoc store_load_word)
  also have "\<dots> = b" using b by (intro nth_equalityI) (auto simp: nth_append)
  finally show ?thesis .
qed

lemma load_round_key: "load_state b (round_key k 0) = load_state b k"
  by (simp add: load_state_def round_key_def)

lemma decrypt_encrypt:
  assumes k: "key_ok k" and b: "length pt = 16"
  shows "\<exists>ct. rijndael_ecb_encrypt k pt = Inr ct \<and> length ct = 16 \<and> rijndael_ecb_decrypt k ct = Inr pt"
proof -
  define s where "s = load_state pt (eK k)"
  define ks where "ks = map (round_key (eK k)) [1..<Nr k]"
  define t where "t = aes_rounds.sub_shift (foldl (enc_round te) s ks)"
  define ct where "ct = store_state (add_key t (round_key (eK k) (Nr k)))"
  have len: "length (eK k) = 4 * Suc (Nr k)" "0 < Nr k" and d: "dK k = inverse_key (eK k) (Nr k)"
    using k by (auto simp: key_ok_def)
  note keys = inverse_round_keys [OF len, folded d]
  have "load_state ct (dK k) = t"
    using keys [of 0] by (simp add: ct_def load_round_key [of _ "dK k", symmetric] load_stored add_key_twice)
  moreover have "map (round_key (dK k)) [1..<Nr k] = map (map inv_mix) (rev ks)"
  proof (rule nth_equalityI)
    show "length (map (round_key (dK k)) [1..<Nr k]) = length (map (map inv_mix) (rev ks))" by (simp add: ks_def)
    fix i assume i: "i < length (map (round_key (dK k)) [1..<Nr k])"
    then have "Suc (Nr k - Suc (Suc i)) = Nr k - Suc i" "Suc i \<noteq> Nr k" by auto
    then show "map (round_key (dK k)) [1..<Nr k] ! i = map (map inv_mix) (rev ks) ! i"
      using i keys [of "Suc i"] by (simp add: ks_def rev_nth)
  qed
  moreover have "foldl (dec_round td) t (map (map inv_mix) (rev ks)) = aes_rounds.sub_shift s"
    unfolding t_def using len by (intro aes_rounds.undo_rounds) (auto simp: ks_def round_key_length)
  moreover have "dec_round td_last (aes_rounds.sub_shift s) (round_key (dK k) (Nr k)) = add_key s (round_key (eK k) 0)"
    using keys [of "Nr k"] len by (simp add: aes_rounds.undo_last)
  ultimately have "rijndael_ecb_decrypt k ct = Inr pt"
    using store_loaded [OF b, of "round_key (eK k) 0"]
    by (simp add: decrypt_fold [OF k] s_def load_round_key)
  moreover have "rijndael_ecb_encrypt k pt = Inr ct"
    by (simp add: encrypt_fold [OF k] ct_def t_def s_def ks_def)
  ultimately show ?thesis by (auto simp: ct_def)
qed

section \<open>Properties\<close>

lemma aes_desc_ok: "aes_ok aes_desc"
proof -
  have "length cbc_key = 16" by (simp add: cbc_key_def)
  then obtain k where k: "rijndael_setup cbc_key 0 = Inr k" by (simp add: rijndael_setup_def Let_def)
  show ?thesis
    unfolding aes_ok_def aes_desc_def using k decrypt_encrypt [OF setup_key_ok [OF k]] by simp
qed

text \<open>
  C34: With the AES of libtomcrypt as the cipher, mqtt_payload_decrypt inverts
  mqtt_payload_encrypt on every message without a zero byte whose length is not a multiple of
  16.
\<close>

theorem aes_payload_round_trip:
  assumes "0 \<notin> set m" and "length m mod 16 \<noteq> 0" and "length m < 2147483633" and "15 \<le> length tail"
  shows "\<exists>payload buf. mqtt_payload_encrypt aes_desc rand now (m @ 0 # tail) (length m) = Some (SUCCESS, Some payload) \<and>
    length payload = 28 + (length m + 15) div 16 * 16 \<and>
    mqtt_payload_decrypt aes_desc payload (length payload) = Some (SUCCESS, Some (buf, length m)) \<and>
    take (length m) buf = m"
  using aes_desc_ok assms by (rule payload_decrypts)

end
