(* ===== verification/AesField.thy ===== *)
theory AesField
  imports Aes
begin

text \<open>
  The arithmetic of AES in the field of 256 elements (FIPS 197, section 4), the substitution
  box as inverse and affine map, and that the tables of \<open>aes_tab.c\<close> hold exactly these
  values. Each table is evaluated entry by entry.
\<close>

section \<open>Definitions\<close>

text \<open>Multiplication in the field, with bytes as numbers below 256.\<close>

definition xtime :: "int \<Rightarrow> int" where
  "xtime a = (if a < 128 then 2 * a else (2 * a) XOR 0x11b)"

fun gmul :: "nat \<Rightarrow> int \<Rightarrow> int \<Rightarrow> int" where
  "gmul 0 a b = 0"
| "gmul (Suc n) a b = (if odd b then a XOR gmul n (xtime a) (b div 2) else gmul n (xtime a) (b div 2))"

definition gf_mult :: "int \<Rightarrow> int \<Rightarrow> int" where
  "gf_mult a b = gmul 8 a b"

text \<open>The inverse is the power 254, the product of the powers 2, 4, \<open>\<dots>\<close>, 128; zero is its own inverse.\<close>

fun power_loop :: "nat \<Rightarrow> int \<Rightarrow> int \<Rightarrow> int" where
  "power_loop 0 a p = p"
| "power_loop (Suc n) a p = power_loop n (gf_mult a a) (gf_mult p a)"

definition gf_inverse :: "int \<Rightarrow> int" where
  "gf_inverse a = power_loop 7 (gf_mult a a) 1"

definition rotl8 :: "nat \<Rightarrow> int \<Rightarrow> int" where
  "rotl8 k a = (a * 2 ^ k) mod 256 + a div 2 ^ (8 - k)"

definition affine :: "int \<Rightarrow> int" where
  "affine b = b XOR rotl8 1 b XOR rotl8 2 b XOR rotl8 3 b XOR rotl8 4 b XOR 0x63"

definition sbox_val :: "nat \<Rightarrow> int" where
  "sbox_val n = affine (gf_inverse (int n))"

definition sbox :: "byte \<Rightarrow> byte" where
  "sbox x = word_of_int (sbox_val (unat x))"

definition times_val :: "int \<Rightarrow> nat \<Rightarrow> int" where
  "times_val k n = gf_mult k (int n)"

definition times :: "int \<Rightarrow> byte \<Rightarrow> byte" where
  "times k x = word_of_int (times_val k (unat x))"

text \<open>A column of the mixing matrix times a byte.\<close>

definition column :: "int \<Rightarrow> int \<Rightarrow> int \<Rightarrow> int \<Rightarrow> nat \<Rightarrow> ulong32" where
  "column a b c d n = word4 (word_of_int (times_val a n)) (word_of_int (times_val b n))
     (word_of_int (times_val c n)) (word_of_int (times_val d n))"

section \<open>Lemmas\<close>

lemma gmul_numeral: "gmul (numeral v) a b =
    (if odd b then a XOR gmul (pred_numeral v) (xtime a) (b div 2) else gmul (pred_numeral v) (xtime a) (b div 2))"
  by (simp add: numeral_eq_Suc)

lemma power_loop_numeral: "power_loop (numeral v) a p = power_loop (pred_numeral v) (gf_mult a a) (gf_mult p a)"
  by (simp add: numeral_eq_Suc)

lemmas gf_simps = gf_mult_def gmul_numeral xtime_def

lemmas sbox_simps = sbox_val_def affine_def gf_inverse_def power_loop_numeral gf_simps rotl8_def

lemma sbox_0: "map sbox_val [0..<32] = map uint (take 32 (drop 0 Te4_0))"
  by (simp add: Te4_0_def upt_conv_Cons sbox_simps)

lemma sbox_32: "map sbox_val [32..<64] = map uint (take 32 (drop 32 Te4_0))"
  by (simp add: Te4_0_def upt_conv_Cons sbox_simps)

lemma sbox_64: "map sbox_val [64..<96] = map uint (take 32 (drop 64 Te4_0))"
  by (simp add: Te4_0_def upt_conv_Cons sbox_simps)

lemma sbox_96: "map sbox_val [96..<128] = map uint (take 32 (drop 96 Te4_0))"
  by (simp add: Te4_0_def upt_conv_Cons sbox_simps)

lemma sbox_128: "map sbox_val [128..<160] = map uint (take 32 (drop 128 Te4_0))"
  by (simp add: Te4_0_def upt_conv_Cons sbox_simps)

lemma sbox_160: "map sbox_val [160..<192] = map uint (take 32 (drop 160 Te4_0))"
  by (simp add: Te4_0_def upt_conv_Cons sbox_simps)

lemma sbox_192: "map sbox_val [192..<224] = map uint (take 32 (drop 192 Te4_0))"
  by (simp add: Te4_0_def upt_conv_Cons sbox_simps)

lemma sbox_224: "map sbox_val [224..<256] = map uint (take 32 (drop 224 Te4_0))"
  by (simp add: Te4_0_def upt_conv_Cons sbox_simps)

lemma in_chunk: "n < 256 \<Longrightarrow> \<exists>k j. n = 32 * k + j \<and> j < 32 \<and> k \<in> {0, 1, 2, 3, 4, 5, 6, 7}" for n :: nat
  by (rule exI [of _ "n div 32"], rule exI [of _ "n mod 32"]) auto

lemma chunk_nth:
  assumes "map f [a..<b] = map g (take 32 (drop a xs))" and "b = a + 32" and "b \<le> length xs" and "j < 32"
  shows "g (xs ! (a + j)) = f (a + j)"
  using arg_cong [OF assms(1), of "\<lambda>l. l ! j"] assms(2-4) by simp

lemmas sbox_chunks = chunk_nth [OF sbox_0] chunk_nth [OF sbox_32] chunk_nth [OF sbox_64] chunk_nth [OF sbox_96] chunk_nth [OF sbox_128] chunk_nth [OF sbox_160] chunk_nth [OF sbox_192] chunk_nth [OF sbox_224]

lemma te4_field: "n < 256 \<Longrightarrow> uint (Te4_0 ! n) = sbox_val n"
proof -
  assume "n < 256"
  then obtain k j where "n = 32 * k + j" "j < 32" "k \<in> {0, 1, 2, 3, 4, 5, 6, 7}" using in_chunk by blast
  then show ?thesis using sbox_chunks [of j] by auto
qed

text \<open>Multiplication is linear in its second factor, so eight entries decide a column.\<close>

fun columns :: "nat \<Rightarrow> int \<Rightarrow> int \<Rightarrow> int \<Rightarrow> int \<Rightarrow> ulong32 list" where
  "columns 0 a b c d = []"
| "columns (Suc m) a b c d =
     word4 (word_of_int a) (word_of_int b) (word_of_int c) (word_of_int d) # columns m (xtime a) (xtime b) (xtime c) (xtime d)"

lemma word_of_int_xor: "word_of_int (a XOR b) = (word_of_int a XOR word_of_int b :: 'a :: len word)"
  by (rule bit_word_eqI) (auto simp: bit_simps)

lemma columns_linear:
  "word4 (word_of_int (gmul m a (int n))) (word_of_int (gmul m b (int n)))
     (word_of_int (gmul m c (int n))) (word_of_int (gmul m d (int n))) = lin (columns m a b c d) n"
proof (induction m arbitrary: a b c d n)
  case 0
  show ?case by (simp add: word4_def)
next
  case (Suc m)
  have "int n div 2 = int (n div 2)" by simp
  then show ?case
    using Suc [of "xtime a" "n div 2" "xtime b" "xtime c" "xtime d"]
    by (simp add: word_of_int_xor flip: word4_xor)
qed

lemma columns_numeral: "columns (numeral v) a b c d =
    word4 (word_of_int a) (word_of_int b) (word_of_int c) (word_of_int d) #
    columns (pred_numeral v) (xtime a) (xtime b) (xtime c) (xtime d)"
  by (simp add: numeral_eq_Suc)

lemma mix_basis_columns:
  "columns 8 2 1 1 3 = mix_basis0" "columns 8 3 2 1 1 = mix_basis1" "columns 8 1 3 2 1 = mix_basis2" "columns 8 1 1 3 2 = mix_basis3"
  by (simp_all add: columns_numeral xtime_def word4_def mix_basis0_def mix_basis1_def mix_basis2_def mix_basis3_def)

lemma mix_basis_field:
  "lin mix_basis0 n = column 2 1 1 3 n" "lin mix_basis1 n = column 3 2 1 1 n"
  "lin mix_basis2 n = column 1 3 2 1 n" "lin mix_basis3 n = column 1 1 3 2 n"
  by (simp_all add: column_def times_val_def gf_mult_def columns_linear mix_basis_columns)

lemma times_val_one: "map int [0..<256] = map (times_val 1) [0..<256]"
  by (simp add: upt_conv_Cons times_val_def gf_simps)

lemma map_upt_eqD: "map f [0..<N] = map g [0..<N] \<Longrightarrow> n < N \<Longrightarrow> f n = g n"
  by simp

lemma nth_bytes: "map f [0..<256] = map g [0..<256] \<Longrightarrow> f (unat x) = g (unat x)" for x :: byte
  by (rule map_upt_eqD [OF _ unat_byte_less])

lemma times_1: "times 1 x = x"
  by (simp add: times_def flip: nth_bytes [OF times_val_one])

lemma sub_byte_sbox: "sub_byte x = sbox x"
proof -
  have s: "sbox_val (unat x) = uint (lookup Te4_0 x)"
    by (simp add: lookup_def te4_field)
  show ?thesis by (simp add: sub_byte_def sbox_def s unsigned_ucast_eq)
qed

lemma te_columns:
  "lookup TE0 x = word4 (times 2 (sbox x)) (sbox x) (sbox x) (times 3 (sbox x))"
  "lookup TE1 x = word4 (times 3 (sbox x)) (times 2 (sbox x)) (sbox x) (sbox x)"
  "lookup TE2 x = word4 (sbox x) (times 3 (sbox x)) (times 2 (sbox x)) (sbox x)"
  "lookup TE3 x = word4 (sbox x) (sbox x) (times 3 (sbox x)) (times 2 (sbox x))"
  using times_1 [of "sbox x"] by (simp_all add: lookup_te sub_byte_sbox mix_basis_field column_def times_def)

end
