(* ===== verification/AesSpec.thy ===== *)
theory AesSpec
  imports AesField
begin

text \<open>
  The Advanced Encryption Standard (FIPS 197) as a reference: arithmetic in the field of 256
  elements, the substitution box as inverse and affine map, the four transformations of a
  round on the 16 bytes of the state, the key expansion word by word. The theorem at the
  end says that the table-driven code of \<open>aes.c\<close> computes it, for all three key
  lengths.
\<close>

section \<open>Definitions\<close>

text \<open>The state is a list of 16 bytes, column by column; a word is a list of four bytes.\<close>

definition sub_bytes :: "byte list \<Rightarrow> byte list" where
  "sub_bytes s = map sbox s"

definition shift_rows :: "byte list \<Rightarrow> byte list" where
  "shift_rows s = map (\<lambda>i. s ! ((i + 4 * (i mod 4)) mod 16)) [0..<16]"

definition mix_column :: "byte list \<Rightarrow> byte list" where
  "mix_column c =
     [times 2 (c ! 0) XOR times 3 (c ! 1) XOR c ! 2 XOR c ! 3, c ! 0 XOR times 2 (c ! 1) XOR times 3 (c ! 2) XOR c ! 3,
      c ! 0 XOR c ! 1 XOR times 2 (c ! 2) XOR times 3 (c ! 3), times 3 (c ! 0) XOR c ! 1 XOR c ! 2 XOR times 2 (c ! 3)]"

definition mix_columns :: "byte list \<Rightarrow> byte list" where
  "mix_columns s = concat (map (\<lambda>i. mix_column (take 4 (drop (4 * i) s))) [0..<4])"

definition add_round_key :: "byte list \<Rightarrow> byte list list \<Rightarrow> nat \<Rightarrow> byte list" where
  "add_round_key s w r = map2 (XOR) s (concat (take 4 (drop (4 * r) w)))"

definition fips_round :: "byte list list \<Rightarrow> byte list \<Rightarrow> nat \<Rightarrow> byte list" where
  "fips_round w s r = add_round_key (mix_columns (shift_rows (sub_bytes s))) w r"

definition fips_cipher :: "byte list list \<Rightarrow> nat \<Rightarrow> byte list \<Rightarrow> byte list" where
  "fips_cipher w nr inp =
     add_round_key (shift_rows (sub_bytes (foldl (fips_round w) (add_round_key inp w 0) [1..<nr]))) w nr"

text \<open>The key expansion; \<open>nk\<close> is the number of words of the key.\<close>

fun rcon_val :: "nat \<Rightarrow> int" where
  "rcon_val 0 = 1"
| "rcon_val (Suc n) = xtime (rcon_val n)"

definition rcon_byte :: "nat \<Rightarrow> byte" where
  "rcon_byte i = word_of_int (rcon_val (i - 1))"

definition next_word :: "nat \<Rightarrow> byte list list \<Rightarrow> byte list" where
  "next_word nk w =
     (let i = length w; temp = w ! (i - 1);
          temp1 = (if i mod nk = 0 then map2 (XOR) (sub_bytes (rotate1 temp)) [rcon_byte (i div nk), 0, 0, 0]
                   else if nk > 6 \<and> i mod nk = 4 then sub_bytes temp
                   else temp)
      in map2 (XOR) (w ! (i - nk)) temp1)"

fun expand :: "nat \<Rightarrow> nat \<Rightarrow> byte list list \<Rightarrow> byte list list" where
  "expand nk 0 w = w"
| "expand nk (Suc n) w = expand nk n (w @ [next_word nk w])"

definition key_expansion :: "byte list \<Rightarrow> byte list list" where
  "key_expansion key =
     (let nk = length key div 4
      in expand nk (4 * (nk + 7) - nk) (map (\<lambda>i. take 4 (drop (4 * i) key)) [0..<nk]))"

definition fips_aes :: "byte list \<Rightarrow> byte list \<Rightarrow> byte list" where
  "fips_aes key inp = fips_cipher (key_expansion key) (length key div 4 + 6) inp"

section \<open>Lemmas\<close>

subsection \<open>One round\<close>

text \<open>The words of a key or a state as lists of bytes.\<close>

abbreviation (input) word_bytes :: "ulong32 \<Rightarrow> byte list" where
  "word_bytes \<equiv> STORE32H"

lemma store_xor: "STORE32H (x XOR y) = map2 (XOR) (STORE32H x) (STORE32H y)"
  by (simp add: STORE32H_def)

lemma store_word4: "STORE32H (word4 a b c d) = [a, b, c, d]"
  by (simp add: STORE32H_def)

lemma sub_shift_bytes: "store_state (enc_round te_last s [0, 0, 0, 0]) = shift_rows (sub_bytes (store_state s))"
  by (cases s) (simp add: te_last_bytes store_word4 sub_byte_sbox shift_rows_def sub_bytes_def STORE32H_def upt_conv_Cons)

lemma te_mix_column: "STORE32H (te a b c d) = mix_column (STORE32H (te_last a b c d))"
  by (simp add: te_def te_last_bytes te_columns store_xor store_word4 mix_column_def sub_byte_sbox xor.assoc xor.left_commute xor.commute)

lemma store_add_key:
  assumes "4 * Suc r \<le> length k"
  shows "store_state (add_key s (round_key k r)) = add_round_key (store_state s) (map STORE32H k) r"
proof -
  have "4 \<le> length (drop (4 * r) k)" using assms by simp
  then obtain k0 k1 k2 k3 ks where k: "drop (4 * r) k = k0 # k1 # k2 # k3 # ks"
    by (rule four_elements)
  show ?thesis
    by (cases s) (simp add: round_key_def add_round_key_def k drop_map store_xor STORE32H_def)
qed

lemma enc_round_zero: "enc_round f s k = add_key (enc_round f s [0, 0, 0, 0]) k"
  by (cases s) simp

lemma mixed_bytes: "store_state (enc_round te s [0, 0, 0, 0]) = mix_columns (shift_rows (sub_bytes (store_state s)))"
proof -
  obtain s0 s1 s2 s3 where s: "s = (s0, s1, s2, s3)" by (cases s) auto
  have "shift_rows (sub_bytes (store_state s)) = store_state (enc_round te_last s [0, 0, 0, 0])"
    by (rule sub_shift_bytes [symmetric])
  then show ?thesis
    by (simp add: s mix_columns_def te_mix_column upt_conv_Cons) (simp add: STORE32H_def)
qed

lemma enc_round_bytes:
  assumes "4 * Suc r \<le> length k"
  shows "store_state (enc_round te s (round_key k r)) = fips_round (map STORE32H k) (store_state s) r"
  unfolding enc_round_zero [of te s "round_key k r"] store_add_key [OF assms] fips_round_def mixed_bytes ..

lemma rounds_bytes:
  assumes "\<And>r. r \<in> set rs \<Longrightarrow> 4 * Suc r \<le> length k"
  shows "store_state (foldl (enc_round te) s (map (round_key k) rs)) = foldl (fips_round (map STORE32H k)) (store_state s) rs"
  using assms by (induction rs arbitrary: s) (simp_all add: enc_round_bytes)

lemma store_load: "length b = 16 \<Longrightarrow> 4 \<le> length k \<Longrightarrow> store_state (load_state b k) = add_round_key b (map STORE32H k) 0"
proof -
  assume b: "length b = 16" and k: "4 \<le> length k"
  let ?s = "(LOAD32H b, LOAD32H (drop 4 b), LOAD32H (drop 8 b), LOAD32H (drop 12 b))"
  have "store_state ?s = b"
    using store_loaded [OF b, of "[0, 0, 0, 0]"] by (simp add: load_state_def)
  then show ?thesis using store_add_key [of 0 k ?s] k by (simp add: load_state_def round_key_def)
qed

lemma encrypt_fips:
  assumes "key_ok k" and "length pt = 16"
  shows "rijndael_ecb_encrypt k pt = Inr (fips_cipher (map STORE32H (eK k)) (Nr k) pt)"
proof -
  have len: "length (eK k) = 4 * Suc (Nr k)" "0 < Nr k" using assms(1) by (auto simp: key_ok_def)
  have "store_state (foldl (enc_round te) (load_state pt (eK k)) (map (round_key (eK k)) [1..<Nr k])) =
      foldl (fips_round (map STORE32H (eK k))) (store_state (load_state pt (eK k))) [1..<Nr k]"
    using len by (intro rounds_bytes) auto
  then show ?thesis
    using len by (simp add: encrypt_fold [OF assms(1)] store_add_key aes_rounds.sub_shift_def sub_shift_bytes
        store_load assms(2) fips_cipher_def)
qed

subsection \<open>Key expansion\<close>

lemma expand_add: "expand nk (a + b) w = expand nk b (expand nk a w)"
  by (induction a arbitrary: w) simp_all

lemma setup_mix_bytes: "STORE32H (setup_mix x) = sub_bytes (rotate1 (STORE32H x))"
proof -
  have "setup_mix x = word4 (sub_byte (byte_of x 2)) (sub_byte (byte_of x 1)) (sub_byte (byte_of x 0)) (sub_byte (byte_of x 3))"
    unfolding setup_mix_def lookup_te4 lookup_te4_0 word4_as_xor ..
  then show ?thesis by (simp add: store_word4 sub_bytes_def STORE32H_def sub_byte_sbox)
qed

lemma rotated_bytes: "byte_of (RORc x 8) 3 = byte_of x 0" "byte_of (RORc x 8) 2 = byte_of x 3"
    "byte_of (RORc x 8) 1 = byte_of x 2" "byte_of (RORc x 8) 0 = byte_of x 1"
  by (rule bit_word_eqI; auto simp: byte_of_def RORc_def bit_simps dest: bit_imp_le_length)+

lemma rotated_words: "rotate1 (STORE32H (RORc x 8)) = STORE32H x"
  by (simp add: STORE32H_def rotated_bytes [simplified])

lemma rcon_val_numeral: "rcon_val (numeral v) = xtime (rcon_val (pred_numeral v))"
  by (simp add: numeral_eq_Suc)

lemma rcon_bytes: "i < 10 \<Longrightarrow> STORE32H (rcon ! i) = [rcon_byte (i + 1), 0, 0, 0]"
proof -
  have "\<forall>i \<in> set [0..<10]. STORE32H (rcon ! i) = [rcon_byte (i + 1), 0, 0, 0]"
    by (simp add: upt_conv_Cons STORE32H_def rcon_def rcon_byte_def byte_of_def rcon_val_numeral xtime_def)
  then show "i < 10 \<Longrightarrow> ?thesis" by simp
qed

lemma expand_numeral: "expand nk (numeral v) w = expand nk (pred_numeral v) (w @ [next_word nk w])"
  by (simp add: numeral_eq_Suc)

lemma next_word_append:
  assumes "length pre = nk * i" and "length xs = nk + j" and "j < nk"
  shows "next_word nk (pre @ xs) = map2 (XOR) (xs ! j)
    (if j = 0 then map2 (XOR) (sub_bytes (rotate1 (xs ! (nk + j - 1)))) [rcon_byte (i + 1), 0, 0, 0]
     else if nk > 6 \<and> j = 4 then sub_bytes (xs ! (nk + j - 1)) else xs ! (nk + j - 1))"
proof -
  have len: "length (pre @ xs) = nk * (i + 1) + j" using assms by simp
  have m: "length (pre @ xs) mod nk = j" and d: "j = 0 \<Longrightarrow> length (pre @ xs) div nk = i + 1"
    unfolding len using assms(3) by (simp_all only: mod_mult_self4 div_mult_self4 mod_less) simp
  have n: "(pre @ xs) ! (length (pre @ xs) - nk) = xs ! j"
    "(pre @ xs) ! (length (pre @ xs) - 1) = xs ! (nk + j - 1)"
    using assms by (auto simp: nth_append)
  show ?thesis
    unfolding next_word_def Let_def m n by (cases "j = 0") (simp_all only: d if_True if_False simp_thms)
qed

text \<open>The words of one iteration after the \<open>nk\<close> words before it.\<close>

fun next_words :: "nat \<Rightarrow> nat \<Rightarrow> nat \<Rightarrow> nat \<Rightarrow> byte list list \<Rightarrow> byte list list" where
  "next_words nk i 0 j xs = xs"
| "next_words nk i (Suc n) j xs = next_words nk i n (j + 1) (xs @ [map2 (XOR) (xs ! j)
     (if j = 0 then map2 (XOR) (sub_bytes (rotate1 (xs ! (nk + j - 1)))) [rcon_byte (i + 1), 0, 0, 0]
      else if nk > 6 \<and> j = 4 then sub_bytes (xs ! (nk + j - 1)) else xs ! (nk + j - 1))])"

lemma expand_next_words:
  "length pre = nk * i \<Longrightarrow> length xs = nk + j \<Longrightarrow> n + j \<le> nk \<Longrightarrow> expand nk n (pre @ xs) = pre @ next_words nk i n j xs"
proof (induction n arbitrary: j xs)
  case (Suc n)
  then show ?case using next_word_append [of pre nk i xs j] Suc.IH [of "xs @ [next_word nk (pre @ xs)]" "j + 1"]
    by (simp del: One_nat_def)
qed simp

lemma list_of_length:
  "length xs = 4 \<Longrightarrow> \<exists>a b c d. xs = [a, b, c, d]"
  "length xs = 6 \<Longrightarrow> \<exists>a b c d e f. xs = [a, b, c, d, e, f]"
  "length xs = 8 \<Longrightarrow> \<exists>a b c d e f g h. xs = [a, b, c, d, e, f, g, h]"
  by (auto simp: numeral_eq_Suc length_Suc_conv)

lemma map2_xor_assoc: "map2 (XOR) (map2 (XOR) a b) c = map2 (XOR) a (map2 (XOR) b c)" for a b c :: "byte list"
proof (induction a arbitrary: b c)
  case (Cons x a)
  then show ?case by (cases b; cases c) (simp_all add: xor.assoc)
qed simp

lemma next_words_numeral: "next_words nk i (numeral v) j xs = next_words nk i (pred_numeral v) (j + 1) (xs @ [map2 (XOR) (xs ! j)
     (if j = 0 then map2 (XOR) (sub_bytes (rotate1 (xs ! (nk + j - 1)))) [rcon_byte (i + 1), 0, 0, 0]
      else if nk > 6 \<and> j = 4 then sub_bytes (xs ! (nk + j - 1)) else xs ! (nk + j - 1))])"
  by (simp add: numeral_eq_Suc)

lemmas sched_simps = next_words_numeral store_xor setup_mix_bytes rotated_words rcon_bytes Let_def map2_xor_assoc

lemma sched16_next:
  assumes "length rk = 4" and "i < 10"
  shows "next_words 4 i (length (sched16 rk i)) 0 (map STORE32H rk) = map STORE32H (rk @ sched16 rk i)"
proof -
  obtain a b c d where rk: "rk = [a, b, c, d]" using list_of_length(1) [OF assms(1)] by blast
  show ?thesis using assms(2) by (simp add: rk sched16_def sched_simps)
qed

lemma sched24_next:
  assumes "length rk = 6" and "i < 8"
  shows "next_words 6 i (length (sched24 rk i)) 0 (map STORE32H rk) = map STORE32H (rk @ sched24 rk i)"
proof -
  obtain a b c d e f where rk: "rk = [a, b, c, d, e, f]" using list_of_length(2) [OF assms(1)] by blast
  show ?thesis using assms(2) by (simp add: rk sched24_def sched_simps)
qed

lemma sched32_next:
  assumes "length rk = 8" and "i < 7"
  shows "next_words 8 i (length (sched32 rk i)) 0 (map STORE32H rk) = map STORE32H (rk @ sched32 rk i)"
proof -
  obtain a b c d e f g h where rk: "rk = [a, b, c, d, e, f, g, h]" using list_of_length(3) [OF assms(1)] by blast
  show ?thesis using assms(2) by (simp add: rk sched32_def sched_simps)
qed

lemma sched_loop_expand:
  assumes nxt: "\<And>rk i. length rk = step \<Longrightarrow> i < N \<Longrightarrow>
      next_words step i (length (sched rk i)) 0 (map STORE32H rk) = map STORE32H (rk @ sched rk i)"
    and len: "\<And>rk i. length (sched rk i) = (if i + 1 = N then 4 else step)" and "4 \<le> step"
  shows "n + i = N \<Longrightarrow> 0 < n \<Longrightarrow> length rk = step \<Longrightarrow> length pre = step * i \<Longrightarrow>
    pre @ map STORE32H (sched_loop sched step n i rk) = expand step (step * n + 4 - step) (pre @ map STORE32H rk)"
proof (induction n arbitrary: i rk pre)
  case (Suc n)
  have grow: "expand step (length (sched rk i)) (pre @ map STORE32H rk) = pre @ map STORE32H (rk @ sched rk i)"
    using Suc.prems len [of rk i] \<open>4 \<le> step\<close> nxt [of rk i]
    by (subst expand_next_words) simp_all
  show ?case
  proof (cases n)
    case 0
    then show ?thesis using grow Suc.prems len [of rk i] by simp
  next
    case (Suc m)
    have l: "length (sched rk i) = step" using len [of rk i] Suc.prems Suc by simp
    have "step * Suc n + 4 - step = step + (step * n + 4 - step)" using Suc by simp
    then have "expand step (step * Suc n + 4 - step) (pre @ map STORE32H rk) =
        expand step (step * n + 4 - step) ((pre @ map STORE32H rk) @ map STORE32H (sched rk i))"
      using grow l by (simp only: expand_add) simp
    also have "\<dots> = (pre @ map STORE32H rk) @ map STORE32H (sched_loop sched step n (i + 1) (sched rk i))"
      using Suc.IH [of "i + 1" "sched rk i" "pre @ map STORE32H rk"] Suc.prems Suc l by simp
    finally show ?thesis using Suc.prems l by simp
  qed
qed simp

lemma first_words:
  "4 * nk = length key \<Longrightarrow>
     map STORE32H (map (\<lambda>i. LOAD32H (drop (4 * i) key)) [0..<nk]) = map (\<lambda>i. take 4 (drop (4 * i) key)) [0..<nk]"
  by (simp add: store_load_word)

lemma forward_key_fips:
  assumes "length key = 16 \<or> length key = 24 \<or> length key = 32"
  shows "map STORE32H (forward_key key) = key_expansion key"
proof -
  have k16: "map STORE32H (sched_loop sched16 4 10 0 rk) = expand 4 40 (map STORE32H rk)" if "length rk = 4" for rk
    using sched_loop_expand [OF sched16_next sched_lengths(1), of 10 0 rk "[]"] that by (simp del: sched_loop.simps)
  have k24: "map STORE32H (sched_loop sched24 6 8 0 rk) = expand 6 46 (map STORE32H rk)" if "length rk = 6" for rk
    using sched_loop_expand [OF sched24_next sched_lengths(2), of 8 0 rk "[]"] that by (simp del: sched_loop.simps)
  have k32: "map STORE32H (sched_loop sched32 8 7 0 rk) = expand 8 52 (map STORE32H rk)" if "length rk = 8" for rk
    using sched_loop_expand [OF sched32_next sched_lengths(3), of 7 0 rk "[]"] that by (simp del: sched_loop.simps)
  show ?thesis using assms first_words [of 4 key] first_words [of 6 key] first_words [of 8 key]
    by (auto simp: forward_key_def key_expansion_def Let_def k16 k24 k32 simp del: sched_loop.simps map_map)
qed

section \<open>Property\<close>

text \<open>
  C35: The table-driven AES computes the cipher of FIPS 197 (field arithmetic, substitution box,
  shifted rows, mixed columns, key expansion) for 16, 24 and 32-byte keys, and its decryption
  with the transformed key schedule inverts it on every block.
\<close>

theorem aes_is_fips_197:
  assumes "rijndael_setup key num_rounds = Inr skey" and "length pt = 16"
  shows "rijndael_ecb_encrypt skey pt = Inr (fips_aes key pt) \<and> rijndael_ecb_decrypt skey (fips_aes key pt) = Inr pt"
proof -
  have k: "key_ok skey" using assms(1) by (rule setup_key_ok)
  have len: "length key = 16 \<or> length key = 24 \<or> length key = 32"
    and "eK skey = forward_key key" and "Nr skey = 10 + (length key div 8 - 2) * 2"
    using assms(1) by (auto simp: rijndael_setup_def Let_def split: if_splits)
  moreover from len have "10 + (length key div 8 - 2) * 2 = length key div 4 + 6" by auto
  ultimately have "rijndael_ecb_encrypt skey pt = Inr (fips_aes key pt)"
    by (simp add: encrypt_fips [OF k assms(2)] fips_aes_def forward_key_fips)
  then show ?thesis using decrypt_encrypt [OF k assms(2)] by auto
qed

end
