(* ===== verification/MqttPacket.thy ===== *)
theory MqttPacket
  imports Prelude "HOL-Library.Monad_Syntax"
begin

text \<open>
  The packet layer of the MQTT client library, \<open>sharelibs/mqtt-c/source/MQTTPacket.c\<close>
  and \<open>MQTTPacketOut.c\<close>. A packet to be sent is the byte sequence handed to
  \<open>Socket_putdatas\<close>; packets are read from the bytes that have arrived on the
  connection, and a read past them is interrupted (\<open>TCPSOCKET_INTERRUPTED\<close>).
  \<open>None\<close> is an access outside the data of the packet. The persistence of packets is left out, its return code for an incoming
  QoS 2 message is an argument; the written lengths and message ids are not negative.

  Main results: the remaining length is decoded to what was encoded; a PUBLISH packet is
  read back as it was sent; the packets built in a buffer of a computed size fill it
  exactly; acknowledgements and QoS 1 and 2 messages that are too short are read past their
  end.
\<close>

section \<open>Definitions\<close>

abbreviation (input) TCPSOCKET_COMPLETE :: int where "TCPSOCKET_COMPLETE \<equiv> 0"
abbreviation (input) SOCKET_ERROR :: int where "SOCKET_ERROR \<equiv> - 1"
abbreviation (input) TCPSOCKET_INTERRUPTED :: int where "TCPSOCKET_INTERRUPTED \<equiv> - 22"
abbreviation (input) BAD_MQTT_PACKET :: int where "BAD_MQTT_PACKET \<equiv> - 4"

datatype msgTypes = CONNECT | CONNACK | PUBLISH | PUBACK | PUBREC | PUBREL | PUBCOMP | SUBSCRIBE | SUBACK
  | UNSUBSCRIBE | UNSUBACK | PINGREQ | PINGRESP | DISCONNECT

fun msg_code :: "msgTypes \<Rightarrow> nat" where
  "msg_code CONNECT = 1" | "msg_code CONNACK = 2" | "msg_code PUBLISH = 3" | "msg_code PUBACK = 4"
| "msg_code PUBREC = 5" | "msg_code PUBREL = 6" | "msg_code PUBCOMP = 7" | "msg_code SUBSCRIBE = 8"
| "msg_code SUBACK = 9" | "msg_code UNSUBSCRIBE = 10" | "msg_code UNSUBACK = 11" | "msg_code PINGREQ = 12"
| "msg_code PINGRESP = 13" | "msg_code DISCONNECT = 14"

text \<open>The union \<open>Header\<close>: the bit fields and the byte they share.\<close>

record Header =
  hdr_type :: nat
  hdr_dup :: bool
  hdr_qos :: nat
  hdr_retain :: bool

definition header_byte :: "Header \<Rightarrow> byte" where
  "header_byte h = word_of_nat (16 * (hdr_type h mod 16) + 8 * of_bool (hdr_dup h) + 2 * (hdr_qos h mod 4) + of_bool (hdr_retain h))"

definition header_bits :: "byte \<Rightarrow> Header" where
  "header_bits b = \<lparr>hdr_type = unat b div 16, hdr_dup = odd (unat b div 8), hdr_qos = unat b div 2 mod 4, hdr_retain = odd (unat b)\<rparr>"

subsection \<open>Numbers and strings\<close>

function MQTTPacket_encode :: "nat \<Rightarrow> byte list" where
  "MQTTPacket_encode len =
     (if len div 128 > 0 then word_of_nat (len mod 128 + 128) # MQTTPacket_encode (len div 128)
      else [word_of_nat (len mod 128)])"
  by pat_completeness auto
termination
  by (relation "measure id") auto

declare MQTTPacket_encode.simps [simp del]

definition MAX_NO_OF_REMAINING_LENGTH_BYTES :: nat where "MAX_NO_OF_REMAINING_LENGTH_BYTES = 4"

text \<open>
  The loop of \<open>MQTTPacket_decode\<close>: bytes read, multiplier, value. The result is the
  completion code, the value and the input that is left.
\<close>

fun decode_loop :: "nat \<Rightarrow> nat \<Rightarrow> nat \<Rightarrow> byte list \<Rightarrow> int \<times> nat \<times> byte list" where
  "decode_loop len multiplier val [] =
     (if len + 1 > MAX_NO_OF_REMAINING_LENGTH_BYTES then (SOCKET_ERROR, val, []) else (TCPSOCKET_INTERRUPTED, val, []))"
| "decode_loop len multiplier val (c # inp) =
     (if len + 1 > MAX_NO_OF_REMAINING_LENGTH_BYTES then (SOCKET_ERROR, val, c # inp)
      else let val1 = val + (unat c mod 128) * multiplier
           in if unat c \<ge> 128 then decode_loop (len + 1) (multiplier * 128) val1 inp
              else (TCPSOCKET_COMPLETE, val1, inp))"

definition MQTTPacket_decode :: "byte list \<Rightarrow> int \<times> nat \<times> byte list" where
  "MQTTPacket_decode inp = decode_loop 0 1 0 inp"

definition readInt :: "byte list \<Rightarrow> (nat \<times> byte list) option" where
  "readInt data = (case data of a # b # rest \<Rightarrow> Some (256 * unat a + unat b, rest) | _ \<Rightarrow> None)"

definition readChar :: "byte list \<Rightarrow> (byte \<times> byte list) option" where
  "readChar data = (case data of c # rest \<Rightarrow> Some (c, rest) | [] \<Rightarrow> None)"

text \<open>The string (absent for NULL), its length and the data after it.\<close>

definition readUTFlen :: "byte list \<Rightarrow> byte list option \<times> byte list" where
  "readUTFlen data =
     (case readInt data of
        None \<Rightarrow> (None, data)
      | Some (len, rest) \<Rightarrow> if len \<le> length rest then (Some (take len rest), drop len rest) else (None, rest))"

definition readUTF :: "byte list \<Rightarrow> byte list option \<times> byte list" where
  "readUTF data = readUTFlen data"

definition writeChar :: "nat \<Rightarrow> byte list" where
  "writeChar c = [word_of_nat c]"

definition writeInt :: "nat \<Rightarrow> byte list" where
  "writeInt anInt = [word_of_nat (anInt div 256), word_of_nat (anInt mod 256)]"

definition writeUTF :: "byte list \<Rightarrow> byte list" where
  "writeUTF str = writeInt (length (c_bytes str)) @ c_bytes str"

definition writeData :: "byte list \<Rightarrow> byte list" where
  "writeData data = writeInt (length data) @ data"

subsection \<open>Sending\<close>

definition MQTTPacket_send :: "Header \<Rightarrow> byte list \<Rightarrow> byte list" where
  "MQTTPacket_send header buffer = header_byte header # MQTTPacket_encode (length buffer) @ buffer"

definition MQTTPacket_sends :: "Header \<Rightarrow> byte list list \<Rightarrow> byte list" where
  "MQTTPacket_sends header buffers = header_byte header # MQTTPacket_encode (sum_list (map length buffers)) @ concat buffers"

definition plain_header :: "msgTypes \<Rightarrow> Header" where
  "plain_header ty = \<lparr>hdr_type = msg_code ty, hdr_dup = False, hdr_qos = 0, hdr_retain = False\<rparr>"

definition MQTTPacket_send_disconnect :: "byte list" where
  "MQTTPacket_send_disconnect = MQTTPacket_send (plain_header DISCONNECT) []"

definition MQTTPacket_send_pingreq :: "byte list" where
  "MQTTPacket_send_pingreq = MQTTPacket_send (plain_header PINGREQ) []"

definition MQTTPacket_send_ack :: "msgTypes \<Rightarrow> nat \<Rightarrow> bool \<Rightarrow> byte list" where
  "MQTTPacket_send_ack ty msgid dup =
     MQTTPacket_send ((plain_header ty)\<lparr>hdr_dup := dup, hdr_qos := (if ty = PUBREL then 1 else 0)\<rparr>) (writeInt msgid)"

definition MQTTPacket_send_puback :: "nat \<Rightarrow> byte list" where
  "MQTTPacket_send_puback msgid = MQTTPacket_send_ack PUBACK msgid False"

definition MQTTPacket_send_pubrec :: "nat \<Rightarrow> byte list" where
  "MQTTPacket_send_pubrec msgid = MQTTPacket_send_ack PUBREC msgid False"

definition MQTTPacket_send_pubrel :: "nat \<Rightarrow> bool \<Rightarrow> byte list" where
  "MQTTPacket_send_pubrel msgid dup = MQTTPacket_send_ack PUBREL msgid dup"

definition MQTTPacket_send_pubcomp :: "nat \<Rightarrow> byte list" where
  "MQTTPacket_send_pubcomp msgid = MQTTPacket_send_ack PUBCOMP msgid False"

record Publish =
  pub_header :: Header
  pub_topic :: "byte list"
  pub_msgId :: nat
  pub_payload :: "byte list"

definition MQTTPacket_send_publish :: "Publish \<Rightarrow> bool \<Rightarrow> nat \<Rightarrow> bool \<Rightarrow> byte list" where
  "MQTTPacket_send_publish pack dup qos retained =
     (let header = \<lparr>hdr_type = msg_code PUBLISH, hdr_dup = dup, hdr_qos = qos, hdr_retain = retained\<rparr>;
          topic = c_bytes (pub_topic pack)
      in if qos > 0
         then MQTTPacket_sends header [writeInt (length topic), topic, writeInt (pub_msgId pack), pub_payload pack]
         else MQTTPacket_sends header [writeInt (length topic), topic, pub_payload pack])"

text \<open>A buffer of \<open>cap\<close> bytes that is written from its start; \<open>None\<close>: a write outside.\<close>

definition in_buffer :: "nat \<Rightarrow> byte list \<Rightarrow> byte list option" where
  "in_buffer cap bs = (if length bs \<le> cap then Some (take cap (bs @ replicate cap 0)) else None)"

text \<open>The loop over the topics, with the list of QoS values beside it; \<open>None\<close>: a missing QoS value.\<close>

fun subscribe_loop :: "byte list list \<Rightarrow> nat list \<Rightarrow> byte list option" where
  "subscribe_loop [] qoss = Some []"
| "subscribe_loop (t # topics) [] = None"
| "subscribe_loop (t # topics) (q # qoss) =
     map_option (\<lambda>bs. writeUTF t @ writeChar q @ bs) (subscribe_loop topics qoss)"

definition MQTTPacket_send_subscribe :: "byte list list \<Rightarrow> nat list \<Rightarrow> nat \<Rightarrow> bool \<Rightarrow> byte list option" where
  "MQTTPacket_send_subscribe topics qoss msgid dup = do {
     let header = \<lparr>hdr_type = msg_code SUBSCRIBE, hdr_dup = dup, hdr_qos = 1, hdr_retain = False\<rparr>;
     let datalen = 2 + length topics * 3 + sum_list (map (\<lambda>t. length (c_bytes t)) topics);
     pairs \<leftarrow> subscribe_loop topics qoss;
     data \<leftarrow> in_buffer datalen (writeInt msgid @ pairs);
     Some (MQTTPacket_send header data) }"

definition MQTTPacket_send_unsubscribe :: "byte list list \<Rightarrow> nat \<Rightarrow> bool \<Rightarrow> byte list option" where
  "MQTTPacket_send_unsubscribe topics msgid dup = do {
     let header = \<lparr>hdr_type = msg_code UNSUBSCRIBE, hdr_dup = dup, hdr_qos = 1, hdr_retain = False\<rparr>;
     let datalen = 2 + length topics * 2 + sum_list (map (\<lambda>t. length (c_bytes t)) topics);
     data \<leftarrow> in_buffer datalen (writeInt msgid @ concat (map writeUTF topics));
     Some (MQTTPacket_send header data) }"

record willMessages =
  will_topic :: "byte list"
  will_payload :: "byte list"
  will_retained :: bool
  will_qos_level :: nat

record Clients =
  clientID :: "byte list"
  cl_username :: "byte list option"
  cl_password :: "byte list option"
  cl_cleansession :: bool
  cl_keepAliveInterval :: nat
  cl_will :: "willMessages option"

definition connect_flags :: "Clients \<Rightarrow> nat" where
  "connect_flags client =
     2 * of_bool (cl_cleansession client) +
     (case cl_will client of
        None \<Rightarrow> 0
      | Some w \<Rightarrow> 4 + 8 * (will_qos_level w mod 4) + 32 * of_bool (will_retained w)) +
     64 * of_bool (cl_password client \<noteq> None) + 128 * of_bool (cl_username client \<noteq> None)"

definition opt_bytes :: "('a \<Rightarrow> byte list) \<Rightarrow> 'a option \<Rightarrow> byte list" where
  "opt_bytes f x = (case x of None \<Rightarrow> [] | Some a \<Rightarrow> f a)"

definition ascii :: "string \<Rightarrow> byte list" where
  "ascii s = map (\<lambda>c. word_of_nat (chr_code c)) s"

text \<open>\<open>None\<close> in the result of the inner option: an unknown version, nothing is sent.\<close>

definition MQTTPacket_send_connect :: "Clients \<Rightarrow> nat \<Rightarrow> byte list option option" where
  "MQTTPacket_send_connect client MQTTVersion =
     (let len = (if MQTTVersion = 3 then 12 else 10) + length (c_bytes (clientID client)) + 2
            + (case cl_will client of None \<Rightarrow> 0 | Some w \<Rightarrow> length (c_bytes (will_topic w)) + 2 + length (will_payload w) + 2)
            + (case cl_username client of None \<Rightarrow> 0 | Some u \<Rightarrow> length (c_bytes u) + 2)
            + (case cl_password client of None \<Rightarrow> 0 | Some p \<Rightarrow> length p + 2);
          proto = (if MQTTVersion = 3 then Some (writeUTF (ascii ''MQIsdp'') @ writeChar 3)
                   else if MQTTVersion = 4 then Some (writeUTF (ascii ''MQTT'') @ writeChar 4)
                   else None)
      in case proto of
           None \<Rightarrow> Some None
         | Some p \<Rightarrow> do {
             data \<leftarrow> in_buffer len (p @ writeChar (connect_flags client) @ writeInt (cl_keepAliveInterval client) @
               writeUTF (clientID client) @
               opt_bytes (\<lambda>w. writeUTF (will_topic w) @ writeData (will_payload w)) (cl_will client) @
               opt_bytes writeUTF (cl_username client) @ opt_bytes writeData (cl_password client));
             Some (Some (MQTTPacket_send (plain_header CONNECT) data)) })"

subsection \<open>Receiving\<close>

datatype packet =
    Header_only byte
  | Connack Header byte byte
  | Publish_packet Publish
  | Ack Header nat
  | Suback Header nat "nat list"

text \<open>The functions of the table \<open>new_packets\<close>; the inner option is the NULL they return.\<close>

definition MQTTPacket_header_only :: "byte \<Rightarrow> byte list \<Rightarrow> packet option option" where
  "MQTTPacket_header_only aHeader data = Some (Some (Header_only aHeader))"

definition MQTTPacket_connack :: "byte \<Rightarrow> byte list \<Rightarrow> packet option option" where
  "MQTTPacket_connack aHeader data = do {
     (flags, d1) \<leftarrow> readChar data;
     (rc, d2) \<leftarrow> readChar d1;
     Some (Some (Connack (header_bits aHeader) flags rc)) }"

definition MQTTPacket_publish :: "byte \<Rightarrow> byte list \<Rightarrow> packet option option" where
  "MQTTPacket_publish aHeader data =
     (case readUTFlen data of
        (None, _) \<Rightarrow> Some None
      | (Some t, d1) \<Rightarrow> do {
          (msgId, d2) \<leftarrow> (if hdr_qos (header_bits aHeader) > 0 then readInt d1 else Some (0, d1));
          Some (Some (Publish_packet \<lparr>pub_header = header_bits aHeader, pub_topic = t, pub_msgId = msgId, pub_payload = d2\<rparr>)) })"

definition MQTTPacket_ack :: "byte \<Rightarrow> byte list \<Rightarrow> packet option option" where
  "MQTTPacket_ack aHeader data = do {
     (msgId, d1) \<leftarrow> readInt data;
     Some (Some (Ack (header_bits aHeader) msgId)) }"

definition MQTTPacket_suback :: "byte \<Rightarrow> byte list \<Rightarrow> packet option option" where
  "MQTTPacket_suback aHeader data = do {
     (msgId, d1) \<leftarrow> readInt data;
     Some (Some (Suback (header_bits aHeader) msgId (map unat d1))) }"

definition new_packets :: "nat \<Rightarrow> (byte \<Rightarrow> byte list \<Rightarrow> packet option option) option" where
  "new_packets ptype =
     (if ptype = 2 then Some MQTTPacket_connack
      else if ptype = 3 then Some MQTTPacket_publish
      else if ptype \<in> {4, 5, 6, 7, 11} then Some MQTTPacket_ack
      else if ptype = 9 then Some MQTTPacket_suback
      else if ptype \<in> {12, 13, 14} then Some MQTTPacket_header_only
      else None)"

text \<open>
  \<open>MQTTPacket_Factory\<close> on the bytes that have arrived: the error code, the packet and
  the bytes that follow. \<open>put_rc\<close> is the result of \<open>MQTTPersistence_put\<close>.
\<close>

definition MQTTPacket_Factory :: "int \<Rightarrow> byte list \<Rightarrow> (int \<times> packet option \<times> byte list) option" where
  "MQTTPacket_Factory put_rc inp =
     (case inp of
        [] \<Rightarrow> Some (TCPSOCKET_INTERRUPTED, None, [])
      | header # inp1 \<Rightarrow>
          (case MQTTPacket_decode inp1 of
             (rc, remaining_length, inp2) \<Rightarrow>
               if rc \<noteq> TCPSOCKET_COMPLETE then Some (rc, None, inp2)
               else if length inp2 < remaining_length then Some (TCPSOCKET_INTERRUPTED, None, [])
               else let data = take remaining_length inp2; rest = drop remaining_length inp2;
                        ptype = hdr_type (header_bits header)
                    in case (if ptype < 1 \<or> ptype > 14 then None else new_packets ptype) of
                         None \<Rightarrow> Some (TCPSOCKET_COMPLETE, None, rest)
                       | Some f \<Rightarrow>
                           (case f header data of
                              None \<Rightarrow> None
                            | Some None \<Rightarrow> Some (BAD_MQTT_PACKET, None, rest)
                            | Some (Some pack) \<Rightarrow>
                                Some (if ptype = 3 \<and> hdr_qos (header_bits header) = 2 then put_rc else TCPSOCKET_COMPLETE,
                                      Some pack, rest))))"

section \<open>Lemmas\<close>

lemma unat_byte: "n < 256 \<Longrightarrow> unat (word_of_nat n :: byte) = n"
  by (simp add: unat_of_nat)

lemma header_byte_bits:
  assumes "hdr_type h < 16" and "hdr_qos h < 4"
  shows "header_bits (header_byte h) = h"
proof -
  let ?n = "16 * hdr_type h + 8 * of_bool (hdr_dup h) + 2 * hdr_qos h + of_bool (hdr_retain h)"
  have "?n < 256" using assms by (cases "hdr_dup h"; cases "hdr_retain h") simp_all
  then have "unat (word_of_nat ?n :: byte) = ?n" by (rule unat_byte)
  moreover have "header_byte h = word_of_nat ?n" unfolding header_byte_def using assms by (simp only: mod_less)
  ultimately have u: "unat (header_byte h) = ?n" by (simp only:)
  have "?n div 16 = hdr_type h" "?n div 2 mod 4 = hdr_qos h" "odd (?n div 8) = hdr_dup h" "odd ?n = hdr_retain h"
    using assms by (cases "hdr_dup h"; cases "hdr_retain h"; simp; presburger)+
  then show ?thesis unfolding header_bits_def u by simp
qed

lemma decode_loop_encode:
  "len < 4 \<Longrightarrow> n < 128 ^ (4 - len) \<Longrightarrow>
     decode_loop len m v (MQTTPacket_encode n @ rest) = (TCPSOCKET_COMPLETE, v + n * m, rest)"
proof (induction n arbitrary: len m v rule: MQTTPacket_encode.induct)
  case (1 n)
  show ?case
  proof (cases "n div 128 > 0")
    case True
    have "128 ^ 1 \<le> n" using True by (simp add: div_greater_zero_iff)
    then have l: "len < 3" using 1(2,3) by (cases "len = 3") auto
    have "128 ^ (4 - len) = 128 * (128 :: nat) ^ (4 - Suc len)" using l by (simp flip: power_Suc add: Suc_diff_le)
    then have "n div 128 < 128 ^ (4 - Suc len)" using 1(3) by (simp add: div_less_iff_less_mult mult.commute)
    then have "decode_loop (Suc len) (m * 128) (v + n mod 128 * m) (MQTTPacket_encode (n div 128) @ rest) =
        (TCPSOCKET_COMPLETE, v + n mod 128 * m + n div 128 * (m * 128), rest)"
      using 1(1) [OF True, of "Suc len"] l by simp
    moreover have "n mod 128 * m + n div 128 * (m * 128) = n * m"
      by (metis (no_types, lifting) add.commute add_mult_distrib mult.assoc mult.commute div_mult_mod_eq)
    moreover have "unat (word_of_nat (n mod 128 + 128) :: byte) = n mod 128 + 128" by (rule unat_byte) (simp add: less_imp_le)
    ultimately show ?thesis using True l
      by (subst MQTTPacket_encode.simps) (simp add: MAX_NO_OF_REMAINING_LENGTH_BYTES_def add.assoc)
  next
    case False
    then have n: "n < 128" by (simp add: div_eq_0_iff)
    then have "unat (word_of_nat n :: byte) = n" by (intro unat_byte) simp
    then show ?thesis using n False 1(2)
      by (subst MQTTPacket_encode.simps) (simp add: MAX_NO_OF_REMAINING_LENGTH_BYTES_def)
  qed
qed

lemma decode_encode:
  "n < 268435456 \<Longrightarrow> MQTTPacket_decode (MQTTPacket_encode n @ rest) = (TCPSOCKET_COMPLETE, n, rest)"
  using decode_loop_encode [of 0 n 1 0 rest] by (simp add: MQTTPacket_decode_def)

lemma encode_length: "n < 128 ^ k \<Longrightarrow> 0 < k \<Longrightarrow> length (MQTTPacket_encode n) \<le> k"
proof (induction n arbitrary: k rule: MQTTPacket_encode.induct)
  case (1 n)
  show ?case
  proof (cases "n div 128 > 0")
    case True
    then obtain j where k: "k = Suc j" "0 < j" using 1(2,3) by (cases k; cases "k - 1") (auto simp: div_greater_zero_iff)
    then have "n div 128 < 128 ^ j" using 1(2) by (simp add: div_less_iff_less_mult mult.commute)
    then show ?thesis using 1(1) [OF True, of j] True k by (subst MQTTPacket_encode.simps) simp
  next
    case False
    then show ?thesis using 1(3) by (subst MQTTPacket_encode.simps) simp
  qed
qed

lemma readInt_writeInt: "n < 65536 \<Longrightarrow> readInt (writeInt n @ rest) = Some (n, rest)"
  by (simp add: readInt_def writeInt_def unat_byte div_less_iff_less_mult)

lemma length_writes [simp]:
  "length (writeInt n) = 2" "length (writeChar c) = 1" "length (writeUTF s) = length (c_bytes s) + 2" "length (writeData d) = length d + 2"
  by (simp_all add: writeInt_def writeChar_def writeUTF_def writeData_def)

lemma readUTFlen_written: "length s < 65536 \<Longrightarrow> readUTFlen (writeInt (length s) @ s @ rest) = (Some s, rest)"
  by (simp add: readUTFlen_def readInt_writeInt)

lemma in_buffer_exact: "length bs = cap \<Longrightarrow> in_buffer cap bs = Some bs"
  by (simp add: in_buffer_def)

text \<open>A packet with a known reader, at the front of the input.\<close>

lemma factory_reads:
  assumes "length data < 268435456" and "hdr_type h < 16" and "hdr_qos h < 4" and "new_packets (hdr_type h) = Some f"
    and "f (header_byte h) data = Some (Some p)"
  shows "MQTTPacket_Factory put_rc (MQTTPacket_send h data @ rest) =
    Some (if hdr_type h = 3 \<and> hdr_qos h = 2 then put_rc else TCPSOCKET_COMPLETE, Some p, rest)"
proof -
  have "\<not> (hdr_type h < 1 \<or> hdr_type h > 14)" using assms(4) by (auto simp: new_packets_def split: if_splits)
  then show ?thesis
    using assms(4,5) decode_encode [OF assms(1), of "data @ rest"]
    by (simp add: MQTTPacket_Factory_def MQTTPacket_send_def header_byte_bits [OF assms(2,3)] Let_def)
qed

lemma sends_concat: "MQTTPacket_sends h bs = MQTTPacket_send h (concat bs)"
  by (simp add: MQTTPacket_sends_def MQTTPacket_send_def length_concat)

lemma factory_publish:
  assumes "0 \<notin> set (pub_topic pack)" and "length (pub_topic pack) < 65536" and "pub_msgId pack < 65536" and "qos < 4"
    and "length (pub_topic pack) + length (pub_payload pack) + 4 < 268435456"
  shows "MQTTPacket_Factory put_rc (MQTTPacket_send_publish pack dup qos retained @ rest) =
    Some (if qos = 2 then put_rc else TCPSOCKET_COMPLETE,
      Some (Publish_packet (pack\<lparr>pub_header := \<lparr>hdr_type = 3, hdr_dup = dup, hdr_qos = qos, hdr_retain = retained\<rparr>,
        pub_msgId := (if qos > 0 then pub_msgId pack else 0)\<rparr>)), rest)"
proof -
  let ?h = "\<lparr>hdr_type = 3, hdr_dup = dup, hdr_qos = qos, hdr_retain = retained\<rparr>"
  let ?id = "if qos > 0 then writeInt (pub_msgId pack) else []"
  let ?data = "writeInt (length (pub_topic pack)) @ pub_topic pack @ ?id @ pub_payload pack"
  have send: "MQTTPacket_send_publish pack dup qos retained = MQTTPacket_send ?h ?data"
    using assms(1) by (simp add: MQTTPacket_send_publish_def sends_concat Let_def c_bytes_id)
  have hb: "header_bits (header_byte ?h) = ?h" using assms(4) by (simp add: header_byte_bits)
  have "MQTTPacket_publish (header_byte ?h) ?data = Some (Some (Publish_packet (pack\<lparr>pub_header := ?h,
      pub_msgId := (if qos > 0 then pub_msgId pack else 0)\<rparr>)))"
    using readUTFlen_written [OF assms(2), of "?id @ pub_payload pack"] readInt_writeInt [OF assms(3)]
    by (cases pack) (simp add: MQTTPacket_publish_def hb)
  then show ?thesis
    unfolding send using assms(4,5) factory_reads [of ?data ?h MQTTPacket_publish] by (simp add: new_packets_def)
qed

section \<open>Properties\<close>

theorem remaining_length_round_trip:
  assumes "n < 268435456"
  shows "MQTTPacket_decode (MQTTPacket_encode n @ rest) = (TCPSOCKET_COMPLETE, n, rest) \<and> length (MQTTPacket_encode n) \<le> 4"
  using decode_encode encode_length [of n 4] assms by simp

text \<open>
  C26: A PUBLISH packet sent by MQTTPacket_send_publish (topic without a zero byte and below
  65536 bytes, QoS and message id within their fields, body below the protocol limit) is read
  back by MQTTPacket_Factory with its topic, payload, flags and, for QoS above 0, message id,
  and the bytes after it are left in the input.
\<close>

theorem publish_round_trip:
  assumes "0 \<notin> set (pub_topic pack)" and "length (pub_topic pack) < 65536" and "pub_msgId pack < 65536" and "qos < 4"
    and "length (pub_topic pack) + length (pub_payload pack) + 4 < 268435456"
  shows "MQTTPacket_Factory put_rc (MQTTPacket_send_publish pack dup qos retained @ rest) =
    Some (if qos = 2 then put_rc else TCPSOCKET_COMPLETE,
      Some (Publish_packet (pack\<lparr>pub_header := \<lparr>hdr_type = 3, hdr_dup = dup, hdr_qos = qos, hdr_retain = retained\<rparr>,
        pub_msgId := (if qos > 0 then pub_msgId pack else 0)\<rparr>)), rest)"
  using assms by (rule factory_publish)

lemma protocol_name_lengths: "length (c_bytes (ascii ''MQTT'')) = 4" "length (c_bytes (ascii ''MQIsdp'')) = 6"
  by (simp_all add: c_bytes_def ascii_def chr_code_def)

text \<open>
  C27: For both protocol versions the fields of a CONNECT packet fill the buffer that
  MQTTPacket_send_connect allocates exactly: nothing is written outside and no byte stays
  undefined.
\<close>

theorem connect_fills_buffer:
  assumes "MQTTVersion = 3 \<or> MQTTVersion = 4"
  shows "\<exists>body. MQTTPacket_send_connect client MQTTVersion = Some (Some (MQTTPacket_send (plain_header CONNECT) body)) \<and>
    body = writeUTF (ascii (if MQTTVersion = 3 then ''MQIsdp'' else ''MQTT'')) @ writeChar MQTTVersion @
      writeChar (connect_flags client) @ writeInt (cl_keepAliveInterval client) @ writeUTF (clientID client) @
      opt_bytes (\<lambda>w. writeUTF (will_topic w) @ writeData (will_payload w)) (cl_will client) @
      opt_bytes writeUTF (cl_username client) @ opt_bytes writeData (cl_password client)"
  using assms
  by (auto simp: MQTTPacket_send_connect_def Let_def opt_bytes_def in_buffer_exact protocol_name_lengths split: option.split)

lemma subscribe_loop_pairs:
  "length qoss = length topics \<Longrightarrow>
     subscribe_loop topics qoss = Some (concat (map (\<lambda>(t, q). writeUTF t @ writeChar q) (zip topics qoss)))"
  by (induction topics qoss rule: subscribe_loop.induct) auto

theorem subscribe_fills_buffer:
  assumes "length qoss = length topics"
  shows "MQTTPacket_send_subscribe topics qoss msgid dup =
    Some (MQTTPacket_send \<lparr>hdr_type = 8, hdr_dup = dup, hdr_qos = 1, hdr_retain = False\<rparr>
      (writeInt msgid @ concat (map (\<lambda>(t, q). writeUTF t @ writeChar q) (zip topics qoss))))"
proof -
  have "length (concat (map (\<lambda>(t, q). writeUTF t @ writeChar q) (zip topics qoss))) =
      length topics * 3 + sum_list (map (\<lambda>t. length (c_bytes t)) topics)"
    using assms by (induction topics qoss rule: list_induct2') auto
  then show ?thesis using assms
    by (simp add: MQTTPacket_send_subscribe_def subscribe_loop_pairs in_buffer_exact)
qed

theorem short_ack_overread:
  assumes "length data < 2" and "ty \<in> {PUBACK, PUBREC, PUBREL, PUBCOMP, UNSUBACK}"
  shows "MQTTPacket_Factory put_rc (MQTTPacket_send (plain_header ty) data @ rest) = None"
proof -
  have "readInt data = None" using assms(1) by (auto simp: readInt_def split: list.split)
  then show ?thesis
    using assms decode_encode [of "length data" "data @ rest"] header_byte_bits [of "plain_header ty"]
    by (auto simp: MQTTPacket_Factory_def MQTTPacket_send_def plain_header_def new_packets_def MQTTPacket_ack_def Let_def)
qed

end
