(* ===== verification/Utf8.thy ===== *)
theory Utf8
  imports Prelude
begin

text \<open>
  The UTF-8 check of the MQTT client library, \<open>sharelibs/mqtt-c/source/utf-8.c\<close>,
  which the client applies to topics. Bytes are compared as signed characters, as the code
  does (plain \<open>char\<close> is signed); memory is the list of bytes from a pointer on, and \<open>None\<close> a read behind it.

  Main result: \<open>UTF8_validateString\<close> reads no byte behind the terminating zero and
  accepts exactly the encodings of sequences of Unicode scalar values.
\<close>

section \<open>Definitions\<close>

definition valid_ranges :: "(byte \<times> byte) list list" where
  "valid_ranges =
    [[(0x00, 0x7F)],
     [(0xC2, 0xDF), (0x80, 0xBF)],
     [(0xE0, 0xE0), (0xA0, 0xBF), (0x80, 0xBF)],
     [(0xE1, 0xEC), (0x80, 0xBF), (0x80, 0xBF)],
     [(0xED, 0xED), (0x80, 0x9F), (0x80, 0xBF)],
     [(0xEE, 0xEF), (0x80, 0xBF), (0x80, 0xBF)],
     [(0xF0, 0xF0), (0x90, 0xBF), (0x80, 0xBF), (0x80, 0xBF)],
     [(0xF1, 0xF3), (0x80, 0xBF), (0x80, 0xBF), (0x80, 0xBF)],
     [(0xF4, 0xF4), (0x80, 0x8F), (0x80, 0xBF), (0x80, 0xBF)]]"

text \<open>One row of the table against the bytes at \<open>data\<close>; the row has \<open>charlen\<close> elements.\<close>

fun row_matches :: "byte list \<Rightarrow> (byte \<times> byte) list \<Rightarrow> bool option" where
  "row_matches data [] = Some True"
| "row_matches [] (r # rs) = None"
| "row_matches (b # data) (r # rs) =
     (if sint b < sint (fst r) \<or> sint b > sint (snd r) then Some False else row_matches data rs)"

fun any_row :: "nat \<Rightarrow> byte list \<Rightarrow> (byte \<times> byte) list list \<Rightarrow> bool option" where
  "any_row charlen data [] = Some False"
| "any_row charlen data (row # rows) =
     (if length row = charlen
      then case row_matches data row of
             None \<Rightarrow> None
           | Some good \<Rightarrow> if good then Some True else any_row charlen data rows
      else any_row charlen data rows)"

text \<open>The number of bytes of the character, from the top bits of its first byte.\<close>

definition utf8_charlen :: "byte \<Rightarrow> nat" where
  "utf8_charlen b =
     (if unat b div 128 = 0 then 1
      else if unat b div 16 = 15 then 4
      else if unat b div 32 = 7 then 3
      else 2)"

text \<open>\<open>Some None\<close> is NULL, otherwise the length of the character that was accepted.\<close>

definition UTF8_char_validate :: "nat \<Rightarrow> byte list \<Rightarrow> nat option option" where
  "UTF8_char_validate len data =
     (case data of
        [] \<Rightarrow> None
      | b # _ \<Rightarrow>
          let charlen = utf8_charlen b
          in if charlen > len then Some None
             else map_option (\<lambda>good. if good then Some charlen else None) (any_row charlen data valid_ranges))"

lemma char_validate_positive: "UTF8_char_validate len data = Some (Some n) \<Longrightarrow> 0 < n"
  by (auto simp: UTF8_char_validate_def utf8_charlen_def Let_def split: list.splits if_splits)

function validate_loop :: "nat \<Rightarrow> byte list \<Rightarrow> nat \<Rightarrow> bool option" where
  "validate_loop len data cur =
     (if cur < len
      then case UTF8_char_validate len (drop cur data) of
             None \<Rightarrow> None
           | Some None \<Rightarrow> Some False
           | Some (Some n) \<Rightarrow> validate_loop len data (cur + n)
      else Some True)"
  by pat_completeness auto
termination
  by (relation "measure (\<lambda>(len, data, cur). len - cur)") (auto dest: char_validate_positive)

declare validate_loop.simps [simp del]

definition UTF8_validate :: "nat \<Rightarrow> byte list \<Rightarrow> bool option" where
  "UTF8_validate len data = (if len = 0 then Some True else validate_loop len data 0)"

definition UTF8_validateString :: "byte list \<Rightarrow> bool option" where
  "UTF8_validateString str = UTF8_validate (length (c_bytes str)) (c_bytes str @ [0])"

section \<open>Specification\<close>

text \<open>Unicode scalar values and their UTF-8 encoding.\<close>

definition scalar :: "nat \<Rightarrow> bool" where
  "scalar c \<longleftrightarrow> c < 0x110000 \<and> \<not> (0xD800 \<le> c \<and> c \<le> 0xDFFF)"

definition utf8_nats :: "nat \<Rightarrow> nat list" where
  "utf8_nats c =
     (if c < 0x80 then [c]
      else if c < 0x800 then [0xC0 + c div 64, 0x80 + c mod 64]
      else if c < 0x10000 then [0xE0 + c div 4096, 0x80 + c div 64 mod 64, 0x80 + c mod 64]
      else [0xF0 + c div 262144, 0x80 + c div 4096 mod 64, 0x80 + c div 64 mod 64, 0x80 + c mod 64])"

definition utf8_encoding :: "nat \<Rightarrow> byte list" where
  "utf8_encoding c = map word_of_nat (utf8_nats c)"

definition is_utf8 :: "byte list \<Rightarrow> bool" where
  "is_utf8 bs \<longleftrightarrow> (\<exists>cs. (\<forall>c \<in> set cs. scalar c) \<and> bs = concat (map utf8_encoding cs))"

section \<open>Lemmas\<close>

lemma sint_byte: "sint b = (if unat b < 128 then int (unat b) else int (unat b) - 256)" for b :: byte
proof -
  define x where "x = unat b"
  have x: "x < 256" using unsigned_less [of b] by (simp add: x_def)
  have b: "b = word_of_nat x" by (simp add: x_def)
  have "sint b = signed_take_bit 7 (int x)"
    by (simp add: b signed_of_nat)
  also have "\<dots> = (if x < 128 then int x else int x - 256)"
  proof (cases "x < 128")
    case True
    then show ?thesis by (simp add: signed_take_bit_int_eq_self)
  next
    case False
    then have "(int x + 128) mod 256 = int x - 128"
      using x mod_pos_pos_trivial [of "int x - 128" 256] mod_add_self2 [of "int x - 128" 256] by (simp add: add.commute)
    then show ?thesis using False by (simp add: signed_take_bit_eq_take_bit_shift take_bit_eq_mod)
  qed
  finally show ?thesis by (simp add: x_def)
qed

lemma unat_less_256 [simp]: "unat b < 256" for b :: byte
  using unsigned_less [of b] by simp

lemma scalar_bytes: "scalar c \<Longrightarrow> x \<in> set (utf8_nats c) \<Longrightarrow> x < 256"
  by (auto simp: scalar_def utf8_nats_def split: if_splits)

lemma encoding_iff_nats:
  assumes "scalar c"
  shows "bs = utf8_encoding c \<longleftrightarrow> map unat bs = utf8_nats c"
proof
  assume "bs = utf8_encoding c"
  then show "map unat bs = utf8_nats c"
    using scalar_bytes [OF assms]
    by (auto simp: utf8_encoding_def unat_of_nat intro!: map_idI)
next
  assume eq: "map unat bs = utf8_nats c"
  then have "map word_of_nat (map unat bs) = utf8_encoding c"
    by (simp add: utf8_encoding_def)
  then show "bs = utf8_encoding c"
    by (simp add: map_idI)
qed

lemma div_4096: "c div 4096 = c div 64 div 64" for c :: nat
  by (simp flip: div_mult2_eq)

lemma div_262144: "c div 262144 = c div 64 div 64 div 64" for c :: nat
  by (simp flip: div_mult2_eq)

lemmas base_64 = div_4096 div_262144

lemma utf8_nats_horner:
  "utf8_nats c =
     (if c < 0x80 then [c]
      else if c < 0x800 then [0xC0 + c div 64, 0x80 + c mod 64]
      else if c < 0x10000 then [0xE0 + c div 64 div 64, 0x80 + c div 64 mod 64, 0x80 + c mod 64]
      else [0xF0 + c div 64 div 64 div 64, 0x80 + c div 64 div 64 mod 64, 0x80 + c div 64 mod 64, 0x80 + c mod 64])"
  by (simp add: utf8_nats_def base_64)

lemma digit_64:
  obtains d where "(c :: nat) = 64 * (c div 64) + d" "d < 64" "c mod 64 = d"
  by (rule that [of "c mod 64"]) simp_all

text \<open>The well formed sequences by length, as the ranges of the table have them.\<close>

lemma encodes_1: "(\<exists>c. scalar c \<and> [x] = utf8_nats c) \<longleftrightarrow> x < 0x80"
proof
  assume "x < 0x80"
  then show "\<exists>c. scalar c \<and> [x] = utf8_nats c"
    by (intro exI [of _ x]) (simp add: scalar_def utf8_nats_def)
qed (auto simp: utf8_nats_def split: if_splits)

lemma encodes_2: "(\<exists>c. scalar c \<and> [x, y] = utf8_nats c) \<longleftrightarrow> 0xC2 \<le> x \<and> x \<le> 0xDF \<and> 0x80 \<le> y \<and> y \<le> 0xBF"
  (is "?E \<longleftrightarrow> ?R")
proof
  assume ?E
  then obtain c where "scalar c" "[x, y] = utf8_nats c" by blast
  then have c: "0x80 \<le> c" "c < 0x800" "x = 0xC0 + c div 64" "y = 0x80 + c mod 64"
    by (auto simp: scalar_def utf8_nats_horner split: if_splits)
  obtain d where "c = 64 * (c div 64) + d" "d < 64" "c mod 64 = d" by (rule digit_64)
  then show ?R using c by linarith
next
  assume R: ?R
  define a b where "a = x - 0xC0" and "b = y - 0x80"
  have ab: "x = 0xC0 + a" "y = 0x80 + b" "2 \<le> a" "a < 32" "b < 64" using R by (auto simp: a_def b_def)
  then show ?E
    by (intro exI [of _ "a * 64 + b"]) (simp add: scalar_def utf8_nats_horner)
qed

lemma encodes_3: "(\<exists>c. scalar c \<and> [x, y, z] = utf8_nats c) \<longleftrightarrow>
    0xE0 \<le> x \<and> x \<le> 0xEF \<and> (x = 0xE0 \<longrightarrow> 0xA0 \<le> y) \<and> (x = 0xED \<longrightarrow> y \<le> 0x9F) \<and>
    0x80 \<le> y \<and> y \<le> 0xBF \<and> 0x80 \<le> z \<and> z \<le> 0xBF"
  (is "?E \<longleftrightarrow> ?R")
proof
  assume ?E
  then obtain c where "scalar c" "[x, y, z] = utf8_nats c" by blast
  then have c: "0x800 \<le> c" "c < 0x10000" "c < 0xD800 \<or> 0xDFFF < c"
      "x = 0xE0 + c div 64 div 64" "y = 0x80 + c div 64 mod 64" "z = 0x80 + c mod 64"
    by (auto simp: scalar_def utf8_nats_horner split: if_splits)
  obtain d where d: "c = 64 * (c div 64) + d" "d < 64" "c mod 64 = d" by (rule digit_64)
  define q where "q = c div 64"
  obtain e where e: "q = 64 * (q div 64) + e" "e < 64" "q mod 64 = e" by (rule digit_64)
  have "0x20 \<le> q" "q < 0x400" "q < 0x360 \<or> 0x37F < q"
    using c(1-3) d(1,2) by (simp_all flip: q_def) linarith
  then show ?R using c(4-6) d(2,3) e unfolding q_def [symmetric] by linarith
next
  assume R: ?R
  define a b e where "a = x - 0xE0" and "b = y - 0x80" and "e = z - 0x80"
  have ab: "x = 0xE0 + a" "y = 0x80 + b" "z = 0x80 + e" "a < 16" "b < 64" "e < 64"
      "a = 0 \<longrightarrow> 32 \<le> b" "a = 13 \<longrightarrow> b < 32"
    using R by (auto simp: a_def b_def e_def)
  define c where "c = (a * 64 + b) * 64 + e"
  have cd: "c div 64 = a * 64 + b" "c mod 64 = e" "(a * 64 + b) div 64 = a" "(a * 64 + b) mod 64 = b"
    using ab unfolding c_def by (simp_all only: div_mult_self3 mod_mult_self3 div_less mod_less)
  have "0x800 \<le> c" "c < 0x10000" using ab by (auto simp: c_def)
  moreover have "c < 0xD800 \<or> 0xDFFF < c"
    using ab by (cases "a \<le> 12"; cases "a = 13") (simp_all add: c_def)
  ultimately show ?E using ab(1-3) cd
    by (intro exI [of _ c]) (simp add: scalar_def utf8_nats_horner not_le)
qed

lemma encodes_4: "(\<exists>c. scalar c \<and> [w, x, y, z] = utf8_nats c) \<longleftrightarrow>
    0xF0 \<le> w \<and> w \<le> 0xF4 \<and> (w = 0xF0 \<longrightarrow> 0x90 \<le> x) \<and> (w = 0xF4 \<longrightarrow> x \<le> 0x8F) \<and>
    0x80 \<le> x \<and> x \<le> 0xBF \<and> 0x80 \<le> y \<and> y \<le> 0xBF \<and> 0x80 \<le> z \<and> z \<le> 0xBF"
  (is "?E \<longleftrightarrow> ?R")
proof
  assume ?E
  then obtain c where "scalar c" "[w, x, y, z] = utf8_nats c" by blast
  then have c: "0x10000 \<le> c" "c < 0x110000"
      "w = 0xF0 + c div 64 div 64 div 64" "x = 0x80 + c div 64 div 64 mod 64"
      "y = 0x80 + c div 64 mod 64" "z = 0x80 + c mod 64"
    by (auto simp: scalar_def utf8_nats_horner split: if_splits)
  define q where "q = c div 64 div 64"
  have q: "0x10 \<le> q" "q < 0x110" using c(1,2) by (simp_all add: q_def flip: div_mult2_eq)
  obtain d where d: "q = 64 * (q div 64) + d" "d < 64" "q mod 64 = d" by (rule digit_64)
  have "c div 64 mod 64 < 64" "c mod 64 < 64" by simp_all
  then show ?R using c(3-6) d q unfolding q_def [symmetric] by linarith
next
  assume R: ?R
  define f a b e where "f = w - 0xF0" and "a = x - 0x80" and "b = y - 0x80" and "e = z - 0x80"
  have ab: "w = 0xF0 + f" "x = 0x80 + a" "y = 0x80 + b" "z = 0x80 + e" "f < 5" "a < 64" "b < 64" "e < 64"
      "f = 0 \<longrightarrow> 16 \<le> a" "f = 4 \<longrightarrow> a < 16"
    using R by (auto simp: a_def b_def e_def f_def)
  define c where "c = ((f * 64 + a) * 64 + b) * 64 + e"
  have cd: "c div 64 = (f * 64 + a) * 64 + b" "c mod 64 = e" "((f * 64 + a) * 64 + b) div 64 = f * 64 + a"
      "((f * 64 + a) * 64 + b) mod 64 = b" "(f * 64 + a) div 64 = f" "(f * 64 + a) mod 64 = a"
    using ab unfolding c_def by (simp_all only: div_mult_self3 mod_mult_self3 div_less mod_less)
  have "0x10000 \<le> c" "c < 0x110000"
    using ab by (auto simp: c_def)
  then show ?E using ab(1-4) cd
    by (intro exI [of _ c]) (simp add: scalar_def utf8_nats_horner)
qed

text \<open>The check of one character against the table.\<close>

lemma charlen_range: "1 \<le> utf8_charlen b" "utf8_charlen b \<le> 4"
  by (auto simp: utf8_charlen_def)

definition encodes :: "byte list \<Rightarrow> bool" where
  "encodes bs \<longleftrightarrow> (\<exists>c. scalar c \<and> bs = utf8_encoding c)"

lemma encodes_nats: "encodes bs \<longleftrightarrow> (\<exists>c. scalar c \<and> map unat bs = utf8_nats c)"
  unfolding encodes_def using encoding_iff_nats by blast

lemma charlen_cases:
  obtains "utf8_charlen b = 1" "unat b < 0x80"
  | "utf8_charlen b = 2" "0x80 \<le> unat b" "unat b < 0xE0"
  | "utf8_charlen b = 3" "0xE0 \<le> unat b" "unat b < 0xF0"
  | "utf8_charlen b = 4" "0xF0 \<le> unat b"
proof -
  have "unat b div 128 = 0 \<longleftrightarrow> unat b < 128" by auto
  moreover have "unat b div 16 = 15 \<longleftrightarrow> 240 \<le> unat b"
    using unat_less_256 [of b] by linarith
  moreover have "unat b div 32 = 7 \<longleftrightarrow> 224 \<le> unat b"
    using unat_less_256 [of b] by linarith
  ultimately show thesis using that by (auto simp: utf8_charlen_def not_le not_less split: if_splits)
qed

text \<open>Comparing bytes as signed characters against a range above or below \<open>0x80\<close> compares their values.\<close>

lemma row_matches_high:
  assumes "128 \<le> unat (fst r)" "128 \<le> unat (snd r)"
  shows "row_matches (b # data) (r # rs) =
    (if unat (fst r) \<le> unat b \<and> unat b \<le> unat (snd r) then row_matches data rs else Some False)"
proof -
  define x l h where "x = unat b" and "l = unat (fst r)" and "h = unat (snd r)"
  have "x < 256" "l < 256" "h < 256" by (simp_all add: x_def l_def h_def)
  then have "\<not> (sint b < sint (fst r) \<or> sint b > sint (snd r)) \<longleftrightarrow> l \<le> x \<and> x \<le> h"
    using assms unfolding sint_byte x_def [symmetric] l_def [symmetric] h_def [symmetric] by auto
  then show ?thesis by (auto simp: x_def l_def h_def)
qed

lemma row_matches_low: "row_matches (b # data) ((0, 0x7F) # rs) = (if unat b < 128 then row_matches data rs else Some False)"
proof -
  define x where "x = unat b"
  have "x < 256" by (simp add: x_def)
  then have "\<not> (sint b < sint (0 :: byte) \<or> sint b > sint (0x7F :: byte)) \<longleftrightarrow> x < 128"
    unfolding sint_byte x_def [symmetric] by auto
  then show ?thesis by (auto simp: x_def)
qed

lemmas table_simps = valid_ranges_def row_matches_high row_matches_low encodes_nats

lemma any_row_1:
  assumes "unat b < 0x80"
  shows "any_row 1 (b # t @ [0]) valid_ranges = Some (encodes [b])"
  using assms by (simp add: table_simps encodes_1 del: row_matches.simps(3))

lemma any_row_2:
  assumes "0x80 \<le> unat b" "unat b < 0xE0"
  shows "any_row 2 (b # t @ [0]) valid_ranges = Some (1 \<le> length t \<and> encodes (b # take 1 t))"
  using assms by (cases t) (simp_all add: table_simps encodes_2 del: row_matches.simps(3))

lemma any_row_3:
  assumes "0xE0 \<le> unat b" "unat b < 0xF0"
  shows "any_row 3 (b # t @ [0]) valid_ranges = Some (2 \<le> length t \<and> encodes (b # take 2 t))"
proof -
  consider "t = []" | x where "t = [x]" | x y t' where "t = x # y # t'"
    by (metis list.exhaust)
  then show ?thesis
    using assms by cases (auto simp: table_simps encodes_3 simp del: row_matches.simps(3))
qed

lemma any_row_4:
  assumes "0xF0 \<le> unat b"
  shows "any_row 4 (b # t @ [0]) valid_ranges = Some (3 \<le> length t \<and> encodes (b # take 3 t))"
proof -
  consider "t = []" | x where "t = [x]" | x y where "t = [x, y]" | x y z t' where "t = x # y # z # t'"
    by (metis list.exhaust)
  then show ?thesis
    using assms by cases (auto simp: table_simps encodes_4 simp del: row_matches.simps(3))
qed

lemma any_row_encodes:
  "any_row (utf8_charlen b) (b # t @ [0]) valid_ranges =
     Some (utf8_charlen b \<le> length (b # t) \<and> encodes (take (utf8_charlen b) (b # t)))"
  by (rule charlen_cases [of b])
    (simp_all add: any_row_1 [simplified] any_row_2 any_row_3 any_row_4 numeral_eq_Suc flip: numeral_eq_Suc)

text \<open>The first byte of an encoding gives its length.\<close>

lemma encodes_charlen: "encodes (b # bs) \<Longrightarrow> utf8_charlen b = length (b # bs)"
proof -
  assume "encodes (b # bs)"
  then obtain c where c: "scalar c" "unat b # map unat bs = utf8_nats c" by (auto simp: encodes_nats)
  then have "length (map unat bs) < 4" by (auto simp: utf8_nats_def split: if_splits)
  then consider "bs = []" | x where "bs = [x]" | x y where "bs = [x, y]" | x y z where "bs = [x, y, z]"
    by (cases bs rule: remdups_adj.cases) (auto simp: length_Suc_conv less_Suc_eq numeral_eq_Suc)
  then show ?thesis
  proof cases
    case 1
    with c have "unat b < 0x80" using encodes_1 [of "unat b"] by auto
    with 1 show ?thesis by (simp add: utf8_charlen_def)
  next
    case 2
    with c have "0xC2 \<le> unat b \<and> unat b \<le> 0xDF" using encodes_2 [of "unat b"] by fastforce
    with 2 show ?thesis by (cases b rule: charlen_cases) simp_all
  next
    case 3
    with c have "0xE0 \<le> unat b \<and> unat b \<le> 0xEF" using encodes_3 [of "unat b"] by fastforce
    with 3 show ?thesis by (cases b rule: charlen_cases) simp_all
  next
    case 4
    with c have "0xF0 \<le> unat b" using encodes_4 [of "unat b"] by fastforce
    with 4 show ?thesis by (cases b rule: charlen_cases) simp_all
  qed
qed

lemma encodes_nonempty: "\<not> encodes []"
  by (auto simp: encodes_nats utf8_nats_def)

lemma is_utf8_Nil [simp]: "is_utf8 []"
  unfolding is_utf8_def by (rule exI [of _ "[]"]) simp

lemma is_utf8_step:
  "is_utf8 (b # t) \<longleftrightarrow> utf8_charlen b \<le> length (b # t) \<and>
     encodes (take (utf8_charlen b) (b # t)) \<and> is_utf8 (drop (utf8_charlen b) (b # t))"
proof
  assume "is_utf8 (b # t)"
  then obtain cs where cs: "\<forall>c \<in> set cs. scalar c" "b # t = concat (map utf8_encoding cs)"
    by (auto simp: is_utf8_def)
  then obtain c cs' where Cons: "cs = c # cs'" by (cases cs) auto
  then have enc: "encodes (utf8_encoding c)" using cs by (auto simp: encodes_def)
  then obtain bs where bs: "utf8_encoding c = b # bs"
    using cs(2) encodes_nonempty by (cases "utf8_encoding c") (auto simp: Cons)
  then have len: "utf8_charlen b = length (utf8_encoding c)"
    using encodes_charlen enc by metis
  have split: "b # t = utf8_encoding c @ concat (map utf8_encoding cs')" using cs(2) by (simp add: Cons)
  have "is_utf8 (concat (map utf8_encoding cs'))" using cs(1) unfolding is_utf8_def Cons by auto
  then show "utf8_charlen b \<le> length (b # t) \<and>
     encodes (take (utf8_charlen b) (b # t)) \<and> is_utf8 (drop (utf8_charlen b) (b # t))"
    unfolding split len using enc by simp
next
  assume R: "utf8_charlen b \<le> length (b # t) \<and>
     encodes (take (utf8_charlen b) (b # t)) \<and> is_utf8 (drop (utf8_charlen b) (b # t))"
  then obtain c cs where "scalar c" "take (utf8_charlen b) (b # t) = utf8_encoding c"
      "\<forall>c \<in> set cs. scalar c" "drop (utf8_charlen b) (b # t) = concat (map utf8_encoding cs)"
    unfolding encodes_def is_utf8_def by blast
  moreover from this have "b # t = concat (map utf8_encoding (c # cs))"
    by (metis append_take_drop_id concat.simps(2) list.simps(9))
  ultimately show "is_utf8 (b # t)"
    unfolding is_utf8_def by (intro exI [of _ "c # cs"]) auto
qed

lemma validate_loop_utf8:
  "cur \<le> length s \<Longrightarrow> validate_loop (length s) (s @ [0]) cur = Some (is_utf8 (drop cur s))"
proof (induction "length s - cur" arbitrary: cur rule: less_induct)
  case less
  show ?case
  proof (cases "drop cur s")
    case Nil
    then show ?thesis by (simp add: validate_loop.simps [of _ _ cur])
  next
    case (Cons b t)
    define n where "n = utf8_charlen b"
    have cur: "cur < length s" and data: "drop cur (s @ [0]) = b # t @ [0]"
      using Cons less.prems by (cases "cur < length s"; simp)+
    have len: "length (b # t) = length s - cur" using Cons by (metis length_drop)
    have row: "any_row n (b # t @ [0]) valid_ranges = Some (n \<le> length (b # t) \<and> encodes (take n (b # t)))"
      unfolding n_def by (rule any_row_encodes)
    have "drop (cur + n) s = drop n (b # t)" by (simp add: add.commute flip: Cons)
    then have "validate_loop (length s) (s @ [0]) (cur + n) = Some (is_utf8 (drop n (b # t)))"
      if "n \<le> length (b # t)"
      using less.hyps [of "cur + n"] that charlen_range [of b] cur len by (simp add: n_def)
    moreover have "is_utf8 (drop cur s) \<longleftrightarrow>
        n \<le> length (b # t) \<and> encodes (take n (b # t)) \<and> is_utf8 (drop n (b # t))"
      unfolding Cons n_def by (rule is_utf8_step)
    moreover have "UTF8_char_validate (length s) (drop cur (s @ [0])) =
        Some (if n \<le> length (b # t) \<and> encodes (take n (b # t)) then Some n else None)"
      unfolding data using row len by (auto simp: UTF8_char_validate_def simp flip: n_def)
    ultimately show ?thesis
      using cur by (subst validate_loop.simps) (auto simp del: drop_append)
  qed
qed

section \<open>Main theorem\<close>

text \<open>
  C37: UTF8_validateString never reads behind the terminating zero and accepts exactly the
  strings that are UTF-8 encodings of Unicode scalar values (no surrogates, no overlong forms,
  nothing above 0x10FFFF).
\<close>

theorem utf8_validate_string: "UTF8_validateString s = Some (is_utf8 (c_bytes s))"
  using validate_loop_utf8 [of 0 "c_bytes s"] by (auto simp: UTF8_validateString_def UTF8_validate_def)

text \<open>Without a terminating zero a truncated last character is read past the end: the whole length is passed for each character.\<close>

lemma utf8_validate_overread: "UTF8_validate 2 [0x41, 0xC2] = None"
proof -
  have "UTF8_char_validate 2 [0x41, 0xC2] = Some (Some 1)" and "UTF8_char_validate 2 [0xC2] = None"
    by code_simp+
  then show ?thesis
    by (simp add: UTF8_validate_def validate_loop.simps [of _ _ 0] validate_loop.simps [of _ _ "Suc 0"])
qed

end
