(* ===== verification/Json.thy ===== *)
theory Json
  imports StringUtils
begin

text \<open>
  JSON values of the vendored json-c (\<open>sharelibs/json-c/source/json_object.c\<close>) and
  the typed accessors of \<open>json_helper.c\<close>. An object is the list of its members in
  insertion order, the order in which json-c's hash table keeps and prints them; the
  value of a member may be the C pointer NULL, which is JSON's null. A double carries the
  text json-c prints for it. Serialisation is the one the hub asks for,
  \<open>JSON_C_TO_STRING_PLAIN | JSON_C_TO_STRING_NOSLASHESCAPE\<close>.
\<close>

section \<open>Definitions\<close>

datatype json =
    JNull
  | JBool bool
  | JInt int
  | JDouble string
  | JString string
  | JArray "json list"
  | JObject "(string \<times> json) list"

datatype json_type = json_type_null | json_type_boolean | json_type_double | json_type_int
  | json_type_object | json_type_array | json_type_string

fun json_object_get_type :: "json \<Rightarrow> json_type" where
  "json_object_get_type JNull = json_type_null"
| "json_object_get_type (JBool _) = json_type_boolean"
| "json_object_get_type (JInt _) = json_type_int"
| "json_object_get_type (JDouble _) = json_type_double"
| "json_object_get_type (JString _) = json_type_string"
| "json_object_get_type (JArray _) = json_type_array"
| "json_object_get_type (JObject _) = json_type_object"

definition json_object_is_type :: "json \<Rightarrow> json_type \<Rightarrow> bool" where
  "json_object_is_type j t \<longleftrightarrow> json_object_get_type j = t"

definition json_object_object_get_ex :: "json \<Rightarrow> string \<Rightarrow> json option" where
  "json_object_object_get_ex j key = (case j of JObject ms \<Rightarrow> map_of ms key | _ \<Rightarrow> None)"

text \<open>\<open>json_object_object_add_ex\<close>: replace the value of an existing entry, or append.\<close>

fun member_add :: "(string \<times> json) list \<Rightarrow> string \<Rightarrow> json \<Rightarrow> (string \<times> json) list" where
  "member_add [] key val = [(key, val)]"
| "member_add ((k, v) # ms) key val = (if k = key then (k, val) # ms else (k, v) # member_add ms key val)"

definition json_object_object_add :: "json \<Rightarrow> string \<Rightarrow> json \<Rightarrow> json" where
  "json_object_object_add j key val = (case j of JObject ms \<Rightarrow> JObject (member_add ms key val) | _ \<Rightarrow> j)"

definition json_hex_chars :: string where "json_hex_chars = ''0123456789abcdefABCDEF''"

definition json_escape_char :: "char \<Rightarrow> string" where
  "json_escape_char c =
     (if c = CHR 0x08 then [CHR 0x5C, CHR ''b'']
      else if c = CHR 0x0A then [CHR 0x5C, CHR ''n'']
      else if c = CHR 0x0D then [CHR 0x5C, CHR ''r'']
      else if c = CHR 0x09 then [CHR 0x5C, CHR ''t'']
      else if c = CHR 0x0C then [CHR 0x5C, CHR ''f'']
      else if c = CHR 0x22 then [CHR 0x5C, CHR 0x22]
      else if c = CHR 0x5C then [CHR 0x5C, CHR 0x5C]
      else if chr_code c < 32
      then CHR 0x5C # ''u00'' @ [json_hex_chars ! (chr_code c div 16), json_hex_chars ! (chr_code c mod 16)]
      else [c])"

definition json_escape_str :: "string \<Rightarrow> string" where
  "json_escape_str s = concat (map json_escape_char s)"

fun join_comma :: "string list \<Rightarrow> string" where
  "join_comma [] = []"
| "join_comma [x] = x"
| "join_comma (x # y # xs) = x @ '','' @ join_comma (y # xs)"

fun json_object_to_json_string :: "json \<Rightarrow> string" where
  "json_object_to_json_string JNull = ''null''"
| "json_object_to_json_string (JBool b) = (if b then ''true'' else ''false'')"
| "json_object_to_json_string (JInt i) = show_int i"
| "json_object_to_json_string (JDouble t) = t"
| "json_object_to_json_string (JString s) = CHR 0x22 # json_escape_str s @ [CHR 0x22]"
| "json_object_to_json_string (JArray js) = ''['' @ join_comma (map json_object_to_json_string js) @ '']''"
| "json_object_to_json_string (JObject ms) =
     ''{'' @ join_comma (map (\<lambda>(k, v). CHR 0x22 # json_escape_str k @ [CHR 0x22, CHR '':''] @ json_object_to_json_string v) ms) @ ''}''"

text \<open>The accessors for a value of the matching type; \<open>json_object_get_int\<close> saturates to 32 bits.\<close>

definition json_object_get_int :: "json \<Rightarrow> int" where
  "json_object_get_int j =
     (case j of JInt i \<Rightarrow> if i \<le> INT_MIN then INT_MIN else if i \<ge> INT_MAX then INT_MAX else i | _ \<Rightarrow> 0)"

definition json_object_get_int64 :: "json \<Rightarrow> int" where
  "json_object_get_int64 j = (case j of JInt i \<Rightarrow> i | _ \<Rightarrow> 0)"

text \<open>A string with an embedded NUL ends there for its C readers.\<close>

definition json_object_get_string :: "json \<Rightarrow> string" where
  "json_object_get_string j = (case j of JString s \<Rightarrow> takeWhile (\<lambda>c. c \<noteq> NUL) s | _ \<Rightarrow> [])"

subsection \<open>json\_helper.c\<close>

abbreviation (input) JSON_HELPER_OK :: int where "JSON_HELPER_OK \<equiv> 0"
abbreviation (input) JSON_HELPER_ERROR_NO_NODE :: int where "JSON_HELPER_ERROR_NO_NODE \<equiv> - 2"
abbreviation (input) JSON_HELPER_ERROR_TYPE_NOT_MATCH :: int where "JSON_HELPER_ERROR_TYPE_NOT_MATCH \<equiv> - 3"

definition in_quotes :: "string \<Rightarrow> string" where
  "in_quotes key = CHR 0x27 # key @ [CHR 0x27]"

text \<open>
  The accessors share one shape: return code, value (absent when the out-parameter is not
  written) and the error text.
\<close>

definition json_helper_get :: "json_type \<Rightarrow> (json \<Rightarrow> 'v) \<Rightarrow> string \<Rightarrow> json \<Rightarrow> string \<Rightarrow> int \<times> 'v option \<times> string" where
  "json_helper_get ty rd what jobj key =
     (case json_object_object_get_ex jobj key of
        Some jsubobj \<Rightarrow>
          if json_object_is_type jsubobj ty then (JSON_HELPER_OK, Some (rd jsubobj), [])
          else (JSON_HELPER_ERROR_TYPE_NOT_MATCH, None, ''node '' @ in_quotes key @ '' is not a '' @ what)
      | None \<Rightarrow> (JSON_HELPER_ERROR_NO_NODE, None, ''no node '' @ in_quotes key))"

definition json_helper_get_string :: "json \<Rightarrow> string \<Rightarrow> int \<times> string option \<times> string" where
  "json_helper_get_string = json_helper_get json_type_string json_object_get_string ''string''"

definition json_helper_get_object :: "json \<Rightarrow> string \<Rightarrow> int \<times> json option \<times> string" where
  "json_helper_get_object = json_helper_get json_type_object id ''JSON object''"

definition json_helper_get_int64 :: "json \<Rightarrow> string \<Rightarrow> int \<times> int option \<times> string" where
  "json_helper_get_int64 = json_helper_get json_type_int json_object_get_int64 ''int64''"

definition json_helper_get_int :: "json \<Rightarrow> string \<Rightarrow> int \<times> int option \<times> string" where
  "json_helper_get_int = json_helper_get json_type_int json_object_get_int ''int''"

definition json_helper_get_double :: "json \<Rightarrow> string \<Rightarrow> int \<times> json option \<times> string" where
  "json_helper_get_double = json_helper_get json_type_double id ''double''"

section \<open>Lemmas\<close>

lemma map_of_member_add: "map_of (member_add ms key val) = (map_of ms)(key \<mapsto> val)"
  by (induction ms key val rule: member_add.induct) auto

lemma member_add_append: "k \<notin> fst ` set ms \<Longrightarrow> member_add ms k v = ms @ [(k, v)]"
  by (induction ms k v rule: member_add.induct) auto

lemma get_ex_add:
  "json_object_object_get_ex (json_object_object_add (JObject ms) key val) k =
     (if k = key then Some val else json_object_object_get_ex (JObject ms) k)"
  by (simp add: json_object_object_get_ex_def json_object_object_add_def map_of_member_add)

lemma member_add_keys: "map fst (member_add ms key val) = (if key \<in> set (map fst ms) then map fst ms else map fst ms @ [key])"
  by (induction ms key val rule: member_add.induct) auto

lemma json_object_get_int_range: "is_int32 (json_object_get_int j)"
  by (cases j) (auto simp: json_object_get_int_def is_int32_def int_limits)

text \<open>An escaped string has no quote and no control character outside its escapes, so it can sit in a literal.\<close>

lemma hex_chars_printable: "n < 16 \<Longrightarrow> 32 \<le> chr_code (json_hex_chars ! n)"
proof -
  assume "n < 16"
  then have "json_hex_chars ! n \<in> set json_hex_chars" by (intro nth_mem) (simp add: json_hex_chars_def)
  then show ?thesis by (auto simp: json_hex_chars_def chr_code_def)
qed

lemma escape_char_printable: "\<forall>x \<in> set (json_escape_char c). 32 \<le> chr_code x"
proof -
  have h: "32 \<le> chr_code (json_hex_chars ! (chr_code c div 16))" "32 \<le> chr_code (json_hex_chars ! (chr_code c mod 16))"
    by (rule hex_chars_printable, simp add: div_less_iff_less_mult)+
  have k: "32 \<le> chr_code (CHR 0x5C)" "32 \<le> chr_code (CHR 0x22)" "32 \<le> chr_code (CHR ''b'')"
    "32 \<le> chr_code (CHR ''n'')" "32 \<le> chr_code (CHR ''r'')" "32 \<le> chr_code (CHR ''t'')"
    "32 \<le> chr_code (CHR ''f'')" "32 \<le> chr_code (CHR ''u'')" "32 \<le> chr_code (CHR ''0'')"
    by (simp_all add: chr_code_def)
  show ?thesis unfolding json_escape_char_def using h k by (simp only: list.set if_distrib [of set]) simp
qed

lemma escape_str_printable: "\<forall>x \<in> set (json_escape_str s). 32 \<le> chr_code x"
  using escape_char_printable by (auto simp: json_escape_str_def)

end
