(* ===== verification/LinkHash.thy ===== *)
theory LinkHash
  imports Json "HOL-Library.Monad_Syntax"
begin

text \<open>
  The linked hash table \<open>sharelibs/json-c/source/linkhash.c\<close>, in its use for the
  members of a JSON object: keys are C strings compared with \<open>strcmp\<close>, values are
  documents, NULL is \<open>JNull\<close>. The entries are an array probed linearly from the
  hash of the key; a pointer to an entry is its index. The hash function is the field
  \<open>hash_fn\<close> of the table, here an argument \<open>hash\<close>; nothing is assumed of it. The
  load factor 0.66 is written as a fraction; the two agree on the sizes 16, 32, 64, ... a
  JSON object has. Allocation does not fail and sizes stay within \<open>int\<close>.

  Main result: every sequence of additions, deletions and look-ups on a table gives the
  results of the member list of \<open>Json\<close>; look-ups and insertions terminate, the table
  never fills up, the links keep the insertion order, also when the table is resized.
\<close>

section \<open>Definitions\<close>

datatype lh_key = LH_EMPTY | LH_FREED | Key string

record lh_entry =
  lh_k :: lh_key
  lh_k_is_constant :: bool
  lh_v :: json
  lh_next :: "nat option"
  lh_prev :: "nat option"

record lh_table =
  lh_size :: nat
  lh_count :: nat
  lh_head :: "nat option"
  lh_tail :: "nat option"
  lh_entries :: "lh_entry list"

definition lh_table_new :: "nat \<Rightarrow> lh_table" where
  "lh_table_new sz = \<lparr>lh_size = sz, lh_count = 0, lh_head = None, lh_tail = None,
     lh_entries = replicate sz \<lparr>lh_k = LH_EMPTY, lh_k_is_constant = False, lh_v = JNull, lh_next = None, lh_prev = None\<rparr>\<rparr>"

definition upd :: "nat \<Rightarrow> (lh_entry \<Rightarrow> lh_entry) \<Rightarrow> lh_table \<Rightarrow> lh_table" where
  "upd n f t = t\<lparr>lh_entries := (lh_entries t)[n := f (lh_entries t ! n)]\<rparr>"

definition probe_next :: "lh_table \<Rightarrow> nat \<Rightarrow> nat" where
  "probe_next t n = (if Suc n = lh_size t then 0 else Suc n)"

definition LH_LOAD_REACHED :: "lh_table \<Rightarrow> bool" where
  "LH_LOAD_REACHED t \<longleftrightarrow> 100 * lh_count t \<ge> 66 * lh_size t"

text \<open>The search for a free slot; in a full table it would not end.\<close>

partial_function (option) free_slot :: "lh_table \<Rightarrow> nat \<Rightarrow> nat option" where
  [code]: "free_slot t n =
     (if lh_k (lh_entries t ! n) = LH_EMPTY \<or> lh_k (lh_entries t ! n) = LH_FREED then Some n
      else free_slot t (probe_next t n))"

text \<open>The insertion after the load check; \<open>None\<close>: remainder by zero or no end.\<close>

definition insert_slot :: "lh_table \<Rightarrow> string \<Rightarrow> json \<Rightarrow> nat \<Rightarrow> bool \<Rightarrow> lh_table option" where
  "insert_slot t key val h opts =
     (if lh_size t = 0 then None
      else do {
        n \<leftarrow> free_slot t (h mod lh_size t);
        let t1 = upd n (\<lambda>e. e\<lparr>lh_k := Key key, lh_k_is_constant := opts, lh_v := val\<rparr>) t;
        let t2 = t1\<lparr>lh_count := lh_count t + 1\<rparr>;
        Some (case lh_head t of
           None \<Rightarrow> (upd n (\<lambda>e. e\<lparr>lh_next := None, lh_prev := None\<rparr>) t2)\<lparr>lh_head := Some n, lh_tail := Some n\<rparr>
         | Some _ \<Rightarrow>
             let t3 = upd (the (lh_tail t)) (\<lambda>e. e\<lparr>lh_next := Some n\<rparr>) t2
             in (upd n (\<lambda>e. e\<lparr>lh_prev := lh_tail t, lh_next := None\<rparr>) t3)\<lparr>lh_tail := Some n\<rparr>) })"

text \<open>The entries in the order of the links.\<close>

partial_function (option) lh_foreach :: "lh_table \<Rightarrow> nat option \<Rightarrow> lh_entry list option" where
  [code]: "lh_foreach t p =
     (case p of
        None \<Rightarrow> Some []
      | Some n \<Rightarrow> do { rest \<leftarrow> lh_foreach t (lh_next (lh_entries t ! n)); Some (lh_entries t ! n # rest) })"

definition the_key :: "lh_key \<Rightarrow> string" where
  "the_key k = (case k of Key s \<Rightarrow> s | _ \<Rightarrow> [])"

text \<open>
  \<open>lh_table_resize\<close> inserts the entries into a new table, and an insertion may resize
  in turn. The two functions are written over each other; the depth bounds how often a
  resize may start inside another one. It never does, so depth 1 is as good as any.
\<close>

fun insert_all :: "(lh_table \<Rightarrow> string \<Rightarrow> json \<Rightarrow> nat \<Rightarrow> bool \<Rightarrow> lh_table option) \<Rightarrow> (string \<Rightarrow> nat) \<Rightarrow> lh_entry list \<Rightarrow> lh_table
    \<Rightarrow> lh_table option" where
  "insert_all ins hash [] t = Some t"
| "insert_all ins hash (e # es) t = do {
     t1 \<leftarrow> ins t (the_key (lh_k e)) (lh_v e) (hash (the_key (lh_k e))) (lh_k_is_constant e);
     insert_all ins hash es t1 }"

definition resize_with ::
    "(lh_table \<Rightarrow> string \<Rightarrow> json \<Rightarrow> nat \<Rightarrow> bool \<Rightarrow> lh_table option) \<Rightarrow> (string \<Rightarrow> nat) \<Rightarrow> lh_table \<Rightarrow> nat \<Rightarrow> lh_table option" where
  "resize_with ins hash t new_size = do {
     es \<leftarrow> lh_foreach t (lh_head t);
     new_t \<leftarrow> insert_all ins hash es (lh_table_new new_size);
     Some (t\<lparr>lh_entries := lh_entries new_t, lh_size := new_size, lh_head := lh_head new_t, lh_tail := lh_tail new_t\<rparr>) }"

fun insert_depth :: "nat \<Rightarrow> (string \<Rightarrow> nat) \<Rightarrow> lh_table \<Rightarrow> string \<Rightarrow> json \<Rightarrow> nat \<Rightarrow> bool \<Rightarrow> lh_table option" where
  "insert_depth d hash t key val h opts =
     (if LH_LOAD_REACHED t
      then (case d of
              0 \<Rightarrow> None
            | Suc d' \<Rightarrow> do { t1 \<leftarrow> resize_with (insert_depth d' hash) hash t (lh_size t * 2); insert_slot t1 key val h opts })
      else insert_slot t key val h opts)"

declare insert_depth.simps [simp del]

definition lh_table_resize :: "(string \<Rightarrow> nat) \<Rightarrow> lh_table \<Rightarrow> nat \<Rightarrow> lh_table option" where
  "lh_table_resize hash t new_size = resize_with (insert_depth 0 hash) hash t new_size"

definition lh_table_insert_w_hash :: "(string \<Rightarrow> nat) \<Rightarrow> lh_table \<Rightarrow> string \<Rightarrow> json \<Rightarrow> nat \<Rightarrow> bool \<Rightarrow> lh_table option" where
  "lh_table_insert_w_hash hash t key val h opts = insert_depth 1 hash t key val h opts"

definition lh_table_insert :: "(string \<Rightarrow> nat) \<Rightarrow> lh_table \<Rightarrow> string \<Rightarrow> json \<Rightarrow> lh_table option" where
  "lh_table_insert hash t key val = lh_table_insert_w_hash hash t key val (hash key) False"

fun lookup_loop :: "lh_table \<Rightarrow> string \<Rightarrow> nat \<Rightarrow> nat \<Rightarrow> nat option" where
  "lookup_loop t key 0 n = None"
| "lookup_loop t key (Suc left) n =
     (if lh_k (lh_entries t ! n) = LH_EMPTY then None
      else if lh_k (lh_entries t ! n) \<noteq> LH_FREED \<and> the_key (lh_k (lh_entries t ! n)) = key then Some n
      else lookup_loop t key left (probe_next t n))"

definition lh_table_lookup_entry_w_hash :: "lh_table \<Rightarrow> string \<Rightarrow> nat \<Rightarrow> nat option" where
  "lh_table_lookup_entry_w_hash t key h = lookup_loop t key (lh_size t) (h mod lh_size t)"

definition lh_table_lookup_entry :: "(string \<Rightarrow> nat) \<Rightarrow> lh_table \<Rightarrow> string \<Rightarrow> nat option" where
  "lh_table_lookup_entry hash t key = lh_table_lookup_entry_w_hash t key (hash key)"

definition lh_table_lookup_ex :: "(string \<Rightarrow> nat) \<Rightarrow> lh_table \<Rightarrow> string \<Rightarrow> json option" where
  "lh_table_lookup_ex hash t key = map_option (\<lambda>n. lh_v (lh_entries t ! n)) (lh_table_lookup_entry hash t key)"

definition lh_table_delete_entry :: "lh_table \<Rightarrow> nat \<Rightarrow> int \<times> lh_table" where
  "lh_table_delete_entry t n =
     (if lh_k (lh_entries t ! n) = LH_EMPTY \<or> lh_k (lh_entries t ! n) = LH_FREED then (-1, t)
      else let t1 = upd n (\<lambda>e. e\<lparr>lh_v := JNull, lh_k := LH_FREED\<rparr>) (t\<lparr>lh_count := lh_count t - 1\<rparr>);
               nx = lh_next (lh_entries t ! n); pv = lh_prev (lh_entries t ! n);
               t2 = (if lh_tail t = Some n \<and> lh_head t = Some n then t1\<lparr>lh_head := None, lh_tail := None\<rparr>
                     else if lh_head t = Some n then (upd (the nx) (\<lambda>e. e\<lparr>lh_prev := None\<rparr>) t1)\<lparr>lh_head := nx\<rparr>
                     else if lh_tail t = Some n then (upd (the pv) (\<lambda>e. e\<lparr>lh_next := None\<rparr>) t1)\<lparr>lh_tail := pv\<rparr>
                     else upd (the nx) (\<lambda>e. e\<lparr>lh_prev := pv\<rparr>) (upd (the pv) (\<lambda>e. e\<lparr>lh_next := nx\<rparr>) t1))
           in (0, upd n (\<lambda>e. e\<lparr>lh_next := None, lh_prev := None\<rparr>) t2))"

definition lh_table_delete :: "(string \<Rightarrow> nat) \<Rightarrow> lh_table \<Rightarrow> string \<Rightarrow> int \<times> lh_table" where
  "lh_table_delete hash t key =
     (case lh_table_lookup_entry hash t key of None \<Rightarrow> (-1, t) | Some n \<Rightarrow> lh_table_delete_entry t n)"

definition lh_table_length :: "lh_table \<Rightarrow> nat" where
  "lh_table_length t = lh_count t"

subsection \<open>The members of an object (json\_object.c)\<close>

definition JSON_OBJECT_DEF_HASH_ENTRIES :: nat where "JSON_OBJECT_DEF_HASH_ENTRIES = 16"

text \<open>
  \<open>json_object_object_add_ex\<close> with its two flags; the test for an object that is added to
  itself compares pointers and has no counterpart.
\<close>

definition object_table_add_ex :: "(string \<Rightarrow> nat) \<Rightarrow> lh_table \<Rightarrow> string \<Rightarrow> json \<Rightarrow> bool \<Rightarrow> bool \<Rightarrow> lh_table option" where
  "object_table_add_ex hash t key val key_is_new key_is_constant =
     (let h = hash key;
          existing_entry = (if key_is_new then None else lh_table_lookup_entry_w_hash t key h)
      in case existing_entry of
           None \<Rightarrow> lh_table_insert_w_hash hash t key val h key_is_constant
         | Some n \<Rightarrow> Some (upd n (\<lambda>e. e\<lparr>lh_v := val\<rparr>) t))"

definition object_table_new :: lh_table where
  "object_table_new = lh_table_new JSON_OBJECT_DEF_HASH_ENTRIES"

datatype member_op = Member_add string json | Member_del string

definition table_exec :: "(string \<Rightarrow> nat) \<Rightarrow> member_op \<Rightarrow> lh_table \<Rightarrow> lh_table option" where
  "table_exec hash op t =
     (case op of
        Member_add key val \<Rightarrow> object_table_add_ex hash t key val False False
      | Member_del key \<Rightarrow> Some (snd (lh_table_delete hash t key)))"

definition member_exec :: "member_op \<Rightarrow> (string \<times> json) list \<Rightarrow> (string \<times> json) list" where
  "member_exec op ms =
     (case op of Member_add key val \<Rightarrow> member_add ms key val | Member_del key \<Rightarrow> filter (\<lambda>m. fst m \<noteq> key) ms)"

section \<open>Invariant\<close>

abbreviation (input) ent :: "lh_table \<Rightarrow> nat \<Rightarrow> lh_entry" where
  "ent t i \<equiv> lh_entries t ! i"

definition key_at :: "lh_table \<Rightarrow> nat \<Rightarrow> string" where
  "key_at t i = the_key (lh_k (ent t i))"

definition in_use :: "lh_table \<Rightarrow> nat \<Rightarrow> bool" where
  "in_use t i \<longleftrightarrow> lh_k (ent t i) = Key (key_at t i)"

text \<open>The entries \<open>xs\<close> are linked in this order between \<open>p\<close> and \<open>nx\<close>.\<close>

definition first_or :: "nat list \<Rightarrow> nat option \<Rightarrow> nat option" where
  "first_or xs nx = (case xs of [] \<Rightarrow> nx | x # _ \<Rightarrow> Some x)"

definition last_or :: "nat list \<Rightarrow> nat option \<Rightarrow> nat option" where
  "last_or xs p = (if xs = [] then p else Some (last xs))"

fun lseg :: "lh_entry list \<Rightarrow> nat option \<Rightarrow> nat list \<Rightarrow> nat option \<Rightarrow> bool" where
  "lseg tb p [] nx \<longleftrightarrow> True"
| "lseg tb p (i # xs) nx \<longleftrightarrow> lh_prev (tb ! i) = p \<and> lh_next (tb ! i) = first_or xs nx \<and> lseg tb (Some i) xs nx"

definition probe_ok :: "(string \<Rightarrow> nat) \<Rightarrow> lh_table \<Rightarrow> nat \<Rightarrow> bool" where
  "probe_ok hash t i \<longleftrightarrow>
     (\<exists>c < lh_size t. (hash (key_at t i) + c) mod lh_size t = i \<and>
        (\<forall>d < c. lh_k (ent t ((hash (key_at t i) + d) mod lh_size t)) \<noteq> LH_EMPTY))"

definition lh_wf :: "(string \<Rightarrow> nat) \<Rightarrow> lh_table \<Rightarrow> nat list \<Rightarrow> bool" where
  "lh_wf hash t ps \<longleftrightarrow>
     0 < lh_size t \<and> length (lh_entries t) = lh_size t \<and> lh_count t = length ps \<and>
     distinct ps \<and> set ps = {i. i < lh_size t \<and> in_use t i} \<and> distinct (map (key_at t) ps) \<and>
     lseg (lh_entries t) None ps None \<and> lh_head t = first_or ps None \<and> lh_tail t = last_or ps None \<and>
     (\<forall>i \<in> set ps. probe_ok hash t i)"

definition members :: "lh_table \<Rightarrow> nat list \<Rightarrow> (string \<times> json) list" where
  "members t ps = map (\<lambda>i. (key_at t i, lh_v (ent t i))) ps"

definition table_rel :: "(string \<Rightarrow> nat) \<Rightarrow> lh_table \<Rightarrow> (string \<times> json) list \<Rightarrow> bool" where
  "table_rel hash t ms \<longleftrightarrow> (\<exists>ps. lh_wf hash t ps \<and> members t ps = ms)"

section \<open>Lemmas\<close>

subsection \<open>Entries and links\<close>

lemma ent_upd: "n < length (lh_entries t) \<Longrightarrow> ent (upd n f t) i = (if i = n then f (ent t n) else ent t i)"
  by (simp add: upd_def)

lemma upd_fields [simp]:
  "lh_size (upd n f t) = lh_size t" "lh_count (upd n f t) = lh_count t" "lh_head (upd n f t) = lh_head t"
  "lh_tail (upd n f t) = lh_tail t" "length (lh_entries (upd n f t)) = length (lh_entries t)"
  by (simp_all add: upd_def)

lemma lseg_append: "lseg tb p (xs @ ys) nx \<longleftrightarrow> lseg tb p xs (first_or ys nx) \<and> lseg tb (last_or xs p) ys nx"
proof (induction xs arbitrary: p)
  case (Cons x xs)
  have "first_or (xs @ ys) nx = first_or xs (first_or ys nx)" by (cases xs) (simp_all add: first_or_def)
  moreover have "last_or xs (Some x) = last_or (x # xs) p" by (simp add: last_or_def)
  ultimately show ?case using Cons [of "Some x"] by auto
qed (simp add: last_or_def)

lemma lseg_frame:
  assumes "\<forall>i \<in> set xs. lh_prev (tb' ! i) = lh_prev (tb ! i) \<and> lh_next (tb' ! i) = lh_next (tb ! i)"
  shows "lseg tb' p xs nx \<longleftrightarrow> lseg tb p xs nx"
  using assms by (induction xs arbitrary: p) auto

text \<open>New neighbours of the first and the last entry.\<close>

lemma lseg_first:
  assumes "lseg tb p xs nx" and "\<forall>i \<in> set xs. lh_next (tb' ! i) = lh_next (tb ! i)"
    and "\<forall>i \<in> set (tl xs). lh_prev (tb' ! i) = lh_prev (tb ! i)" and "xs \<noteq> [] \<Longrightarrow> lh_prev (tb' ! hd xs) = p'"
  shows "lseg tb' p' xs nx"
proof (cases xs)
  case (Cons x ys)
  then show ?thesis using assms lseg_frame [of ys tb' tb "Some x" nx] by auto
qed simp

lemma lseg_last:
  assumes "lseg tb p xs nx" and "distinct xs" and "\<forall>i \<in> set xs. lh_prev (tb' ! i) = lh_prev (tb ! i)"
    and "\<forall>i \<in> set (butlast xs). lh_next (tb' ! i) = lh_next (tb ! i)" and "xs \<noteq> [] \<Longrightarrow> lh_next (tb' ! last xs) = nx'"
  shows "lseg tb' p xs nx'"
proof (cases xs rule: rev_cases)
  case (snoc ys x)
  then have "lseg tb' p ys (Some x)" using assms lseg_frame [of ys tb' tb p "Some x"] by (auto simp: lseg_append first_or_def)
  then show ?thesis using assms snoc by (simp add: lseg_append first_or_def)
qed simp

lemma in_butlast: "distinct xs \<Longrightarrow> i \<in> set (butlast xs) \<Longrightarrow> i \<in> set xs \<and> i \<noteq> last xs"
  by (cases xs rule: rev_cases) auto

lemma lh_foreach_links: "lseg (lh_entries t) p xs None \<Longrightarrow> lh_foreach t (first_or xs None) = Some (map (ent t) xs)"
proof (induction xs arbitrary: p)
  case Nil
  then show ?case by (subst lh_foreach.simps) (simp add: first_or_def)
next
  case (Cons x xs)
  then have "lh_foreach t (lh_next (ent t x)) = Some (map (ent t) xs)" by auto
  then show ?case by (subst lh_foreach.simps) (simp add: first_or_def)
qed

subsection \<open>Probing\<close>

lemma probe_next_mod: "n < lh_size t \<Longrightarrow> probe_next t n = Suc n mod lh_size t"
  by (auto simp: probe_next_def)

lemma probe_step: "0 < lh_size t \<Longrightarrow> probe_next t ((h + d) mod lh_size t) = (h + Suc d) mod lh_size t"
  by (simp add: probe_next_mod mod_Suc_eq)

lemma reaches: "f < sz \<Longrightarrow> \<exists>c < sz. (h + c) mod sz = f" for sz :: nat
proof -
  assume f: "f < sz"
  let ?c = "(f + (sz - h mod sz)) mod sz"
  have "(h + ?c) mod sz = (h mod sz + (f + (sz - h mod sz))) mod sz" by (simp only: mod_add_left_eq mod_add_right_eq)
  also have "h mod sz + (f + (sz - h mod sz)) = f + sz" using f mod_less_divisor [of sz h] by linarith
  also have "(f + sz) mod sz = f" using f by simp
  finally show ?thesis using f by (intro exI [of _ ?c]) simp
qed

lemma free_slot_found:
  assumes "0 < lh_size t" and "lh_k (ent t ((h + c) mod lh_size t)) \<in> {LH_EMPTY, LH_FREED}"
  shows "\<exists>d \<le> c. free_slot t (h mod lh_size t) = Some ((h + d) mod lh_size t) \<and>
    lh_k (ent t ((h + d) mod lh_size t)) \<in> {LH_EMPTY, LH_FREED} \<and>
    (\<forall>b < d. lh_k (ent t ((h + b) mod lh_size t)) \<notin> {LH_EMPTY, LH_FREED})"
  using assms(2)
proof (induction c arbitrary: h)
  case 0
  then show ?case by (subst free_slot.simps) auto
next
  case (Suc c)
  show ?case
  proof (cases "lh_k (ent t (h mod lh_size t)) \<in> {LH_EMPTY, LH_FREED}")
    case True
    then show ?thesis by (subst free_slot.simps) (auto intro!: exI [of _ 0])
  next
    case False
    have p: "probe_next t (h mod lh_size t) = Suc h mod lh_size t" using probe_step [OF assms(1), of h 0] by simp
    obtain d where d: "d \<le> c" "free_slot t (Suc h mod lh_size t) = Some ((Suc h + d) mod lh_size t)"
        "lh_k (ent t ((Suc h + d) mod lh_size t)) \<in> {LH_EMPTY, LH_FREED}"
        "\<forall>b < d. lh_k (ent t ((Suc h + b) mod lh_size t)) \<notin> {LH_EMPTY, LH_FREED}"
      using Suc.IH [of "Suc h"] Suc.prems by auto
    have "\<forall>b < Suc d. lh_k (ent t ((h + b) mod lh_size t)) \<notin> {LH_EMPTY, LH_FREED}"
      using d(4) False by (auto simp: less_Suc_eq_0_disj)
    then show ?thesis using False p d by (subst free_slot.simps) (auto intro!: exI [of _ "Suc d"])
  qed
qed

lemma lookup_sound:
  assumes "0 < lh_size t" and "lookup_loop t key c (h mod lh_size t) = Some i"
  shows "i < lh_size t \<and> lh_k (ent t i) = Key key"
  using assms(2)
proof (induction c arbitrary: h)
  case (Suc c)
  have p: "probe_next t (h mod lh_size t) = Suc h mod lh_size t" using probe_step [OF assms(1), of h 0] by simp
  show ?case
  proof (cases "lh_k (ent t (h mod lh_size t))")
    case (Key s)
    then show ?thesis using Suc.prems Suc.IH [of "Suc h"] assms(1) p by (auto simp: the_key_def split: if_splits)
  qed (use Suc p in auto)
qed simp

lemma lookup_complete:
  assumes "0 < lh_size t" and "d < c" and "lh_k (ent t ((h + d) mod lh_size t)) = Key key"
    and "\<forall>b < d. lh_k (ent t ((h + b) mod lh_size t)) \<noteq> LH_EMPTY"
  shows "lookup_loop t key c (h mod lh_size t) \<noteq> None"
  using assms(2-4)
proof (induction c arbitrary: h d)
  case (Suc c)
  have p: "probe_next t (h mod lh_size t) = Suc h mod lh_size t" using probe_step [OF assms(1), of h 0] by simp
  show ?case
  proof (cases d)
    case 0
    then show ?thesis using Suc.prems by (simp add: the_key_def)
  next
    case (Suc e)
    have "lookup_loop t key c (Suc h mod lh_size t) \<noteq> None"
      using Suc.prems Suc by (intro Suc.IH [of e]) auto
    moreover have "lh_k (ent t (h mod lh_size t)) \<noteq> LH_EMPTY" using Suc.prems Suc by force
    ultimately show ?thesis using p by auto
  qed
qed simp

subsection \<open>Look-up\<close>

lemma lh_wfD:
  assumes "lh_wf hash t ps"
  shows "0 < lh_size t" and "length (lh_entries t) = lh_size t" and "lh_count t = length ps" and "distinct ps"
    and "i \<in> set ps \<longleftrightarrow> i < lh_size t \<and> in_use t i" and "distinct (map (key_at t) ps)"
    and "lseg (lh_entries t) None ps None" and "lh_head t = first_or ps None" and "lh_tail t = last_or ps None"
    and "i \<in> set ps \<Longrightarrow> probe_ok hash t i"
  using assms unfolding lh_wf_def by blast+

lemma in_useI: "lh_k (ent t i) = Key s \<Longrightarrow> in_use t i \<and> key_at t i = s"
  by (simp add: in_use_def key_at_def the_key_def)

lemma lookup_entry_iff:
  assumes "lh_wf hash t ps"
  shows "lh_table_lookup_entry_w_hash t key (hash key) = Some i \<longleftrightarrow> i \<in> set ps \<and> key_at t i = key"
proof -
  have z: "0 < lh_size t" using assms by (simp add: lh_wf_def)
  have inj: "i \<in> set ps \<Longrightarrow> j \<in> set ps \<Longrightarrow> key_at t i = key_at t j \<Longrightarrow> i = j" for i j
    using assms by (auto simp: lh_wf_def distinct_map dest: inj_onD)
  have sound: "j \<in> set ps \<and> key_at t j = key" if "lh_table_lookup_entry_w_hash t key (hash key) = Some j" for j
    using lookup_sound [OF z] that in_useI assms by (fastforce simp: lh_table_lookup_entry_w_hash_def lh_wf_def)
  have complete: "lh_table_lookup_entry_w_hash t key (hash key) \<noteq> None" if i: "i \<in> set ps" and k: "key_at t i = key"
  proof -
    obtain c where c: "c < lh_size t" "(hash key + c) mod lh_size t = i"
        "\<forall>d < c. lh_k (ent t ((hash key + d) mod lh_size t)) \<noteq> LH_EMPTY"
      using lh_wfD(10) [OF assms i] k by (auto simp: probe_ok_def)
    moreover have "lh_k (ent t i) = Key key" using assms i k by (auto simp: lh_wf_def in_use_def)
    ultimately show ?thesis using lookup_complete [OF z c(1)] by (simp add: lh_table_lookup_entry_w_hash_def)
  qed
  show ?thesis
  proof
    show "lh_table_lookup_entry_w_hash t key (hash key) = Some i \<Longrightarrow> i \<in> set ps \<and> key_at t i = key" by (rule sound)
    assume i: "i \<in> set ps \<and> key_at t i = key"
    then obtain j where "lh_table_lookup_entry_w_hash t key (hash key) = Some j" using complete by blast
    then show "lh_table_lookup_entry_w_hash t key (hash key) = Some i" using sound inj i by blast
  qed
qed

lemma lookup_entry_None:
  assumes "lh_wf hash t ps"
  shows "lh_table_lookup_entry_w_hash t key (hash key) = None \<longleftrightarrow> key \<notin> fst ` set (members t ps)"
proof -
  have "lh_table_lookup_entry_w_hash t key (hash key) = None \<longleftrightarrow> (\<forall>i. \<not> (i \<in> set ps \<and> key_at t i = key))"
    using lookup_entry_iff [OF assms] by (metis not_None_eq)
  then show ?thesis by (force simp: members_def)
qed

lemma lookup_ex_members:
  assumes "lh_wf hash t ps"
  shows "lh_table_lookup_ex hash t key = map_of (members t ps) key"
proof (cases "lh_table_lookup_entry_w_hash t key (hash key)")
  case None
  then have "map_of (members t ps) key = None" using lookup_entry_None [OF assms] by (simp add: map_of_eq_None_iff)
  then show ?thesis using None by (simp add: lh_table_lookup_ex_def lh_table_lookup_entry_def)
next
  case (Some i)
  then have i: "i \<in> set ps" "key_at t i = key" using lookup_entry_iff [OF assms] by auto
  have "distinct (map fst (members t ps))" using assms by (simp add: members_def lh_wf_def comp_def)
  moreover have "(key, lh_v (ent t i)) \<in> set (members t ps)" using i by (auto simp: members_def)
  ultimately have "map_of (members t ps) key = Some (lh_v (ent t i))" by (rule map_of_is_SomeI)
  then show ?thesis using Some by (simp add: lh_table_lookup_ex_def lh_table_lookup_entry_def)
qed

subsection \<open>Insertion\<close>

lemma probe_ok_mono:
  assumes "probe_ok hash t i" and "lh_size t' = lh_size t" and "key_at t' i = key_at t i"
    and "\<forall>j < lh_size t. lh_k (ent t j) \<noteq> LH_EMPTY \<longrightarrow> lh_k (ent t' j) \<noteq> LH_EMPTY"
  shows "probe_ok hash t' i"
  using assms by (auto simp: probe_ok_def)

lemma wf_count_le: "lh_wf hash t ps \<Longrightarrow> lh_count t \<le> lh_size t"
proof -
  assume w: "lh_wf hash t ps"
  then have "length ps = card (set ps)" using distinct_card [of ps] by (simp only: lh_wf_def)
  also have "\<dots> \<le> card {..< lh_size t}" using w by (intro card_mono) (auto simp: lh_wf_def)
  finally show ?thesis using w by (simp add: lh_wf_def)
qed

lemma free_exists:
  assumes "lh_wf hash t ps" and "lh_count t < lh_size t"
  shows "\<exists>i < lh_size t. lh_k (ent t i) \<in> {LH_EMPTY, LH_FREED}"
proof (rule ccontr)
  assume n: "\<not> ?thesis"
  have "{..< lh_size t} \<subseteq> set ps"
  proof
    fix i assume i: "i \<in> {..< lh_size t}"
    then have "\<exists>s. lh_k (ent t i) = Key s" using n by (cases "lh_k (ent t i)") auto
    then show "i \<in> set ps" using i in_useI assms(1) by (auto simp: lh_wf_def)
  qed
  then have "lh_size t \<le> card (set ps)" using card_mono [of "set ps" "{..< lh_size t}"] by simp
  then show False using distinct_card [OF lh_wfD(4) [OF assms(1)]] lh_wfD(3) [OF assms(1)] assms(2) by simp
qed

text \<open>The table after the insertion, entry by entry.\<close>

lemma insert_slot_entries:
  assumes "lh_wf hash t ps" and "free_slot t (h mod lh_size t) = Some n" and "n < lh_size t" and "n \<notin> set ps"
  shows "\<exists>t'. insert_slot t key val h opts = Some t' \<and> lh_size t' = lh_size t \<and> lh_count t' = lh_count t + 1 \<and>
    length (lh_entries t') = lh_size t \<and> lh_head t' = first_or (ps @ [n]) None \<and> lh_tail t' = Some n \<and>
    ent t' n = \<lparr>lh_k = Key key, lh_k_is_constant = opts, lh_v = val, lh_next = None, lh_prev = last_or ps None\<rparr> \<and>
    (\<forall>i. i \<noteq> n \<longrightarrow> ent t' i = (if ps \<noteq> [] \<and> i = last ps then (ent t i)\<lparr>lh_next := Some n\<rparr> else ent t i))"
proof -
  have w: "0 < lh_size t" "length (lh_entries t) = lh_size t" "lh_head t = first_or ps None" "lh_tail t = last_or ps None"
      "\<forall>i \<in> set ps. i < lh_size t"
    using assms(1) by (auto simp: lh_wf_def)
  obtain t' where t': "insert_slot t key val h opts = Some t'"
    using assms(2) w(1) by (auto simp: insert_slot_def Let_def)
  show ?thesis
  proof (cases "ps = []")
    case True
    then show ?thesis using t' assms w by (auto simp: insert_slot_def first_or_def last_or_def ent_upd Let_def)
  next
    case False
    then have l: "last ps < lh_size t" "last ps \<noteq> n" "\<exists>x. lh_head t = Some x" "first_or (ps @ [n]) None = lh_head t"
      using w assms(4) by (auto simp: first_or_def split: list.split)
    then show ?thesis using t' assms w False by (auto simp: insert_slot_def last_or_def ent_upd Let_def)
  qed
qed

lemma insert_slot_wf:
  assumes wf: "lh_wf hash t ps" and room: "lh_count t < lh_size t" and new: "key \<notin> fst ` set (members t ps)"
  shows "\<exists>t' n. insert_slot t key val (hash key) opts = Some t' \<and> lh_wf hash t' (ps @ [n]) \<and>
    members t' (ps @ [n]) = members t ps @ [(key, val)] \<and> lh_size t' = lh_size t"
proof -
  let ?h = "hash key"
  note w = lh_wfD [OF wf]
  obtain f where f: "f < lh_size t" "lh_k (ent t f) \<in> {LH_EMPTY, LH_FREED}" using free_exists [OF wf room] by blast
  then obtain c where c: "c < lh_size t" "(?h + c) mod lh_size t = f" using reaches by blast
  then obtain d where d: "d \<le> c" "free_slot t (?h mod lh_size t) = Some ((?h + d) mod lh_size t)"
      "lh_k (ent t ((?h + d) mod lh_size t)) \<in> {LH_EMPTY, LH_FREED}"
      "\<forall>b < d. lh_k (ent t ((?h + b) mod lh_size t)) \<notin> {LH_EMPTY, LH_FREED}"
    using free_slot_found [OF w(1), of ?h c] f(2) by auto
  define n where "n = (?h + d) mod lh_size t"
  have n: "n < lh_size t" using w(1) by (simp add: n_def)
  have "\<not> in_use t n" using d(3) by (auto simp: n_def in_use_def)
  then have np: "n \<notin> set ps" using w(5) [of n] by blast
  have "free_slot t (?h mod lh_size t) = Some n" using d(2) n_def by simp
  from insert_slot_entries [OF wf this n np, of key val opts]
  obtain t' where t': "insert_slot t key val ?h opts = Some t'" "lh_size t' = lh_size t" "lh_count t' = lh_count t + 1"
      "length (lh_entries t') = lh_size t" "lh_head t' = first_or (ps @ [n]) None" "lh_tail t' = Some n"
      "ent t' n = \<lparr>lh_k = Key key, lh_k_is_constant = opts, lh_v = val, lh_next = None, lh_prev = last_or ps None\<rparr>"
      "\<forall>i. i \<noteq> n \<longrightarrow> ent t' i = (if ps \<noteq> [] \<and> i = last ps then (ent t i)\<lparr>lh_next := Some n\<rparr> else ent t i)"
    by (elim exE conjE) (rule that)
  have keys: "lh_k (ent t' i) = (if i = n then Key key else lh_k (ent t i))" "lh_v (ent t' i) = (if i = n then val else lh_v (ent t i))" for i
    using t'(7,8) by auto
  then have at: "key_at t' i = (if i = n then key else key_at t i)" "in_use t' i = (i = n \<or> in_use t i)" for i
    by (auto simp: key_at_def in_use_def the_key_def)
  have mem: "members t' (ps @ [n]) = members t ps @ [(key, val)]"
    using np by (auto simp: members_def at keys)
  have ent: "\<forall>i < lh_size t. lh_k (ent t i) \<noteq> LH_EMPTY \<longrightarrow> lh_k (ent t' i) \<noteq> LH_EMPTY" using keys by simp
  have "probe_ok hash t' i" if "i \<in> set ps" for i
    using that np at by (intro probe_ok_mono [OF w(10) [OF that] t'(2) _ ent]) auto
  moreover have "probe_ok hash t' n"
    unfolding probe_ok_def using d c(1) at keys t'(2) by (intro exI [of _ d]) (auto simp: n_def)
  moreover have "lseg (lh_entries t') None (ps @ [n]) None"
  proof -
    have "lseg (lh_entries t') None ps (Some n)"
    proof (rule lseg_last [OF w(7,4)])
      show "\<forall>i \<in> set ps. lh_prev (ent t' i) = lh_prev (ent t i)" using t'(8) np by auto
      show "\<forall>i \<in> set (butlast ps). lh_next (ent t' i) = lh_next (ent t i)" using t'(8) np in_butlast [OF w(4)] by metis
      show "lh_next (ent t' (last ps)) = Some n" if "ps \<noteq> []" 
      proof -
        have "last ps \<noteq> n" using np last_in_set [OF that] by blast
        then show ?thesis using t'(8) that by simp
      qed
    qed
    then show ?thesis using t'(7) by (simp add: lseg_append first_or_def)
  qed
  moreover have "distinct (map (key_at t') (ps @ [n]))"
  proof -
    have "map (key_at t') (ps @ [n]) = map (key_at t) ps @ [key]" using np at by auto
    moreover have "key \<notin> key_at t ` set ps" using new by (force simp: members_def)
    ultimately show ?thesis using w(6) by (simp del: map_append)
  qed
  ultimately have "lh_wf hash t' (ps @ [n])"
    using t'(2-6) w(1-4) w(5) n np at unfolding lh_wf_def by (auto simp: last_or_def)
  then show ?thesis using t'(1,2) mem by blast
qed

subsection \<open>Resizing\<close>

lemma table_new_wf: "0 < sz \<Longrightarrow> lh_wf hash (lh_table_new sz) []"
  by (auto simp: lh_wf_def lh_table_new_def in_use_def first_or_def last_or_def)

lemma insert_depth_slot: "\<not> LH_LOAD_REACHED t \<Longrightarrow> insert_depth d hash t = insert_slot t"
  by (intro ext) (simp add: insert_depth.simps)

lemma insert_all_wf:
  assumes "lh_wf hash t ps" and "\<forall>e \<in> set es. in_use (t\<lparr>lh_entries := [e]\<rparr>) 0"
    and "distinct (map fst (members t ps) @ map (\<lambda>e. the_key (lh_k e)) es)"
    and "2 * (length ps + length es) \<le> lh_size t"
  shows "\<exists>t' ps'. insert_all (insert_depth d hash) hash es t = Some t' \<and> lh_wf hash t' ps' \<and>
    members t' ps' = members t ps @ map (\<lambda>e. (the_key (lh_k e), lh_v e)) es \<and> lh_size t' = lh_size t"
  using assms
proof (induction es arbitrary: t ps)
  case (Cons e es)
  let ?k = "the_key (lh_k e)"
  have nl: "\<not> LH_LOAD_REACHED t" and room: "lh_count t < lh_size t"
    using Cons.prems(4) lh_wfD(1,3) [OF Cons.prems(1)] by (simp_all add: LH_LOAD_REACHED_def)
  have "?k \<notin> fst ` set (members t ps)" using Cons.prems(3) by auto
  from insert_slot_wf [OF Cons.prems(1) room this, of "lh_v e" "lh_k_is_constant e"]
  obtain t1 n where t1: "insert_slot t ?k (lh_v e) (hash ?k) (lh_k_is_constant e) = Some t1" "lh_wf hash t1 (ps @ [n])"
      "members t1 (ps @ [n]) = members t ps @ [(?k, lh_v e)]" "lh_size t1 = lh_size t" by blast
  have "\<exists>t' ps'. insert_all (insert_depth d hash) hash es t1 = Some t' \<and> lh_wf hash t' ps' \<and>
      members t' ps' = members t1 (ps @ [n]) @ map (\<lambda>e. (the_key (lh_k e), lh_v e)) es \<and> lh_size t' = lh_size t1"
  proof (rule Cons.IH [OF t1(2)])
    show "\<forall>e \<in> set es. in_use (t1\<lparr>lh_entries := [e]\<rparr>) 0" using Cons.prems(2) by (simp add: in_use_def key_at_def)
  qed (use Cons.prems t1 in auto)
  then show ?case using t1 insert_depth_slot [OF nl, of d hash] by auto
qed auto

lemma resize_wf:
  assumes "lh_wf hash t ps"
  shows "\<exists>t' ps'. resize_with (insert_depth d hash) hash t (lh_size t * 2) = Some t' \<and> lh_wf hash t' ps' \<and>
    members t' ps' = members t ps \<and> lh_size t' = lh_size t * 2"
proof -
  note w = lh_wfD [OF assms]
  let ?es = "map (ent t) ps" and ?new = "lh_table_new (lh_size t * 2)"
  have es: "lh_foreach t (lh_head t) = Some ?es" using lh_foreach_links [OF w(7)] w(8) by simp
  have new: "lh_wf hash ?new []" using w(1) by (intro table_new_wf) simp
  have keys: "map (\<lambda>e. the_key (lh_k e)) ?es = map (key_at t) ps" by (simp add: key_at_def)
  have "\<exists>t' ps'. insert_all (insert_depth d hash) hash ?es ?new = Some t' \<and> lh_wf hash t' ps' \<and>
      members t' ps' = members ?new [] @ map (\<lambda>e. (the_key (lh_k e), lh_v e)) ?es \<and> lh_size t' = lh_size ?new"
  proof (rule insert_all_wf [OF new])
    show "\<forall>e \<in> set ?es. in_use (?new\<lparr>lh_entries := [e]\<rparr>) 0"
      using w(5) by (auto simp: in_use_def key_at_def)
    show "distinct (map fst (members ?new []) @ map (\<lambda>e. the_key (lh_k e)) ?es)"
      unfolding keys using w(6) by (simp add: members_def)
    show "2 * (length [] + length ?es) \<le> lh_size ?new"
      using wf_count_le [OF assms] w(3) by (simp add: lh_table_new_def)
  qed
  then obtain n ps' where n: "insert_all (insert_depth d hash) hash ?es ?new = Some n" "lh_wf hash n ps'"
      "members n ps' = members t ps" "lh_size n = lh_size t * 2"
    by (auto simp: members_def key_at_def comp_def lh_table_new_def)
  let ?t' = "t\<lparr>lh_entries := lh_entries n, lh_size := lh_size t * 2, lh_head := lh_head n, lh_tail := lh_tail n\<rparr>"
  have len: "length ps' = length ps" using n(3) by (metis length_map members_def)
  have same: "key_at ?t' = key_at n" "in_use ?t' = in_use n" "probe_ok hash ?t' = probe_ok hash n" "members ?t' = members n"
    using n(4) by (auto simp: fun_eq_iff key_at_def in_use_def probe_ok_def members_def)
  have "lh_wf hash ?t' ps'" using n(2,4) len w(3) unfolding lh_wf_def same by simp
  then show ?thesis using es n(1,3) same by (intro exI [of _ ?t'] exI [of _ ps']) (simp add: resize_with_def)
qed

text \<open>Insertion of a new key: whether it resizes or not, the member list grows by one at the end.\<close>

lemma insert_new:
  assumes "lh_wf hash t ps" and "key \<notin> fst ` set (members t ps)"
  shows "\<exists>t' ps'. insert_depth (Suc d) hash t key val (hash key) opts = Some t' \<and> lh_wf hash t' ps' \<and>
    members t' ps' = members t ps @ [(key, val)]"
proof (cases "LH_LOAD_REACHED t")
  case True
  obtain t1 ps1 where t1: "resize_with (insert_depth d hash) hash t (lh_size t * 2) = Some t1" "lh_wf hash t1 ps1"
      "members t1 ps1 = members t ps" "lh_size t1 = lh_size t * 2" using resize_wf [OF assms(1)] by blast
  have "length ps1 = length ps" using t1(3) by (metis length_map members_def)
  then have "lh_count t1 < lh_size t1"
    using wf_count_le [OF assms(1)] lh_wfD(1,3) [OF assms(1)] lh_wfD(3) [OF t1(2)] t1(4) by linarith
  then show ?thesis using insert_slot_wf [OF t1(2), of key val opts] assms(2) t1 True
    by (auto simp: insert_depth.simps)
next
  case False
  then have "lh_count t < lh_size t" using lh_wfD(1) [OF assms(1)] by (simp add: LH_LOAD_REACHED_def)
  then show ?thesis using insert_slot_wf [OF assms(1) _ assms(2), of val opts] False insert_depth_slot by metis
qed

subsection \<open>Replacing and deleting\<close>

lemma members_keys: "map fst (members t ps) = map (key_at t) ps"
  by (simp add: members_def comp_def)

lemma replace_wf:
  assumes wf: "lh_wf hash t ps" and i: "i \<in> set ps"
  shows "lh_wf hash (upd i (\<lambda>e. e\<lparr>lh_v := val\<rparr>) t) ps \<and> members (upd i (\<lambda>e. e\<lparr>lh_v := val\<rparr>) t) ps = member_add (members t ps) (key_at t i) val"
proof -
  let ?t' = "upd i (\<lambda>e. e\<lparr>lh_v := val\<rparr>) t"
  note w = lh_wfD [OF wf]
  have il: "i < length (lh_entries t)" using w(2) w(5) [of i] i by simp
  note e = ent_upd [OF il, of "\<lambda>e. e\<lparr>lh_v := val\<rparr>"]
  have kk: "lh_k (ent ?t' j) = lh_k (ent t j)" for j by (simp add: e)
  then have same: "key_at ?t' = key_at t" "in_use ?t' = in_use t" "probe_ok hash ?t' = probe_ok hash t"
    by (simp_all add: fun_eq_iff key_at_def in_use_def probe_ok_def)
  have "lseg (lh_entries ?t') None ps None = lseg (lh_entries t) None ps None" by (rule lseg_frame) (simp add: e)
  then have "lh_wf hash ?t' ps" using wf unfolding lh_wf_def same by simp
  moreover have "members ?t' qs = member_add (members t qs) (key_at t i) val"
    if "i \<in> set qs" "distinct (map (key_at t) qs)" for qs
    using that
  proof (induction qs)
    case (Cons q qs)
    show ?case
    proof (cases "q = i")
      case True
      then have "members ?t' qs = members t qs" using Cons.prems same e by (auto simp: members_def)
      then show ?thesis using True e same by (simp add: members_def)
    next
      case False
      then have "key_at t q \<noteq> key_at t i" using Cons.prems by auto
      then show ?thesis using Cons False e same by (auto simp: members_def)
    qed
  qed simp
  ultimately show ?thesis using i w(6) by blast
qed

text \<open>The table after a deletion, entry by entry.\<close>

lemma delete_entries:
  assumes wf: "lh_wf hash t (as @ n # bs)"
  shows "\<exists>t'. lh_table_delete_entry t n = (0, t') \<and> lh_size t' = lh_size t \<and> lh_count t' = lh_count t - 1 \<and>
    length (lh_entries t') = lh_size t \<and> lh_head t' = first_or (as @ bs) None \<and> lh_tail t' = last_or (as @ bs) None \<and>
    lh_k (ent t' n) = LH_FREED \<and>
    (\<forall>i. i \<noteq> n \<longrightarrow> lh_k (ent t' i) = lh_k (ent t i) \<and> lh_v (ent t' i) = lh_v (ent t i) \<and>
      lh_next (ent t' i) = (if as \<noteq> [] \<and> i = last as then first_or bs None else lh_next (ent t i)) \<and>
      lh_prev (ent t' i) = (if bs \<noteq> [] \<and> i = hd bs then last_or as None else lh_prev (ent t i)))"
proof -
  note w = lh_wfD [OF wf]
  have n: "n < lh_size t" "in_use t n" using w(5) [of n] by auto
  have l: "lh_next (ent t n) = first_or bs None" "lh_prev (ent t n) = last_or as None"
    using w(7) by (simp_all add: lseg_append)
  have k: "lh_k (ent t n) \<noteq> LH_EMPTY" "lh_k (ent t n) \<noteq> LH_FREED" using n(2) by (auto simp: in_use_def)
  have hd: "lh_head t = Some n \<longleftrightarrow> as = []" using w(4,8) by (cases as) (auto simp: first_or_def)
  have tl: "lh_tail t = Some n \<longleftrightarrow> bs = []" using w(4,9) by (auto simp: last_or_def)
  have a: "as \<noteq> [] \<Longrightarrow> last as < lh_size t \<and> last as \<noteq> n \<and> last as \<notin> set bs" and b: "bs \<noteq> [] \<Longrightarrow> hd bs < lh_size t \<and> hd bs \<noteq> n"
    using w(4) w(5) [of "last as"] w(5) [of "hd bs"] by (auto dest: last_in_set hd_in_set)
  have fl: "bs \<noteq> [] \<Longrightarrow> first_or bs None = Some (hd bs)" "as \<noteq> [] \<Longrightarrow> last_or as None = Some (last as)"
    by (cases bs; simp add: first_or_def last_or_def)+
  consider "as = []" "bs = []" | "as = []" "bs \<noteq> []" | "as \<noteq> []" "bs = []" | "as \<noteq> []" "bs \<noteq> []" by blast
  then show ?thesis
  proof cases
    case 1
    then show ?thesis using k hd tl l n w(2)
      by (simp add: lh_table_delete_entry_def Let_def ent_upd first_or_def last_or_def)
  next
    case 2
    then show ?thesis using k hd tl l n w(2,9) b fl
      by (simp add: lh_table_delete_entry_def Let_def ent_upd last_or_def)
  next
    case 3
    then show ?thesis using k hd tl l n w(2,8) a fl
      by (simp add: lh_table_delete_entry_def Let_def ent_upd first_or_def) (auto simp: last_or_def split: list.splits)
  next
    case 4
    then obtain as' x y bs' where "as = as' @ [x]" "bs = y # bs'" by (metis rev_exhaust neq_Nil_conv)
    moreover from this have "x \<noteq> n" "y \<noteq> n" "x \<noteq> y" "x < lh_size t" "y < lh_size t" "last_or (as @ bs) None = lh_tail t"
      using w(4,9) a b by (auto simp: last_or_def)
    moreover have "first_or (as @ bs) None = lh_head t" using 4 w(8) by (cases as) (simp_all add: first_or_def)
    ultimately show ?thesis using k hd tl l n(1) w(2)
      by (simp add: lh_table_delete_entry_def Let_def ent_upd first_or_def last_or_def)
  qed
qed

lemma members_delete:
  assumes "distinct (map (key_at t) (as @ n # bs))"
    and "\<forall>i \<in> set (as @ bs). key_at t' i = key_at t i \<and> lh_v (ent t' i) = lh_v (ent t i)"
  shows "members t' (as @ bs) = filter (\<lambda>m. fst m \<noteq> key_at t n) (members t (as @ n # bs))"
proof -
  have "filter (\<lambda>m. fst m \<noteq> key_at t n) (members t qs) = members t qs" if "key_at t n \<notin> key_at t ` set qs" for qs
    using that by (auto simp: members_def filter_id_conv) (metis image_eqI)
  moreover have "members t' (as @ bs) = members t as @ members t bs" using assms(2) by (auto simp: members_def)
  ultimately show ?thesis using assms(1) by (simp add: members_def)
qed

lemma delete_wf:
  assumes wf: "lh_wf hash t ps" and n: "n \<in> set ps"
  shows "\<exists>t' ps'. lh_table_delete_entry t n = (0, t') \<and> lh_wf hash t' ps' \<and>
    members t' ps' = filter (\<lambda>m. fst m \<noteq> key_at t n) (members t ps)"
proof -
  obtain as bs where ps: "ps = as @ n # bs" using n by (meson split_list)
  note w = lh_wfD [OF wf [unfolded ps]]
  from delete_entries [OF wf [unfolded ps]]
  obtain t' where t': "lh_table_delete_entry t n = (0, t')" "lh_size t' = lh_size t" "lh_count t' = lh_count t - 1"
      "length (lh_entries t') = lh_size t" "lh_head t' = first_or (as @ bs) None" "lh_tail t' = last_or (as @ bs) None"
      "lh_k (ent t' n) = LH_FREED"
      "\<forall>i. i \<noteq> n \<longrightarrow> lh_k (ent t' i) = lh_k (ent t i) \<and> lh_v (ent t' i) = lh_v (ent t i) \<and>
        lh_next (ent t' i) = (if as \<noteq> [] \<and> i = last as then first_or bs None else lh_next (ent t i)) \<and>
        lh_prev (ent t' i) = (if bs \<noteq> [] \<and> i = hd bs then last_or as None else lh_prev (ent t i))"
    by (elim exE conjE) (rule that)
  have d: "n \<notin> set as" "n \<notin> set bs" "distinct as" "distinct bs" "set as \<inter> set bs = {}" using w(4) by auto
  have at: "i \<noteq> n \<Longrightarrow> key_at t' i = key_at t i \<and> in_use t' i = in_use t i" "\<not> in_use t' n" for i
    using t'(7,8) by (simp_all add: key_at_def in_use_def)
  have keep: "key_at t' i = key_at t i" if "i \<in> set (as @ bs)" for i using that at(1) d by fastforce
  have ent: "\<forall>i < lh_size t. lh_k (ent t i) \<noteq> LH_EMPTY \<longrightarrow> lh_k (ent t' i) \<noteq> LH_EMPTY" using t'(7,8) by (metis lh_key.distinct(1))
  have seg: "lseg (lh_entries t) None as (Some n)" "lseg (lh_entries t) (Some n) bs None"
    using w(7) by (simp_all add: lseg_append first_or_def)
  have "lseg (lh_entries t') None as (first_or bs None)"
  proof (rule lseg_last [OF seg(1) d(3)])
    show "\<forall>i \<in> set as. lh_prev (ent t' i) = lh_prev (ent t i)" using t'(8) d hd_in_set by (metis disjoint_iff)
    show "\<forall>i \<in> set (butlast as). lh_next (ent t' i) = lh_next (ent t i)" using t'(8) d(1) in_butlast [OF d(3)] by metis
    show "lh_next (ent t' (last as)) = first_or bs None" if "as \<noteq> []" using t'(8) d(1) that last_in_set by metis
  qed
  moreover have "lseg (lh_entries t') (last_or as None) bs None"
  proof (rule lseg_first [OF seg(2)])
    show "\<forall>i \<in> set bs. lh_next (ent t' i) = lh_next (ent t i)" using t'(8) d last_in_set by (metis disjoint_iff)
    show "\<forall>i \<in> set (tl bs). lh_prev (ent t' i) = lh_prev (ent t i)"
      using t'(8) d(2,4) by (cases bs) (simp_all, metis)
    show "lh_prev (ent t' (hd bs)) = last_or as None" if "bs \<noteq> []" using t'(8) d(2) that hd_in_set by metis
  qed
  ultimately have links: "lseg (lh_entries t') None (as @ bs) None" by (simp add: lseg_append)
  have "probe_ok hash t' i" if "i \<in> set (as @ bs)" for i
    using that by (intro probe_ok_mono [OF w(10) t'(2) keep ent]) auto
  moreover have "i \<in> set (as @ bs) \<longleftrightarrow> i < lh_size t \<and> in_use t' i" for i using w(5) [of i] at d by (cases "i = n") auto
  moreover have "map (key_at t') (as @ bs) = map (key_at t) as @ map (key_at t) bs" using keep by auto
  then have "distinct (map (key_at t') (as @ bs))" using w(6) by (simp del: map_append add: map_append [of "key_at t"]) 
  ultimately have "lh_wf hash t' (as @ bs)"
    using t'(2-6) w(1-3) d links unfolding lh_wf_def by auto
  moreover have "members t' (as @ bs) = filter (\<lambda>m. fst m \<noteq> key_at t n) (members t ps)"
    unfolding ps using t'(8) keep d(1,2) by (intro members_delete [OF w(6)]) (metis Un_iff set_append)
  ultimately show ?thesis using t'(1) by blast
qed

section \<open>The refinement\<close>

lemma table_exec_refines:
  assumes "table_rel hash t ms"
  shows "\<exists>t'. table_exec hash op t = Some t' \<and> table_rel hash t' (member_exec op ms)"
proof -
  obtain ps where wf: "lh_wf hash t ps" and ms: "members t ps = ms" using assms by (auto simp: table_rel_def)
  show ?thesis
  proof (cases op)
    case (Member_add key val)
    show ?thesis
    proof (cases "lh_table_lookup_entry_w_hash t key (hash key)")
      case None
      then have "key \<notin> fst ` set (members t ps)" using lookup_entry_None [OF wf] by blast
      from insert_new [OF wf this, of 0 val False] show ?thesis
        using None Member_add member_add_append ms \<open>key \<notin> fst ` set (members t ps)\<close>
        by (auto simp: table_exec_def object_table_add_ex_def lh_table_insert_w_hash_def member_exec_def table_rel_def Let_def)
    next
      case (Some n)
      then have "n \<in> set ps" "key_at t n = key" using lookup_entry_iff [OF wf] by blast+
      then show ?thesis using replace_wf [OF wf, of n val] Some Member_add ms
        by (auto simp: table_exec_def object_table_add_ex_def member_exec_def table_rel_def Let_def)
    qed
  next
    case (Member_del key)
    show ?thesis
    proof (cases "lh_table_lookup_entry_w_hash t key (hash key)")
      case None
      then have "filter (\<lambda>m. fst m \<noteq> key) ms = ms" using lookup_entry_None [OF wf] ms by (auto simp: filter_id_conv)
      then show ?thesis using None Member_del assms
        by (auto simp: table_exec_def lh_table_delete_def lh_table_lookup_entry_def member_exec_def)
    next
      case (Some n)
      then have "n \<in> set ps" "key_at t n = key" using lookup_entry_iff [OF wf] by blast+
      then show ?thesis using delete_wf [OF wf, of n] Some Member_del ms
        by (auto simp: table_exec_def lh_table_delete_def lh_table_lookup_entry_def member_exec_def table_rel_def)
    qed
  qed
qed

text \<open>The interface of the simulation; a table has room for every number of members, so the budget is not used.\<close>

interpretation object_table: budgeted_simulation "table_exec hash" member_exec "\<lambda>_. table_rel hash" for hash
  by unfold_locales (rule table_exec_refines)

lemma table_rel_new: "table_rel hash object_table_new []"
  unfolding table_rel_def object_table_new_def JSON_OBJECT_DEF_HASH_ENTRIES_def
  by (intro exI [of _ "[]"]) (simp add: table_new_wf members_def)

lemma table_rel_reads:
  assumes "table_rel hash t ms"
  shows "lh_table_lookup_ex hash t key = map_of ms key" and "lh_table_length t = length ms"
    and "\<exists>es. lh_foreach t (lh_head t) = Some es \<and> map (\<lambda>e. (the_key (lh_k e), lh_v e)) es = ms"
proof -
  obtain ps where wf: "lh_wf hash t ps" and ms: "members t ps = ms" using assms by (auto simp: table_rel_def)
  show "lh_table_lookup_ex hash t key = map_of ms key" using lookup_ex_members [OF wf] ms by simp
  show "lh_table_length t = length ms" using lh_wfD(3) [OF wf] ms by (auto simp: lh_table_length_def members_def)
  have "lh_foreach t (lh_head t) = Some (map (ent t) ps)" using lh_foreach_links lh_wfD(7,8) [OF wf] by simp
  then show "\<exists>es. lh_foreach t (lh_head t) = Some es \<and> map (\<lambda>e. (the_key (lh_k e), lh_v e)) es = ms"
    using ms by (auto simp: members_def key_at_def comp_def)
qed

section \<open>Properties\<close>

text \<open>
  C38: The open-addressing hash table with linked entries behind a JSON object implements the
  ordered member list: every sequence of adds and deletes on a new object completes (probes and
  resizing end), whatever the hash function, and afterwards lookup, length and iteration give
  exactly the members of the list, in its order.
\<close>

theorem object_table_refines_members:
  "\<exists>t es. run_ops (table_exec hash) ops object_table_new = Some t \<and>
    (\<forall>key. lh_table_lookup_ex hash t key = map_of (fold member_exec ops []) key) \<and>
    lh_table_length t = length (fold member_exec ops []) \<and>
    lh_foreach t (lh_head t) = Some es \<and> map (\<lambda>e. (the_key (lh_k e), lh_v e)) es = fold member_exec ops []"
proof -
  obtain t where t: "run_ops (table_exec hash) ops object_table_new = Some t" "table_rel hash t (fold member_exec ops [])"
    using object_table.run_simulates table_rel_new by blast
  then show ?thesis using table_rel_reads [OF t(2)] by blast
qed

end
