(* ===== verification/SList.thy ===== *)
theory SList
  imports Prelude "HOL-Library.Monad_Syntax"
begin

text \<open>
  The singly linked list of \<open>sharelibs/utils/source/slist.c\<close>, the container of the
  INI parser, over an explicit heap. As in the source a list keeps \<open>head\<close>,
  \<open>tail\<close> and \<open>size\<close>; positions are C \<open>int\<close>s and may be negative. The
  payload of a node (the \<open>tag_value_pair\<close> around \<open>slist_node\<close>) is stored in it,
  and \<open>free_node\<close> drops the node from the heap. A whole result \<open>None\<close> is an
  access through NULL or a freed pointer, or a traversal that never returns.

  Results: under the representation invariant \<open>slist\<close> every operation is memory
  safe, keeps the invariant and computes the obvious operation on the list of nodes.
\<close>

section \<open>Definitions\<close>

type_synonym saddr = nat

record 'v slist_node =
  snext :: "saddr option"
  sval :: 'v

type_synonym 'v sheap = "saddr \<rightharpoonup> 'v slist_node"

record single_list =
  shead :: "saddr option"
  stail :: "saddr option"
  ssize :: int

definition sderef :: "'v sheap \<Rightarrow> saddr option \<Rightarrow> 'v slist_node option" where
  "sderef h p = Option.bind p h"

definition set_snext :: "saddr option \<Rightarrow> saddr option \<Rightarrow> 'v sheap \<Rightarrow> 'v sheap option" where
  "set_snext p v h =
     (case p of None \<Rightarrow> None
      | Some a \<Rightarrow> (case h a of None \<Rightarrow> None | Some n \<Rightarrow> Some (h(a \<mapsto> n\<lparr>snext := v\<rparr>))))"

definition new_single_list :: single_list where
  "new_single_list = \<lparr>shead = None, stail = None, ssize = 0\<rparr>"

definition add_node :: "single_list \<Rightarrow> saddr \<Rightarrow> 'v sheap \<Rightarrow> (single_list \<times> 'v sheap) option" where
  "add_node l node h =
     (if stail l \<noteq> None then do {
        h \<leftarrow> set_snext (stail l) (Some node) h;
        h \<leftarrow> set_snext (Some node) None h;
        Some (l\<lparr>stail := Some node, ssize := ssize l + 1\<rparr>, h)
      } else do {
        h \<leftarrow> set_snext (Some node) None h;
        Some (l\<lparr>shead := Some node, stail := Some node, ssize := 1\<rparr>, h)
      })"

text \<open>\<open>for (; i < pos; i++) { prev = p; p = p->next; }\<close>\<close>

fun advance :: "nat \<Rightarrow> saddr option \<Rightarrow> saddr option \<Rightarrow> 'v sheap
    \<Rightarrow> (saddr option \<times> saddr option) option" where
  "advance 0 prev p h = Some (prev, p)"
| "advance (Suc i) prev p h =
     (case sderef h p of None \<Rightarrow> None | Some n \<Rightarrow> advance i p (snext n) h)"

definition insert_node ::
    "single_list \<Rightarrow> int \<Rightarrow> saddr \<Rightarrow> 'v sheap \<Rightarrow> (single_list \<times> 'v sheap) option" where
  "insert_node l pos node h =
     (if pos < ssize l then do {
        (prev, p) \<leftarrow> advance (nat pos) (shead l) (shead l) h;
        (l, h) \<leftarrow>
          (if p = shead l then do {
             h \<leftarrow> set_snext (Some node) (shead l) h;
             Some (l\<lparr>shead := Some node\<rparr>, h)
           } else do {
             h \<leftarrow> set_snext prev (Some node) h;
             h \<leftarrow> set_snext (Some node) p h;
             Some (l, h)
           });
        n \<leftarrow> sderef h (Some node);
        let l = (if snext n = None then l\<lparr>stail := Some node\<rparr> else l);
        Some (l\<lparr>ssize := ssize l + 1\<rparr>, h)
      } else add_node l node h)"

definition sreplace ::
    "single_list \<Rightarrow> int \<Rightarrow> saddr \<Rightarrow> 'v sheap \<Rightarrow> (single_list \<times> 'v sheap) option" where
  "sreplace l pos node h =
     (if pos < ssize l then do {
        (prev, p) \<leftarrow> advance (nat pos) (shead l) (shead l) h;
        m \<leftarrow> sderef h p;
        (l, h) \<leftarrow>
          (if p = shead l then do {
             h \<leftarrow> set_snext (Some node) (snext m) h;
             Some (l\<lparr>shead := Some node\<rparr>, h)
           } else do {
             h \<leftarrow> set_snext prev (Some node) h;
             h \<leftarrow> set_snext (Some node) (snext m) h;
             Some (l, h)
           });
        n \<leftarrow> sderef h (Some node);
        let l = (if snext n = None then l\<lparr>stail := Some node\<rparr> else l);
        Some (l, h(the p := None))
      } else Some (l, h))"

text \<open>
  The loop \<open>while (p) { if (hit p) break; prev = p; p = p->next; }\<close> of the searches.
\<close>

partial_function (option) seek ::
    "(saddr \<Rightarrow> 'v \<Rightarrow> bool) \<Rightarrow> 'v sheap \<Rightarrow> saddr option \<Rightarrow> saddr option
       \<Rightarrow> (saddr option \<times> saddr option) option" where
  "seek hit h prev p =
     (case p of
        None \<Rightarrow> Some (prev, None)
      | Some a \<Rightarrow>
          (case h a of
             None \<Rightarrow> None
           | Some n \<Rightarrow> if hit a (sval n) then Some (prev, Some a) else seek hit h (Some a) (snext n)))"

definition find_by_key :: "single_list \<Rightarrow> ('v \<Rightarrow> bool) \<Rightarrow> 'v sheap \<Rightarrow> saddr option option" where
  "find_by_key l hit h = map_option snd (seek (\<lambda>_. hit) h None (shead l))"

definition first_of_list :: "single_list \<Rightarrow> saddr option" where
  "first_of_list l = shead l"

definition last_of_list :: "single_list \<Rightarrow> saddr option" where
  "last_of_list l = stail l"

definition node_at :: "single_list \<Rightarrow> int \<Rightarrow> 'v sheap \<Rightarrow> saddr option option" where
  "node_at l pos h =
     (if pos < ssize l then map_option snd (advance (nat pos) (shead l) (shead l) h) else Some None)"

text \<open>
  The branches that take node \<open>p\<close> with predecessor \<open>prev\<close> out of the chain, written
  out five times in the source.
\<close>

definition unchain ::
    "single_list \<Rightarrow> saddr option \<Rightarrow> saddr option \<Rightarrow> 'v sheap \<Rightarrow> (single_list \<times> 'v sheap) option" where
  "unchain l prev p h = do {
     n \<leftarrow> sderef h p;
     (if p = shead l then
        let l = l\<lparr>shead := snext n\<rparr>
        in Some (if shead l = None then l\<lparr>stail := None\<rparr> else l, h)
      else if p = stail l then do {
        h \<leftarrow> set_snext prev None h;
        Some (l\<lparr>stail := prev\<rparr>, h)
      } else do {
        h \<leftarrow> set_snext prev (snext n) h;
        Some (l, h)
      })
   }"

definition take_out ::
    "single_list \<Rightarrow> saddr option \<Rightarrow> saddr option \<Rightarrow> 'v sheap
       \<Rightarrow> (saddr option \<times> single_list \<times> 'v sheap) option" where
  "take_out l prev p h = do {
     (l, h) \<leftarrow> unchain l prev p h;
     h \<leftarrow> set_snext p None h;
     Some (p, l\<lparr>ssize := ssize l - 1\<rparr>, h)
   }"

definition free_out ::
    "single_list \<Rightarrow> saddr option \<Rightarrow> saddr option \<Rightarrow> 'v sheap \<Rightarrow> (single_list \<times> 'v sheap) option" where
  "free_out l prev p h = do {
     (l, h) \<leftarrow> unchain l prev p h;
     Some (l\<lparr>ssize := ssize l - 1\<rparr>, h(the p := None))
   }"

definition take_at ::
    "single_list \<Rightarrow> int \<Rightarrow> 'v sheap \<Rightarrow> (saddr option \<times> single_list \<times> 'v sheap) option" where
  "take_at l pos h =
     (if pos < ssize l then do {
        (prev, p) \<leftarrow> advance (nat pos) (shead l) (shead l) h;
        take_out l prev p h
      } else Some (None, l, h))"

definition take_by_key ::
    "single_list \<Rightarrow> ('v \<Rightarrow> bool) \<Rightarrow> 'v sheap \<Rightarrow> (saddr option \<times> single_list \<times> 'v sheap) option" where
  "take_by_key l hit h = do {
     (prev, p) \<leftarrow> seek (\<lambda>_. hit) h (shead l) (shead l);
     (if p \<noteq> None then take_out l prev p h else Some (None, l, h))
   }"

definition remove_node ::
    "single_list \<Rightarrow> saddr option \<Rightarrow> 'v sheap \<Rightarrow> (single_list \<times> 'v sheap) option" where
  "remove_node l node h = do {
     (prev, p) \<leftarrow> seek (\<lambda>a _. Some a = node) h (shead l) (shead l);
     (if p \<noteq> None then free_out l prev p h else Some (l, h))
   }"

definition remove_at :: "single_list \<Rightarrow> int \<Rightarrow> 'v sheap \<Rightarrow> (single_list \<times> 'v sheap) option" where
  "remove_at l pos h =
     (if pos < ssize l then do {
        (prev, p) \<leftarrow> advance (nat pos) (shead l) (shead l) h;
        free_out l prev p h
      } else Some (l, h))"

definition remove_by_key ::
    "single_list \<Rightarrow> ('v \<Rightarrow> bool) \<Rightarrow> 'v sheap \<Rightarrow> (single_list \<times> 'v sheap) option" where
  "remove_by_key l hit h = do {
     (prev, p) \<leftarrow> seek (\<lambda>_. hit) h (shead l) (shead l);
     (if p \<noteq> None then free_out l prev p h else Some (l, h))
   }"

definition length_of :: "single_list \<Rightarrow> int" where
  "length_of l = ssize l"

partial_function (option) clear_loop :: "saddr option \<Rightarrow> 'v sheap \<Rightarrow> 'v sheap option" where
  "clear_loop p h =
     (case p of
        None \<Rightarrow> Some h
      | Some a \<Rightarrow> (case h a of None \<Rightarrow> None | Some n \<Rightarrow> clear_loop (snext n) (h(a := None))))"

definition clear_list :: "single_list \<Rightarrow> 'v sheap \<Rightarrow> (single_list \<times> 'v sheap) option" where
  "clear_list l h = do {
     h \<leftarrow> clear_loop (shead l) h;
     Some (l\<lparr>shead := None, stail := None, ssize := 0\<rparr>, h)
   }"

definition delete_single_list :: "single_list \<Rightarrow> 'v sheap \<Rightarrow> 'v sheap option" where
  "delete_single_list l h = map_option snd (clear_list l h)"

section \<open>The representation invariant\<close>

definition hd_or :: "saddr list \<Rightarrow> saddr option \<Rightarrow> saddr option" where
  "hd_or as q = (case as of [] \<Rightarrow> q | a # _ \<Rightarrow> Some a)"

fun sseg :: "'v sheap \<Rightarrow> saddr list \<Rightarrow> saddr option \<Rightarrow> bool" where
  "sseg h [] q = True"
| "sseg h (a # as) q =
     (case h a of None \<Rightarrow> False | Some n \<Rightarrow> snext n = hd_or as q \<and> sseg h as q)"

definition slist :: "'v sheap \<Rightarrow> single_list \<Rightarrow> saddr list \<Rightarrow> bool" where
  "slist h l as \<longleftrightarrow> distinct as \<and> sseg h as None \<and> shead l = hd_or as None \<and>
     stail l = (if as = [] then None else Some (last as)) \<and> ssize l = int (length as)"

definition svals :: "'v sheap \<Rightarrow> saddr list \<Rightarrow> 'v list" where
  "svals h as = map (\<lambda>a. sval (the (h a))) as"

lemma hd_or_simps [simp]:
  "hd_or [] q = q" "hd_or (a # as) q = Some a" "hd_or (as @ bs) q = hd_or as (hd_or bs q)"
  by (auto simp: hd_or_def split: list.splits)

lemma hd_or_None [simp]: "hd_or as None = None \<longleftrightarrow> as = []"
  by (cases as) auto

lemma sseg_append [simp]: "sseg h (as @ bs) q \<longleftrightarrow> sseg h as (hd_or bs q) \<and> sseg h bs q"
  by (induction as) (auto split: option.splits)

lemma sseg_upd [simp]: "a \<notin> set as \<Longrightarrow> sseg (h(a := x)) as q = sseg h as q"
  by (induction as) (auto split: option.splits)

lemma sseg_dom: "sseg h as q \<Longrightarrow> a \<in> set as \<Longrightarrow> \<exists>n. h a = Some n"
  by (induction as) (auto split: option.splits)

lemma svals_simps [simp]:
  "svals h [] = []" "svals h (a # as) = sval (the (h a)) # svals h as"
  "svals h (as @ bs) = svals h as @ svals h bs"
  by (simp_all add: svals_def)

lemma svals_upd [simp]: "a \<notin> set as \<Longrightarrow> svals (h(a := x)) as = svals h as"
  by (auto simp: svals_def)

lemmas sdefs = set_snext_def sderef_def

section \<open>Each operation on the list of nodes\<close>

lemma slist_new: "slist h new_single_list []"
  by (simp add: slist_def new_single_list_def)

lemma add_node_spec:
  assumes "slist h l as" and "a \<notin> set as" and "h a = Some n"
  shows "\<exists>l' h'. add_node l a h = Some (l', h') \<and> slist h' l' (as @ [a]) \<and>
     svals h' (as @ [a]) = svals h as @ [sval n] \<and> dom h' = dom h"
proof (cases as rule: rev_cases)
  case Nil
  with assms show ?thesis by (auto simp: add_node_def slist_def sdefs)
next
  case (snoc bs b)
  with assms obtain m where "h b = Some m" "snext m = None" "sseg h bs (Some b)" "b \<notin> set bs"
    by (auto simp: slist_def split: option.splits)
  with snoc assms show ?thesis by (auto simp: add_node_def slist_def sdefs)
qed

text \<open>Walking \<open>i\<close> steps from the head; \<open>prev\<close> starts as the head itself.\<close>

lemma advance_spec:
  "sseg h (as @ a # bs) q \<Longrightarrow>
     advance (length as) prev (hd_or as (Some a)) h
       = Some (if as = [] then prev else Some (last as), Some a)"
proof (induction as arbitrary: prev)
  case Nil
  then show ?case by simp
next
  case (Cons c cs)
  then obtain n where n: "h c = Some n" "snext n = hd_or cs (Some a)" by (auto split: option.splits)
  from Cons.prems have "sseg h (cs @ a # bs) q" by (auto split: option.splits)
  from Cons.IH [OF this, of "Some c"] n show ?case by (auto simp: sderef_def)
qed

lemma seek_hit:
  "sseg h (as @ a # bs) q \<Longrightarrow> hit a (sval (the (h a))) \<Longrightarrow>
   (\<And>x. x \<in> set as \<Longrightarrow> \<not> hit x (sval (the (h x)))) \<Longrightarrow>
     seek hit h prev (hd_or as (Some a)) = Some (if as = [] then prev else Some (last as), Some a)"
proof (induction as arbitrary: prev)
  case Nil
  then show ?case by (subst seek.simps) (auto split: option.splits)
next
  case (Cons c cs)
  then obtain n where n: "h c = Some n" "snext n = hd_or cs (Some a)" "sseg h (cs @ a # bs) q"
    by (auto split: option.splits)
  have "\<not> hit c (sval n)" using Cons.prems(3) [of c] n(1) by simp
  with n Cons.IH [OF n(3) Cons.prems(2), of "Some c"] Cons.prems(3) show ?case
    by (subst seek.simps) auto
qed

lemma seek_miss:
  "sseg h as None \<Longrightarrow> (\<And>x. x \<in> set as \<Longrightarrow> \<not> hit x (sval (the (h x)))) \<Longrightarrow>
     seek hit h prev (hd_or as None) = Some (if as = [] then prev else Some (last as), None)"
proof (induction as arbitrary: prev)
  case Nil
  then show ?case by (simp add: seek.simps)
next
  case (Cons a as)
  then obtain n where n: "h a = Some n" "snext n = hd_or as None" "sseg h as None"
    by (auto split: option.splits)
  have "\<not> hit a (sval n)" using Cons.prems(2) [of a] n(1) by simp
  with n Cons.IH [OF n(3), of "Some a"] Cons.prems(2) show ?case
    by (subst seek.simps) auto
qed

lemma slist_split:
  assumes "slist h l (as @ a # bs)"
  obtains n where "h a = Some n" "snext n = hd_or bs None" "sseg h as (Some a)" "sseg h bs None"
    "distinct as" "distinct bs" "a \<notin> set as" "a \<notin> set bs" "set as \<inter> set bs = {}"
  using assms by (auto simp: slist_def split: option.splits)

lemma unchain_spec:
  assumes d: "slist h l (as @ a # bs)"
    and prev: "as \<noteq> [] \<Longrightarrow> prev = Some (last as)"
  shows "\<exists>l' h'. unchain l prev (Some a) h = Some (l', h') \<and>
     slist h' (l'\<lparr>ssize := ssize l' - 1\<rparr>) (as @ bs) \<and> svals h' (as @ bs) = svals h (as @ bs) \<and>
     h' a = h a \<and> dom h' = dom h"
proof -
  obtain n where n: "h a = Some n" "snext n = hd_or bs None" "sseg h as (Some a)" "sseg h bs None"
    "distinct as" "distinct bs" "a \<notin> set as" "a \<notin> set bs" "set as \<inter> set bs = {}"
    using d by (rule slist_split)
  show ?thesis
  proof (cases as rule: rev_cases)
    case Nil
    with d n show ?thesis by (cases bs) (auto simp: unchain_def slist_def sdefs Let_def)
  next
    case (snoc cs c)
    with n obtain m where m: "h c = Some m" "snext m = Some a" "sseg h cs (Some c)" "c \<notin> set cs"
      "c \<noteq> a" "c \<notin> set bs" by (auto split: option.splits)
    have hd: "hd_or cs (Some c) \<noteq> Some a" using n(7) snoc by (cases cs) auto
    show ?thesis
    proof (cases bs rule: rev_cases)
      case Nil
      with d n m snoc prev hd show ?thesis by (auto simp: unchain_def slist_def sdefs)
    next
      case (snoc ds b)
      with d n m \<open>as = cs @ [c]\<close> prev hd show ?thesis
        by (auto simp: unchain_def slist_def sdefs split: option.splits)
    qed
  qed
qed

lemma sseg_set_other: "sseg h as q \<Longrightarrow> a \<notin> set as \<Longrightarrow> sseg (h(a := x)) as q"
  by simp

lemma slist_upd_other: "a \<notin> set as \<Longrightarrow> slist (h(a := x)) l as \<longleftrightarrow> slist h l as"
  by (simp add: slist_def)

lemma take_out_spec:
  assumes d: "slist h l (as @ a # bs)" and prev: "as \<noteq> [] \<Longrightarrow> prev = Some (last as)"
  shows "\<exists>l' h'. take_out l prev (Some a) h = Some (Some a, l', h') \<and>
     slist h' l' (as @ bs) \<and> svals h' (as @ bs) = svals h (as @ bs) \<and> dom h' = dom h \<and>
     sval (the (h' a)) = sval (the (h a))"
proof -
  obtain l' h' where u: "unchain l prev (Some a) h = Some (l', h')"
    "slist h' (l'\<lparr>ssize := ssize l' - 1\<rparr>) (as @ bs)" "svals h' (as @ bs) = svals h (as @ bs)"
    "h' a = h a" "dom h' = dom h" using unchain_spec [OF assms] by blast
  obtain n where n: "h a = Some n" and a: "a \<notin> set (as @ bs)"
    using d by (rule slist_split) auto
  have "set_snext (Some a) None h' = Some (h'(a \<mapsto> n\<lparr>snext := None\<rparr>))"
    using u(4) n by (simp add: set_snext_def)
  moreover have "slist (h'(a \<mapsto> n\<lparr>snext := None\<rparr>)) (l'\<lparr>ssize := ssize l' - 1\<rparr>) (as @ bs)"
    using slist_upd_other [OF a] u(2) by blast
  ultimately show ?thesis
    using u n a by (auto simp: take_out_def)
qed

lemma free_out_spec:
  assumes d: "slist h l (as @ a # bs)" and prev: "as \<noteq> [] \<Longrightarrow> prev = Some (last as)"
  shows "\<exists>l' h'. free_out l prev (Some a) h = Some (l', h') \<and>
     slist h' l' (as @ bs) \<and> svals h' (as @ bs) = svals h (as @ bs) \<and> dom h' = dom h - {a}"
proof -
  obtain l' h' where u: "unchain l prev (Some a) h = Some (l', h')"
    "slist h' (l'\<lparr>ssize := ssize l' - 1\<rparr>) (as @ bs)" "svals h' (as @ bs) = svals h (as @ bs)"
    "dom h' = dom h" using unchain_spec [OF assms] by blast
  have a: "a \<notin> set (as @ bs)" using d by (rule slist_split) auto
  have "slist (h'(a := None)) (l'\<lparr>ssize := ssize l' - 1\<rparr>) (as @ bs)"
    using slist_upd_other [OF a] u(2) by blast
  with u a show ?thesis by (auto simp: free_out_def)
qed

subsection \<open>Positions\<close>

text \<open>A negative position means the head.\<close>

lemma advance_at:
  assumes d: "slist h l as" and i: "nat pos < length as"
  shows "\<exists>prev. advance (nat pos) (shead l) (shead l) h = Some (prev, Some (as ! nat pos)) \<and>
     (take (nat pos) as \<noteq> [] \<longrightarrow> prev = Some (last (take (nat pos) as)))"
proof -
  let ?i = "nat pos"
  have as: "as = take ?i as @ as ! ?i # drop (Suc ?i) as" using i by (rule id_take_nth_drop)
  have len: "length (take ?i as) = ?i" using i by simp
  have "sseg h (take ?i as @ as ! ?i # drop (Suc ?i) as) None"
    using d as by (simp add: slist_def)
  from advance_spec [OF this, of "shead l"]
  have "advance ?i (shead l) (hd_or (take ?i as) (Some (as ! ?i))) h
      = Some (if take ?i as = [] then shead l else Some (last (take ?i as)), Some (as ! ?i))"
    unfolding len .
  moreover have "hd_or (take ?i as) (Some (as ! ?i)) = shead l"
    using d as hd_or_simps(3) [of "take ?i as" "as ! ?i # drop (Suc ?i) as" None]
    by (simp add: slist_def)
  ultimately show ?thesis by simp
qed

lemma node_at_spec:
  assumes d: "slist h l as"
  shows "as \<noteq> [] \<or> 0 \<le> pos \<Longrightarrow>
    node_at l pos h = Some (if nat pos < length as then Some (as ! nat pos) else None)"
proof (cases "nat pos < length as")
  case True
  then have "pos < ssize l" using d by (auto simp: slist_def)
  with True advance_at [OF d True] show ?thesis by (auto simp: node_at_def)
next
  case False
  assume "as \<noteq> [] \<or> 0 \<le> pos"
  with False have "\<not> pos < ssize l" using d by (cases as) (auto simp: slist_def)
  with False show ?thesis by (simp add: node_at_def)
qed

lemma pos_split:
  assumes "slist h l as" and "nat pos < length as"
  shows "slist h l (take (nat pos) as @ as ! nat pos # drop (Suc (nat pos)) as)" "pos < ssize l"
  using assms id_take_nth_drop [of "nat pos" as] by (auto simp: slist_def)

lemma take_at_spec:
  assumes d: "slist h l as" and i: "nat pos < length as"
  shows "\<exists>l' h'. take_at l pos h = Some (Some (as ! nat pos), l', h') \<and>
     slist h' l' (take (nat pos) as @ drop (Suc (nat pos)) as) \<and> dom h' = dom h"
proof -
  obtain prev where p: "advance (nat pos) (shead l) (shead l) h = Some (prev, Some (as ! nat pos))"
    "take (nat pos) as \<noteq> [] \<Longrightarrow> prev = Some (last (take (nat pos) as))"
    using advance_at [OF assms] by blast
  show ?thesis
    using take_out_spec [OF pos_split(1) [OF assms] p(2)] p(1) pos_split(2) [OF assms]
    by (auto simp: take_at_def)
qed

lemma remove_at_spec:
  assumes d: "slist h l as" and i: "nat pos < length as"
  shows "\<exists>l' h'. remove_at l pos h = Some (l', h') \<and>
     slist h' l' (take (nat pos) as @ drop (Suc (nat pos)) as) \<and> dom h' = dom h - {as ! nat pos}"
proof -
  obtain prev where p: "advance (nat pos) (shead l) (shead l) h = Some (prev, Some (as ! nat pos))"
    "take (nat pos) as \<noteq> [] \<Longrightarrow> prev = Some (last (take (nat pos) as))"
    using advance_at [OF assms] by blast
  show ?thesis
    using free_out_spec [OF pos_split(1) [OF assms] p(2)] p(1) pos_split(2) [OF assms]
    by (auto simp: remove_at_def)
qed

lemma insert_node_spec:
  assumes d: "slist h l as" and i: "nat pos < length as" and a: "a \<notin> set as" and n: "h a = Some n"
  shows "\<exists>l' h'. insert_node l pos a h = Some (l', h') \<and>
     slist h' l' (take (nat pos) as @ a # drop (nat pos) as) \<and> dom h' = dom h"
proof -
  let ?b = "as ! nat pos" and ?xs = "take (nat pos) as" and ?ys = "drop (Suc (nat pos)) as"
  obtain prev where p: "advance (nat pos) (shead l) (shead l) h = Some (prev, Some ?b)"
    "?xs \<noteq> [] \<Longrightarrow> prev = Some (last ?xs)" using advance_at [OF d i] by blast
  have d': "slist h l (?xs @ ?b # ?ys)" and size: "pos < ssize l" using pos_split [OF d i] by auto
  have dr: "drop (nat pos) as = ?b # ?ys" using i by (rule Cons_nth_drop_Suc [symmetric])
  obtain m where m: "h ?b = Some m" "snext m = hd_or ?ys None" "sseg h ?xs (Some ?b)" "sseg h ?ys None"
    "distinct ?xs" "distinct ?ys" "?b \<notin> set ?xs" "?b \<notin> set ?ys" "set ?xs \<inter> set ?ys = {}"
    using d' by (rule slist_split)
  have fresh: "a \<noteq> ?b" "a \<notin> set ?xs" "a \<notin> set ?ys"
    using a i by (auto dest: in_set_takeD in_set_dropD)
  show ?thesis
  proof (cases ?xs rule: rev_cases)
    case Nil
    with d' m n p fresh size show ?thesis
      unfolding dr by (auto simp: insert_node_def slist_def sdefs Let_def)
  next
    case (snoc cs c)
    with m obtain k where k: "h c = Some k" "snext k = Some ?b" "sseg h cs (Some c)" "c \<notin> set cs"
      "c \<noteq> ?b" "c \<notin> set ?ys" by (auto split: option.splits)
    have hd: "hd_or cs (Some c) \<noteq> Some ?b" using m(7) snoc by (cases cs) auto
    have "c \<noteq> a" "a \<notin> set cs" using fresh snoc by auto
    with d' m n p fresh size k hd snoc show ?thesis
      unfolding dr by (auto simp: insert_node_def slist_def sdefs Let_def)
  qed
qed

lemma insert_node_past_end:
  "slist h l as \<Longrightarrow> int (length as) \<le> pos \<Longrightarrow> insert_node l pos a h = add_node l a h"
  by (simp add: insert_node_def slist_def)

lemma sreplace_spec:
  assumes d: "slist h l as" and i: "nat pos < length as" and a: "a \<notin> set as" and n: "h a = Some n"
  shows "\<exists>l' h'. sreplace l pos a h = Some (l', h') \<and>
     slist h' l' (take (nat pos) as @ a # drop (Suc (nat pos)) as) \<and> dom h' = dom h - {as ! nat pos}"
proof -
  let ?b = "as ! nat pos" and ?xs = "take (nat pos) as" and ?ys = "drop (Suc (nat pos)) as"
  obtain prev where p: "advance (nat pos) (shead l) (shead l) h = Some (prev, Some ?b)"
    "?xs \<noteq> [] \<Longrightarrow> prev = Some (last ?xs)" using advance_at [OF d i] by blast
  have d': "slist h l (?xs @ ?b # ?ys)" and size: "pos < ssize l" using pos_split [OF d i] by auto
  obtain m where m: "h ?b = Some m" "snext m = hd_or ?ys None" "sseg h ?xs (Some ?b)" "sseg h ?ys None"
    "distinct ?xs" "distinct ?ys" "?b \<notin> set ?xs" "?b \<notin> set ?ys" "set ?xs \<inter> set ?ys = {}"
    using d' by (rule slist_split)
  have fresh: "a \<noteq> ?b" "a \<notin> set ?xs" "a \<notin> set ?ys"
    using a i by (auto dest: in_set_takeD in_set_dropD)
  show ?thesis
  proof (cases ?xs rule: rev_cases)
    case Nil
    with d' m n p fresh size show ?thesis
      by (auto simp: sreplace_def slist_def sdefs Let_def)
  next
    case (snoc cs c)
    with m obtain k where k: "h c = Some k" "snext k = Some ?b" "sseg h cs (Some c)" "c \<notin> set cs"
      "c \<noteq> ?b" "c \<notin> set ?ys" by (auto split: option.splits)
    have hd: "hd_or cs (Some c) \<noteq> Some ?b" using m(7) snoc by (cases cs) auto
    have "c \<noteq> a" "a \<notin> set cs" "?b \<notin> set cs" using fresh snoc m(7) by auto
    with d' m n p fresh size k hd snoc show ?thesis
      by (auto simp: sreplace_def slist_def sdefs Let_def)
  qed
qed

subsection \<open>Keys and nodes\<close>

lemma seek_find:
  assumes d: "slist h l as"
  shows "case find (\<lambda>a. hit a (sval (the (h a)))) as of
      None \<Rightarrow> \<exists>pr. seek hit h prev (shead l) = Some (pr, None)
    | Some a \<Rightarrow> \<exists>bs cs pr. as = bs @ a # cs \<and> remove_first (\<lambda>a. hit a (sval (the (h a)))) as = bs @ cs \<and>
        seek hit h prev (shead l) = Some (pr, Some a) \<and> (bs \<noteq> [] \<longrightarrow> pr = Some (last bs))"
proof (cases "find (\<lambda>a. hit a (sval (the (h a)))) as")
  case None
  then have "x \<in> set as \<Longrightarrow> \<not> hit x (sval (the (h x)))" for x by (auto simp: find_None_iff)
  then show ?thesis using d None seek_miss [of h as hit prev] by (auto simp: slist_def)
next
  case (Some a)
  from remove_first_split [OF Some] obtain bs cs where as: "as = bs @ a # cs"
    "remove_first (\<lambda>a. hit a (sval (the (h a)))) as = bs @ cs" "hit a (sval (the (h a)))"
    "\<forall>x \<in> set bs. \<not> hit x (sval (the (h x)))" by blast
  then have "seek hit h prev (hd_or bs (Some a)) = Some (if bs = [] then prev else Some (last bs), Some a)"
    using d by (intro seek_hit [of h bs a cs None]) (auto simp: slist_def)
  moreover have "shead l = hd_or bs (Some a)" using d as by (simp add: slist_def)
  ultimately show ?thesis using Some as(1,2) by auto
qed

lemma find_by_key_spec:
  "slist h l as \<Longrightarrow> find_by_key l hit h = Some (find (\<lambda>a. hit (sval (the (h a)))) as)"
  using seek_find [of h l as "\<lambda>_. hit" None]
  by (auto simp: find_by_key_def split: option.splits)

lemma take_by_key_spec:
  assumes d: "slist h l as"
  shows "\<exists>l' h'. take_by_key l hit h = Some (find (\<lambda>a. hit (sval (the (h a)))) as, l', h') \<and>
     slist h' l' (remove_first (\<lambda>a. hit (sval (the (h a)))) as) \<and> dom h' = dom h"
proof (cases "find (\<lambda>a. hit (sval (the (h a)))) as")
  case None
  with seek_find [OF d, of "\<lambda>_. hit" "shead l"] d show ?thesis
    by (auto simp: take_by_key_def remove_first_absent)
next
  case (Some a)
  with seek_find [OF d, of "\<lambda>_. hit" "shead l"] obtain bs cs pr where s: "as = bs @ a # cs"
    "remove_first (\<lambda>a. hit (sval (the (h a)))) as = bs @ cs"
    "seek (\<lambda>_. hit) h (shead l) (shead l) = Some (pr, Some a)" "bs \<noteq> [] \<Longrightarrow> pr = Some (last bs)" by auto
  from take_out_spec [OF d [unfolded s(1)] s(4)] s(2,3) Some show ?thesis
    by (auto simp: take_by_key_def)
qed

lemma remove_by_key_spec:
  assumes d: "slist h l as"
  shows "\<exists>l' h'. remove_by_key l hit h = Some (l', h') \<and>
     slist h' l' (remove_first (\<lambda>a. hit (sval (the (h a)))) as) \<and>
     svals h' (remove_first (\<lambda>a. hit (sval (the (h a)))) as)
       = remove_first hit (svals h as) \<and>
     dom h' = dom h - set_option (find (\<lambda>a. hit (sval (the (h a)))) as)"
proof -
  let ?Q = "\<lambda>a. hit (sval (the (h a)))"
  have v: "remove_first hit (svals h as) = svals h (remove_first ?Q as)"
    unfolding svals_def by (induction as) auto
  show ?thesis
  proof (cases "find ?Q as")
    case None
    with seek_find [OF d, of "\<lambda>_. hit" "shead l"] d v show ?thesis
      by (auto simp: remove_by_key_def remove_first_absent)
  next
    case (Some a)
    with seek_find [OF d, of "\<lambda>_. hit" "shead l"] obtain bs cs pr where s: "as = bs @ a # cs"
      "remove_first ?Q as = bs @ cs"
      "seek (\<lambda>_. hit) h (shead l) (shead l) = Some (pr, Some a)" "bs \<noteq> [] \<Longrightarrow> pr = Some (last bs)" by auto
    from free_out_spec [OF d [unfolded s(1)] s(4)] s(2,3) Some v show ?thesis
      by (auto simp: remove_by_key_def)
  qed
qed

lemma remove_first_eq_remove1: "remove_first (\<lambda>x. x = a) xs = remove1 a xs"
  by (induction xs) auto

lemma remove_node_spec:
  assumes d: "slist h l as" and a: "a \<in> set as"
  shows "\<exists>l' h'. remove_node l (Some a) h = Some (l', h') \<and> slist h' l' (remove1 a as) \<and>
     dom h' = dom h - {a}"
proof -
  have "find (\<lambda>x. x = a) as = Some a" using a by (induction as) auto
  with seek_find [OF d, of "\<lambda>x _. x = a" "shead l"] obtain bs cs pr where s: "as = bs @ a # cs"
    "remove_first (\<lambda>x. x = a) as = bs @ cs"
    "seek (\<lambda>x _. x = a) h (shead l) (shead l) = Some (pr, Some a)" "bs \<noteq> [] \<Longrightarrow> pr = Some (last bs)"
    by auto
  from free_out_spec [OF d [unfolded s(1)] s(4)] s(2,3) show ?thesis
    by (auto simp: remove_node_def remove_first_eq_remove1)
qed

lemma clear_loop_spec:
  "sseg h as None \<Longrightarrow> distinct as \<Longrightarrow>
     \<exists>h'. clear_loop (hd_or as None) h = Some h' \<and> dom h' = dom h - set as"
proof (induction as arbitrary: h)
  case Nil
  then show ?case by (simp add: clear_loop.simps)
next
  case (Cons a as)
  then obtain n where n: "h a = Some n" "snext n = hd_or as None" "sseg h as None" "a \<notin> set as"
    by (auto split: option.splits)
  then have "sseg (h(a := None)) as None" by simp
  moreover have "distinct as" using Cons.prems(2) by simp
  ultimately obtain h' where
    "clear_loop (hd_or as None) (h(a := None)) = Some h'" "dom h' = dom (h(a := None)) - set as"
    using Cons.IH by blast
  with n show ?case by (subst clear_loop.simps) auto
qed

lemma clear_list_spec:
  assumes "slist h l as"
  shows "\<exists>l' h'. clear_list l h = Some (l', h') \<and> slist h' l' [] \<and> dom h' = dom h - set as"
proof -
  obtain h' where "clear_loop (hd_or as None) h = Some h'" "dom h' = dom h - set as"
    using clear_loop_spec [of h as] assms by (auto simp: slist_def)
  with assms show ?thesis by (auto simp: clear_list_def slist_def)
qed

section \<open>Interface: a keyed sequence\<close>

text \<open>
  What the INI parser relies on: append, look a key up, overwrite the value found, remove
  the first entry with a key, clear.
\<close>

locale keyed_seq =
  fixes items :: "'q \<Rightarrow> 'v list"
    and ok :: "'q \<Rightarrow> bool"
    and append_item :: "'v \<Rightarrow> 'q \<Rightarrow> 'q option"
    and lookup_item :: "('v \<Rightarrow> bool) \<Rightarrow> 'q \<Rightarrow> 'v option option"
    and remove_item :: "('v \<Rightarrow> bool) \<Rightarrow> 'q \<Rightarrow> 'q option"
    and clear_items :: "'q \<Rightarrow> 'q option"
  assumes append_item: "ok q \<Longrightarrow> \<exists>q'. append_item v q = Some q' \<and> ok q' \<and> items q' = items q @ [v]"
    and lookup_item: "ok q \<Longrightarrow> lookup_item P q = Some (find P (items q))"
    and remove_item: "ok q \<Longrightarrow> \<exists>q'. remove_item P q = Some q' \<and> ok q' \<and> items q' = remove_first P (items q)"
    and clear_items: "ok q \<Longrightarrow> \<exists>q'. clear_items q = Some q' \<and> ok q' \<and> items q' = []"
begin

fun append_all :: "'v list \<Rightarrow> 'q \<Rightarrow> 'q option" where
  "append_all [] q = Some q"
| "append_all (v # vs) q = Option.bind (append_item v q) (append_all vs)"

lemma append_all_items: "ok q \<Longrightarrow> \<exists>q'. append_all vs q = Some q' \<and> ok q' \<and> items q' = items q @ vs"
proof (induction vs arbitrary: q)
  case Nil
  then show ?case by simp
next
  case (Cons v vs)
  obtain q1 where q1: "append_item v q = Some q1" "ok q1" "items q1 = items q @ [v]"
    using append_item [OF Cons.prems] by blast
  from Cons.IH [OF q1(2)] q1 show ?case by auto
qed

lemma lookup_after_append:
  assumes "ok q" and "find P (items q) = None" and "P v"
  shows "\<exists>q'. append_item v q = Some q' \<and> lookup_item P q' = Some (Some v)"
proof -
  obtain q' where q': "append_item v q = Some q'" "ok q'" "items q' = items q @ [v]"
    using append_item [OF assms(1)] by blast
  have "find P (items q @ [v]) = Some v" using assms(2,3) by (simp add: find_append)
  with q' show ?thesis by (auto simp: lookup_item)
qed

end

record 'v seq =
  sq_heap :: "'v sheap"
  sq_list :: single_list
  sq_brk :: saddr

definition seq_ok :: "'v seq \<Rightarrow> saddr list \<Rightarrow> bool" where
  "seq_ok q as \<longleftrightarrow> slist (sq_heap q) (sq_list q) as \<and> dom (sq_heap q) = set as \<and> (\<forall>a \<in> set as. a < sq_brk q)"

fun swalk :: "nat \<Rightarrow> saddr option \<Rightarrow> 'v sheap \<Rightarrow> 'v list" where
  "swalk 0 p h = []"
| "swalk (Suc n) p h = (case sderef h p of None \<Rightarrow> [] | Some c \<Rightarrow> sval c # swalk n (snext c) h)"

definition seq_items :: "'v seq \<Rightarrow> 'v list" where
  "seq_items q = swalk (nat (ssize (sq_list q))) (shead (sq_list q)) (sq_heap q)"

definition seq_append :: "'v \<Rightarrow> 'v seq \<Rightarrow> 'v seq option" where
  "seq_append v q =
     map_option (\<lambda>(l, h). q\<lparr>sq_list := l, sq_heap := h, sq_brk := Suc (sq_brk q)\<rparr>)
       (add_node (sq_list q) (sq_brk q) ((sq_heap q)(sq_brk q \<mapsto> \<lparr>snext = None, sval = v\<rparr>)))"

definition seq_lookup :: "('v \<Rightarrow> bool) \<Rightarrow> 'v seq \<Rightarrow> 'v option option" where
  "seq_lookup P q =
     (case find_by_key (sq_list q) P (sq_heap q) of
        None \<Rightarrow> None
      | Some None \<Rightarrow> Some None
      | Some (Some a) \<Rightarrow> map_option (\<lambda>n. Some (sval n)) (sq_heap q a))"

definition seq_remove :: "('v \<Rightarrow> bool) \<Rightarrow> 'v seq \<Rightarrow> 'v seq option" where
  "seq_remove P q =
     map_option (\<lambda>(l, h). q\<lparr>sq_list := l, sq_heap := h\<rparr>) (remove_by_key (sq_list q) P (sq_heap q))"

definition seq_clear :: "'v seq \<Rightarrow> 'v seq option" where
  "seq_clear q = map_option (\<lambda>(l, h). q\<lparr>sq_list := l, sq_heap := h\<rparr>) (clear_list (sq_list q) (sq_heap q))"

lemma swalk_seg: "sseg h as None \<Longrightarrow> swalk (length as) (hd_or as None) h = svals h as"
  by (induction as) (auto simp: sderef_def split: option.splits)

lemma seq_items_eq: "seq_ok q as \<Longrightarrow> seq_items q = svals (sq_heap q) as"
  using swalk_seg [of "sq_heap q" as] by (simp add: seq_ok_def seq_items_def slist_def)

lemma set_remove_first:
  assumes "distinct xs" shows "set (remove_first P xs) = set xs - set_option (find P xs)"
proof (cases "find P xs")
  case None
  then show ?thesis by (simp add: remove_first_absent)
next
  case (Some y)
  from remove_first_split [OF Some] obtain as bs where "xs = as @ y # bs" "remove_first P xs = as @ bs"
    by blast
  with assms Some show ?thesis by auto
qed

lemma find_svals: "find P (svals h as) = map_option (\<lambda>a. sval (the (h a))) (find (\<lambda>a. P (sval (the (h a)))) as)"
  by (simp add: svals_def find_map)

interpretation lsq: keyed_seq seq_items "\<lambda>q. \<exists>as. seq_ok q as" seq_append seq_lookup seq_remove seq_clear
proof unfold_locales
  fix q :: "'v seq" and v :: 'v and P :: "'v \<Rightarrow> bool"
  assume "\<exists>as. seq_ok q as"
  then obtain as where ok: "seq_ok q as" by blast
  note it = seq_items_eq [OF ok]
  have a: "sq_brk q \<notin> set as" using ok by (auto simp: seq_ok_def)
  let ?h = "(sq_heap q)(sq_brk q \<mapsto> \<lparr>snext = None, sval = v\<rparr>)"
  have "slist ?h (sq_list q) as" using ok a by (simp add: seq_ok_def slist_upd_other)
  from add_node_spec [OF this a, of "\<lparr>snext = None, sval = v\<rparr>"] obtain l' h' where
    n: "add_node (sq_list q) (sq_brk q) ?h = Some (l', h')" "slist h' l' (as @ [sq_brk q])"
    "svals h' (as @ [sq_brk q]) = svals ?h as @ [v]" "dom h' = dom ?h" by auto
  let ?q = "q\<lparr>sq_list := l', sq_heap := h', sq_brk := Suc (sq_brk q)\<rparr>"
  have "seq_ok ?q (as @ [sq_brk q])" using n ok by (auto simp: seq_ok_def less_Suc_eq)
  with n a it show "\<exists>q'. seq_append v q = Some q' \<and> (\<exists>as. seq_ok q' as) \<and> seq_items q' = seq_items q @ [v]"
    by (auto simp: seq_append_def seq_items_eq)
  have s: "slist (sq_heap q) (sq_list q) as" using ok by (simp add: seq_ok_def)
  show "seq_lookup P q = Some (find P (seq_items q))"
  proof (cases "find (\<lambda>a. P (sval (the (sq_heap q a)))) as")
    case None
    then show ?thesis using it by (simp add: seq_lookup_def find_by_key_spec [OF s] find_svals)
  next
    case (Some a)
    then have "a \<in> set as" by (auto simp: find_Some_iff)
    then obtain n where "sq_heap q a = Some n" using ok by (auto simp: seq_ok_def)
    with Some it show ?thesis by (simp add: seq_lookup_def find_by_key_spec [OF s] find_svals)
  qed
  obtain l2 h2 where r: "remove_by_key (sq_list q) P (sq_heap q) = Some (l2, h2)"
    "slist h2 l2 (remove_first (\<lambda>a. P (sval (the (sq_heap q a)))) as)"
    "svals h2 (remove_first (\<lambda>a. P (sval (the (sq_heap q a)))) as) = remove_first P (svals (sq_heap q) as)"
    "dom h2 = dom (sq_heap q) - set_option (find (\<lambda>a. P (sval (the (sq_heap q a)))) as)"
    using remove_by_key_spec [OF s, of P] by blast
  have "seq_ok (q\<lparr>sq_list := l2, sq_heap := h2\<rparr>) (remove_first (\<lambda>a. P (sval (the (sq_heap q a)))) as)"
    using r ok by (auto simp: seq_ok_def set_remove_first slist_def)
  with r it show "\<exists>q'. seq_remove P q = Some q' \<and> (\<exists>as. seq_ok q' as) \<and> seq_items q' = remove_first P (seq_items q)"
    by (auto simp: seq_remove_def seq_items_eq)
  obtain l3 h3 where c: "clear_list (sq_list q) (sq_heap q) = Some (l3, h3)" "slist h3 l3 []"
    "dom h3 = dom (sq_heap q) - set as" using clear_list_spec [OF s] by blast
  then have "seq_ok (q\<lparr>sq_list := l3, sq_heap := h3\<rparr>) []" using ok by (auto simp: seq_ok_def)
  with c show "\<exists>q'. seq_clear q = Some q' \<and> (\<exists>as. seq_ok q' as) \<and> seq_items q' = []"
    by (auto simp: seq_clear_def seq_items_eq)
qed

end
