(* ===== verification/IniParser.thy ===== *)
theory IniParser
  imports FilePath SList
begin

text \<open>
  The INI reader and writer of \<open>sharelibs/utils/source/ini_parser.c\<close> and its
  helper \<open>ini_parser_helper.c\<close>. The container is the singly linked list of theory
  \<open>SList\<close>, which implements a keyed sequence; here it is the list of its items,
  \<open>(szTag, szValue)\<close> pairs in insertion order. \<open>find_by_key\<close> stops at the first
  match, so later duplicates of a key are shadowed.

  A result \<open>None\<close> is the read before the start of the line buffer that a line whose
  first non-blank character is \<open>=\<close> causes. Main results: what the writer saves the
  reader reads back, lookup after update, and exactly which lines are unsafe.
\<close>

section \<open>Definitions\<close>

type_synonym tag_value_pair = "string \<times> string"

record ini_parser =
  keyvalues :: "tag_value_pair list"

definition new_ini_parser :: ini_parser where
  "new_ini_parser = \<lparr>keyvalues = []\<rparr>"

definition tag_value_hittest :: "string \<Rightarrow> tag_value_pair \<Rightarrow> bool" where
  "tag_value_hittest key node \<longleftrightarrow> key = fst node"

text \<open>
  \<open>parse_line (line, len)\<close>, the line being the C string from \<open>line\<close> on; the line
  itself is its first \<open>len\<close> characters.
\<close>

definition rtrim_sp :: "string \<Rightarrow> string" where
  "rtrim_sp s = rev (dropWhile (\<lambda>c. c = CHR '' '') (rev s))"

definition strip_eol :: "string \<Rightarrow> string" where
  "strip_eol v =
     (let v1 = (if v \<noteq> [] \<and> last v = LF then butlast v else v)
      in if v1 \<noteq> [] \<and> last v1 = CR then butlast v1 else v1)"

definition parse_line :: "string \<Rightarrow> nat \<Rightarrow> tag_value_pair option option" where
  "parse_line line len =
     (let p = length (takeWhile (\<lambda>c. c = CHR '' '') line);
          c = (if p < length line then line ! p else NUL)
      in if p = len \<or> c = CR \<or> c = LF \<or> c = NUL then Some None
         else if c = CHR ''['' then Some None
         else if c = CHR ''#'' then Some None
         else
           let key = takeWhile (\<lambda>c. c \<noteq> CHR ''='') (take (len - p) (drop p line));
               q = p + length key
           in if q = len then Some None
              else if key = [] then None
              else
                let v = dropWhile (\<lambda>c. c = CHR '' '') (take (len - (q + 1)) (drop (q + 1) line))
                in if v = [] then Some None
                   else
                     let value = strip_eol v
                     in if length value > 0 then Some (Some (rtrim_sp key, value)) else Some None)"

text \<open>\<open>fgets (buf, 1024, fp)\<close>: at most 1023 characters, through the first newline.\<close>

fun fgets :: "nat \<Rightarrow> string \<Rightarrow> string \<times> string" where
  "fgets 0 s = ([], s)"
| "fgets (Suc n) [] = ([], [])"
| "fgets (Suc n) (c # cs) =
     (if c = LF then ([c], cs) else (case fgets n cs of (l, r) \<Rightarrow> (c # l, r)))"

lemma fgets_append: "fst (fgets n s) @ snd (fgets n s) = s"
  by (induction n s rule: fgets.induct) (auto split: prod.splits)

lemma fgets_progress: "s \<noteq> [] \<Longrightarrow> length (snd (fgets (Suc n) s)) < length s"
proof -
  assume "s \<noteq> []"
  then have "fst (fgets (Suc n) s) \<noteq> []" by (cases s) (auto split: prod.splits)
  then show ?thesis
    using arg_cong [OF fgets_append [of "Suc n" s], of length] by (cases "fst (fgets (Suc n) s)") auto
qed

function parse_lines :: "string \<Rightarrow> tag_value_pair list \<Rightarrow> tag_value_pair list option" where
  "parse_lines content kvs =
     (if content = [] then Some kvs
      else let buf = c_str (fst (fgets 1023 content))
           in case parse_line buf (length buf) of
                None \<Rightarrow> None
              | Some None \<Rightarrow> parse_lines (snd (fgets 1023 content)) kvs
              | Some (Some pair) \<Rightarrow> parse_lines (snd (fgets 1023 content)) (kvs @ [pair]))"
  by pat_completeness auto
termination
  by (relation "measure (\<lambda>(content, kvs). length content)")
    (auto simp: fgets_progress [of _ 1022, simplified])

declare parse_lines.simps [simp del]

definition parse_file :: "string \<Rightarrow> 'a fs_state_scheme \<Rightarrow> (int \<times> ini_parser) option" where
  "parse_file file s =
     (case fs_files s file of
        None \<Rightarrow> Some (-1, new_ini_parser)
      | Some content \<Rightarrow>
          map_option (\<lambda>kvs. (int (length kvs), \<lparr>keyvalues = kvs\<rparr>)) (parse_lines content []))"

text \<open>Text is parsed up to the last newline; a last line without one is ignored.\<close>

function parse_text_loop :: "string \<Rightarrow> tag_value_pair list \<Rightarrow> tag_value_pair list option" where
  "parse_text_loop p kvs =
     (let line = takeWhile (\<lambda>c. c \<noteq> LF) p; rest = dropWhile (\<lambda>c. c \<noteq> LF) p
      in if rest = [] then Some kvs
         else case parse_line p (length line) of
                None \<Rightarrow> None
              | Some None \<Rightarrow> parse_text_loop (tl rest) kvs
              | Some (Some pair) \<Rightarrow> parse_text_loop (tl rest) (kvs @ [pair]))"
  by pat_completeness auto
termination
proof (relation "measure (\<lambda>(p, kvs). length p)", goal_cases)
  case 1
  then show ?case by simp
next
  case (2 p kvs x xa)
  then have "length (tl (dropWhile (\<lambda>c. c \<noteq> LF) p)) < length (dropWhile (\<lambda>c. c \<noteq> LF) p)" by simp
  also have "\<dots> \<le> length p" by (rule length_dropWhile_le)
  finally show ?case using 2 by simp
next
  case (3 p kvs x xa x2 x2a)
  then have "length (tl (dropWhile (\<lambda>c. c \<noteq> LF) p)) < length (dropWhile (\<lambda>c. c \<noteq> LF) p)" by simp
  also have "\<dots> \<le> length p" by (rule length_dropWhile_le)
  finally show ?case using 3 by simp
qed

declare parse_text_loop.simps [simp del]

definition parse_text :: "string option \<Rightarrow> ini_parser \<Rightarrow> (int \<times> ini_parser) option" where
  "parse_text text ini =
     (case text of
        None \<Rightarrow> Some (-1, ini)
      | Some t \<Rightarrow>
          map_option (\<lambda>kvs. (int (length kvs), \<lparr>keyvalues = kvs\<rparr>)) (parse_text_loop t (keyvalues ini)))"

definition ini_value :: "ini_parser \<Rightarrow> string \<Rightarrow> string option" where
  "ini_value ini key = map_option snd (find (tag_value_hittest key) (keyvalues ini))"

fun update_first :: "string \<Rightarrow> string \<Rightarrow> tag_value_pair list \<Rightarrow> tag_value_pair list" where
  "update_first key value [] = []"
| "update_first key value (kv # kvs) =
     (if tag_value_hittest key kv then (fst kv, value) # kvs else kv # update_first key value kvs)"

definition set_value :: "ini_parser \<Rightarrow> string \<Rightarrow> string \<Rightarrow> ini_parser" where
  "set_value ini key value =
     (if find (tag_value_hittest key) (keyvalues ini) \<noteq> None
      then ini\<lparr>keyvalues := update_first key value (keyvalues ini)\<rparr>
      else ini\<lparr>keyvalues := keyvalues ini @ [(key, value)]\<rparr>)"

definition ini_remove :: "ini_parser \<Rightarrow> string \<Rightarrow> ini_parser" where
  "ini_remove ini key = ini\<lparr>keyvalues := remove_first (tag_value_hittest key) (keyvalues ini)\<rparr>"

definition write_keyvalue :: "tag_value_pair \<Rightarrow> string" where
  "write_keyvalue pair = fst pair @ ''='' @ snd pair @ [LF]"

definition save_to_file :: "ini_parser \<Rightarrow> string \<Rightarrow> 'a fs_state_scheme \<Rightarrow> int \<times> 'a fs_state_scheme" where
  "save_to_file ini file s =
     (if length (keyvalues ini) > 0 \<and> fs_open_ok s file
      then (0, s\<lparr>fs_files := (fs_files s)(file \<mapsto>
              take (fs_room s) (concat (map write_keyvalue (keyvalues ini))))\<rparr>)
      else (-1, s))"

subsection \<open>The helper\<close>

text \<open>The inner option is the returned pointer, NULL when the file is missing or empty.\<close>

definition create_app_ini_parser :: "string \<Rightarrow> 'a fs_state_scheme \<Rightarrow> ini_parser option option" where
  "create_app_ini_parser iniFileName s =
     (case get_local_file_path iniFileName s of
        (rc, iniPath) \<Rightarrow>
          if rc < 0 then Some None
          else map_option (\<lambda>(size, parser). if size \<le> 0 then None else Some parser) (parse_file iniPath s))"

definition get_int_from_ini_file ::
    "string \<Rightarrow> string \<Rightarrow> int \<Rightarrow> 'a fs_state_scheme \<Rightarrow> int option" where
  "get_int_from_ini_file iniFileName key defaultValue s =
     (case create_app_ini_parser iniFileName s of
        None \<Rightarrow> None
      | Some None \<Rightarrow> Some defaultValue
      | Some (Some parser) \<Rightarrow>
          let str = ini_value parser key
          in if string_is_empty str then Some defaultValue
             else if string_is_number str then Some (atoi (the str))
             else Some defaultValue)"

text \<open>The return code and the buffer \<open>value\<close>, which first receives the default.\<close>

definition get_string_from_ini_file ::
    "string \<Rightarrow> string \<Rightarrow> string option \<Rightarrow> string \<Rightarrow> 'a fs_state_scheme \<Rightarrow> (int \<times> string) option" where
  "get_string_from_ini_file iniFileName key defaultValue value s =
     (let v0 = (case defaultValue of None \<Rightarrow> value | Some d \<Rightarrow> d)
      in case create_app_ini_parser iniFileName s of
           None \<Rightarrow> None
         | Some None \<Rightarrow> Some (-1, v0)
         | Some (Some parser) \<Rightarrow>
             let str = ini_value parser key
             in if string_is_empty str then Some (-1, v0) else Some (0, the str))"

section \<open>Lookup and update\<close>

lemma find_update_same:
  "find (tag_value_hittest k) kvs \<noteq> None \<Longrightarrow>
     find (tag_value_hittest k) (update_first k v kvs) = Some (k, v)"
  by (induction kvs) (auto simp: tag_value_hittest_def)

lemma find_update_other:
  "k \<noteq> k' \<Longrightarrow> find (tag_value_hittest k') (update_first k v kvs) = find (tag_value_hittest k') kvs"
  by (induction kvs) (auto simp: tag_value_hittest_def)

lemma value_set_value_same [simp]: "ini_value (set_value ini k v) k = Some v"
  by (auto simp: ini_value_def set_value_def find_update_same find_append tag_value_hittest_def
      split: option.splits)

lemma value_set_value_other [simp]: "k \<noteq> k' \<Longrightarrow> ini_value (set_value ini k v) k' = ini_value ini k'"
  by (auto simp: ini_value_def set_value_def find_update_other find_append tag_value_hittest_def
      split: option.splits)

lemma length_update_first [simp]: "length (update_first k v kvs) = length kvs"
  by (induction kvs) auto

lemma set_value_nonempty: "keyvalues (set_value ini k v) \<noteq> []"
  by (cases "keyvalues ini") (auto simp: set_value_def)

section \<open>Round trip\<close>

text \<open>
  The entries a file can carry: a non-empty key that does not look like a comment or a
  group, no \<open>=\<close> and no surrounding blank in the key; a non-empty value without a
  leading blank and without a carriage return at its end; no line break, no NUL, and the
  line fits the reader's buffer.
\<close>

definition key_ok :: "string \<Rightarrow> bool" where
  "key_ok k \<longleftrightarrow> k \<noteq> [] \<and> hd k \<noteq> CHR '' '' \<and> hd k \<noteq> CHR ''['' \<and> hd k \<noteq> CHR ''#'' \<and> hd k \<noteq> CR \<and>
     last k \<noteq> CHR '' '' \<and> CHR ''='' \<notin> set k \<and> LF \<notin> set k \<and> NUL \<notin> set k"

definition value_ok :: "string \<Rightarrow> bool" where
  "value_ok v \<longleftrightarrow> v \<noteq> [] \<and> hd v \<noteq> CHR '' '' \<and> last v \<noteq> CR \<and> LF \<notin> set v \<and> NUL \<notin> set v"

definition pair_ok :: "tag_value_pair \<Rightarrow> bool" where
  "pair_ok kv \<longleftrightarrow> key_ok (fst kv) \<and> value_ok (snd kv) \<and> length (fst kv) + length (snd kv) < 1022"

lemma rtrim_sp_id: "k \<noteq> [] \<Longrightarrow> last k \<noteq> CHR '' '' \<Longrightarrow> rtrim_sp k = k"
  by (cases k rule: rev_cases) (auto simp: rtrim_sp_def)

lemma takeWhile_neq: "c \<notin> set k \<Longrightarrow> takeWhile (\<lambda>x. x \<noteq> c) (k @ c # r) = k"
  by (induction k) auto

lemma parse_line_entry:
  assumes "pair_ok (k, v)"
  shows "parse_line (write_keyvalue (k, v)) (length (write_keyvalue (k, v))) = Some (Some (k, v))"
proof -
  let ?l = "write_keyvalue (k, v)"
  have k: "key_ok k" and v: "value_ok v" using assms by (simp_all add: pair_ok_def)
  have l: "?l = k @ CHR ''='' # v @ [LF]" by (simp add: write_keyvalue_def)
  have ne: "k \<noteq> []" "v \<noteq> []" using k v by (simp_all add: key_ok_def value_ok_def)
  have p: "takeWhile (\<lambda>c. c = CHR '' '') ?l = []"
    unfolding l using k ne by (cases k) (auto simp: key_ok_def)
  have c: "?l ! 0 = hd k" unfolding l using ne by (cases k) auto
  have hd: "hd k \<noteq> NUL" "hd k \<noteq> LF" "hd k \<noteq> CR" "hd k \<noteq> CHR ''[''" "hd k \<noteq> CHR ''#''"
    using k ne by (cases k; auto simp: key_ok_def)+
  have key: "takeWhile (\<lambda>c. c \<noteq> CHR ''='') ?l = k"
    using k unfolding l by (intro takeWhile_neq) (simp add: key_ok_def)
  have dw: "dropWhile (\<lambda>c. c = CHR '' '') (v @ [LF]) = v @ [LF]"
    using v ne by (cases v) (auto simp: value_ok_def)
  have eol: "strip_eol (v @ [LF]) = v" using v ne by (simp add: strip_eol_def value_ok_def)
  have rt: "rtrim_sp k = k" using k by (intro rtrim_sp_id) (simp_all add: key_ok_def)
  have after: "drop (length k + 1) ?l = v @ [LF]" by (simp add: l)
  have len: "length ?l = length k + length v + 2" by (simp add: l)
  show ?thesis
    unfolding parse_line_def
    using p c hd key dw eol rt after len ne by (simp add: Let_def)
qed

lemma fgets_line:
  "LF \<notin> set l \<Longrightarrow> length l < n \<Longrightarrow> fgets n (l @ LF # r) = (l @ [LF], r)"
  by (induction l arbitrary: n; case_tac n) auto

lemma c_str_id: "NUL \<notin> set s \<Longrightarrow> c_str s = s"
  by (simp add: c_str_def takeWhile_eq_all_conv) metis

lemma parse_lines_entries:
  "\<forall>kv \<in> set kvs. pair_ok kv \<Longrightarrow> parse_lines (concat (map write_keyvalue kvs)) acc = Some (acc @ kvs)"
proof (induction kvs arbitrary: acc)
  case Nil
  then show ?case by (simp add: parse_lines.simps)
next
  case (Cons kv kvs)
  obtain k v where kv: "kv = (k, v)" by (cases kv)
  have ok: "pair_ok (k, v)" using Cons.prems kv by simp
  let ?l = "k @ CHR ''='' # v" and ?r = "concat (map write_keyvalue kvs)"
  have w: "write_keyvalue (k, v) = ?l @ [LF]" by (simp add: write_keyvalue_def)
  have "LF \<notin> set ?l" "length ?l < 1023" "NUL \<notin> set (?l @ [LF])"
    using ok by (auto simp: pair_ok_def key_ok_def value_ok_def)
  then have f: "fgets 1023 (?l @ LF # ?r) = (?l @ [LF], ?r)" and cs: "c_str (?l @ [LF]) = ?l @ [LF]"
    using fgets_line [of ?l 1023 ?r] c_str_id by blast+
  have "concat (map write_keyvalue (kv # kvs)) = ?l @ LF # ?r" by (simp add: kv w)
  then show ?case
    using Cons.IH [of "acc @ [kv]"] Cons.prems parse_line_entry [OF ok] f cs w kv
    by (subst parse_lines.simps) simp
qed

section \<open>Properties\<close>


text \<open>Exactly the lines that make the reader look before its buffer.\<close>

theorem parse_line_unsafe:
  assumes "NUL \<notin> set line"
  shows "parse_line line (length line) = None \<longleftrightarrow>
    (\<exists>n rest. line = replicate n (CHR '' '') @ CHR ''='' # rest)"
proof
  assume "parse_line line (length line) = None"
  then have c: "length (takeWhile (\<lambda>c. c = CHR '' '') line) < length line"
    and k: "takeWhile (\<lambda>c. c \<noteq> CHR ''='') (dropWhile (\<lambda>c. c = CHR '' '') line) = []"
    by (auto simp: parse_line_def Let_def dropWhile_eq_drop split: if_splits)
  obtain n where n: "line = replicate n (CHR '' '') @ dropWhile (\<lambda>c. c = CHR '' '') line"
    using dropWhile_eq_replicate [of line] by blast
  have "length (takeWhile (\<lambda>c. c = CHR '' '') line) + length (dropWhile (\<lambda>c. c = CHR '' '') line) = length line"
    by (metis length_append takeWhile_dropWhile_id)
  with c have "dropWhile (\<lambda>c. c = CHR '' '') line \<noteq> []" by (metis add.right_neutral less_irrefl list.size(3))
  then obtain x xs where "dropWhile (\<lambda>c. c = CHR '' '') line = x # xs"
    using list.exhaust by blast
  with k have "dropWhile (\<lambda>c. c = CHR '' '') line = CHR ''='' # xs" by (simp split: if_splits)
  with n show "\<exists>n rest. line = replicate n (CHR '' '') @ CHR ''='' # rest" by metis
next
  assume "\<exists>n rest. line = replicate n (CHR '' '') @ CHR ''='' # rest"
  then obtain n rest where l: "line = replicate n (CHR '' '') @ CHR ''='' # rest" by blast
  have "takeWhile (\<lambda>c. c = CHR '' '') line = replicate n (CHR '' '')"
    unfolding l by (simp add: takeWhile_append)
  then show "parse_line line (length line) = None"
    using l by (simp add: parse_line_def Let_def nth_append)
qed

end
