(* ===== verification/Config.thy ===== *)
theory Config
  imports IniParser "HOL-Library.Monad_Syntax"
begin

text \<open>
  The configuration getters of \<open>hub-app/source/config.c\<close> and the device serial
  number of \<open>sharelibs/utils/source/devicesn.c\<close>. The process-wide buffers are
  fields of the state; \<open>strcpy\<close> into a buffer that is too small is \<open>None\<close>, as
  is a configuration file that makes the INI reader leave its line buffer.
\<close>

section \<open>Definitions\<close>

record config_state = fs_state +
  g_deviceSN :: string
  g_mqttEndPoint :: string
  g_listenServer :: string

definition APP_DATA_PATH :: string where "APP_DATA_PATH = ''mqttmsghub-data''"
definition MQTT_OFFLINE_MSG_DIR :: string where "MQTT_OFFLINE_MSG_DIR = ''mqtt-offline-msgs''"
definition MQTTMSGHUB_INI_FILE_NAME :: string where "MQTTMSGHUB_INI_FILE_NAME = ''mqttmsghub.ini''"
definition DEFAULT_PORT :: int where "DEFAULT_PORT = 8066"
definition DEFAULT_SERVER :: string where "DEFAULT_SERVER = ''127.0.0.1''"
definition DEFAULT_OFFLINE_CACHE_CAPACITY :: int where "DEFAULT_OFFLINE_CACHE_CAPACITY = 1000"

text \<open>A C string with its NUL fits a buffer of \<open>n\<close> characters.\<close>

definition fits :: "nat \<Rightarrow> string \<Rightarrow> string option" where
  "fits n s = (if length s < n then Some s else None)"

definition get_device_sn :: "'a config_state_scheme \<Rightarrow> string \<times> 'a config_state_scheme" where
  "get_device_sn s =
     (let s' = (if string_is_empty (Some (g_deviceSN s))
                then s\<lparr>g_deviceSN := string_upper_case ''SN0000000001''\<rparr> else s)
      in (g_deviceSN s', s'))"

definition get_config_mqtt_end_point ::
    "'a config_state_scheme \<Rightarrow> (string \<times> 'a config_state_scheme) option" where
  "get_config_mqtt_end_point s =
     (if string_is_empty (Some (g_mqttEndPoint s))
      then do {
        (rc, v) \<leftarrow> get_string_from_ini_file MQTTMSGHUB_INI_FILE_NAME ''mqttserver'' (Some '''') (g_mqttEndPoint s) s;
        v \<leftarrow> fits 256 v;
        Some (v, s\<lparr>g_mqttEndPoint := v\<rparr>) }
      else Some (g_mqttEndPoint s, s))"

definition get_config_listen_server ::
    "'a config_state_scheme \<Rightarrow> (string \<times> 'a config_state_scheme) option" where
  "get_config_listen_server s =
     (if string_is_empty (Some (g_listenServer s))
      then do {
        (rc, v) \<leftarrow> get_string_from_ini_file MQTTMSGHUB_INI_FILE_NAME ''server'' (Some DEFAULT_SERVER) (g_listenServer s) s;
        v \<leftarrow> fits 32 v;
        Some (v, s\<lparr>g_listenServer := v\<rparr>) }
      else Some (g_listenServer s, s))"

definition get_config_listen_port :: "'a config_state_scheme \<Rightarrow> int option" where
  "get_config_listen_port s =
     do {
       port \<leftarrow> get_int_from_ini_file MQTTMSGHUB_INI_FILE_NAME ''port'' DEFAULT_PORT s;
       Some (if port \<le> 0 then DEFAULT_PORT else port) }"

definition get_config_offline_cache_path ::
    "string \<Rightarrow> 'a config_state_scheme \<Rightarrow> (int \<times> string \<times> 'a config_state_scheme) option" where
  "get_config_offline_cache_path path s =
     (case home_path s of
        (home, s1) \<Rightarrow> do {
          (rc, p) \<leftarrow> get_string_from_ini_file MQTTMSGHUB_INI_FILE_NAME ''cachepath''
                      (Some (home @ ''/'' @ APP_DATA_PATH @ ''/'' @ MQTT_OFFLINE_MSG_DIR)) path s1;
          Some (rc, p, s1) })"

definition get_config_offline_cache_capacity :: "'a config_state_scheme \<Rightarrow> int option" where
  "get_config_offline_cache_capacity s =
     get_int_from_ini_file MQTTMSGHUB_INI_FILE_NAME ''cachecapacity'' DEFAULT_OFFLINE_CACHE_CAPACITY s"

section \<open>Lemmas\<close>

lemma get_device_sn_nonempty: "fst (get_device_sn s) \<noteq> []"
  by (simp add: get_device_sn_def Let_def string_upper_case_map)

lemma get_device_sn_cached: "get_device_sn (snd (get_device_sn s)) = get_device_sn s"
  by (simp add: get_device_sn_def Let_def string_upper_case_map)

lemma listen_port_positive: "get_config_listen_port s = Some p \<Longrightarrow> 0 < p"
  by (auto simp: get_config_listen_port_def DEFAULT_PORT_def split: bind_splits if_splits)

text \<open>A configured number is read with the default for anything that is not a number.\<close>

lemma get_int_from_ini_file_range:
  "get_int_from_ini_file f k d s = Some i \<Longrightarrow> is_int32 i \<or> i = d"
  by (auto simp: get_int_from_ini_file_def atoi_def wrap32_range Let_def split: option.splits if_splits)

end
