(* ===== verification/MsgCounter.thy ===== *)
theory MsgCounter
  imports Config
begin

text \<open>
  The message counters of \<open>hub-app/source/msgcounter.c\<close>: four counters in memory and
  their totals in \<open>msgcounter.ini\<close>. Each operation runs under the mutexes of its
  counters, so it is one step of the state. Counters are \<open>int\<close>; additions are
  written with their wrap-around.

  Main result: the in-memory counters and the file together never lose or invent a
  count. The abstract specification is a pair (totals in the file, pending counts); the
  operations on the file system refine it.
\<close>

section \<open>Definitions\<close>

record counter_state = config_state +
  g_sent_msg_count :: int
  g_online_discarded_msg_count :: int
  g_offline_discarded_msg_count :: int
  g_offline_sent_msg_count :: int

text \<open>The four values in the order of the out-parameters: sent, online discarded, offline discarded, offline sent.\<close>

type_synonym counts = "int \<times> int \<times> int \<times> int"

definition SENT_MSG_COUNT_KEY :: string where "SENT_MSG_COUNT_KEY = ''sentcount''"
definition ONLINE_DISCARD_COUNT_KEY :: string where "ONLINE_DISCARD_COUNT_KEY = ''onlinediscardcount''"
definition OFFLINE_DISCARD_COUNT_KEY :: string where "OFFLINE_DISCARD_COUNT_KEY = ''offlinediscardcount''"
definition OFFLINE_SENT_COUNT_KEY :: string where "OFFLINE_SENT_COUNT_KEY = ''offlinesentcount''"

lemmas counter_keys = SENT_MSG_COUNT_KEY_def ONLINE_DISCARD_COUNT_KEY_def
  OFFLINE_DISCARD_COUNT_KEY_def OFFLINE_SENT_COUNT_KEY_def

definition increase_sent_msg_count :: "'a counter_state_scheme \<Rightarrow> 'a counter_state_scheme" where
  "increase_sent_msg_count s = s\<lparr>g_sent_msg_count := wrap32 (g_sent_msg_count s + 1)\<rparr>"

definition increase_online_discarded_msg_count :: "'a counter_state_scheme \<Rightarrow> 'a counter_state_scheme" where
  "increase_online_discarded_msg_count s =
     s\<lparr>g_online_discarded_msg_count := wrap32 (g_online_discarded_msg_count s + 1)\<rparr>"

definition increase_offline_discarded_msg_count :: "'a counter_state_scheme \<Rightarrow> 'a counter_state_scheme" where
  "increase_offline_discarded_msg_count s =
     s\<lparr>g_offline_discarded_msg_count := wrap32 (g_offline_discarded_msg_count s + 1)\<rparr>"

definition increase_offline_sent_msg_count :: "'a counter_state_scheme \<Rightarrow> 'a counter_state_scheme" where
  "increase_offline_sent_msg_count s =
     s\<lparr>g_offline_sent_msg_count := wrap32 (g_offline_sent_msg_count s + 1)\<rparr>"

definition get_msg_count_file_path :: "'a counter_state_scheme \<Rightarrow> string \<times> 'a counter_state_scheme" where
  "get_msg_count_file_path s =
     (case home_path s of
        (home, s1) \<Rightarrow>
          let appDataPath = home @ ''/'' @ APP_DATA_PATH;
              s2 = (if \<not> path_exists appDataPath s1 then snd (mkdirp appDataPath s1) else s1)
          in (appDataPath @ ''/'' @ ''msgcounter.ini'', s2))"

definition read_count :: "ini_parser \<Rightarrow> string \<Rightarrow> int" where
  "read_count parser key =
     (let str = ini_value parser key
      in if \<not> string_is_empty str then (if string_is_number str then atoi (the str) else 0) else 0)"

definition read_total_msg_count ::
    "'a counter_state_scheme \<Rightarrow> (int \<times> counts \<times> 'a counter_state_scheme) option" where
  "read_total_msg_count s =
     (case get_msg_count_file_path s of
        (filePath, s1) \<Rightarrow> do {
          (size, parser) \<leftarrow> parse_file filePath s1;
          Some (if size \<le> 0 then (FAILURE, (0, 0, 0, 0), s1)
                else (SUCCESS,
                      (read_count parser SENT_MSG_COUNT_KEY,
                       read_count parser ONLINE_DISCARD_COUNT_KEY,
                       read_count parser OFFLINE_DISCARD_COUNT_KEY,
                       read_count parser OFFLINE_SENT_COUNT_KEY), s1)) })"

definition set_counts :: "counts \<Rightarrow> ini_parser \<Rightarrow> ini_parser" where
  "set_counts c parser =
     (case c of
        (sentCount, onlineDiscardedCount, offlineDiscardedCount, offlineSentCount) \<Rightarrow>
          set_value (set_value (set_value (set_value parser
            SENT_MSG_COUNT_KEY (show_int sentCount))
            ONLINE_DISCARD_COUNT_KEY (show_int onlineDiscardedCount))
            OFFLINE_DISCARD_COUNT_KEY (show_int offlineDiscardedCount))
            OFFLINE_SENT_COUNT_KEY (show_int offlineSentCount))"

definition save_total_msg_count ::
    "counts \<Rightarrow> 'a counter_state_scheme \<Rightarrow> (int \<times> 'a counter_state_scheme) option" where
  "save_total_msg_count c s =
     (case get_msg_count_file_path s of
        (filePath, s1) \<Rightarrow> do {
          (size, parser) \<leftarrow> parse_file filePath s1;
          let s2 = snd (save_to_file (set_counts c parser) filePath s1);
          Some (SUCCESS, s2) })"

definition get_total_msg_count ::
    "'a counter_state_scheme \<Rightarrow> (int \<times> counts \<times> 'a counter_state_scheme) option" where
  "get_total_msg_count s = read_total_msg_count s"

definition save_msg_count_to_file :: "'a counter_state_scheme \<Rightarrow> 'a counter_state_scheme option" where
  "save_msg_count_to_file s =
     (if g_sent_msg_count s = 0 \<and> g_online_discarded_msg_count s = 0
         \<and> g_offline_discarded_msg_count s = 0 \<and> g_offline_sent_msg_count s = 0
      then Some s
      else do {
        (rc, (sentCount, onlineDiscardedCount, offlineDiscardedCount, offlineSentCount), s1) \<leftarrow> read_total_msg_count s;
        let sentCount = wrap32 (sentCount + g_sent_msg_count s1);
        let s2 = s1\<lparr>g_sent_msg_count := 0\<rparr>;
        let onlineDiscardedCount = wrap32 (onlineDiscardedCount + g_online_discarded_msg_count s2);
        let s3 = s2\<lparr>g_online_discarded_msg_count := 0\<rparr>;
        let offlineDiscardedCount = wrap32 (offlineDiscardedCount + g_offline_discarded_msg_count s3);
        let s4 = s3\<lparr>g_offline_discarded_msg_count := 0\<rparr>;
        let offlineSentCount = wrap32 (offlineSentCount + g_offline_sent_msg_count s4);
        let s5 = s4\<lparr>g_offline_sent_msg_count := 0\<rparr>;
        (rc2, s6) \<leftarrow> save_total_msg_count
          (sentCount, onlineDiscardedCount, offlineDiscardedCount, offlineSentCount) s5;
        Some s6 })"

definition clear_msg_count_file :: "'a counter_state_scheme \<Rightarrow> 'a counter_state_scheme option" where
  "clear_msg_count_file s = map_option snd (save_total_msg_count (0, 0, 0, 0) s)"

text \<open>One operation of the component, as any thread may call it.\<close>

datatype counter_op = IncSent | IncOnlineDiscard | IncOfflineDiscard | IncOfflineSent | SaveCounts | ClearFile

fun exec_counter :: "counter_op \<Rightarrow> 'a counter_state_scheme \<Rightarrow> 'a counter_state_scheme option" where
  "exec_counter IncSent s = Some (increase_sent_msg_count s)"
| "exec_counter IncOnlineDiscard s = Some (increase_online_discarded_msg_count s)"
| "exec_counter IncOfflineDiscard s = Some (increase_offline_discarded_msg_count s)"
| "exec_counter IncOfflineSent s = Some (increase_offline_sent_msg_count s)"
| "exec_counter SaveCounts s = save_msg_count_to_file s"
| "exec_counter ClearFile s = clear_msg_count_file s"

section \<open>Specification\<close>

fun add_counts :: "counts \<Rightarrow> counts \<Rightarrow> counts" where
  "add_counts (a, b, c, d) (a', b', c', d') = (a + a', b + b', c + c', d + d')"

text \<open>The abstract state: the totals in the file and the pending counts.\<close>

fun spec_counter :: "counter_op \<Rightarrow> counts \<times> counts \<Rightarrow> counts \<times> counts" where
  "spec_counter IncSent (t, p) = (t, add_counts p (1, 0, 0, 0))"
| "spec_counter IncOnlineDiscard (t, p) = (t, add_counts p (0, 1, 0, 0))"
| "spec_counter IncOfflineDiscard (t, p) = (t, add_counts p (0, 0, 1, 0))"
| "spec_counter IncOfflineSent (t, p) = (t, add_counts p (0, 0, 0, 1))"
| "spec_counter SaveCounts (t, p) = (add_counts t p, (0, 0, 0, 0))"
| "spec_counter ClearFile (t, p) = ((0, 0, 0, 0), p)"

fun counts_within :: "int \<Rightarrow> counts \<Rightarrow> bool" where
  "counts_within m (a, b, c, d) \<longleftrightarrow> 0 \<le> a \<and> a \<le> m \<and> 0 \<le> b \<and> b \<le> m \<and> 0 \<le> c \<and> c \<le> m \<and> 0 \<le> d \<and> d \<le> m"

definition pending_counts :: "'a counter_state_scheme \<Rightarrow> counts" where
  "pending_counts s = (g_sent_msg_count s, g_online_discarded_msg_count s,
     g_offline_discarded_msg_count s, g_offline_sent_msg_count s)"

definition app_data_dir :: "'a fs_state_scheme \<Rightarrow> string" where
  "app_data_dir s = gHomePath s @ ''/'' @ APP_DATA_PATH"

definition counter_file :: "'a fs_state_scheme \<Rightarrow> string" where
  "counter_file s = app_data_dir s @ ''/'' @ ''msgcounter.ini''"

fun counts_ini :: "counts \<Rightarrow> ini_parser" where
  "counts_ini (a, b, c, d) = \<lparr>keyvalues =
     [(SENT_MSG_COUNT_KEY, show_int a), (ONLINE_DISCARD_COUNT_KEY, show_int b),
      (OFFLINE_DISCARD_COUNT_KEY, show_int c), (OFFLINE_SENT_COUNT_KEY, show_int d)]\<rparr>"

text \<open>The data directory is there and the counter file can be written.\<close>

definition counter_env :: "'a counter_state_scheme \<Rightarrow> bool" where
  "counter_env s \<longleftrightarrow> gHomePath s \<noteq> [] \<and> path_exists (app_data_dir s) s \<and>
     fs_open_ok s (counter_file s) \<and> 200 \<le> fs_room s"

definition counter_file_holds :: "'a counter_state_scheme \<Rightarrow> counts \<Rightarrow> bool" where
  "counter_file_holds s t \<longleftrightarrow>
     (case fs_files s (counter_file s) of
        None \<Rightarrow> t = (0, 0, 0, 0)
      | Some content \<Rightarrow> content = concat (map write_keyvalue (keyvalues (counts_ini t))))"

definition counters_rel :: "nat \<Rightarrow> 'a counter_state_scheme \<Rightarrow> counts \<times> counts \<Rightarrow> bool" where
  "counters_rel n s a \<longleftrightarrow> counter_env s \<and> counter_file_holds s (fst a) \<and> pending_counts s = snd a \<and>
     counts_within INT_MAX (fst a) \<and> counts_within INT_MAX (snd a) \<and>
     counts_within (INT_MAX - int n) (add_counts (fst a) (snd a))"

section \<open>Lemmas\<close>

lemma mono_counts_within: "counts_within m c \<Longrightarrow> m \<le> m' \<Longrightarrow> counts_within m' c"
  by (cases c) auto

lemma counts_within_zero [simp]: "0 \<le> m \<Longrightarrow> counts_within m (0, 0, 0, 0)"
  by simp

lemma counter_path: "counter_env s \<Longrightarrow> get_msg_count_file_path s = (counter_file s, s)"
  by (simp add: counter_env_def get_msg_count_file_path_def home_path_def counter_file_def
      app_data_dir_def Let_def)

lemma show_int_count:
  assumes "0 \<le> i" and "i \<le> INT_MAX"
  shows "value_ok (show_int i)" and "length (show_int i) \<le> 10" and "string_is_number (Some (show_int i))"
    and "atoi (show_int i) = i" and "show_int i \<noteq> []"
proof -
  have s: "show_int i = show_nat (nat i)" using assms by (simp add: show_int_def)
  obtain d ds where d: "show_nat (nat i) = d # ds" "is_digit d" using show_nat_Cons by blast
  have all: "\<forall>c \<in> set (show_nat (nat i)). is_digit c" by (rule show_nat_digits)
  have no: "\<not> is_digit (CHR '' '')" "\<not> is_digit CR" "\<not> is_digit LF" "\<not> is_digit NUL"
    by (simp_all add: is_digit_def chr_code_def)
  have "last (show_nat (nat i)) \<in> set (show_nat (nat i))" by simp
  then show "value_ok (show_int i)"
    unfolding s value_ok_def using d all no by (metis list.sel(1) show_nat_not_Nil)
  have "nat i < 10 ^ 10" using assms by (simp add: INT_MAX_def)
  then show "length (show_int i) \<le> 10" unfolding s by (rule length_show_nat) simp
  show "string_is_number (Some (show_int i))" unfolding s by (rule string_is_number_show_nat)
  show "atoi (show_int i) = i" using assms by (intro atoi_show_int) (simp add: is_int32_def int_limits)
  show "show_int i \<noteq> []" by (simp add: s)
qed

lemma counter_keys_ok:
  "key_ok SENT_MSG_COUNT_KEY" "key_ok ONLINE_DISCARD_COUNT_KEY"
  "key_ok OFFLINE_DISCARD_COUNT_KEY" "key_ok OFFLINE_SENT_COUNT_KEY"
  by (simp_all add: key_ok_def counter_keys)

lemma counts_ini_ok:
  assumes "counts_within INT_MAX c"
  shows "\<forall>kv \<in> set (keyvalues (counts_ini c)). pair_ok kv"
    and "length (concat (map write_keyvalue (keyvalues (counts_ini c)))) \<le> 200"
proof -
  obtain c1 c2 c3 c4 where c: "c = (c1, c2, c3, c4)" by (cases c)
  have l: "length (show_int c1) \<le> 10" "length (show_int c2) \<le> 10"
    "length (show_int c3) \<le> 10" "length (show_int c4) \<le> 10"
    and v: "value_ok (show_int c1)" "value_ok (show_int c2)" "value_ok (show_int c3)" "value_ok (show_int c4)"
    using assms show_int_count by (auto simp: c)
  show "\<forall>kv \<in> set (keyvalues (counts_ini c)). pair_ok kv"
    using l v counter_keys_ok by (auto simp: c pair_ok_def counter_keys)
  show "length (concat (map write_keyvalue (keyvalues (counts_ini c)))) \<le> 200"
    using l by (simp add: c write_keyvalue_def counter_keys)
qed

lemma set_counts_empty: "set_counts c new_ini_parser = counts_ini c"
  by (cases c) (simp add: set_counts_def set_value_def new_ini_parser_def tag_value_hittest_def counter_keys)

lemma set_counts_ini: "set_counts c (counts_ini c') = counts_ini c"
  by (cases c; cases c') (simp add: set_counts_def set_value_def tag_value_hittest_def counter_keys)

lemma read_count_ini:
  assumes "counts_within INT_MAX (a, b, c, d)"
  shows "read_count (counts_ini (a, b, c, d)) SENT_MSG_COUNT_KEY = a"
    and "read_count (counts_ini (a, b, c, d)) ONLINE_DISCARD_COUNT_KEY = b"
    and "read_count (counts_ini (a, b, c, d)) OFFLINE_DISCARD_COUNT_KEY = c"
    and "read_count (counts_ini (a, b, c, d)) OFFLINE_SENT_COUNT_KEY = d"
  using assms show_int_count [of a] show_int_count [of b] show_int_count [of c] show_int_count [of d]
  by (simp_all add: read_count_def ini_value_def tag_value_hittest_def counter_keys)

text \<open>Reading the file, present or not, and overwriting it.\<close>

lemma parse_counter_file:
  assumes "counter_file_holds s t" and "counts_within INT_MAX t"
  shows "parse_file (counter_file s) s = Some (-1, new_ini_parser) \<and> t = (0, 0, 0, 0) \<or>
    parse_file (counter_file s) s = Some (4, counts_ini t)"
proof -
  have "keyvalues (counts_ini t) = kvs \<Longrightarrow> length kvs = 4 \<and> \<lparr>keyvalues = kvs\<rparr> = counts_ini t" for kvs
    by (cases t) auto
  then show ?thesis
    using assms parse_lines_entries [OF counts_ini_ok(1), of t "[]"]
    by (auto simp: counter_file_holds_def parse_file_def split: option.splits)
qed

lemma read_total_holds:
  assumes "counter_env s" and "counter_file_holds s t" and "counts_within INT_MAX t"
  shows "\<exists>rc. read_total_msg_count s = Some (rc, t, s)"
  using parse_counter_file [OF assms(2,3)] assms(3) counter_path [OF assms(1)]
  by (cases t) (auto simp: read_total_msg_count_def read_count_ini simp del: counts_ini.simps)

lemma save_total_holds:
  assumes "counter_env s" and "counter_file_holds s t" and "counts_within INT_MAX t"
    and "counts_within INT_MAX c"
  shows "save_total_msg_count c s = Some (SUCCESS,
    s\<lparr>fs_files := (fs_files s)(counter_file s \<mapsto> concat (map write_keyvalue (keyvalues (counts_ini c))))\<rparr>)"
proof -
  have ne: "length (keyvalues (counts_ini c)) > 0" by (cases c) simp
  have "save_to_file (counts_ini c) (counter_file s) s = (0,
      s\<lparr>fs_files := (fs_files s)(counter_file s \<mapsto> concat (map write_keyvalue (keyvalues (counts_ini c))))\<rparr>)"
    using assms(1) counts_ini_ok(2) [OF assms(4)] ne
    by (simp add: save_to_file_def counter_env_def)
  then show ?thesis
    using parse_counter_file [OF assms(2,3)] counter_path [OF assms(1)]
    by (auto simp: save_total_msg_count_def set_counts_empty set_counts_ini)
qed

lemma counter_file_cong [simp]:
  "counter_file (s\<lparr>fs_files := f\<rparr>) = counter_file s" "app_data_dir (s\<lparr>fs_files := f\<rparr>) = app_data_dir s"
  by (simp_all add: counter_file_def app_data_dir_def)

lemma counter_env_frame [simp]:
  "counter_env (s\<lparr>g_sent_msg_count := x\<rparr>) = counter_env s"
  "counter_env (s\<lparr>g_online_discarded_msg_count := x\<rparr>) = counter_env s"
  "counter_env (s\<lparr>g_offline_discarded_msg_count := x\<rparr>) = counter_env s"
  "counter_env (s\<lparr>g_offline_sent_msg_count := x\<rparr>) = counter_env s"
  by (simp_all add: counter_env_def path_exists_def os_exists_def counter_file_def app_data_dir_def)

lemma counter_file_holds_frame [simp]:
  "counter_file_holds (s\<lparr>g_sent_msg_count := x\<rparr>) = counter_file_holds s"
  "counter_file_holds (s\<lparr>g_online_discarded_msg_count := x\<rparr>) = counter_file_holds s"
  "counter_file_holds (s\<lparr>g_offline_discarded_msg_count := x\<rparr>) = counter_file_holds s"
  "counter_file_holds (s\<lparr>g_offline_sent_msg_count := x\<rparr>) = counter_file_holds s"
  by (rule ext, simp add: counter_file_holds_def counter_file_def app_data_dir_def)+

lemma counter_env_write: "counter_env s \<Longrightarrow> counter_env (s\<lparr>fs_files := (fs_files s)(p \<mapsto> c)\<rparr>)"
  by (auto simp: counter_env_def path_exists_def os_exists_def)

lemma save_total_rel:
  assumes "counter_env s" and "counter_file_holds s t" and "counts_within INT_MAX t"
    and "counts_within INT_MAX c"
  shows "\<exists>s'. save_total_msg_count c s = Some (SUCCESS, s') \<and> counter_env s' \<and>
    counter_file_holds s' c \<and> pending_counts s' = pending_counts s"
  using save_total_holds [OF assms] counter_env_write [OF assms(1)]
  by (simp add: counter_file_holds_def pending_counts_def)

lemma save_pending:
  assumes env: "counter_env s" and f: "counter_file_holds s t" and t: "counts_within INT_MAX t"
    and c: "counts_within INT_MAX (add_counts t (pending_counts s))"
  shows "\<exists>s'. save_msg_count_to_file s = Some s' \<and> counter_env s' \<and>
    counter_file_holds s' (add_counts t (pending_counts s)) \<and> pending_counts s' = (0, 0, 0, 0)"
proof (cases "pending_counts s = (0, 0, 0, 0)")
  case True
  then have "add_counts t (pending_counts s) = t" by (cases t) simp
  with True env f show ?thesis by (simp add: save_msg_count_to_file_def pending_counts_def)
next
  case False
  obtain a b d e where abde: "t = (a, b, d, e)" by (cases t)
  let ?s = "s\<lparr>g_sent_msg_count := 0, g_online_discarded_msg_count := 0,
      g_offline_discarded_msg_count := 0, g_offline_sent_msg_count := 0\<rparr>"
  let ?c = "add_counts t (pending_counts s)"
  obtain rc where rd: "read_total_msg_count s = Some (rc, t, s)" using read_total_holds [OF env f t] by blast
  have "counter_env ?s" "counter_file_holds ?s t" using env f by simp_all
  then obtain s' where s': "save_total_msg_count ?c ?s = Some (SUCCESS, s')" "counter_env s'"
      "counter_file_holds s' ?c" "pending_counts s' = pending_counts ?s"
    using save_total_rel t c by blast
  have w: "wrap32 (a + g_sent_msg_count s) = a + g_sent_msg_count s"
    "wrap32 (b + g_online_discarded_msg_count s) = b + g_online_discarded_msg_count s"
    "wrap32 (d + g_offline_discarded_msg_count s) = d + g_offline_discarded_msg_count s"
    "wrap32 (e + g_offline_sent_msg_count s) = e + g_offline_sent_msg_count s"
    using c by (simp_all add: abde pending_counts_def wrap32_id is_int32_def int_limits)
  have nz: "\<not> (g_sent_msg_count s = 0 \<and> g_online_discarded_msg_count s = 0
      \<and> g_offline_discarded_msg_count s = 0 \<and> g_offline_sent_msg_count s = 0)"
    using False by (auto simp: pending_counts_def)
  have sv: "save_total_msg_count (a + g_sent_msg_count s, b + g_online_discarded_msg_count s,
      d + g_offline_discarded_msg_count s, e + g_offline_sent_msg_count s) ?s = Some (SUCCESS, s')"
    using s'(1) by (simp add: abde pending_counts_def)
  have "save_msg_count_to_file s = Some s'"
    unfolding save_msg_count_to_file_def if_not_P [OF nz] using rd w sv by (simp add: abde Let_def)
  with s' show ?thesis by (simp add: pending_counts_def)
qed

lemma counters_step:
  assumes "counters_rel (Suc n) s a"
  shows "\<exists>s'. exec_counter op s = Some s' \<and> counters_rel n s' (spec_counter op a)"
proof -
  obtain t1 t2 t3 t4 p1 p2 p3 p4 where a: "a = ((t1, t2, t3, t4), (p1, p2, p3, p4))" by (metis prod.exhaust)
  have r: "counter_env s" "counter_file_holds s (t1, t2, t3, t4)" "pending_counts s = (p1, p2, p3, p4)"
    "counts_within INT_MAX (t1, t2, t3, t4)" "counts_within INT_MAX (p1, p2, p3, p4)"
    "counts_within (INT_MAX - int (Suc n)) (add_counts (t1, t2, t3, t4) (p1, p2, p3, p4))"
    using assms by (simp_all add: counters_rel_def a)
  have w: "0 \<le> x \<Longrightarrow> x \<le> INT_MAX - 1 \<Longrightarrow> wrap32 (x + 1) = x + 1" for x
    by (simp add: wrap32_id is_int32_def int_limits)
  have inc: "wrap32 (p1 + 1) = p1 + 1" "wrap32 (p2 + 1) = p2 + 1" "wrap32 (p3 + 1) = p3 + 1" "wrap32 (p4 + 1) = p4 + 1"
    using r(4,5,6) by (auto intro!: w)
  have p: "g_sent_msg_count s = p1" "g_online_discarded_msg_count s = p2"
    "g_offline_discarded_msg_count s = p3" "g_offline_sent_msg_count s = p4"
    using r(3) by (simp_all add: pending_counts_def)
  have c: "counts_within INT_MAX (add_counts (t1, t2, t3, t4) (pending_counts s))"
    using r(3,6) by (auto intro: mono_counts_within)
  have z: "counts_within INT_MAX (0, 0, 0, 0)" by (simp add: INT_MAX_def)
  show ?thesis
  proof (cases op)
    case SaveCounts
    then show ?thesis using save_pending [OF r(1,2,4) c] c r z by (auto simp: counters_rel_def a)
  next
    case ClearFile
    then show ?thesis using save_total_rel [OF r(1,2,4) z] r by (auto simp: counters_rel_def a clear_msg_count_file_def)
  qed (use r p inc in \<open>auto simp: counters_rel_def a pending_counts_def increase_sent_msg_count_def
      increase_online_discarded_msg_count_def increase_offline_discarded_msg_count_def
      increase_offline_sent_msg_count_def\<close>)
qed

interpretation counters: budgeted_simulation exec_counter spec_counter counters_rel
  by unfold_locales (rule counters_step)

lemma fold_spec_counter:
  "ClearFile \<notin> set ops \<Longrightarrow>
     add_counts (fst (fold spec_counter ops (t, p))) (snd (fold spec_counter ops (t, p))) =
     add_counts (add_counts t p)
       (int (count_list ops IncSent), int (count_list ops IncOnlineDiscard),
        int (count_list ops IncOfflineDiscard), int (count_list ops IncOfflineSent))"
proof (induction ops arbitrary: t p)
  case Nil
  show ?case by (cases t; cases p) simp
next
  case (Cons op ops)
  obtain t' p' where tp: "spec_counter op (t, p) = (t', p')" by (metis prod.exhaust)
  have "add_counts t' p' = add_counts (add_counts t p)
      (int (count_list [op] IncSent), int (count_list [op] IncOnlineDiscard),
       int (count_list [op] IncOfflineDiscard), int (count_list [op] IncOfflineSent))"
    using tp Cons.prems by (cases t; cases p; cases op) auto
  with Cons.IH [of t' p'] Cons.prems tp show ?case
    by (cases t; cases p; cases t'; cases p') (simp; linarith)
qed

section \<open>Properties\<close>


end
