(* ===== verification/MqttWrapper.thy ===== *)
theory MqttWrapper
  imports MsgCounter Cipher
begin

text \<open>
  The MQTT client wrapper of \<open>hub-app/source/mqttclientwrapper.c\<close>, as the Makefile
  builds it (\<open>PAYLOAD_ENCRYPT\<close> and \<open>USE_BUILD_IN_MQTT_RECONNECT\<close> defined,
  \<open>OPENSSL\<close> not).

  The asynchronous Paho client is the environment: every call of the wrapper to it is
  appended to the trace of the state, and its return code is given by the parameter
  \<open>answer\<close>, a function of the calls so far. Its callbacks are operations that the
  environment may start at any time; an application callback is an argument of the
  operation that calls it. \<open>clock\<close> is the real time in nanoseconds.

  Main results: the status invariant, that a connection is announced and subscribed
  exactly once per rising edge, and what a publish puts on the wire.
\<close>

section \<open>Definitions\<close>

abbreviation (input) MQTTASYNC_SUCCESS :: int where "MQTTASYNC_SUCCESS \<equiv> 0"
abbreviation (input) MQTTASYNC_DISCONNECTED :: int where "MQTTASYNC_DISCONNECTED \<equiv> - 3"

definition QOS0 :: int where "QOS0 = 0"
definition MAXQOS :: int where "MAXQOS = 2"
definition NANOSECONDS_PER_SECOND :: int where "NANOSECONDS_PER_SECOND = 1000 * 1000 * 1000"

record connect_options =
  username :: string
  password :: string
  keepAliveInterval :: int
  cleansession :: int
  connectTimeout :: int
  automaticReconnect :: bool
  retryInterval :: int
  minRetryInterval :: int
  maxRetryInterval :: int
  will_qos :: int
  will_topicName :: string
  will_message :: string

datatype paho_call =
    MQTTAsync_create string string
  | MQTTAsync_destroy
  | MQTTAsync_setCallbacks
  | MQTTAsync_connect connect_options
  | MQTTAsync_sendMessage string "byte list" int
  | MQTTAsync_subscribeMany "string list" "int list"
  | MQTTAsync_disconnect

record mqtt_state = counter_state +
  client :: bool
  connected :: bool
  hasEverConnected :: bool
  subscribed :: bool
  messageReceivedCallback :: bool
  connectedCallback :: bool
  g_ClientId :: string
  paho_trace :: "paho_call list"
  clock :: int

text \<open>
  The environment of the process: the cipher, \<open>rand\<close>, the Paho client's return codes,
  and the bytes that follow a string in memory.
\<close>

record 'k hub_env =
  aes :: "'k cipher_descriptor"
  c_rand :: "int \<Rightarrow> nat \<Rightarrow> nat"
  answer :: "paho_call list \<Rightarrow> paho_call \<Rightarrow> int"
  heap_tail :: "byte list"

definition paho :: "'k hub_env \<Rightarrow> paho_call \<Rightarrow> 'a mqtt_state_scheme \<Rightarrow> int \<times> 'a mqtt_state_scheme" where
  "paho e c s = (answer e (paho_trace s) c, s\<lparr>paho_trace := paho_trace s @ [c]\<rparr>)"

definition time_now :: "'a mqtt_state_scheme \<Rightarrow> int" where
  "time_now s = clock s div NANOSECONDS_PER_SECOND"

definition MAIN_TOPIC :: string where "MAIN_TOPIC = ''hub''"

definition CAT_TOPIC :: "string \<Rightarrow> string \<Rightarrow> string" where
  "CAT_TOPIC main sub = main @ ''/'' @ sub"

definition quoted :: "string \<Rightarrow> string" where
  "quoted t = CHR 0x22 # t @ [CHR 0x22]"

text \<open>\<open>"key":"value"\<close>, as the \<open>sprintf\<close> formats write it.\<close>

definition json_field :: "string \<Rightarrow> string \<Rightarrow> string" where
  "json_field k v = quoted k @ '':'' @ quoted v"

subsection \<open>Status\<close>

definition MQTTClientWrapper_isConnected :: "'a mqtt_state_scheme \<Rightarrow> bool" where
  "MQTTClientWrapper_isConnected s = (if \<not> client s then False else connected s)"

definition MQTTClientWrapper_hasEverConnected :: "'a mqtt_state_scheme \<Rightarrow> bool" where
  "MQTTClientWrapper_hasEverConnected s = hasEverConnected s"

definition MQTTClientWrapper_isSubscribed :: "'a mqtt_state_scheme \<Rightarrow> bool" where
  "MQTTClientWrapper_isSubscribed s = subscribed s"

subsection \<open>Operations\<close>

definition MQTTClientWrapper_subscribe ::
    "'k hub_env \<Rightarrow> 'a mqtt_state_scheme \<Rightarrow> int \<times> 'a mqtt_state_scheme" where
  "MQTTClientWrapper_subscribe e s =
     (case get_device_sn s of
        (sn, s1) \<Rightarrow>
          let topic1 = CAT_TOPIC (CAT_TOPIC MAIN_TOPIC ''cmd'') ''ALL'';
              topic2 = CAT_TOPIC MAIN_TOPIC ''cmd'' @ ''/'' @ sn
          in case paho e (MQTTAsync_subscribeMany [topic1, topic2] [MAXQOS, MAXQOS]) s1 of
               (rc, s2) \<Rightarrow> (if rc \<noteq> MQTTASYNC_SUCCESS then FAILURE else SUCCESS, s2))"

definition fill_connect_opts :: "string \<Rightarrow> connect_options" where
  "fill_connect_opts willMessage =
     \<lparr>username = ''user'', password = ''password'', keepAliveInterval = 10, cleansession = 0,
      connectTimeout = 10, automaticReconnect = True, retryInterval = 10, minRetryInterval = 10,
      maxRetryInterval = 60, will_qos = MAXQOS, will_topicName = CAT_TOPIC MAIN_TOPIC ''offline'',
      will_message = willMessage\<rparr>"

definition MQTTClientWrapper_connect ::
    "'k hub_env \<Rightarrow> 'a mqtt_state_scheme \<Rightarrow> int \<times> 'a mqtt_state_scheme" where
  "MQTTClientWrapper_connect e s =
     (if \<not> client s then (FAILURE, s)
      else case get_device_sn s of
        (sn, s1) \<Rightarrow>
          (case paho e (MQTTAsync_connect (fill_connect_opts (''{'' @ json_field ''sn'' sn @ ''}''))) s1 of
             (rc, s2) \<Rightarrow>
               if rc = MQTTASYNC_SUCCESS then (SUCCESS, s2)
               else (FAILURE, s2\<lparr>connected := False\<rparr>)))"

definition get_client_id :: "'a mqtt_state_scheme \<Rightarrow> (string \<times> 'a mqtt_state_scheme) option" where
  "get_client_id s =
     (if string_is_empty (Some (g_ClientId s))
      then (case get_device_sn s of
              (sn, s1) \<Rightarrow>
                if \<not> string_is_empty (Some sn)
                then do { v \<leftarrow> fits 48 (''MQTTCLIENT-'' @ sn); Some (v, s1\<lparr>g_ClientId := v\<rparr>) }
                else Some (g_ClientId s1, s1))
      else Some (g_ClientId s, s))"

definition MQTTClientWrapper_init ::
    "'k hub_env \<Rightarrow> 'a mqtt_state_scheme \<Rightarrow> (int \<times> 'a mqtt_state_scheme) option" where
  "MQTTClientWrapper_init e s =
     (let s1 = (if client s then (snd (paho e MQTTAsync_destroy s))\<lparr>client := False\<rparr> else s)
      in do {
        (clientId, s2) \<leftarrow> get_client_id s1;
        (if string_is_empty (Some clientId) then Some (FAILURE, s2)
         else do {
           (endpoint, s3) \<leftarrow> get_config_mqtt_end_point s2;
           (case paho e (MQTTAsync_create endpoint clientId) s3 of
              (retCode, s4) \<Rightarrow>
                if retCode \<noteq> MQTTASYNC_SUCCESS then Some (retCode, s4)
                else Some (SUCCESS, snd (paho e MQTTAsync_setCallbacks (s4\<lparr>client := True\<rparr>)))) }) })"

definition MQTTClientWrapper_disconnect ::
    "'k hub_env \<Rightarrow> 'a mqtt_state_scheme \<Rightarrow> int \<times> 'a mqtt_state_scheme" where
  "MQTTClientWrapper_disconnect e s =
     (if MQTTClientWrapper_isConnected s
      then (case paho e MQTTAsync_disconnect s of
              (retCode, s1) \<Rightarrow> (if retCode = MQTTASYNC_SUCCESS then SUCCESS else FAILURE, s1))
      else (SUCCESS, s))"

definition MQTTClientWrapper_deinit :: "'k hub_env \<Rightarrow> 'a mqtt_state_scheme \<Rightarrow> 'a mqtt_state_scheme" where
  "MQTTClientWrapper_deinit e s =
     (if client s then (snd (paho e MQTTAsync_destroy s))\<lparr>client := False\<rparr> else s)"

definition MQTTClientWrapper_setMessageReceivedCallback :: "bool \<Rightarrow> 'a mqtt_state_scheme \<Rightarrow> 'a mqtt_state_scheme" where
  "MQTTClientWrapper_setMessageReceivedCallback cb s = s\<lparr>messageReceivedCallback := cb\<rparr>"

definition MQTTClientWrapper_setConnectedCallback :: "bool \<Rightarrow> 'a mqtt_state_scheme \<Rightarrow> 'a mqtt_state_scheme" where
  "MQTTClientWrapper_setConnectedCallback cb s = s\<lparr>connectedCallback := cb\<rparr>"

definition bytes_of :: "string \<Rightarrow> byte list" where
  "bytes_of t = map (\<lambda>c. word_of_nat (chr_code c)) t"

definition clamp_qos :: "int \<Rightarrow> int" where
  "clamp_qos qos = (if qos \<ge> QOS0 \<and> qos \<le> MAXQOS then qos else QOS0)"

definition MQTTClientWrapper_sendMessage ::
    "'k hub_env \<Rightarrow> string \<Rightarrow> string \<Rightarrow> int \<Rightarrow> 'a mqtt_state_scheme \<Rightarrow> (int \<times> 'a mqtt_state_scheme) option" where
  "MQTTClientWrapper_sendMessage e topic message qos s =
     (case mqtt_payload_encrypt (aes e) (c_rand e) (time_now s)
             (bytes_of message @ 0 # heap_tail e) (length message) of
        None \<Rightarrow> None
      | Some (rc, payload) \<Rightarrow>
          if rc \<noteq> SUCCESS then Some (FAILURE, s)
          else (case payload of
            None \<Rightarrow> None
          | Some encryptedPayload \<Rightarrow>
              (case paho e (MQTTAsync_sendMessage topic encryptedPayload (clamp_qos qos)) s of
                 (rc, s1) \<Rightarrow>
                   if rc = MQTTASYNC_SUCCESS then Some (SUCCESS, increase_sent_msg_count s1)
                   else Some (FAILURE, s1))))"

text \<open>
  An unlisted code is printed through the code itself used as a buffer address:
  \<open>None\<close>.
\<close>

definition MQTTClientWrapper_errorDescription :: "int \<Rightarrow> string option" where
  "MQTTClientWrapper_errorDescription c =
     (if c = 0 then Some ''SUCCESS''
      else if c = -1 then Some ''FAILURE''
      else if c = -2 then Some ''PERSISTENCE_ERROR''
      else if c = -3 then Some ''DISCONNECTED''
      else if c = -4 then Some ''MAX_MESSAGES_INFLIGHT''
      else if c = -5 then Some ''BAD_UTF8_STRING''
      else if c = -6 then Some ''NULL_PARAMETER''
      else if c = -8 then Some ''BAD_STRUCTURE''
      else if c = -9 then Some ''BAD_QOS''
      else if c = -10 then Some ''NO_MORE_MSGIDS''
      else if c = -11 then Some ''OPERATION_INCOMPLETE''
      else if c = -12 then Some ''MAX_BUFFERED_MESSAGES''
      else None)"

subsection \<open>Callbacks of the Paho client\<close>

definition on_connect ::
    "'k hub_env \<Rightarrow> ('a mqtt_state_scheme \<Rightarrow> 'a mqtt_state_scheme option)
       \<Rightarrow> 'a mqtt_state_scheme \<Rightarrow> 'a mqtt_state_scheme option" where
  "on_connect e cb s =
     (if connected s then Some s
      else do {
        let s1 = s\<lparr>connected := True\<rparr>;
        let s2 = s1\<lparr>hasEverConnected := True\<rparr>;
        s3 \<leftarrow> (if connectedCallback s2 then cb s2 else Some s2);
        Some (snd (MQTTClientWrapper_subscribe e s3)) })"

definition on_connect_failure :: "'a mqtt_state_scheme \<Rightarrow> 'a mqtt_state_scheme" where
  "on_connect_failure s = s\<lparr>connected := False\<rparr>"

definition on_disconnect :: "'a mqtt_state_scheme \<Rightarrow> 'a mqtt_state_scheme" where
  "on_disconnect s = s\<lparr>connected := False, subscribed := False\<rparr>"

definition on_disconnect_failure :: "'a mqtt_state_scheme \<Rightarrow> 'a mqtt_state_scheme" where
  "on_disconnect_failure s = s"

definition on_connection_lost :: "'a mqtt_state_scheme \<Rightarrow> 'a mqtt_state_scheme" where
  "on_connection_lost s = s\<lparr>connected := False, subscribed := False\<rparr>"

definition on_message_send :: "'a mqtt_state_scheme \<Rightarrow> 'a mqtt_state_scheme" where
  "on_message_send s = s"

definition on_messasge_send_failure :: "'a mqtt_state_scheme \<Rightarrow> 'a mqtt_state_scheme" where
  "on_messasge_send_failure s = s"

definition on_subscribe :: "'a mqtt_state_scheme \<Rightarrow> 'a mqtt_state_scheme" where
  "on_subscribe s = s\<lparr>subscribed := True\<rparr>"

definition on_subscribe_failure :: "'a mqtt_state_scheme \<Rightarrow> 'a mqtt_state_scheme" where
  "on_subscribe_failure s = s\<lparr>subscribed := False\<rparr>"

definition message_arrived ::
    "(string \<Rightarrow> byte list \<Rightarrow> 'a mqtt_state_scheme \<Rightarrow> 'a mqtt_state_scheme option)
       \<Rightarrow> string option \<Rightarrow> int \<Rightarrow> byte list \<Rightarrow> 'a mqtt_state_scheme \<Rightarrow> (bool \<times> 'a mqtt_state_scheme) option" where
  "message_arrived cb topicName topicLen payload s =
     (case topicName of
        Some topic \<Rightarrow>
          if messageReceivedCallback s \<and> topicLen > 0 \<and> length payload > 0
          then do { s1 \<leftarrow> cb topic payload s; Some (True, s1) }
          else Some (True, s)
      | None \<Rightarrow> Some (True, s))"

subsection \<open>Steps\<close>

text \<open>
  What can happen to the wrapper: a callback of the Paho client or a call of the hub. The
  application's connected callback \<open>cb\<close> runs inside \<open>on_connect\<close>.
\<close>

inductive mqtt_step ::
    "'k hub_env \<Rightarrow> ('a mqtt_state_scheme \<Rightarrow> 'a mqtt_state_scheme option)
       \<Rightarrow> 'a mqtt_state_scheme \<Rightarrow> 'a mqtt_state_scheme \<Rightarrow> bool" where
  step_connected: "on_connect e cb s = Some s' \<Longrightarrow> mqtt_step e cb s s'"
| step_connect_failed: "mqtt_step e cb s (on_connect_failure s)"
| step_disconnected: "mqtt_step e cb s (on_disconnect s)"
| step_lost: "mqtt_step e cb s (on_connection_lost s)"
| step_subscribed: "mqtt_step e cb s (on_subscribe s)"
| step_subscribe_failed: "mqtt_step e cb s (on_subscribe_failure s)"
| step_init: "MQTTClientWrapper_init e s = Some (rc, s') \<Longrightarrow> mqtt_step e cb s s'"
| step_connect: "mqtt_step e cb s (snd (MQTTClientWrapper_connect e s))"
| step_subscribe: "mqtt_step e cb s (snd (MQTTClientWrapper_subscribe e s))"
| step_send: "MQTTClientWrapper_sendMessage e topic msg qos s = Some (rc, s') \<Longrightarrow> mqtt_step e cb s s'"
| step_disconnect: "mqtt_step e cb s (snd (MQTTClientWrapper_disconnect e s))"
| step_deinit: "mqtt_step e cb s (MQTTClientWrapper_deinit e s)"

inductive_cases mqtt_stepE: "mqtt_step e cb s s'"

section \<open>Lemmas\<close>

lemma byte_zero_iff: "(word_of_nat (chr_code c) :: byte) = 0 \<longleftrightarrow> c = NUL"
proof -
  have "(word_of_nat (chr_code c) :: byte) = 0 \<longleftrightarrow> chr_code c mod 256 = 0"
    by (simp add: word_of_nat_eq_0_iff mod_eq_0_iff_dvd del: mod_less)
  also have "\<dots> \<longleftrightarrow> c = NUL" using chr_code_inject [of c NUL] by (simp add: chr_code_def)
  finally show ?thesis .
qed

lemma bytes_of_no_zero: "NUL \<notin> set m \<Longrightarrow> 0 \<notin> set (bytes_of m)"
  by (auto simp: bytes_of_def byte_zero_iff eq_commute [of 0])

lemma length_bytes_of [simp]: "length (bytes_of m) = length m"
  by (simp add: bytes_of_def)

lemma clamp_qos_range: "clamp_qos q \<in> {0, 1, 2}"
  by (auto simp: clamp_qos_def QOS0_def MAXQOS_def)

lemma paho_simps [simp]:
  "fst (paho e c s) = answer e (paho_trace s) c"
  "paho_trace (snd (paho e c s)) = paho_trace s @ [c]"
  "client (snd (paho e c s)) = client s" "connected (snd (paho e c s)) = connected s"
  "hasEverConnected (snd (paho e c s)) = hasEverConnected s" "subscribed (snd (paho e c s)) = subscribed s"
  by (simp_all add: paho_def)

lemma get_device_sn_frame [simp]:
  "client (snd (get_device_sn s)) = client s" "connected (snd (get_device_sn s)) = connected s"
  "hasEverConnected (snd (get_device_sn s)) = hasEverConnected s"
  "subscribed (snd (get_device_sn s)) = subscribed s" "paho_trace (snd (get_device_sn s)) = paho_trace s"
  by (simp_all add: get_device_sn_def Let_def)

lemma payload_encrypt_total:
  assumes "aes_ok d" and "len < 2147483633" and "(len + 15) div 16 * 16 \<le> length mem"
  shows "\<exists>payload. mqtt_payload_encrypt d rand now mem len = Some (SUCCESS, Some payload) \<and>
    length payload = 28 + (len + 15) div 16 * 16"
  using aes_cbc_inverse [OF assms(1) _ assms(2,3), of "generate_random_iv rand now 16"]
  by (auto simp: mqtt_payload_encrypt_def Let_def)

text \<open>The environment a publish needs: AES works and memory is readable after the string.\<close>

definition send_env_ok :: "'k hub_env \<Rightarrow> bool" where
  "send_env_ok e \<longleftrightarrow> aes_ok (aes e) \<and> 15 \<le> length (heap_tail e)"

lemma sendMessage_cases:
  assumes "send_env_ok e" and "length m < 2147483633"
  obtains payload where
    "mqtt_payload_encrypt (aes e) (c_rand e) (time_now s) (bytes_of m @ 0 # heap_tail e) (length m)
       = Some (SUCCESS, Some payload)"
    "MQTTClientWrapper_sendMessage e topic m q s =
       (let c = MQTTAsync_sendMessage topic payload (clamp_qos q); s1 = s\<lparr>paho_trace := paho_trace s @ [c]\<rparr>
        in if answer e (paho_trace s) c = 0 then Some (SUCCESS, increase_sent_msg_count s1) else Some (FAILURE, s1))"
proof -
  have "(length m + 15) div 16 * 16 \<le> length m + 15" by (simp add: div_times_less_eq_dividend)
  then have "(length m + 15) div 16 * 16 \<le> length (bytes_of m @ 0 # heap_tail e)"
    using assms(1) by (auto simp: send_env_ok_def intro: order_trans)
  then obtain payload where p: "mqtt_payload_encrypt (aes e) (c_rand e) (time_now s)
      (bytes_of m @ 0 # heap_tail e) (length m) = Some (SUCCESS, Some payload)"
    using payload_encrypt_total assms unfolding send_env_ok_def by blast
  then show thesis
    by (intro that [of payload]) (simp_all add: MQTTClientWrapper_sendMessage_def paho_def Let_def)
qed

lemma sendMessage_status:
  "MQTTClientWrapper_sendMessage e topic m q s = Some (rc, s') \<Longrightarrow>
     client s' = client s \<and> connected s' = connected s \<and> hasEverConnected s' = hasEverConnected s \<and>
     subscribed s' = subscribed s"
  by (auto simp: MQTTClientWrapper_sendMessage_def paho_def increase_sent_msg_count_def
      split: option.splits if_splits prod.splits)

text \<open>The calls a send adds to the trace: none, or one publish with a legal QoS.\<close>

lemma sendMessage_trace:
  "MQTTClientWrapper_sendMessage e topic m q s = Some (rc, s') \<Longrightarrow>
     paho_trace s' = paho_trace s \<or>
     (\<exists>p. paho_trace s' = paho_trace s @ [MQTTAsync_sendMessage topic p (clamp_qos q)])"
  by (auto simp: MQTTClientWrapper_sendMessage_def paho_def increase_sent_msg_count_def
      split: option.splits if_splits prod.splits)

definition is_subscribe :: "paho_call \<Rightarrow> bool" where
  "is_subscribe c = (case c of MQTTAsync_subscribeMany _ _ \<Rightarrow> True | _ \<Rightarrow> False)"

definition subscribe_count :: "'a mqtt_state_scheme \<Rightarrow> nat" where
  "subscribe_count s = length (filter is_subscribe (paho_trace s))"

lemma subscribe_effect:
  "subscribe_count (snd (MQTTClientWrapper_subscribe e s)) = Suc (subscribe_count s)"
  "client (snd (MQTTClientWrapper_subscribe e s)) = client s"
  "connected (snd (MQTTClientWrapper_subscribe e s)) = connected s"
  "hasEverConnected (snd (MQTTClientWrapper_subscribe e s)) = hasEverConnected s"
  "subscribed (snd (MQTTClientWrapper_subscribe e s)) = subscribed s"
  by (simp_all add: MQTTClientWrapper_subscribe_def subscribe_count_def is_subscribe_def paho_def Let_def
      get_device_sn_def)

section \<open>The application callback\<close>

text \<open>
  What the wrapper relies on of the connected callback: it does not touch the status of
  the wrapper and does not subscribe.
\<close>

locale connected_callback =
  fixes cb :: "'a mqtt_state_scheme \<Rightarrow> 'a mqtt_state_scheme option"
  assumes cb_connected: "cb s = Some s' \<Longrightarrow> connected s' = connected s"
    and cb_ever: "cb s = Some s' \<Longrightarrow> hasEverConnected s' = hasEverConnected s"
    and cb_subscribes: "cb s = Some s' \<Longrightarrow> subscribe_count s' = subscribe_count s"
begin

lemma on_connect_rising:
  assumes "on_connect e cb s = Some s'" and "\<not> connected s"
  shows "connected s'" and "hasEverConnected s'" and "subscribe_count s' = Suc (subscribe_count s)"
proof -
  let ?s2 = "s\<lparr>connected := True, hasEverConnected := True\<rparr>"
  obtain s3 where s3: "(if connectedCallback ?s2 then cb ?s2 else Some ?s2) = Some s3"
      and s': "s' = snd (MQTTClientWrapper_subscribe e s3)"
    using assms by (auto simp: on_connect_def Let_def bind_eq_Some_conv)
  have "connected s3" "hasEverConnected s3" "subscribe_count s3 = subscribe_count s"
    using s3 cb_connected [of ?s2 s3] cb_ever [of ?s2 s3] cb_subscribes [of ?s2 s3]
    by (auto split: if_splits simp: subscribe_count_def)
  then show "connected s'" "hasEverConnected s'" "subscribe_count s' = Suc (subscribe_count s)"
    by (simp_all add: s' subscribe_effect)
qed

lemma on_connect_again: "connected s \<Longrightarrow> on_connect e cb s = Some s"
  by (simp add: on_connect_def)

end

lemma get_client_id_effect:
  assumes "get_client_id s = Some (v, s')"
  shows "connected s' = connected s" and "hasEverConnected s' = hasEverConnected s" and "paho_trace s' = paho_trace s"
proof -
  have "s' = s \<or> s' = snd (get_device_sn s) \<or> s' = (snd (get_device_sn s))\<lparr>g_ClientId := v\<rparr>"
    using assms by (cases "get_device_sn s") (auto simp: get_client_id_def bind_eq_Some_conv split: if_splits)
  then show "connected s' = connected s" "hasEverConnected s' = hasEverConnected s" "paho_trace s' = paho_trace s"
    by auto
qed

lemma end_point_effect:
  assumes "get_config_mqtt_end_point s = Some (v, s')"
  shows "connected s' = connected s" and "hasEverConnected s' = hasEverConnected s" and "paho_trace s' = paho_trace s"
  using assms by (auto simp: get_config_mqtt_end_point_def bind_eq_Some_conv split: if_splits)

lemma subscribe_count_append [simp]:
  "subscribe_count (s\<lparr>paho_trace := t\<rparr>) = length (filter is_subscribe t)"
  "subscribe_count (s\<lparr>client := b\<rparr>) = subscribe_count s"
  "subscribe_count (s\<lparr>connected := b\<rparr>) = subscribe_count s"
  "subscribe_count (s\<lparr>subscribed := b\<rparr>) = subscribe_count s"
  by (simp_all add: subscribe_count_def)

lemma init_effect:
  assumes "MQTTClientWrapper_init e s = Some (rc, s')"
  shows "connected s' = connected s \<and> hasEverConnected s' = hasEverConnected s \<and> subscribe_count s' = subscribe_count s"
proof -
  let ?s1 = "if client s then (snd (paho e MQTTAsync_destroy s))\<lparr>client := False\<rparr> else s"
  have s1: "connected ?s1 = connected s" "hasEverConnected ?s1 = hasEverConnected s" "subscribe_count ?s1 = subscribe_count s"
    by (simp_all add: subscribe_count_def is_subscribe_def)
  obtain cid s2 where s2: "get_client_id ?s1 = Some (cid, s2)"
    using assms by (auto simp: MQTTClientWrapper_init_def Let_def bind_eq_Some_conv)
  have c2: "connected s2 = connected s \<and> hasEverConnected s2 = hasEverConnected s \<and> subscribe_count s2 = subscribe_count s"
    using get_client_id_effect [OF s2] s1 by (simp add: subscribe_count_def)
  show ?thesis
  proof (cases "string_is_empty (Some cid)")
    case True
    then show ?thesis using assms s2 c2 by (simp add: MQTTClientWrapper_init_def Let_def)
  next
    case False
    then obtain ep s3 where s3: "get_config_mqtt_end_point s2 = Some (ep, s3)"
      using assms s2 by (auto simp: MQTTClientWrapper_init_def Let_def bind_eq_Some_conv)
    have c3: "connected s3 = connected s \<and> hasEverConnected s3 = hasEverConnected s \<and> subscribe_count s3 = subscribe_count s"
      using end_point_effect [OF s3] c2 by (simp add: subscribe_count_def)
    show ?thesis
      using assms False s2 s3 c3
      by (auto simp: MQTTClientWrapper_init_def Let_def paho_def is_subscribe_def subscribe_count_def split: if_splits)
  qed
qed

lemma calls_effect:
  "subscribe_count (snd (MQTTClientWrapper_connect e s)) = subscribe_count s"
  "hasEverConnected (snd (MQTTClientWrapper_connect e s)) = hasEverConnected s"
  "connected (snd (MQTTClientWrapper_connect e s)) \<Longrightarrow> connected s"
  "subscribe_count (snd (MQTTClientWrapper_disconnect e s)) = subscribe_count s"
  "hasEverConnected (snd (MQTTClientWrapper_disconnect e s)) = hasEverConnected s"
  "connected (snd (MQTTClientWrapper_disconnect e s)) = connected s"
  "subscribe_count (MQTTClientWrapper_deinit e s) = subscribe_count s"
  "hasEverConnected (MQTTClientWrapper_deinit e s) = hasEverConnected s"
  "connected (MQTTClientWrapper_deinit e s) = connected s"
  by (auto simp: MQTTClientWrapper_connect_def MQTTClientWrapper_disconnect_def MQTTClientWrapper_deinit_def
      paho_def subscribe_count_def is_subscribe_def get_device_sn_def Let_def split: if_splits)

lemma sendMessage_subscribes:
  "MQTTClientWrapper_sendMessage e topic m q s = Some (rc, s') \<Longrightarrow> subscribe_count s' = subscribe_count s"
  by (drule sendMessage_trace) (auto simp: subscribe_count_def is_subscribe_def)

text \<open>The invariant: a connected client was announced, and an announced one has asked for its topics.\<close>

definition mqtt_inv :: "'a mqtt_state_scheme \<Rightarrow> bool" where
  "mqtt_inv s \<longleftrightarrow> (connected s \<longrightarrow> hasEverConnected s) \<and> (hasEverConnected s \<longrightarrow> 0 < subscribe_count s)"

lemma calls_inv:
  assumes "mqtt_inv s"
  shows "mqtt_inv (on_connect_failure s)" "mqtt_inv (on_disconnect s)" "mqtt_inv (on_connection_lost s)"
    "mqtt_inv (on_subscribe s)" "mqtt_inv (on_subscribe_failure s)"
    "mqtt_inv (snd (MQTTClientWrapper_connect e s))" "mqtt_inv (snd (MQTTClientWrapper_subscribe e s))"
    "mqtt_inv (snd (MQTTClientWrapper_disconnect e s))" "mqtt_inv (MQTTClientWrapper_deinit e s)"
    "MQTTClientWrapper_init e s = Some (rc, s') \<Longrightarrow> mqtt_inv s'"
    "MQTTClientWrapper_sendMessage e topic m q s = Some (rc, s') \<Longrightarrow> mqtt_inv s'"
proof -
  show "MQTTClientWrapper_init e s = Some (rc, s') \<Longrightarrow> mqtt_inv s'"
    using assms init_effect [of e s rc s'] by (simp add: mqtt_inv_def)
  show "MQTTClientWrapper_sendMessage e topic m q s = Some (rc, s') \<Longrightarrow> mqtt_inv s'"
    using assms sendMessage_status [of e topic m q s rc s'] sendMessage_subscribes [of e topic m q s rc s']
    by (simp add: mqtt_inv_def)
  show "mqtt_inv (snd (MQTTClientWrapper_connect e s))"
    using assms calls_effect(1-3) [of e s] by (auto simp: mqtt_inv_def)
qed (use assms in \<open>auto simp: mqtt_inv_def calls_effect subscribe_effect on_connect_failure_def on_disconnect_def
      on_connection_lost_def on_subscribe_def on_subscribe_failure_def\<close>)

context connected_callback
begin

lemma on_connect_inv: "on_connect e cb s = Some s' \<Longrightarrow> mqtt_inv s \<Longrightarrow> mqtt_inv s'"
  using on_connect_rising [of e s s'] on_connect_again [of s e] by (cases "connected s") (auto simp: mqtt_inv_def)

lemma mqtt_step_inv: "mqtt_step e cb s s' \<Longrightarrow> mqtt_inv s \<Longrightarrow> mqtt_inv s'"
  by (elim mqtt_stepE) (auto intro: on_connect_inv calls_inv)

lemma mqtt_reachable_inv: "(mqtt_step e cb)\<^sup>*\<^sup>* s s' \<Longrightarrow> mqtt_inv s \<Longrightarrow> mqtt_inv s'"
  by (induction rule: rtranclp_induct) (auto intro: mqtt_step_inv)

end

section \<open>Properties\<close>


end
