(* ===== verification/SendParser.thy ===== *)
theory SendParser
  imports MqttWrapper Json
begin

text \<open>
  The parser of a send request, \<open>hub-app/source/mqttsendreqbodyparser.c\<close>. json-c's
  tokener is a parameter \<open>tok\<close>: \<open>None\<close> is the NULL it returns for a syntax
  error and for the text \<open>null\<close>. The code changes the payload object inside the
  parsed tree; the tree returned here is the changed one, which is what the caller
  serialises into the offline cache.

  Main results: the exact condition of acceptance; a payload object only gains members;
  a stored document that is read back is accepted again with the same content.
\<close>

section \<open>Definitions\<close>

definition VALUE_CACHE_PRIORITY_DEFAULT :: int where "VALUE_CACHE_PRIORITY_DEFAULT = 8"

record mqtt_send_content =
  from_module :: "string option"
  topic :: "string option"
  payload :: "string option"
  qos :: int
  cache_priority :: int

definition empty_content :: mqtt_send_content where
  "empty_content = \<lparr>from_module = None, topic = None, payload = None, qos = 0, cache_priority = 0\<rparr>"

text \<open>\<open>sn\<close>, \<open>mac\<close> and \<open>time\<close> are added where they are missing.\<close>

definition add_missing :: "string \<Rightarrow> json \<Rightarrow> json \<Rightarrow> json" where
  "add_missing key val j =
     (if json_object_object_get_ex j key = None then json_object_object_add j key val else j)"

definition enrich_payload ::
    "string option \<Rightarrow> json \<Rightarrow> 'a mqtt_state_scheme \<Rightarrow> json \<times> 'a mqtt_state_scheme" where
  "enrich_payload fromMacAddr jsubobj s =
     (case (if json_object_object_get_ex jsubobj ''sn'' = None
            then (case get_device_sn s of (sn, s1) \<Rightarrow> (json_object_object_add jsubobj ''sn'' (JString sn), s1))
            else (jsubobj, s)) of
        (j1, s1) \<Rightarrow>
          let j2 = (if \<not> string_is_empty fromMacAddr then add_missing ''mac'' (JString (the fromMacAddr)) j1 else j1);
              j3 = add_missing ''time'' (JInt (time_now s1)) j2
          in (j3, s1))"

text \<open>Return code, \<open>*mqttSendContent\<close>, \<open>*outJsonObject\<close> and \<open>errorMessage\<close>.\<close>

definition parse_mqtt_send_request_body ::
    "(string \<Rightarrow> json option) \<Rightarrow> string \<Rightarrow> string option \<Rightarrow> 'a mqtt_state_scheme
       \<Rightarrow> int \<times> mqtt_send_content \<times> json option \<times> string \<times> 'a mqtt_state_scheme" where
  "parse_mqtt_send_request_body tok body fromMacAddr s =
     (case tok body of
        None \<Rightarrow> (FAILURE, empty_content, None, ''Parse JSON error: (null)'', s)
      | Some jobj \<Rightarrow>
          let c1 = (case json_helper_get_string jobj ''from'' of
                      (_, v, _) \<Rightarrow> empty_content\<lparr>from_module := v\<rparr>);
              c2 = (case json_helper_get_int jobj ''qos'' of
                      (rc, v, _) \<Rightarrow> c1\<lparr>qos := (if rc \<noteq> JSON_HELPER_OK then QOS0 else the v)\<rparr>);
              c3 = (case json_helper_get_int jobj ''cache_priority'' of
                      (rc, v, _) \<Rightarrow> c2\<lparr>cache_priority :=
                         (if rc \<noteq> JSON_HELPER_OK then VALUE_CACHE_PRIORITY_DEFAULT else the v)\<rparr>)
          in case json_helper_get_string jobj ''topic'' of
               (rc, v, err) \<Rightarrow>
                 if rc \<noteq> JSON_HELPER_OK then (FAILURE, c3, Some jobj, err, s)
                 else let c4 = c3\<lparr>topic := v\<rparr>
                      in if string_is_empty (topic c4) then (FAILURE, c4, Some jobj, ''topic is empty'', s)
                         else case json_object_object_get_ex jobj ''payload'' of
                                None \<Rightarrow> (FAILURE, c4, Some jobj, ''no json node '' @ in_quotes ''payload'', s)
                              | Some jsubobj \<Rightarrow>
                                  if json_object_is_type jsubobj json_type_string
                                  then let c5 = c4\<lparr>payload := Some (json_object_get_string jsubobj)\<rparr>
                                       in if string_is_empty (payload c5)
                                          then (FAILURE, c5, Some jobj, ''payload is empty'', s)
                                          else (SUCCESS, c5, Some jobj, '''', s)
                                  else if json_object_is_type jsubobj json_type_object
                                  then (case enrich_payload fromMacAddr jsubobj s of
                                          (j, s1) \<Rightarrow>
                                            (SUCCESS, c4\<lparr>payload := Some (json_object_to_json_string j)\<rparr>,
                                             Some (json_object_object_add jobj ''payload'' j), '''', s1))
                                  else (FAILURE, c4, Some jobj,
                                        ''node '' @ in_quotes ''payload'' @ '' is not a string or JSON object'', s))"

section \<open>Specification\<close>

text \<open>A request is acceptable: a non-empty topic, and a non-empty text or an object as payload.\<close>

definition request_ok :: "json \<Rightarrow> bool" where
  "request_ok j \<longleftrightarrow>
     (\<exists>t. json_object_object_get_ex j ''topic'' = Some (JString t) \<and> takeWhile (\<lambda>c. c \<noteq> NUL) t \<noteq> []) \<and>
     ((\<exists>p. json_object_object_get_ex j ''payload'' = Some (JString p) \<and> takeWhile (\<lambda>c. c \<noteq> NUL) p \<noteq> []) \<or>
      (\<exists>ms. json_object_object_get_ex j ''payload'' = Some (JObject ms)))"

definition the_topic :: "json \<Rightarrow> string" where
  "the_topic j = (case json_object_object_get_ex j ''topic'' of Some v \<Rightarrow> json_object_get_string v | None \<Rightarrow> [])"

definition the_qos :: "json \<Rightarrow> int" where
  "the_qos j = (case json_object_object_get_ex j ''qos'' of Some (JInt i) \<Rightarrow> json_object_get_int (JInt i) | _ \<Rightarrow> 0)"

definition the_priority :: "json \<Rightarrow> int" where
  "the_priority j =
     (case json_object_object_get_ex j ''cache_priority'' of Some (JInt i) \<Rightarrow> json_object_get_int (JInt i) | _ \<Rightarrow> 8)"

section \<open>Lemmas\<close>

lemma json_type_iff:
  "json_object_is_type v json_type_string \<longleftrightarrow> (\<exists>t. v = JString t)"
  "json_object_is_type v json_type_object \<longleftrightarrow> (\<exists>ms. v = JObject ms)"
  "json_object_is_type v json_type_int \<longleftrightarrow> (\<exists>i. v = JInt i)"
  by (cases v; simp add: json_object_is_type_def)+

lemma parse_accepts:
  assumes "tok body = Some j" and "request_ok j"
  shows "fst (parse_mqtt_send_request_body tok body mac s) = SUCCESS"
  using assms
  by (auto simp: parse_mqtt_send_request_body_def request_ok_def json_helper_get_string_def json_helper_get_def
      json_type_iff json_object_get_string_def Let_def split: prod.splits)

lemma parse_rejects:
  assumes "fst (parse_mqtt_send_request_body tok body mac s) = SUCCESS"
  shows "\<exists>j. tok body = Some j \<and> request_ok j"
proof -
  obtain j where j: "tok body = Some j" using assms by (auto simp: parse_mqtt_send_request_body_def split: option.splits)
  have "request_ok j"
  proof (rule ccontr)
    assume n: "\<not> request_ok j"
    have "fst (parse_mqtt_send_request_body tok body mac s) = FAILURE"
    proof (cases "\<exists>t. json_object_object_get_ex j ''topic'' = Some (JString t) \<and> takeWhile (\<lambda>c. c \<noteq> NUL) t \<noteq> []")
      case False
      then show ?thesis
        using j by (auto simp: parse_mqtt_send_request_body_def json_helper_get_string_def json_helper_get_def
            json_type_iff json_object_get_string_def Let_def split: option.split)
    next
      case True
      with n j show ?thesis
        by (auto simp: parse_mqtt_send_request_body_def json_helper_get_string_def json_helper_get_def request_ok_def
            json_type_iff json_object_get_string_def Let_def split: option.split)
    qed
    with assms show False by simp
  qed
  with j show ?thesis by blast
qed

text \<open>What an accepted request becomes.\<close>

definition accepted :: "string option \<Rightarrow> json \<Rightarrow> 'a mqtt_state_scheme \<Rightarrow> string \<times> json \<times> 'a mqtt_state_scheme" where
  "accepted mac j s =
     (case json_object_object_get_ex j ''payload'' of
        Some (JObject ms) \<Rightarrow>
          (case enrich_payload mac (JObject ms) s of
             (p, s1) \<Rightarrow> (json_object_to_json_string p, json_object_object_add j ''payload'' p, s1))
      | Some v \<Rightarrow> (json_object_get_string v, j, s)
      | None \<Rightarrow> ([], j, s))"

lemma parse_result:
  assumes "tok body = Some j" and "request_ok j" and "accepted mac j s = (text, j', s')"
  shows "\<exists>fm. parse_mqtt_send_request_body tok body mac s =
    (SUCCESS, \<lparr>from_module = fm, topic = Some (the_topic j), payload = Some text, qos = the_qos j,
       cache_priority = the_priority j\<rparr>, Some j', '''', s')"
proof -
  obtain t where t: "json_object_object_get_ex j ''topic'' = Some (JString t)" "takeWhile (\<lambda>c. c \<noteq> NUL) t \<noteq> []"
    using assms(2) by (auto simp: request_ok_def)
  have tp: "the_topic j = takeWhile (\<lambda>c. c \<noteq> NUL) t" using t by (simp add: the_topic_def json_object_get_string_def)
  have q: "(case json_helper_get_int j ''qos'' of (rc, v, _) \<Rightarrow> if rc \<noteq> JSON_HELPER_OK then QOS0 else the v) = the_qos j"
    by (auto simp: json_helper_get_int_def json_helper_get_def the_qos_def json_type_iff QOS0_def
        split: option.splits json.splits)
  have p: "(case json_helper_get_int j ''cache_priority'' of
      (rc, v, _) \<Rightarrow> if rc \<noteq> JSON_HELPER_OK then VALUE_CACHE_PRIORITY_DEFAULT else the v) = the_priority j"
    by (auto simp: json_helper_get_int_def json_helper_get_def the_priority_def json_type_iff
        VALUE_CACHE_PRIORITY_DEFAULT_def split: option.splits json.splits)
  have h: "json_helper_get_string j ''topic'' = (JSON_HELPER_OK, Some (the_topic j), [])"
    using t tp by (simp add: json_helper_get_string_def json_helper_get_def json_type_iff json_object_get_string_def)
  have ne: "the_topic j \<noteq> []" using t tp by simp
  obtain rc1 v1 e1 where h1: "json_helper_get_string j ''from'' = (rc1, v1, e1)" by (metis prod.exhaust)
  obtain rc2 v2 e2 where h2: "json_helper_get_int j ''qos'' = (rc2, v2, e2)" by (metis prod.exhaust)
  obtain rc3 v3 e3 where h3: "json_helper_get_int j ''cache_priority'' = (rc3, v3, e3)" by (metis prod.exhaust)
  consider (str) u where "json_object_object_get_ex j ''payload'' = Some (JString u)" "takeWhile (\<lambda>c. c \<noteq> NUL) u \<noteq> []"
    | (obj) ms where "json_object_object_get_ex j ''payload'' = Some (JObject ms)"
    using assms(2) by (auto simp: request_ok_def)
  then show ?thesis
  proof cases
    case str
    then show ?thesis
      using assms h ne h1 h2 h3 q p
      by (auto simp: parse_mqtt_send_request_body_def accepted_def json_type_iff json_object_get_string_def Let_def empty_content_def)
  next
    case obj
    then show ?thesis
      using assms h ne h1 h2 h3 q p
      by (auto simp: parse_mqtt_send_request_body_def accepted_def json_type_iff Let_def empty_content_def split: prod.splits)
  qed
qed

text \<open>Enrichment only adds members, and does nothing to an object that already has them.\<close>

definition is_object :: "json \<Rightarrow> bool" where
  "is_object j \<longleftrightarrow> (\<exists>ms. j = JObject ms)"

lemma add_missing_object: "is_object j \<Longrightarrow> is_object (add_missing key val j)"
  by (auto simp: is_object_def add_missing_def json_object_object_add_def)

lemma add_missing_keeps:
  assumes "json_object_object_get_ex j k = Some v"
  shows "json_object_object_get_ex (add_missing key val j) k = Some v"
proof -
  obtain ms where "j = JObject ms" using assms by (cases j) (auto simp: json_object_object_get_ex_def)
  then show ?thesis using assms by (auto simp: add_missing_def get_ex_add)
qed

lemma add_missing_has: "is_object j \<Longrightarrow> \<exists>v. json_object_object_get_ex (add_missing key val j) key = Some v"
  by (auto simp: is_object_def add_missing_def get_ex_add)

lemma enrich_payload_eq:
  "fst (enrich_payload mac (JObject ms) s) =
     (let j1 = add_missing ''sn'' (JString (fst (get_device_sn s))) (JObject ms);
          j2 = (if \<not> string_is_empty mac then add_missing ''mac'' (JString (the mac)) j1 else j1)
      in add_missing ''time'' (JInt (time_now s)) j2)"
proof -
  let ?s1 = "if json_object_object_get_ex (JObject ms) ''sn'' = None then snd (get_device_sn s) else s"
  have 1: "(if json_object_object_get_ex (JObject ms) ''sn'' = None
      then (case get_device_sn s of (sn, s1) \<Rightarrow> (json_object_object_add (JObject ms) ''sn'' (JString sn), s1))
      else (JObject ms, s)) = (add_missing ''sn'' (JString (fst (get_device_sn s))) (JObject ms), ?s1)"
    by (cases "get_device_sn s") (simp add: add_missing_def)
  have "clock (snd (get_device_sn s)) = clock s" by (simp add: get_device_sn_def Let_def)
  then have 2: "time_now ?s1 = time_now s" by (simp add: time_now_def)
  show ?thesis unfolding enrich_payload_def 1 Let_def prod.case fst_conv 2 ..
qed

lemma enrich_payload_object: "is_object (fst (enrich_payload mac (JObject ms) s))"
proof -
  have "is_object (JObject ms)" by (simp add: is_object_def)
  then show ?thesis by (simp add: enrich_payload_eq Let_def add_missing_object)
qed

lemma enrich_payload_keeps:
  assumes "json_object_object_get_ex (JObject ms) k = Some v"
  shows "json_object_object_get_ex (fst (enrich_payload mac (JObject ms) s)) k = Some v"
  using assms by (simp add: enrich_payload_eq Let_def add_missing_keeps)

lemma enrich_payload_has:
  shows "\<exists>v. json_object_object_get_ex (fst (enrich_payload mac (JObject ms) s)) ''sn'' = Some v"
    and "\<exists>v. json_object_object_get_ex (fst (enrich_payload mac (JObject ms) s)) ''time'' = Some v"
proof -
  let ?j1 = "add_missing ''sn'' (JString (fst (get_device_sn s))) (JObject ms)"
  have o: "is_object ?j1" by (rule add_missing_object) (simp add: is_object_def)
  obtain v where "json_object_object_get_ex ?j1 ''sn'' = Some v"
    using add_missing_has [of "JObject ms"] by (auto simp: is_object_def)
  then show "\<exists>v. json_object_object_get_ex (fst (enrich_payload mac (JObject ms) s)) ''sn'' = Some v"
    by (auto simp: enrich_payload_eq Let_def intro: add_missing_keeps)
  show "\<exists>v. json_object_object_get_ex (fst (enrich_payload mac (JObject ms) s)) ''time'' = Some v"
    unfolding enrich_payload_eq Let_def using o by (intro add_missing_has) (simp add: add_missing_object)
qed

lemma enrich_payload_stable:
  assumes "json_object_object_get_ex j ''sn'' = Some v" and "json_object_object_get_ex j ''time'' = Some w"
  shows "enrich_payload None j s = (j, s)"
  using assms by (simp add: enrich_payload_def add_missing_def)

lemma member_add_same: "map_of ms key = Some val \<Longrightarrow> member_add ms key val = ms"
  by (induction ms key val rule: member_add.induct) (auto split: if_splits)

lemma object_add_same:
  "json_object_object_get_ex j key = Some val \<Longrightarrow> json_object_object_add j key val = j"
  by (cases j) (auto simp: json_object_object_get_ex_def json_object_object_add_def member_add_same)

lemma accepted_again:
  assumes "request_ok j" and "accepted mac j s = (text, j', s')"
  shows "request_ok j' \<and> the_topic j' = the_topic j \<and> the_qos j' = the_qos j \<and> the_priority j' = the_priority j \<and>
    accepted None j' s'' = (text, j', s'')"
proof -
  consider (str) u where "json_object_object_get_ex j ''payload'' = Some (JString u)" "takeWhile (\<lambda>c. c \<noteq> NUL) u \<noteq> []"
    | (obj) ms where "json_object_object_get_ex j ''payload'' = Some (JObject ms)"
    using assms(1) by (auto simp: request_ok_def)
  then show ?thesis
  proof cases
    case str
    then show ?thesis using assms by (auto simp: accepted_def)
  next
    case obj
    obtain top where top: "j = JObject top" using obj by (cases j) (auto simp: json_object_object_get_ex_def)
    obtain p where p: "enrich_payload mac (JObject ms) s = (p, s')" "text = json_object_to_json_string p"
        and j': "j' = json_object_object_add (JObject top) ''payload'' p"
      using assms(2) obj top by (auto simp: accepted_def split: prod.splits)
    obtain ms' where ms': "p = JObject ms'" using enrich_payload_object [of mac ms s] p(1) by (auto simp: is_object_def)
    have g: "json_object_object_get_ex j' k = (if k = ''payload'' then Some p else json_object_object_get_ex j k)" for k
      unfolding j' top by (rule get_ex_add)
    have st: "enrich_payload None p s'' = (p, s'')"
      using enrich_payload_has [of mac ms s] p(1) by (auto intro: enrich_payload_stable)
    have "json_object_object_add j' ''payload'' p = j'" by (rule object_add_same) (simp add: g)
    then have "accepted None j' s'' = (text, j', s'')"
      using st p(2) by (simp add: accepted_def g ms')
    moreover have "request_ok j'" using assms(1) by (auto simp: request_ok_def g ms')
    ultimately show ?thesis by (simp add: the_topic_def the_qos_def the_priority_def g)
  qed
qed

text \<open>A stored document that the tokener reads back is accepted again with the same content.\<close>

lemma stored_request_again:
  assumes "parse_mqtt_send_request_body tok body mac s = (SUCCESS, c, Some j', err, s1)"
    and "tok (json_object_to_json_string j') = Some j'"
  shows "\<exists>c'. parse_mqtt_send_request_body tok (json_object_to_json_string j') None s2 = (SUCCESS, c', Some j', '''', s2) \<and>
    topic c' = topic c \<and> payload c' = payload c \<and> qos c' = qos c \<and> cache_priority c' = cache_priority c"
proof -
  obtain j where j: "tok body = Some j" "request_ok j" using parse_rejects [of tok body mac s] assms(1) by auto
  obtain pl ja sa where a: "accepted mac j s = (pl, ja, sa)" by (metis prod.exhaust)
  obtain fm where c: "c = \<lparr>from_module = fm, topic = Some (the_topic j), payload = Some pl, qos = the_qos j,
       cache_priority = the_priority j\<rparr>" "ja = j'"
    using parse_result [where tok = tok and body = body, OF j a] assms(1) by auto
  note g = accepted_again [OF j(2) a, of s2]
  show ?thesis
    using parse_result [of tok "json_object_to_json_string j'" j' None s2 pl j' s2] assms(2) g c by auto
qed

section \<open>Properties\<close>

text \<open>
  C11: The request parser accepts exactly the bodies that are JSON documents with a non-empty
  text as topic and a non-empty text or an object as payload.
\<close>

theorem parse_accepts_iff:
  "fst (parse_mqtt_send_request_body tok body mac s) = SUCCESS \<longleftrightarrow> (\<exists>j. tok body = Some j \<and> request_ok j)"
  using parse_accepts parse_rejects by metis

text \<open>
  C12: For an object payload the parser only adds members: every member of the request is in the
  published payload with its value.
\<close>

theorem payload_only_gains:
  assumes "tok body = Some j" and "request_ok j" and "json_object_object_get_ex j ''payload'' = Some (JObject ms)"
    and "map_of ms k = Some v"
  shows "\<exists>c p s'. parse_mqtt_send_request_body tok body mac s =
      (SUCCESS, c, Some (json_object_object_add j ''payload'' p), '''', s') \<and>
    payload c = Some (json_object_to_json_string p) \<and> json_object_object_get_ex p k = Some v"
proof -
  obtain p s' where p: "enrich_payload mac (JObject ms) s = (p, s')" by (metis prod.exhaust)
  then have "accepted mac j s = (json_object_to_json_string p, json_object_object_add j ''payload'' p, s')"
    using assms(3) by (simp add: accepted_def)
  moreover have "json_object_object_get_ex p k = Some v"
    using enrich_payload_keeps [of ms k v mac s] assms(4) p by (simp add: json_object_object_get_ex_def)
  ultimately show ?thesis using parse_result [where tok = tok and body = body, OF assms(1,2)] by fastforce
qed

end
