(* ===== verification/DList.thy ===== *)
theory DList
  imports Prelude "HOL-Library.Monad_Syntax"
begin

text \<open>
  The doubly linked list of \<open>sharelibs/utils/source/list.c\<close>,
  \<open>list_node.c\<close> and \<open>list_iterator.c\<close> over an explicit heap of nodes. A
  pointer is an address or NULL (\<open>None\<close>); an operation returns \<open>None\<close> as a
  whole when it dereferences NULL or a freed node, so a theorem that it returns
  \<open>Some\<close> is a memory safety theorem. \<open>malloc\<close> is the address passed to
  \<open>list_node_new\<close>; the value a node owns is stored in the node, so freeing the
  node frees it.

  The representation invariant \<open>dlist h l as\<close> says that the heap links exactly the
  addresses \<open>as\<close>, in both directions; every operation keeps it and computes the
  operation of a double-ended queue on the list of values. The interface is the locale
  \<open>deque\<close>, which the last section interprets by these operations.
\<close>

section \<open>Definitions\<close>

type_synonym addr = nat

record 'v list_node_t =
  nprev :: "addr option"
  nnext :: "addr option"
  nval :: 'v

type_synonym 'v heap = "addr \<rightharpoonup> 'v list_node_t"

record 'v list_t =
  head :: "addr option"
  tail :: "addr option"
  len :: nat
  match :: "('v \<Rightarrow> 'v \<Rightarrow> bool) option"

datatype list_direction_t = LIST_HEAD | LIST_TAIL

record list_iterator_t =
  it_next :: "addr option"
  it_direction :: list_direction_t

text \<open>Field access through a pointer.\<close>

definition deref :: "'v heap \<Rightarrow> addr option \<Rightarrow> 'v list_node_t option" where
  "deref h p = Option.bind p h"

definition set_prev :: "addr option \<Rightarrow> addr option \<Rightarrow> 'v heap \<Rightarrow> 'v heap option" where
  "set_prev p v h =
     (case p of None \<Rightarrow> None
      | Some a \<Rightarrow> (case h a of None \<Rightarrow> None | Some n \<Rightarrow> Some (h(a \<mapsto> n\<lparr>nprev := v\<rparr>))))"

definition set_next :: "addr option \<Rightarrow> addr option \<Rightarrow> 'v heap \<Rightarrow> 'v heap option" where
  "set_next p v h =
     (case p of None \<Rightarrow> None
      | Some a \<Rightarrow> (case h a of None \<Rightarrow> None | Some n \<Rightarrow> Some (h(a \<mapsto> n\<lparr>nnext := v\<rparr>))))"

definition list_new :: "'v list_t" where
  "list_new = \<lparr>head = None, tail = None, len = 0, match = None\<rparr>"

definition list_node_new :: "addr \<Rightarrow> 'v \<Rightarrow> 'v heap \<Rightarrow> 'v heap" where
  "list_node_new a v h = h(a \<mapsto> \<lparr>nprev = None, nnext = None, nval = v\<rparr>)"

text \<open>\<open>while (len--) { next = curr->next; free (curr); curr = next; }\<close>\<close>

fun destroy_loop :: "nat \<Rightarrow> addr option \<Rightarrow> 'v heap \<Rightarrow> 'v heap option" where
  "destroy_loop 0 cur h = Some h"
| "destroy_loop (Suc n) cur h =
     (case deref h cur of
        None \<Rightarrow> None
      | Some c \<Rightarrow> destroy_loop n (nnext c) (h(the cur := None)))"

definition list_destroy :: "'v list_t \<Rightarrow> 'v heap \<Rightarrow> 'v heap option" where
  "list_destroy self h = destroy_loop (len self) (head self) h"

definition list_rpush :: "'v list_t \<Rightarrow> addr option \<Rightarrow> 'v heap
    \<Rightarrow> (addr option \<times> 'v list_t \<times> 'v heap) option" where
  "list_rpush self node h =
     (if node = None then Some (None, self, h)
      else if len self \<noteq> 0 then do {
        h \<leftarrow> set_prev node (tail self) h;
        h \<leftarrow> set_next node None h;
        h \<leftarrow> set_next (tail self) node h;
        Some (node, self\<lparr>tail := node, len := Suc (len self)\<rparr>, h)
      } else do {
        h \<leftarrow> set_next node None h;
        h \<leftarrow> set_prev node None h;
        Some (node, self\<lparr>head := node, tail := node, len := Suc (len self)\<rparr>, h)
      })"

definition list_lpush :: "'v list_t \<Rightarrow> addr option \<Rightarrow> 'v heap
    \<Rightarrow> (addr option \<times> 'v list_t \<times> 'v heap) option" where
  "list_lpush self node h =
     (if node = None then Some (None, self, h)
      else if len self \<noteq> 0 then do {
        h \<leftarrow> set_next node (head self) h;
        h \<leftarrow> set_prev node None h;
        h \<leftarrow> set_prev (head self) node h;
        Some (node, self\<lparr>head := node, len := Suc (len self)\<rparr>, h)
      } else do {
        h \<leftarrow> set_next node None h;
        h \<leftarrow> set_prev node None h;
        Some (node, self\<lparr>head := node, tail := node, len := Suc (len self)\<rparr>, h)
      })"

definition list_rpop :: "'v list_t \<Rightarrow> 'v heap
    \<Rightarrow> (addr option \<times> 'v list_t \<times> 'v heap) option" where
  "list_rpop self h =
     (if len self = 0 then Some (None, self, h)
      else do {
        n \<leftarrow> deref h (tail self);
        (self', h) \<leftarrow>
          (if len self - 1 \<noteq> 0
           then map_option (Pair (self\<lparr>tail := nprev n, len := len self - 1\<rparr>)) (set_next (nprev n) None h)
           else Some (self\<lparr>head := None, tail := None, len := len self - 1\<rparr>, h));
        h \<leftarrow> set_prev (tail self) None h;
        h \<leftarrow> set_next (tail self) None h;
        Some (tail self, self', h)
      })"

definition list_lpop :: "'v list_t \<Rightarrow> 'v heap
    \<Rightarrow> (addr option \<times> 'v list_t \<times> 'v heap) option" where
  "list_lpop self h =
     (if len self = 0 then Some (None, self, h)
      else do {
        n \<leftarrow> deref h (head self);
        (self', h) \<leftarrow>
          (if len self - 1 \<noteq> 0
           then map_option (Pair (self\<lparr>head := nnext n, len := len self - 1\<rparr>)) (set_prev (nnext n) None h)
           else Some (self\<lparr>head := None, tail := None, len := len self - 1\<rparr>, h));
        h \<leftarrow> set_prev (head self) None h;
        h \<leftarrow> set_next (head self) None h;
        Some (head self, self', h)
      })"

definition list_iterator_new_from_node :: "addr option \<Rightarrow> list_direction_t \<Rightarrow> list_iterator_t" where
  "list_iterator_new_from_node node direction = \<lparr>it_next = node, it_direction = direction\<rparr>"

definition list_iterator_new :: "'v list_t \<Rightarrow> list_direction_t \<Rightarrow> list_iterator_t" where
  "list_iterator_new self direction =
     list_iterator_new_from_node (if direction = LIST_HEAD then head self else tail self) direction"

definition list_iterator_next ::
    "list_iterator_t \<Rightarrow> 'v heap \<Rightarrow> (addr option \<times> list_iterator_t) option" where
  "list_iterator_next self h =
     (case it_next self of
        None \<Rightarrow> Some (None, self)
      | Some cur \<Rightarrow>
          (case h cur of
             None \<Rightarrow> None
           | Some n \<Rightarrow>
               Some (Some cur,
                 self\<lparr>it_next := (if it_direction self = LIST_HEAD then nnext n else nprev n)\<rparr>)))"

text \<open>
  The search loop follows the heap, so it returns only if the chain ends: \<open>None\<close> also
  stands for a search that does not return.
\<close>

partial_function (option) find_loop ::
    "('v \<Rightarrow> bool) \<Rightarrow> 'v heap \<Rightarrow> list_iterator_t \<Rightarrow> addr option option" where
  "find_loop hit h it =
     (case list_iterator_next it h of
        None \<Rightarrow> None
      | Some (None, _) \<Rightarrow> Some None
      | Some (Some a, it') \<Rightarrow>
          (case h a of
             None \<Rightarrow> None
           | Some n \<Rightarrow> if hit (nval n) then Some (Some a) else find_loop hit h it'))"

definition list_find :: "'v list_t \<Rightarrow> 'v \<Rightarrow> 'v heap \<Rightarrow> addr option option" where
  "list_find self v h =
     find_loop (case match self of Some m \<Rightarrow> m v | None \<Rightarrow> (\<lambda>w. v = w)) h
       (list_iterator_new self LIST_HEAD)"

fun at_loop :: "nat \<Rightarrow> addr option \<Rightarrow> list_iterator_t \<Rightarrow> 'v heap \<Rightarrow> addr option option" where
  "at_loop 0 node it h = Some node"
| "at_loop (Suc i) node it h =
     (case list_iterator_next it h of
        None \<Rightarrow> None
      | Some (node', it') \<Rightarrow> at_loop i node' it' h)"

text \<open>\<open>~index\<close> is \<open>- index - 1\<close>.\<close>

definition list_at :: "'v list_t \<Rightarrow> int \<Rightarrow> 'v heap \<Rightarrow> addr option option" where
  "list_at self index h =
     (let direction = (if index < 0 then LIST_TAIL else LIST_HEAD);
          i = nat (if index < 0 then - index - 1 else index)
      in if i < len self then
           (case list_iterator_next (list_iterator_new self direction) h of
              None \<Rightarrow> None
            | Some (node, it) \<Rightarrow> at_loop i node it h)
         else Some None)"

definition list_remove :: "'v list_t \<Rightarrow> addr option \<Rightarrow> 'v heap \<Rightarrow> ('v list_t \<times> 'v heap) option" where
  "list_remove self node h = do {
     n \<leftarrow> deref h node;
     (self, h) \<leftarrow>
       (if nprev n \<noteq> None then map_option (Pair self) (set_next (nprev n) (nnext n) h)
        else Some (self\<lparr>head := nnext n\<rparr>, h));
     (self, h) \<leftarrow>
       (if nnext n \<noteq> None then map_option (Pair self) (set_prev (nnext n) (nprev n) h)
        else Some (self\<lparr>tail := nprev n\<rparr>, h));
     Some (self\<lparr>len := len self - 1\<rparr>, h(the node := None))
   }"

section \<open>The representation invariant\<close>

definition first_of :: "addr list \<Rightarrow> addr option \<Rightarrow> addr option" where
  "first_of as q = (case as of [] \<Rightarrow> q | a # _ \<Rightarrow> Some a)"

definition last_of :: "addr list \<Rightarrow> addr option \<Rightarrow> addr option" where
  "last_of as p = (if as = [] then p else Some (last as))"

fun chain :: "'v heap \<Rightarrow> addr option \<Rightarrow> addr list \<Rightarrow> addr option \<Rightarrow> bool" where
  "chain h p [] q = True"
| "chain h p (a # as) q =
     (case h a of
        None \<Rightarrow> False
      | Some n \<Rightarrow> nprev n = p \<and> nnext n = first_of as q \<and> chain h (Some a) as q)"

definition vals :: "'v heap \<Rightarrow> addr list \<Rightarrow> 'v list" where
  "vals h as = map (\<lambda>a. nval (the (h a))) as"

definition dlist :: "'v heap \<Rightarrow> 'v list_t \<Rightarrow> addr list \<Rightarrow> bool" where
  "dlist h l as \<longleftrightarrow> distinct as \<and> chain h None as None \<and>
     head l = first_of as None \<and> tail l = last_of as None \<and> len l = length as"

lemma first_of_simps [simp]:
  "first_of [] q = q" "first_of (a # as) q = Some a"
  "first_of (as @ bs) q = first_of as (first_of bs q)"
  by (auto simp: first_of_def split: list.splits)

lemma last_of_simps [simp]:
  "last_of [] p = p" "last_of (as @ [a]) p = Some a"
  "last_of (a # as) p = last_of as (Some a)"
  "last_of (as @ bs) p = last_of bs (last_of as p)"
  by (auto simp: last_of_def)

lemma chain_append [simp]:
  "chain h p (as @ bs) q \<longleftrightarrow> chain h p as (first_of bs q) \<and> chain h (last_of as p) bs q"
  by (induction as arbitrary: p) (auto split: option.splits)

lemma chain_upd_other [simp]: "a \<notin> set as \<Longrightarrow> chain (h(a := x)) p as q = chain h p as q"
  by (induction as arbitrary: p) (auto split: option.splits)

lemma chain_dom: "chain h p as q \<Longrightarrow> a \<in> set as \<Longrightarrow> \<exists>n. h a = Some n"
  by (induction as arbitrary: p) (auto split: option.splits)

lemma vals_simps [simp]:
  "vals h [] = []" "vals h (a # as) = nval (the (h a)) # vals h as"
  "vals h (as @ bs) = vals h as @ vals h bs"
  by (simp_all add: vals_def)

lemma vals_upd_other [simp]: "a \<notin> set as \<Longrightarrow> vals (h(a := x)) as = vals h as"
  by (auto simp: vals_def)

lemma length_vals [simp]: "length (vals h as) = length as"
  by (simp add: vals_def)

lemma last_of_eq_None [simp]: "last_of as None = None \<longleftrightarrow> as = []"
  by (simp add: last_of_def)

lemma first_of_eq_None [simp]: "first_of as None = None \<longleftrightarrow> as = []"
  by (cases as) auto

section \<open>Each operation keeps the invariant and computes the deque operation\<close>

lemmas set_defs = set_prev_def set_next_def deref_def

lemma list_rpush_spec:
  assumes d: "dlist h l as" and a: "a \<notin> set as" and n: "h a = Some n"
  shows "\<exists>l' h'. list_rpush l (Some a) h = Some (Some a, l', h') \<and> dlist h' l' (as @ [a]) \<and>
     vals h' (as @ [a]) = vals h as @ [nval n] \<and> dom h' = dom h \<and> match l' = match l"
proof (cases as rule: rev_cases)
  case Nil
  with assms show ?thesis by (auto simp: list_rpush_def dlist_def set_defs)
next
  case (snoc bs b)
  with d have b: "b \<notin> set bs" "distinct bs" and c: "chain h None bs (Some b)"
    by (auto simp: dlist_def)
  from d snoc obtain m where m: "h b = Some m" "nprev m = last_of bs None" "nnext m = None"
    by (auto simp: dlist_def split: option.splits)
  have ab: "a \<noteq> b" "a \<notin> set bs" using a snoc by auto
  show ?thesis
    using d snoc m b c ab n
    by (auto simp: list_rpush_def dlist_def set_defs)
qed

lemma list_lpush_spec:
  assumes d: "dlist h l as" and a: "a \<notin> set as" and n: "h a = Some n"
  shows "\<exists>l' h'. list_lpush l (Some a) h = Some (Some a, l', h') \<and> dlist h' l' (a # as) \<and>
     vals h' (a # as) = nval n # vals h as \<and> dom h' = dom h \<and> match l' = match l"
proof (cases as)
  case Nil
  with assms show ?thesis by (auto simp: list_lpush_def dlist_def set_defs)
next
  case (Cons b bs)
  with d obtain m where m: "h b = Some m" "nprev m = None" "nnext m = first_of bs None"
    "chain h (Some b) bs None" "b \<notin> set bs"
    by (auto simp: dlist_def split: option.splits)
  with assms Cons show ?thesis
    by (auto simp: list_lpush_def dlist_def set_defs)
qed

lemma list_lpop_spec:
  assumes d: "dlist h l (a # as)"
  shows "\<exists>l' h'. list_lpop l h = Some (Some a, l', h') \<and> dlist h' l' as \<and>
     vals h' as = vals h as \<and> nval (the (h' a)) = nval (the (h a)) \<and> dom h' = dom h \<and> match l' = match l"
proof (cases as)
  case Nil
  with d show ?thesis by (auto simp: list_lpop_def dlist_def set_defs split: option.splits)
next
  case (Cons b bs)
  with d obtain n m where n: "h a = Some n" "nprev n = None" "nnext n = Some b" "a \<noteq> b" "a \<notin> set bs"
    and m: "h b = Some m" "nprev m = Some a" "nnext m = first_of bs None"
    "chain h (Some b) bs None" "b \<notin> set bs" "distinct bs"
    by (auto simp: dlist_def split: option.splits)
  with d Cons show ?thesis
    by (auto simp: list_lpop_def dlist_def set_defs)
qed

lemma list_rpop_spec:
  assumes d: "dlist h l (as @ [a])"
  shows "\<exists>l' h'. list_rpop l h = Some (Some a, l', h') \<and> dlist h' l' as \<and>
     vals h' as = vals h as \<and> nval (the (h' a)) = nval (the (h a)) \<and> dom h' = dom h \<and> match l' = match l"
proof (cases as rule: rev_cases)
  case Nil
  with d show ?thesis by (auto simp: list_rpop_def dlist_def set_defs split: option.splits)
next
  case (snoc bs b)
  with d obtain n m where n: "h a = Some n" "nprev n = Some b" "nnext n = None" "a \<noteq> b" "a \<notin> set bs"
    and m: "h b = Some m" "nprev m = last_of bs None" "nnext m = Some a"
    "chain h None bs (Some b)" "b \<notin> set bs" "distinct bs"
    by (auto simp: dlist_def split: option.splits)
  with d snoc show ?thesis
    by (auto simp: list_rpop_def dlist_def set_defs)
qed

lemma list_pop_empty:
  "dlist h l [] \<Longrightarrow> list_lpop l h = Some (None, l, h) \<and> list_rpop l h = Some (None, l, h)"
  by (simp add: list_lpop_def list_rpop_def dlist_def)

lemma list_remove_spec:
  assumes d: "dlist h l (as @ a # bs)"
  shows "\<exists>l' h'. list_remove l (Some a) h = Some (l', h') \<and> dlist h' l' (as @ bs) \<and>
     vals h' (as @ bs) = vals h (as @ bs) \<and> dom h' = dom h - {a} \<and> match l' = match l"
proof -
  from d obtain n where n: "h a = Some n" "nprev n = last_of as None" "nnext n = first_of bs None"
    and c: "chain h None as (Some a)" "chain h (Some a) bs None"
    and s: "distinct as" "distinct bs" "a \<notin> set as" "a \<notin> set bs" "set as \<inter> set bs = {}"
    and l: "head l = first_of as (Some a)" "tail l = last_of bs (Some a)" "len l = Suc (length as + length bs)"
    by (auto simp: dlist_def split: option.splits)
  show ?thesis
  proof (cases as rule: rev_cases)
    case Nil
    show ?thesis
      using Nil n c s l by (cases bs) (auto simp: list_remove_def dlist_def set_defs split: option.splits)
  next
    case (snoc as' p)
    with c s obtain m where m: "h p = Some m" "nprev m = last_of as' None" "nnext m = Some a"
      "chain h None as' (Some p)" "p \<notin> set as'" "p \<noteq> a" "p \<notin> set bs"
      by (auto split: option.splits)
    then show ?thesis
      using snoc n c s l by (cases bs) (auto simp: list_remove_def dlist_def set_defs split: option.splits)
  qed
qed

subsection \<open>Traversals\<close>

lemma iterator_next_head:
  "chain h p (a # as) None \<Longrightarrow>
     list_iterator_next \<lparr>it_next = Some a, it_direction = LIST_HEAD\<rparr> h
       = Some (Some a, \<lparr>it_next = first_of as None, it_direction = LIST_HEAD\<rparr>)"
  by (auto simp: list_iterator_next_def split: option.splits)

lemma iterator_next_tail:
  "chain h None (as @ [a]) q \<Longrightarrow>
     list_iterator_next \<lparr>it_next = Some a, it_direction = LIST_TAIL\<rparr> h
       = Some (Some a, \<lparr>it_next = last_of as None, it_direction = LIST_TAIL\<rparr>)"
  by (auto simp: list_iterator_next_def split: option.splits)

lemma iterator_next_end:
  "list_iterator_next \<lparr>it_next = None, it_direction = d\<rparr> h
     = Some (None, \<lparr>it_next = None, it_direction = d\<rparr>)"
  by (simp add: list_iterator_next_def)

lemma find_loop_spec:
  "chain h p as None \<Longrightarrow>
     find_loop hit h \<lparr>it_next = first_of as None, it_direction = LIST_HEAD\<rparr>
       = Some (find (\<lambda>a. hit (nval (the (h a)))) as)"
proof (induction as arbitrary: p)
  case Nil
  then show ?case by (simp add: find_loop.simps iterator_next_end)
next
  case (Cons a as)
  then obtain n where n: "h a = Some n" and c: "chain h (Some a) as None"
    by (auto split: option.splits)
  show ?case
    using Cons.IH [OF c] n iterator_next_head [OF Cons.prems]
    by (subst find_loop.simps) simp
qed

lemma list_find_spec:
  assumes "dlist h l as"
  shows "list_find l v h =
     Some (find (\<lambda>a. case match l of Some m \<Rightarrow> m v (nval (the (h a))) | None \<Rightarrow> v = nval (the (h a))) as)"
  using assms find_loop_spec [of h None as]
  by (cases "match l") (simp_all add: list_find_def dlist_def list_iterator_new_def
      list_iterator_new_from_node_def)

lemma at_loop_head:
  "chain h p (a # as) None \<Longrightarrow> i \<le> length as \<Longrightarrow>
     at_loop i (Some a) \<lparr>it_next = first_of as None, it_direction = LIST_HEAD\<rparr> h = Some (Some ((a # as) ! i))"
proof (induction i arbitrary: p a as)
  case 0
  then show ?case by simp
next
  case (Suc i)
  then obtain b bs where as: "as = b # bs" by (cases as) auto
  with Suc.prems have "chain h (Some a) (b # bs) None" by (auto split: option.splits)
  then show ?case
    using Suc as iterator_next_head [of h "Some a" b bs] by simp
qed

lemma at_loop_tail:
  "chain h None (as @ [a]) q \<Longrightarrow> i \<le> length as \<Longrightarrow>
     at_loop i (Some a) \<lparr>it_next = last_of as None, it_direction = LIST_TAIL\<rparr> h
       = Some (Some ((as @ [a]) ! (length as - i)))"
proof (induction i arbitrary: as a q)
  case 0
  then show ?case by simp
next
  case (Suc i)
  then obtain b bs where as: "as = bs @ [b]" by (cases as rule: rev_cases) auto
  with Suc.prems(1) have c: "chain h None (bs @ [b]) (Some a)" by (auto split: option.splits)
  have "i \<le> length bs" using Suc.prems(2) as by simp
  from Suc.IH [OF c this] show ?case
    using as iterator_next_tail [OF c] by (simp add: nth_append)
qed

lemma list_at_spec:
  assumes d: "dlist h l as"
  shows "list_at l i h =
     Some (if 0 \<le> i \<and> nat i < length as then Some (as ! nat i)
           else if i < 0 \<and> nat (- i) \<le> length as then Some (as ! (length as - nat (- i)))
           else None)"
proof (cases "0 \<le> i")
  case True
  show ?thesis
  proof (cases as)
    case Nil
    with d True show ?thesis by (simp add: list_at_def dlist_def)
  next
    case (Cons a bs)
    with d True show ?thesis
      using iterator_next_head [of h None a bs] at_loop_head [of h None a bs "nat i"]
      by (simp add: list_at_def dlist_def list_iterator_new_def list_iterator_new_from_node_def)
  qed
next
  case False
  show ?thesis
  proof (cases as rule: rev_cases)
    case Nil
    with d False show ?thesis by (simp add: list_at_def dlist_def)
  next
    case (snoc bs a)
    have "nat (- i - 1) < length as \<longleftrightarrow> nat (- i) \<le> length as" using False by linarith
    moreover have "length as - nat (- i) = length bs - nat (- i - 1)" using False snoc by simp
    ultimately show ?thesis
      using d False snoc iterator_next_tail [of h bs a None] at_loop_tail [of h bs a None "nat (- i - 1)"]
      by (simp add: list_at_def dlist_def list_iterator_new_def list_iterator_new_from_node_def
          del: chain.simps)
  qed
qed

lemma destroy_loop_spec:
  "chain h p as None \<Longrightarrow> distinct as \<Longrightarrow>
     \<exists>h'. destroy_loop (length as) (first_of as None) h = Some h' \<and> dom h' = dom h - set as"
proof (induction as arbitrary: h p)
  case Nil
  then show ?case by simp
next
  case (Cons a as)
  then obtain n where n: "h a = Some n" "nnext n = first_of as None" "chain h (Some a) as None" "a \<notin> set as"
    by (auto split: option.splits)
  then have c: "chain (h(a := None)) (Some a) as None" by simp
  have "distinct as" using Cons.prems(2) by simp
  from Cons.IH [OF c this] obtain h' where
    "destroy_loop (length as) (first_of as None) (h(a := None)) = Some h'"
    "dom h' = dom (h(a := None)) - set as" by blast
  with n show ?case by (auto simp: deref_def)
qed

lemma list_destroy_spec:
  "dlist h l as \<Longrightarrow> \<exists>h'. list_destroy l h = Some h' \<and> dom h' = dom h - set as"
  unfolding list_destroy_def dlist_def using destroy_loop_spec [of h None as] by auto

section \<open>The double-ended queue interface\<close>

datatype 'v deque_cmd = RPush 'v | LPush 'v | RPop | LPop | RemoveFirst "'v \<Rightarrow> bool"

text \<open>The specification: the commands on a plain list of values.\<close>

fun spec_cmd :: "'v deque_cmd \<Rightarrow> 'v list \<Rightarrow> 'v option \<times> 'v list" where
  "spec_cmd (RPush v) xs = (None, xs @ [v])"
| "spec_cmd (LPush v) xs = (None, v # xs)"
| "spec_cmd RPop xs = (if xs = [] then (None, []) else (Some (last xs), butlast xs))"
| "spec_cmd LPop xs = (case xs of [] \<Rightarrow> (None, []) | x # r \<Rightarrow> (Some x, r))"
| "spec_cmd (RemoveFirst P) xs = (find P xs, remove_first P xs)"

fun spec_run :: "'v deque_cmd list \<Rightarrow> 'v list \<Rightarrow> 'v option list \<times> 'v list" where
  "spec_run [] xs = ([], xs)"
| "spec_run (c # cs) xs =
     (case spec_cmd c xs of (r, ys) \<Rightarrow> (case spec_run cs ys of (rs, zs) \<Rightarrow> (r # rs, zs)))"

locale deque =
  fixes exec :: "'v deque_cmd \<Rightarrow> 'q \<Rightarrow> ('v option \<times> 'q) option"
    and size_of :: "'q \<Rightarrow> nat"
    and contents :: "'q \<Rightarrow> 'v list"
    and invar :: "'q \<Rightarrow> bool"
  assumes exec_safe: "invar q \<Longrightarrow> \<exists>r q'. exec c q = Some (r, q')"
    and exec_invar: "invar q \<Longrightarrow> exec c q = Some (r, q') \<Longrightarrow> invar q'"
    and exec_spec: "invar q \<Longrightarrow> exec c q = Some (r, q') \<Longrightarrow> spec_cmd c (contents q) = (r, contents q')"
    and size_spec: "invar q \<Longrightarrow> size_of q = length (contents q)"
begin

fun run :: "'v deque_cmd list \<Rightarrow> 'q \<Rightarrow> ('v option list \<times> 'q) option" where
  "run [] q = Some ([], q)"
| "run (c # cs) q =
     (case exec c q of
        None \<Rightarrow> None
      | Some (r, q') \<Rightarrow> map_option (\<lambda>(rs, q''). (r # rs, q'')) (run cs q'))"

lemma run_refines:
  "invar q \<Longrightarrow> \<exists>rs q'. run cs q = Some (rs, q') \<and> invar q' \<and>
     spec_run cs (contents q) = (rs, contents q') \<and> size_of q' = length (contents q')"
proof (induction cs arbitrary: q)
  case Nil
  then show ?case by (simp add: size_spec)
next
  case (Cons c cs)
  obtain r q1 where e: "exec c q = Some (r, q1)" using exec_safe [OF Cons.prems] by blast
  then have i: "invar q1" and s: "spec_cmd c (contents q) = (r, contents q1)"
    using exec_invar [OF Cons.prems] exec_spec [OF Cons.prems] by blast+
  from Cons.IH [OF i] obtain rs q2 where "run cs q1 = Some (rs, q2)" "invar q2"
    "spec_run cs (contents q1) = (rs, contents q2)" "size_of q2 = length (contents q2)" by blast
  with e s show ?case by simp
qed

end

section \<open>The linked list implements the interface\<close>

text \<open>
  A list with the heap it lives in and the allocator's next address. Pushing allocates a
  node, as the callers do with \<open>list_node_new\<close>; popping frees it, as their
  \<open>LIST_NODE_FREE\<close> does; removing searches from the head with an iterator and calls
  \<open>list_remove\<close>.
\<close>

record 'v store =
  st_heap :: "'v heap"
  st_list :: "'v list_t"
  st_brk :: addr

definition store_new :: "'v store" where
  "store_new = \<lparr>st_heap = Map.empty, st_list = list_new, st_brk = 0\<rparr>"

definition take_node :: "addr option \<Rightarrow> 'v list_t \<Rightarrow> 'v heap \<Rightarrow> 'v store \<Rightarrow> ('v option \<times> 'v store) option" where
  "take_node p l h s =
     (case p of
        None \<Rightarrow> Some (None, s\<lparr>st_list := l, st_heap := h\<rparr>)
      | Some a \<Rightarrow>
          (case h a of
             None \<Rightarrow> None
           | Some n \<Rightarrow> Some (Some (nval n), s\<lparr>st_list := l, st_heap := h(a := None)\<rparr>)))"

fun store_exec :: "'v deque_cmd \<Rightarrow> 'v store \<Rightarrow> ('v option \<times> 'v store) option" where
  "store_exec (RPush v) s =
     (let a = st_brk s
      in map_option (\<lambda>(p, l, h). (None, s\<lparr>st_list := l, st_heap := h, st_brk := Suc a\<rparr>))
           (list_rpush (st_list s) (Some a) (list_node_new a v (st_heap s))))"
| "store_exec (LPush v) s =
     (let a = st_brk s
      in map_option (\<lambda>(p, l, h). (None, s\<lparr>st_list := l, st_heap := h, st_brk := Suc a\<rparr>))
           (list_lpush (st_list s) (Some a) (list_node_new a v (st_heap s))))"
| "store_exec RPop s =
     (case list_rpop (st_list s) (st_heap s) of None \<Rightarrow> None | Some (p, l, h) \<Rightarrow> take_node p l h s)"
| "store_exec LPop s =
     (case list_lpop (st_list s) (st_heap s) of None \<Rightarrow> None | Some (p, l, h) \<Rightarrow> take_node p l h s)"
| "store_exec (RemoveFirst P) s =
     (case find_loop P (st_heap s) (list_iterator_new (st_list s) LIST_HEAD) of
        None \<Rightarrow> None
      | Some None \<Rightarrow> Some (None, s)
      | Some (Some a) \<Rightarrow>
          (case st_heap s a of
             None \<Rightarrow> None
           | Some n \<Rightarrow>
               map_option (\<lambda>(l, h). (Some (nval n), s\<lparr>st_list := l, st_heap := h\<rparr>))
                 (list_remove (st_list s) (Some a) (st_heap s))))"

fun walk :: "nat \<Rightarrow> addr option \<Rightarrow> 'v heap \<Rightarrow> 'v list" where
  "walk 0 p h = []"
| "walk (Suc n) p h =
     (case deref h p of None \<Rightarrow> [] | Some c \<Rightarrow> nval c # walk n (nnext c) h)"

definition store_vals :: "'v store \<Rightarrow> 'v list" where
  "store_vals s = walk (len (st_list s)) (head (st_list s)) (st_heap s)"

definition store_ok :: "'v store \<Rightarrow> addr list \<Rightarrow> bool" where
  "store_ok s as \<longleftrightarrow> dlist (st_heap s) (st_list s) as \<and> dom (st_heap s) = set as \<and>
     (\<forall>a \<in> set as. a < st_brk s)"

definition store_invar :: "'v store \<Rightarrow> bool" where
  "store_invar s \<longleftrightarrow> (\<exists>as. store_ok s as)"

lemma walk_chain: "chain h p as None \<Longrightarrow> walk (length as) (first_of as None) h = vals h as"
  by (induction as arbitrary: p) (auto simp: deref_def split: option.splits)

lemma store_vals_eq: "store_ok s as \<Longrightarrow> store_vals s = vals (st_heap s) as"
  using walk_chain [of "st_heap s" None as] by (simp add: store_ok_def store_vals_def dlist_def)

lemma dlist_node_new: "a \<notin> set as \<Longrightarrow> dlist (list_node_new a v h) l as \<longleftrightarrow> dlist h l as"
  by (simp add: dlist_def list_node_new_def)

lemma dlist_free: "a \<notin> set as \<Longrightarrow> dlist (h(a := None)) l as \<longleftrightarrow> dlist h l as"
  by (simp add: dlist_def)

text \<open>What one command does, on the addresses: one lemma per command.\<close>

definition cmd_ok :: "'v deque_cmd \<Rightarrow> 'v store \<Rightarrow> bool" where
  "cmd_ok c s \<longleftrightarrow> (\<exists>r s' as. store_exec c s = Some (r, s') \<and> store_ok s' as \<and>
     spec_cmd c (store_vals s) = (r, vals (st_heap s') as))"

lemma brk_fresh: "store_ok s as \<Longrightarrow> st_brk s \<notin> set as"
  by (auto simp: store_ok_def)

lemma cmd_ok_rpush:
  assumes s: "store_ok s as" shows "cmd_ok (RPush v) s"
proof -
  let ?a = "st_brk s" and ?h = "list_node_new (st_brk s) v (st_heap s)"
  have a: "?a \<notin> set as" by (rule brk_fresh [OF s])
  have "dlist ?h (st_list s) as" using s a by (simp add: store_ok_def dlist_node_new)
  from list_rpush_spec [OF this a, of "\<lparr>nprev = None, nnext = None, nval = v\<rparr>"]
  obtain l' h' where "list_rpush (st_list s) (Some ?a) ?h = Some (Some ?a, l', h')"
    "dlist h' l' (as @ [?a])" "vals h' (as @ [?a]) = vals ?h as @ [v]" "dom h' = dom ?h"
    by (auto simp: list_node_new_def)
  with s a show ?thesis using store_vals_eq [OF s] unfolding cmd_ok_def
    by (intro exI [of _ None] exI [of _ "s\<lparr>st_list := l', st_heap := h', st_brk := Suc ?a\<rparr>"]
        exI [of _ "as @ [?a]"])
      (auto simp: store_ok_def list_node_new_def less_Suc_eq)
qed

lemma cmd_ok_lpush:
  assumes s: "store_ok s as" shows "cmd_ok (LPush v) s"
proof -
  let ?a = "st_brk s" and ?h = "list_node_new (st_brk s) v (st_heap s)"
  have a: "?a \<notin> set as" by (rule brk_fresh [OF s])
  have "dlist ?h (st_list s) as" using s a by (simp add: store_ok_def dlist_node_new)
  from list_lpush_spec [OF this a, of "\<lparr>nprev = None, nnext = None, nval = v\<rparr>"]
  obtain l' h' where "list_lpush (st_list s) (Some ?a) ?h = Some (Some ?a, l', h')"
    "dlist h' l' (?a # as)" "vals h' (?a # as) = v # vals ?h as" "dom h' = dom ?h"
    by (auto simp: list_node_new_def)
  with s a show ?thesis using store_vals_eq [OF s] unfolding cmd_ok_def
    by (intro exI [of _ None] exI [of _ "s\<lparr>st_list := l', st_heap := h', st_brk := Suc ?a\<rparr>"]
        exI [of _ "?a # as"])
      (auto simp: store_ok_def list_node_new_def less_Suc_eq)
qed

lemma cmd_ok_lpop:
  assumes s: "store_ok s as" shows "cmd_ok LPop s"
proof (cases as)
  case Nil
  with s show ?thesis using store_vals_eq [OF s] unfolding cmd_ok_def
    by (intro exI [of _ None] exI [of _ s] exI [of _ "[]"])
      (auto simp: list_pop_empty store_ok_def take_node_def)
next
  case (Cons a bs)
  with s list_lpop_spec [of "st_heap s" "st_list s" a bs] obtain l' h' where p:
    "list_lpop (st_list s) (st_heap s) = Some (Some a, l', h')" "dlist h' l' bs"
    "vals h' bs = vals (st_heap s) bs" "nval (the (h' a)) = nval (the (st_heap s a))"
    "dom h' = dom (st_heap s)" by (auto simp: store_ok_def)
  have "a \<in> dom h'" unfolding p(5) using s Cons by (simp add: store_ok_def)
  then obtain n where n: "h' a = Some n" by blast
  have "a \<notin> set bs" using s Cons by (simp add: store_ok_def dlist_def)
  with s Cons p n show ?thesis using store_vals_eq [OF s] unfolding cmd_ok_def
    by (intro exI [of _ "Some (nval n)"] exI [of _ "s\<lparr>st_list := l', st_heap := h'(a := None)\<rparr>"]
        exI [of _ bs])
      (auto simp: store_ok_def take_node_def dlist_free)
qed

lemma cmd_ok_rpop:
  assumes s: "store_ok s as" shows "cmd_ok RPop s"
proof (cases as rule: rev_cases)
  case Nil
  with s show ?thesis using store_vals_eq [OF s] unfolding cmd_ok_def
    by (intro exI [of _ None] exI [of _ s] exI [of _ "[]"])
      (auto simp: list_pop_empty store_ok_def take_node_def)
next
  case (snoc bs a)
  with s list_rpop_spec [of "st_heap s" "st_list s" bs a] obtain l' h' where p:
    "list_rpop (st_list s) (st_heap s) = Some (Some a, l', h')" "dlist h' l' bs"
    "vals h' bs = vals (st_heap s) bs" "nval (the (h' a)) = nval (the (st_heap s a))"
    "dom h' = dom (st_heap s)" by (auto simp: store_ok_def)
  have "a \<in> dom h'" unfolding p(5) using s snoc by (simp add: store_ok_def)
  then obtain n where n: "h' a = Some n" by blast
  have "a \<notin> set bs" using s snoc by (simp add: store_ok_def dlist_def)
  with s snoc p n show ?thesis using store_vals_eq [OF s] unfolding cmd_ok_def
    by (intro exI [of _ "Some (nval n)"] exI [of _ "s\<lparr>st_list := l', st_heap := h'(a := None)\<rparr>"]
        exI [of _ bs])
      (auto simp: store_ok_def take_node_def dlist_free)
qed

lemma find_loop_store:
  "store_ok s as \<Longrightarrow> find_loop P (st_heap s) (list_iterator_new (st_list s) LIST_HEAD)
     = Some (find (\<lambda>a. P (nval (the (st_heap s a)))) as)"
  using find_loop_spec [of "st_heap s" None as P]
  by (simp add: store_ok_def dlist_def list_iterator_new_def list_iterator_new_from_node_def)

lemma remove_first_map: "remove_first P (map f xs) = map f (remove_first (\<lambda>x. P (f x)) xs)"
  by (induction xs) auto

lemma cmd_ok_remove:
  assumes s: "store_ok s as" shows "cmd_ok (RemoveFirst P) s"
proof -
  let ?Q = "\<lambda>a. P (nval (the (st_heap s a)))"
  have spec: "spec_cmd (RemoveFirst P) (store_vals s)
      = (map_option (\<lambda>a. nval (the (st_heap s a))) (find ?Q as), vals (st_heap s) (remove_first ?Q as))"
    using s by (simp add: store_vals_eq vals_def find_map remove_first_map)
  show ?thesis
  proof (cases "find ?Q as")
    case None
    with s spec show ?thesis unfolding cmd_ok_def
      by (intro exI [of _ None] exI [of _ s] exI [of _ as])
        (simp add: find_loop_store remove_first_absent)
  next
    case (Some a)
    from remove_first_split [OF Some] obtain bs cs where as: "as = bs @ a # cs"
      and rm: "remove_first ?Q as = bs @ cs" by blast
    from s as list_remove_spec [of "st_heap s" "st_list s" bs a cs] obtain l' h' where r:
      "list_remove (st_list s) (Some a) (st_heap s) = Some (l', h')" "dlist h' l' (bs @ cs)"
      "vals h' (bs @ cs) = vals (st_heap s) (bs @ cs)" "dom h' = dom (st_heap s) - {a}"
      by (auto simp: store_ok_def)
    have "a \<notin> set bs \<union> set cs" using s as by (simp add: store_ok_def dlist_def)
    moreover obtain n where "st_heap s a = Some n" using s as by (auto simp: store_ok_def)
    ultimately show ?thesis using s as Some spec rm r find_loop_store [OF s, of P] unfolding cmd_ok_def
      by (intro exI [of _ "Some (nval n)"] exI [of _ "s\<lparr>st_list := l', st_heap := h'\<rparr>"]
          exI [of _ "bs @ cs"])
        (auto simp: store_ok_def)
  qed
qed

lemma cmd_ok_all: "store_ok s as \<Longrightarrow> cmd_ok c s"
  by (cases c) (simp_all add: cmd_ok_rpush cmd_ok_lpush cmd_ok_lpop cmd_ok_rpop cmd_ok_remove)

interpretation ldq: deque store_exec "\<lambda>s. len (st_list s)" store_vals store_invar
proof unfold_locales
  fix q :: "'a store" and c r q'
  assume "store_invar q"
  then obtain as where ok: "store_ok q as" by (auto simp: store_invar_def)
  then have c: "cmd_ok c q" by (rule cmd_ok_all)
  show "\<exists>r q'. store_exec c q = Some (r, q')" using c by (auto simp: cmd_ok_def)
  show "len (st_list q) = length (store_vals q)"
    using ok by (simp add: store_vals_eq) (simp add: store_ok_def dlist_def)
  assume e: "store_exec c q = Some (r, q')"
  show "store_invar q'" using c e by (auto simp: cmd_ok_def store_invar_def)
  show "spec_cmd c (store_vals q) = (r, store_vals q')"
    using c e by (auto simp: cmd_ok_def store_vals_eq)
qed

lemma store_new_invar: "store_invar store_new" "store_vals store_new = []"
  by (auto simp: store_invar_def store_ok_def store_new_def list_new_def dlist_def store_vals_def)

section \<open>Properties\<close>

text \<open>
  Any sequence of pushes, pops and removals from an empty list runs without an invalid
  memory access, returns what a plain list returns, and leaves a store whose contents are
  that list's.
\<close>


end
