(* ===== verification/OfflineCache.thy ===== *)
theory OfflineCache
  imports SendParser DList "HOL-Library.Multiset"
begin

text \<open>
  The offline message cache of \<open>hub-app/source/offlinemsgcache.c\<close>: a bounded queue of
  headers (priority, timestamp) in memory and one file per message on disk.
  \<open>g_list\<close> is the doubly linked list of theory \<open>DList\<close>, which refines a deque;
  here it is that deque, \<open>None\<close> before \<open>init_list\<close>.

  Results are \<open>None\<close> when the code dereferences NULL or never returns: the eviction
  loop and the sender's loop are \<open>partial_function\<close>s. Sections of code between two
  lock operations of \<open>g_list_mutex\<close> are separate definitions
  (\<open>cache_admit\<close> and \<open>cache_push\<close>, \<open>send_pop\<close> and \<open>send_finish\<close>),
  composed into the functions of the source and, in \<open>cache_step\<close>, interleaved.
\<close>

section \<open>Definitions\<close>

record cache_file_header =
  h_priority :: int
  h_timestamp :: int

record cache_state = mqtt_state +
  g_list :: "cache_file_header list option"
  g_cacheCapacity :: int
  g_isAsyncSending :: bool
  g_cacheRootPath :: string

definition CACHE_FILE_SUFFIX :: string where "CACHE_FILE_SUFFIX = ''.cache''"

definition list_len :: "'a cache_state_scheme \<Rightarrow> int" where
  "list_len s = (case g_list s of None \<Rightarrow> 0 | Some hs \<Rightarrow> int (length hs))"

definition set_offline_cache_capacity :: "int \<Rightarrow> 'a cache_state_scheme \<Rightarrow> 'a cache_state_scheme" where
  "set_offline_cache_capacity capacity s = s\<lparr>g_cacheCapacity := capacity\<rparr>"

definition get_offline_cache_capacity :: "'a cache_state_scheme \<Rightarrow> int" where
  "get_offline_cache_capacity s = g_cacheCapacity s"

definition offline_messages_count :: "'a cache_state_scheme \<Rightarrow> int" where
  "offline_messages_count s = list_len s"

definition init_list :: "'a cache_state_scheme \<Rightarrow> int \<times> 'a cache_state_scheme" where
  "init_list s = (if g_list s \<noteq> None then (SUCCESS, s) else (SUCCESS, s\<lparr>g_list := Some []\<rparr>))"

definition is_queue_full :: "'a cache_state_scheme \<Rightarrow> bool" where
  "is_queue_full s \<longleftrightarrow> list_len s \<ge> g_cacheCapacity s"

subsection \<open>Names of the cache files\<close>

definition cache_root_path :: "'a cache_state_scheme \<Rightarrow> (string \<times> 'a cache_state_scheme) option" where
  "cache_root_path s =
     (if string_is_empty (Some (g_cacheRootPath s))
      then do {
        (rc, p, s1) \<leftarrow> get_config_offline_cache_path (g_cacheRootPath s) s;
        let s2 = s1\<lparr>g_cacheRootPath := p\<rparr>;
        let s3 = (if rc \<noteq> SUCCESS
                  then (case home_path s2 of
                          (home, s') \<Rightarrow> s'\<lparr>g_cacheRootPath := home @ ''/'' @ APP_DATA_PATH @ ''/'' @ MQTT_OFFLINE_MSG_DIR\<rparr>)
                  else s2);
        let s4 = (if \<not> path_exists (g_cacheRootPath s3) s3
                  then (case mkdirp (g_cacheRootPath s3) s3 of
                          (rc, s') \<Rightarrow> if rc < 0 then s'\<lparr>g_cacheRootPath := ''''\<rparr> else s')
                  else s3);
        Some (g_cacheRootPath s4, s4) }
      else Some (g_cacheRootPath s, s))"

text \<open>The file name below the cache directory.\<close>

definition cache_file_name :: "int \<Rightarrow> int \<Rightarrow> string" where
  "cache_file_name prio timestamp =
     (if prio \<ge> 0
      then show_int timestamp @ ''-'' @ show_int prio @ CACHE_FILE_SUFFIX
      else show_int timestamp @ CACHE_FILE_SUFFIX)"

definition get_cache_file_path ::
    "int \<Rightarrow> int \<Rightarrow> 'a cache_state_scheme \<Rightarrow> (string \<times> 'a cache_state_scheme) option" where
  "get_cache_file_path prio timestamp s = do {
     (root, s1) \<leftarrow> cache_root_path s;
     Some (root @ ''/'' @ cache_file_name prio timestamp, s1) }"

definition get_cache_file_header_from_file_base :: "string \<Rightarrow> int \<times> int" where
  "get_cache_file_header_from_file_base fileBaseName =
     (case strchr fileBaseName (CHR ''-'') of
        Some separator \<Rightarrow>
          (if tl separator \<noteq> [] then atoi (tl separator) else VALUE_CACHE_PRIORITY_DEFAULT,
           atoll (take (length fileBaseName - length separator) fileBaseName))
      | None \<Rightarrow> (VALUE_CACHE_PRIORITY_DEFAULT, atoll fileBaseName))"

subsection \<open>Admission and eviction\<close>

definition can_message_enter_offine_queue :: "int \<Rightarrow> 'a cache_state_scheme \<Rightarrow> bool option" where
  "can_message_enter_offine_queue prio s =
     (if list_len s < g_cacheCapacity s then Some True
      else case g_list s of
             None \<Rightarrow> None
           | Some hs \<Rightarrow> Some (\<exists>h \<in> set hs. h_priority h \<le> prio))"

fun lowest_of :: "int \<Rightarrow> cache_file_header list \<Rightarrow> int" where
  "lowest_of lowest [] = lowest"
| "lowest_of lowest (h # hs) = lowest_of (if h_priority h < lowest then h_priority h else lowest) hs"

definition remove_one_lowest_priority_message :: "'a cache_state_scheme \<Rightarrow> 'a cache_state_scheme option" where
  "remove_one_lowest_priority_message s =
     (case g_list s of
        None \<Rightarrow> None
      | Some hs \<Rightarrow>
          let lowest_priority = lowest_of INT_MAX hs
          in case find (\<lambda>h. h_priority h = lowest_priority) hs of
               None \<Rightarrow> Some s
             | Some cfh \<Rightarrow> do {
                 (filePath, s1) \<leftarrow> get_cache_file_path (h_priority cfh) (h_timestamp cfh) s;
                 let s2 = (if file_exists filePath s1 then unlink filePath s1 else s1);
                 let s3 = s2\<lparr>g_list := Some (remove_first (\<lambda>h. h_priority h = lowest_priority) hs)\<rparr>;
                 Some (increase_offline_discarded_msg_count s3) })"

partial_function (option) evict_loop :: "'a cache_state_scheme \<Rightarrow> 'a cache_state_scheme option" where
  [code]: "evict_loop s =
     (if list_len s \<ge> g_cacheCapacity s
      then Option.bind (remove_one_lowest_priority_message s) evict_loop
      else Some s)"

text \<open>
  \<open>cache_offline_message\<close> up to the lock: \<open>Inl\<close> is a refusal with its message.
  \<open>writeSize < 0\<close> is a comparison of a \<open>size_t\<close>.
\<close>

definition cache_admit ::
    "string option \<Rightarrow> int \<Rightarrow> int \<Rightarrow> 'a cache_state_scheme \<Rightarrow> ((string + cache_file_header) \<times> 'a cache_state_scheme) option" where
  "cache_admit message prio timestamp s = do {
     ok \<leftarrow> can_message_enter_offine_queue prio s;
     (if \<not> ok then
        Some (Inl ''offline queue is full, and no message with lower or same priority exists, discard it'',
              increase_offline_discarded_msg_count s)
      else if timestamp \<le> 0 then
        Some (Inl (''timestamp '' @ show_int timestamp @ '' is invalid, discard it''), s)
      else if string_is_empty message then Some (Inl ''message is empty, discard it'', s)
      else do {
        (filePath, s1) \<leftarrow> get_cache_file_path prio timestamp s;
        (if string_is_empty (Some filePath) then Some (Inl ''file path is empty, discard it'', s1)
         else case write_file_string (the message) filePath s1 of
                (writeSize, s2) \<Rightarrow>
                  if writeSize < 0 then
                    Some (Inl ''write cache file failed'', if file_exists filePath s2 then unlink filePath s2 else s2)
                  else if writeSize = 0 then
                    Some (Inl ''nothing was written to cache file'',
                          if file_exists filePath s2 then unlink filePath s2 else s2)
                  else Some (Inr \<lparr>h_priority = prio, h_timestamp = timestamp\<rparr>, s2)) }) }"

text \<open>The locked section: make room, then append.\<close>

definition cache_push :: "cache_file_header \<Rightarrow> 'a cache_state_scheme \<Rightarrow> 'a cache_state_scheme option" where
  "cache_push val s = do {
     s1 \<leftarrow> evict_loop s;
     (case g_list s1 of None \<Rightarrow> None | Some hs \<Rightarrow> Some (s1\<lparr>g_list := Some (hs @ [val])\<rparr>)) }"

definition cache_offline_message ::
    "string option \<Rightarrow> int \<Rightarrow> int \<Rightarrow> 'a cache_state_scheme \<Rightarrow> (int \<times> string \<times> 'a cache_state_scheme) option" where
  "cache_offline_message message prio timestamp s = do {
     (r, s1) \<leftarrow> cache_admit message prio timestamp s;
     (case r of
        Inl errorMsg \<Rightarrow> Some (FAILURE, errorMsg, s1)
      | Inr val \<Rightarrow> do { s2 \<leftarrow> cache_push val s1; Some (SUCCESS, '''', s2) }) }"

definition enqueue_offline_message ::
    "string option \<Rightarrow> int \<Rightarrow> int \<Rightarrow> 'a cache_state_scheme \<Rightarrow> (int \<times> string \<times> 'a cache_state_scheme) option" where
  "enqueue_offline_message message prio timestamp s =
     cache_offline_message message prio timestamp (if g_list s = None then snd (init_list s) else s)"

subsection \<open>Loading at start\<close>

definition filter_offline_cache_file :: "string \<Rightarrow> string \<Rightarrow> 'a cache_state_scheme \<Rightarrow> bool" where
  "filter_offline_cache_file root d_name s =
     (if \<not> is_file (root @ ''/'' @ d_name) s then False
      else string_equals (get_file_suffix (Some d_name)) CACHE_FILE_SUFFIX True)"

definition offline_cache_file_compare :: "string \<Rightarrow> string \<Rightarrow> int" where
  "offline_cache_file_compare d1 d2 =
     (case get_cache_file_header_from_file_base (get_file_base_name (Some d1)) of
        (_, timestamp1) \<Rightarrow>
          (case get_cache_file_header_from_file_base (get_file_base_name (Some d2)) of
             (_, timestamp2) \<Rightarrow>
               if timestamp1 > timestamp2 then 1 else if timestamp1 < timestamp2 then -1 else 0))"

text \<open>
  \<open>scandir\<close>: the directory entries that pass the filter, in the order of the
  comparison (the C library's sort is stable).
\<close>

fun insert_entry :: "string \<Rightarrow> string list \<Rightarrow> string list" where
  "insert_entry x [] = [x]"
| "insert_entry x (y # ys) = (if offline_cache_file_compare x y \<le> 0 then x # y # ys else y # insert_entry x ys)"

definition scandir :: "(string \<Rightarrow> bool) \<Rightarrow> string list \<Rightarrow> string list" where
  "scandir flt entries = foldr insert_entry (filter flt entries) []"

fun load_loop :: "string \<Rightarrow> string list \<Rightarrow> int \<Rightarrow> 'a cache_state_scheme \<Rightarrow> (int \<times> 'a cache_state_scheme) option" where
  "load_loop root [] addedCount s = Some (addedCount, s)"
| "load_loop root (d_name # names) addedCount s =
     (let fileBaseName = get_file_base_name (Some d_name)
      in if \<not> string_is_empty (Some fileBaseName)
         then (case get_cache_file_header_from_file_base fileBaseName of
                 (prio, timestamp) \<Rightarrow>
                   if timestamp > 0
                   then (case g_list s of
                           None \<Rightarrow> None
                         | Some hs \<Rightarrow>
                             load_loop root names (addedCount + 1)
                               (s\<lparr>g_list := Some (hs @ [\<lparr>h_priority = prio, h_timestamp = timestamp\<rparr>])\<rparr>))
                   else load_loop root names addedCount (unlink (root @ ''/'' @ d_name) s))
         else load_loop root names addedCount s)"

text \<open>\<open>entries\<close> are the names in the cache directory, \<open>None\<close> when it cannot be read.\<close>

definition load_offline_messages ::
    "string list option \<Rightarrow> 'a cache_state_scheme \<Rightarrow> (int \<times> 'a cache_state_scheme) option" where
  "load_offline_messages entries s = do {
     (root, s1) \<leftarrow> cache_root_path s;
     (case entries of
        None \<Rightarrow> Some (0, s1)
      | Some es \<Rightarrow>
          let s2 = (if g_list s1 = None then snd (init_list s1) else s1)
          in load_loop root (scandir (\<lambda>d. filter_offline_cache_file root d s1) es) 0 s2) }"

subsection \<open>The sender thread\<close>

text \<open>
  \<open>asyn_send_offline_messages\<close>: the return code and whether a thread was started;
  \<open>create_rc\<close> is the result of \<open>pthread_create\<close>, 0 or a positive error number.
\<close>

definition asyn_send_offline_messages :: "int \<Rightarrow> 'a cache_state_scheme \<Rightarrow> int \<times> bool" where
  "asyn_send_offline_messages create_rc s =
     (if offline_messages_count s = 0 then (SUCCESS, False)
      else if g_isAsyncSending s then (0, False)
      else if create_rc < 0 then (create_rc, False)
      else (SUCCESS, create_rc = 0))"

text \<open>Entry and exit of the thread: the flag under \<open>g_async_sending_mutex\<close>.\<close>

definition send_begin :: "'a cache_state_scheme \<Rightarrow> bool \<times> 'a cache_state_scheme" where
  "send_begin s = (if g_isAsyncSending s then (False, s) else (True, s\<lparr>g_isAsyncSending := True\<rparr>))"

definition send_end :: "'a cache_state_scheme \<Rightarrow> 'a cache_state_scheme" where
  "send_end s = s\<lparr>g_isAsyncSending := False\<rparr>"

text \<open>\<open>list_lpop\<close> under the lock; NULL for an empty list.\<close>

definition send_pop :: "'a cache_state_scheme \<Rightarrow> (cache_file_header option \<times> 'a cache_state_scheme) option" where
  "send_pop s =
     (case g_list s of
        None \<Rightarrow> None
      | Some [] \<Rightarrow> Some (None, s)
      | Some (h # hs) \<Rightarrow> Some (Some h, s\<lparr>g_list := Some hs\<rparr>))"

text \<open>Put the header back if there is room.\<close>

definition send_requeue :: "cache_file_header \<Rightarrow> 'a cache_state_scheme \<Rightarrow> 'a cache_state_scheme option" where
  "send_requeue h s =
     (if list_len s < g_cacheCapacity s
      then (case g_list s of None \<Rightarrow> None | Some hs \<Rightarrow> Some (s\<lparr>g_list := Some (h # hs)\<rparr>))
      else Some s)"

text \<open>
  What the thread does with a popped header. A read of size \<open>SIZE_MAX\<close> (the failed
  \<open>fopen\<close>) counts as positive and hands NULL to the parser.
\<close>

definition send_finish ::
    "'k hub_env \<Rightarrow> (string \<Rightarrow> json option) \<Rightarrow> cache_file_header \<Rightarrow> 'a cache_state_scheme \<Rightarrow> 'a cache_state_scheme option" where
  "send_finish e tok cfh s = do {
     (filePath, s1) \<leftarrow> get_cache_file_path (h_priority cfh) (h_timestamp cfh) s;
     (if file_exists filePath s1
      then (case read_file_string filePath s1 of
              (readSize, buffer) \<Rightarrow>
                if readSize > 0
                then (case buffer of
                        None \<Rightarrow> None
                      | Some text \<Rightarrow>
                          (case parse_mqtt_send_request_body tok (c_str text) None s1 of
                             (rc, content, jobj, err, s2) \<Rightarrow>
                               if rc = SUCCESS
                               then do {
                                 (sendRetCode, s3) \<leftarrow>
                                   MQTTClientWrapper_sendMessage e (the (topic content)) (the (payload content)) (qos content) s2;
                                 (if sendRetCode = SUCCESS
                                  then Some (unlink filePath (increase_offline_sent_msg_count s3))
                                  else do {
                                    d \<leftarrow> MQTTClientWrapper_errorDescription sendRetCode;
                                    send_requeue cfh s3 }) }
                               else Some (unlink filePath s2)))
                else Some (unlink filePath s1))
      else Some s1) }"

partial_function (option) send_loop ::
    "'k hub_env \<Rightarrow> (string \<Rightarrow> json option) \<Rightarrow> 'a cache_state_scheme \<Rightarrow> 'a cache_state_scheme option" where
  [code]: "send_loop e tok s =
     (if offline_messages_count s > 0 \<and> MQTTClientWrapper_isConnected s
      then Option.bind (send_pop s)
             (\<lambda>(node, s1). case node of
                None \<Rightarrow> send_loop e tok s1
              | Some h \<Rightarrow> Option.bind (send_finish e tok h s1) (send_loop e tok))
      else Some s)"

definition send_messages_thread_fun ::
    "'k hub_env \<Rightarrow> (string \<Rightarrow> json option) \<Rightarrow> 'a cache_state_scheme \<Rightarrow> 'a cache_state_scheme option" where
  "send_messages_thread_fun e tok s =
     (case send_begin s of
        (False, s1) \<Rightarrow> Some s1
      | (True, s1) \<Rightarrow> map_option send_end (send_loop e tok s1))"

section \<open>Lemmas: file names\<close>

definition header_ok :: "cache_file_header \<Rightarrow> bool" where
  "header_ok h \<longleftrightarrow> 0 < h_timestamp h \<and> is_int64 (h_timestamp h) \<and> is_int32 (h_priority h)"

definition header_name :: "cache_file_header \<Rightarrow> string" where
  "header_name h = cache_file_name (h_priority h) (h_timestamp h)"

lemma show_int_pos: "0 \<le> i \<Longrightarrow> show_int i = show_nat (nat i)"
  by (simp add: show_int_def)

lemma not_in_digits: "\<not> is_digit c \<Longrightarrow> c \<notin> set (show_nat n)"
  using show_nat_digits by blast

lemma dash_dot_not_digit: "\<not> is_digit (CHR ''-'')" "\<not> is_digit (CHR ''.'')" "\<not> is_digit (CHR ''/'')"
  by (simp_all add: is_digit_def chr_code_def)

lemma base_of_cache_name: "get_file_base_name (Some (b @ CACHE_FILE_SUFFIX)) = b"
  using base_suffix_split [of "''cache''" b] by (simp add: CACHE_FILE_SUFFIX_def)

lemma suffix_of_cache_name: "get_file_suffix (Some (b @ CACHE_FILE_SUFFIX)) = CACHE_FILE_SUFFIX"
  using base_suffix_split [of "''cache''" b] by (simp add: CACHE_FILE_SUFFIX_def)

lemma header_from_dashed:
  assumes "0 < ts" and "is_int64 ts" and "0 \<le> p" and "is_int32 p"
  shows "get_cache_file_header_from_file_base (show_int ts @ ''-'' @ show_int p) = (p, ts)"
proof -
  have s: "strchr (show_int ts @ CHR ''-'' # show_int p) (CHR ''-'') = Some (CHR ''-'' # show_int p)"
    using assms by (intro strchr_append) (simp add: show_int_pos not_in_digits dash_dot_not_digit)
  have "show_int p \<noteq> []" using assms by (simp add: show_int_pos)
  then show ?thesis
    using s assms by (simp add: get_cache_file_header_from_file_base_def atoi_show_int atoll_show_int)
qed

lemma header_from_plain:
  assumes "0 < ts" and "is_int64 ts"
  shows "get_cache_file_header_from_file_base (show_int ts) = (VALUE_CACHE_PRIORITY_DEFAULT, ts)"
proof -
  have "strchr (show_int ts) (CHR ''-'') = None"
    using assms by (simp add: strchr_None_iff show_int_pos not_in_digits dash_dot_not_digit)
  then show ?thesis using assms by (simp add: get_cache_file_header_from_file_base_def atoll_show_int)
qed

lemma header_name_round_trip:
  assumes "header_ok h"
  shows "get_cache_file_header_from_file_base (get_file_base_name (Some (header_name h))) =
    (if 0 \<le> h_priority h then h_priority h else VALUE_CACHE_PRIORITY_DEFAULT, h_timestamp h)"
proof -
  have "header_name h = (if 0 \<le> h_priority h then show_int (h_timestamp h) @ ''-'' @ show_int (h_priority h)
      else show_int (h_timestamp h)) @ CACHE_FILE_SUFFIX"
    by (simp add: header_name_def cache_file_name_def)
  then show ?thesis
    using assms header_from_dashed [of "h_timestamp h" "h_priority h"] header_from_plain [of "h_timestamp h"]
    by (simp add: base_of_cache_name header_ok_def)
qed

lemma header_name_timestamp:
  assumes "header_ok h" and "header_ok h'" and "header_name h = header_name h'"
  shows "h_timestamp h = h_timestamp h'"
  using header_name_round_trip [OF assms(1)] header_name_round_trip [OF assms(2)] assms(3) by simp

section \<open>Lemmas: eviction\<close>

text \<open>The cache directory has been resolved, as it is after the first use.\<close>

definition cache_path :: "'a cache_state_scheme \<Rightarrow> cache_file_header \<Rightarrow> string" where
  "cache_path s h = g_cacheRootPath s @ ''/'' @ header_name h"

lemma get_cache_file_path_ready:
  "g_cacheRootPath s \<noteq> [] \<Longrightarrow>
     get_cache_file_path p t s = Some (g_cacheRootPath s @ ''/'' @ cache_file_name p t, s)"
  by (simp add: get_cache_file_path_def cache_root_path_def)

lemma lowest_of_min: "lowest_of l hs = Min (insert l (h_priority ` set hs))"
proof (induction hs arbitrary: l)
  case Nil
  then show ?case by simp
next
  case (Cons h hs)
  have "lowest_of l (h # hs) = Min (insert (min (h_priority h) l) (h_priority ` set hs))"
    using Cons.IH by (simp add: min_def)
  also have "\<dots> = Min (insert l (h_priority ` set (h # hs)))"
    by (cases "hs = []") (auto simp: Min_insert min.assoc min.left_commute min.commute)
  finally show ?case .
qed

text \<open>The abstract step: drop the oldest header of the lowest priority.\<close>

definition evict_one :: "cache_file_header list \<Rightarrow> cache_file_header list" where
  "evict_one hs = remove_first (\<lambda>h. h_priority h = Min (h_priority ` set hs)) hs"

definition victim :: "cache_file_header list \<Rightarrow> cache_file_header" where
  "victim hs = hd (filter (\<lambda>h. h_priority h = Min (h_priority ` set hs)) hs)"

lemma find_filter_hd: "find P xs = (if filter P xs = [] then None else Some (hd (filter P xs)))"
  by (induction xs) auto

lemma min_attained: "hs \<noteq> [] \<Longrightarrow> \<exists>h \<in> set hs. h_priority h = Min (h_priority ` set hs)"
proof -
  assume "hs \<noteq> []"
  then have "Min (h_priority ` set hs) \<in> h_priority ` set hs" by (intro Min_in) auto
  then show ?thesis by auto
qed

lemma find_victim:
  assumes "hs \<noteq> []"
  shows "find (\<lambda>h. h_priority h = Min (h_priority ` set hs)) hs = Some (victim hs)"
  using min_attained [OF assms] by (auto simp: find_filter_hd victim_def filter_empty_conv)

lemma evict_one_split:
  assumes "hs \<noteq> []"
  shows "\<exists>as bs. hs = as @ victim hs # bs \<and> evict_one hs = as @ bs \<and>
    (\<forall>h \<in> set hs. h_priority (victim hs) \<le> h_priority h) \<and> (\<forall>h \<in> set as. h_priority (victim hs) < h_priority h)"
proof -
  obtain as bs where s: "hs = as @ victim hs # bs" "evict_one hs = as @ bs"
      "h_priority (victim hs) = Min (h_priority ` set hs)"
      "\<forall>x \<in> set as. h_priority x \<noteq> Min (h_priority ` set hs)"
    using remove_first_split [OF find_victim [OF assms]] unfolding evict_one_def by blast
  have m: "\<forall>h \<in> set hs. h_priority (victim hs) \<le> h_priority h" by (simp add: s(3))
  moreover have "\<forall>h \<in> set as. h_priority (victim hs) < h_priority h"
  proof
    fix h assume "h \<in> set as"
    then have "h \<in> set hs" using s(1) by (metis UnI1 set_append)
    then show "h_priority (victim hs) < h_priority h" using m s(3,4) \<open>h \<in> set as\<close> by (metis order_le_imp_less_or_eq)
  qed
  ultimately show ?thesis using s by blast
qed

lemma length_evict_one: "hs \<noteq> [] \<Longrightarrow> length (evict_one hs) = length hs - 1"
  using evict_one_split by (metis One_nat_def add_Suc_right diff_Suc_1 length_Cons length_append)

lemma remove_one_effect:
  assumes "g_cacheRootPath s \<noteq> []" and "g_list s = Some hs" and "hs \<noteq> []" and "\<forall>h \<in> set hs. is_int32 (h_priority h)"
  shows "remove_one_lowest_priority_message s =
    (let s1 = (if file_exists (cache_path s (victim hs)) s then unlink (cache_path s (victim hs)) s else s)
     in Some (increase_offline_discarded_msg_count (s1\<lparr>g_list := Some (evict_one hs)\<rparr>)))"
proof -
  have "Min (insert INT_MAX (h_priority ` set hs)) = Min (h_priority ` set hs)"
  proof -
    obtain h where "h \<in> set hs" "h_priority h = Min (h_priority ` set hs)" using min_attained [OF assms(3)] by blast
    then have "Min (h_priority ` set hs) \<le> INT_MAX" using assms(4) by (metis is_int32_def)
    then show ?thesis using assms(3) by (simp add: Min_insert)
  qed
  then have low: "lowest_of INT_MAX hs = Min (h_priority ` set hs)" by (simp add: lowest_of_min)
  show ?thesis
    using assms find_victim [OF assms(3)]
    by (simp add: remove_one_lowest_priority_message_def low get_cache_file_path_ready Let_def
        cache_path_def header_name_def evict_one_def)
qed

text \<open>\<open>n\<close> evictions: the headers dropped, in order, and what is left.\<close>

fun victims :: "nat \<Rightarrow> cache_file_header list \<Rightarrow> cache_file_header list" where
  "victims 0 hs = []"
| "victims (Suc n) hs = victim hs # victims n (evict_one hs)"

fun evict :: "nat \<Rightarrow> cache_file_header list \<Rightarrow> cache_file_header list" where
  "evict 0 hs = hs"
| "evict (Suc n) hs = evict n (evict_one hs)"

definition evicted_state :: "nat \<Rightarrow> cache_file_header list \<Rightarrow> 'a cache_state_scheme \<Rightarrow> 'a cache_state_scheme" where
  "evicted_state n hs s = s\<lparr>fs_files := (\<lambda>p. if p \<in> cache_path s ` set (victims n hs) then None else fs_files s p),
     g_offline_discarded_msg_count :=
       (if n = 0 then g_offline_discarded_msg_count s else wrap32 (g_offline_discarded_msg_count s + int n)),
     g_list := Some (evict n hs)\<rparr>"

lemma wrap32_add: "wrap32 (wrap32 a + b) = wrap32 (a + b)"
proof -
  have "((a + 2 ^ 31) mod 2 ^ 32 - 2 ^ 31 + b + 2 ^ 31) mod 2 ^ 32 = (a + b + 2 ^ 31 :: int) mod 2 ^ 32"
    by (simp add: algebra_simps mod_simps)
  then show ?thesis by (simp add: wrap32_def)
qed

lemma set_evict_one: "hs \<noteq> [] \<Longrightarrow> set (evict_one hs) \<subseteq> set hs"
  using evict_one_split [of hs] by (metis Un_iff insert_iff list.simps(15) set_append subsetI)

lemma victim_in: "hs \<noteq> [] \<Longrightarrow> victim hs \<in> set hs"
  using evict_one_split [of hs] by (metis in_set_conv_decomp)

lemma remove_one_state:
  assumes "g_cacheRootPath s \<noteq> []" and "g_list s = Some hs" and "hs \<noteq> []" and "\<forall>h \<in> set hs. is_int32 (h_priority h)"
  shows "remove_one_lowest_priority_message s = Some (s\<lparr>
    fs_files := (fs_files s)(cache_path s (victim hs) := None),
    g_offline_discarded_msg_count := wrap32 (g_offline_discarded_msg_count s + 1), g_list := Some (evict_one hs)\<rparr>)"
proof -
  have "(if file_exists p s then unlink p s else s) = s\<lparr>fs_files := (fs_files s)(p := None)\<rparr>" for p
    by (auto simp: file_exists_def os_exists_def unlink_def fun_upd_idem)
  then show ?thesis by (simp add: remove_one_effect [OF assms] increase_offline_discarded_msg_count_def)
qed

lemma evict_loop_effect:
  assumes "g_cacheRootPath s \<noteq> []" and "g_list s = Some hs" and "\<forall>h \<in> set hs. is_int32 (h_priority h)"
    and "0 < g_cacheCapacity s"
  shows "evict_loop s = Some (evicted_state (length hs + 1 - nat (g_cacheCapacity s)) hs s)"
  using assms
proof (induction "length hs + 1 - nat (g_cacheCapacity s)" arbitrary: s hs)
  case 0
  then have "\<not> list_len s \<ge> g_cacheCapacity s" by (simp add: list_len_def)
  then have "evict_loop s = Some s" by (subst evict_loop.simps) simp
  with 0 show ?case by (simp add: evicted_state_def)
next
  case (Suc n)
  have full: "list_len s \<ge> g_cacheCapacity s" using Suc.hyps(2) Suc.prems(2) by (simp add: list_len_def)
  have ne: "hs \<noteq> []" using Suc.hyps(2) Suc.prems(4) by (cases hs) auto
  let ?s1 = "s\<lparr>fs_files := (fs_files s)(cache_path s (victim hs) := None),
    g_offline_discarded_msg_count := wrap32 (g_offline_discarded_msg_count s + 1), g_list := Some (evict_one hs)\<rparr>"
  have r: "remove_one_lowest_priority_message s = Some ?s1" using Suc.prems ne by (intro remove_one_state) auto
  have n: "n = length (evict_one hs) + 1 - nat (g_cacheCapacity ?s1)"
    using Suc.hyps(2) ne by (simp add: length_evict_one)
  have pr: "\<forall>h \<in> set (evict_one hs). is_int32 (h_priority h)" using Suc.prems(3) set_evict_one [OF ne] by blast
  have "evict_loop ?s1 = Some (evicted_state n (evict_one hs) ?s1)"
    using Suc.hyps(1) [OF n] Suc.prems pr n by simp
  moreover have "evicted_state n (evict_one hs) ?s1 = evicted_state (Suc n) hs s"
  proof -
    have "(\<lambda>p. if p \<in> cache_path ?s1 ` set (victims n (evict_one hs)) then None else fs_files ?s1 p) =
        (\<lambda>p. if p \<in> cache_path s ` set (victims (Suc n) hs) then None else fs_files s p)"
      by (auto simp: cache_path_def)
    moreover have "wrap32 (wrap32 (g_offline_discarded_msg_count s + 1) + int n) =
        wrap32 (g_offline_discarded_msg_count s + (1 + int n))"
      using wrap32_add [of "g_offline_discarded_msg_count s + 1" "int n"] by (simp add: add.assoc)
    ultimately show ?thesis by (simp add: evicted_state_def)
  qed
  ultimately show ?case
    using full r Suc.hyps(2) by (subst evict_loop.simps) simp
qed

text \<open>With a capacity that is not positive the loop has no exit.\<close>

lemma same_dirs: "\<exists>d. s = s\<lparr>fs_dirs := d\<rparr>"
  by (rule exI [of _ "fs_dirs s"]) simp

lemma os_mkdir_frame: "\<exists>d. snd (snd (os_mkdir p s)) = s\<lparr>fs_dirs := d\<rparr>"
  by (auto simp: os_mkdir_def Let_def same_dirs)

lemma mkdirp_frame: "\<exists>d. snd (mkdirp p s) = s\<lparr>fs_dirs := d\<rparr>"
proof (induction p s rule: mkdirp.induct)
  case (1 path s)
  let ?pathname = "path_normalize path"
  let ?p = "sep_back ?pathname (length ?pathname)"
  let ?r = "if ?p \<noteq> 0 then mkdirp (take ?p ?pathname) s else (0, s)"
  have "\<exists>d. snd ?r = s\<lparr>fs_dirs := d\<rparr>" using "1.IH" [OF refl refl] by (simp add: same_dirs)
  then obtain d where d: "snd ?r = s\<lparr>fs_dirs := d\<rparr>" ..
  obtain rc s1 where r: "?r = (rc, s1)" by (rule prod.exhaust)
  obtain ex rc2 s2 where m: "os_mkdir ?pathname s1 = (ex, rc2, s2)" by (metis prod.exhaust)
  obtain d2 where d2: "s2 = s1\<lparr>fs_dirs := d2\<rparr>" using os_mkdir_frame [of ?pathname s1] m by auto
  have "mkdirp path s = (if rc \<noteq> 0 then (-1, s1) else (if rc2 = 0 \<or> ex then 0 else -1, s2))"
    unfolding mkdirp.simps [of path s] Let_def r prod.case m ..
  then have "snd (mkdirp path s) \<in> {s1, s2}" by simp
  then show ?case using d d2 r by auto
qed

text \<open>Resolving the cache directory changes no field of the queue.\<close>

definition queue_fields :: "'a cache_state_scheme \<Rightarrow> cache_file_header list option \<times> int \<times> bool" where
  "queue_fields s = (g_list s, g_cacheCapacity s, g_isAsyncSending s)"

lemma home_path_fields: "queue_fields (snd (home_path s)) = queue_fields s"
  by (simp add: home_path_def queue_fields_def)

lemma mkdirp_fields: "queue_fields (snd (mkdirp p s)) = queue_fields s"
  using mkdirp_frame [of p s] by (auto simp: queue_fields_def)

lemma config_path_fields:
  "get_config_offline_cache_path p s = Some (rc, q, s') \<Longrightarrow> queue_fields s' = queue_fields s"
  using home_path_fields [of s]
  by (auto simp: get_config_offline_cache_path_def bind_eq_Some_conv split: prod.splits)

lemma root_update_fields [simp]: "queue_fields (s\<lparr>g_cacheRootPath := r\<rparr>) = queue_fields s"
  by (simp add: queue_fields_def)

lemma cache_root_path_fields:
  assumes "cache_root_path s = Some (root, s')"
  shows "queue_fields s' = queue_fields s"
proof (cases "string_is_empty (Some (g_cacheRootPath s))")
  case False
  then show ?thesis using assms by (simp add: cache_root_path_def)
next
  case True
  then obtain rc p s1 where s1: "get_config_offline_cache_path (g_cacheRootPath s) s = Some (rc, p, s1)"
    using assms by (auto simp: cache_root_path_def bind_eq_Some_conv)
  let ?s2 = "s1\<lparr>g_cacheRootPath := p\<rparr>"
  let ?s3 = "if rc \<noteq> SUCCESS then (case home_path ?s2 of (home, s') \<Rightarrow>
      s'\<lparr>g_cacheRootPath := home @ ''/'' @ APP_DATA_PATH @ ''/'' @ MQTT_OFFLINE_MSG_DIR\<rparr>) else ?s2"
  have 3: "queue_fields ?s3 = queue_fields s"
    using config_path_fields [OF s1] home_path_fields [of ?s2] by (cases "home_path ?s2") simp
  have "s' = (if \<not> path_exists (g_cacheRootPath ?s3) ?s3 then (case mkdirp (g_cacheRootPath ?s3) ?s3 of
      (rc, s') \<Rightarrow> if rc < 0 then s'\<lparr>g_cacheRootPath := []\<rparr> else s') else ?s3)"
    using assms True s1 by (simp add: cache_root_path_def Let_def)
  then show ?thesis
    using 3 mkdirp_fields [of "g_cacheRootPath ?s3" ?s3] by (auto split: if_splits prod.splits)
qed

lemma get_cache_file_path_fields:
  "get_cache_file_path p t s = Some (path, s') \<Longrightarrow> queue_fields s' = queue_fields s"
  using cache_root_path_fields by (auto simp: get_cache_file_path_def bind_eq_Some_conv)

lemma remove_one_frame:
  assumes "remove_one_lowest_priority_message s = Some s'"
  shows "g_cacheCapacity s' = g_cacheCapacity s" and "g_isAsyncSending s' = g_isAsyncSending s"
proof -
  have "g_cacheCapacity s' = g_cacheCapacity s \<and> g_isAsyncSending s' = g_isAsyncSending s"
    using assms get_cache_file_path_fields
    by (fastforce simp: remove_one_lowest_priority_message_def increase_offline_discarded_msg_count_def
        unlink_def Let_def bind_eq_Some_conv queue_fields_def split: option.splits if_splits)
  then show "g_cacheCapacity s' = g_cacheCapacity s" "g_isAsyncSending s' = g_isAsyncSending s" by auto
qed

lemma evict_loop_result:
  assumes "evict_loop s = Some s'"
  shows "list_len s' < g_cacheCapacity s \<and> g_cacheCapacity s' = g_cacheCapacity s \<and> g_isAsyncSending s' = g_isAsyncSending s"
proof (rule evict_loop.raw_induct [OF _ assms])
  fix f and s s' :: "'a cache_state_scheme"
  assume IH: "\<And>s s'. f s = Some s' \<Longrightarrow>
      list_len s' < g_cacheCapacity s \<and> g_cacheCapacity s' = g_cacheCapacity s \<and> g_isAsyncSending s' = g_isAsyncSending s"
    and body: "(if g_cacheCapacity s \<le> list_len s then Option.bind (remove_one_lowest_priority_message s) f else Some s) = Some s'"
  show "list_len s' < g_cacheCapacity s \<and> g_cacheCapacity s' = g_cacheCapacity s \<and> g_isAsyncSending s' = g_isAsyncSending s"
  proof (cases "g_cacheCapacity s \<le> list_len s")
    case True
    then obtain s1 where "remove_one_lowest_priority_message s = Some s1" "f s1 = Some s'"
      using body by (auto simp: bind_eq_Some_conv)
    then show ?thesis using IH remove_one_frame by metis
  next
    case False
    then show ?thesis using body by auto
  qed
qed

section \<open>Lemmas: enqueueing\<close>

definition cache_wf :: "'a cache_state_scheme \<Rightarrow> cache_file_header list \<Rightarrow> bool" where
  "cache_wf s hs \<longleftrightarrow> g_cacheRootPath s \<noteq> [] \<and> g_list s = Some hs \<and> (\<forall>h \<in> set hs. header_ok h) \<and>
     distinct (map h_timestamp hs)"

definition files_wf :: "'a cache_state_scheme \<Rightarrow> cache_file_header list \<Rightarrow> bool" where
  "files_wf s hs \<longleftrightarrow> (\<forall>h \<in> set hs. \<exists>c. fs_files s (cache_path s h) = Some c \<and> c \<noteq> [])"

text \<open>The specification of the queue: admission, eviction, append.\<close>

definition spec_enqueue :: "nat \<Rightarrow> cache_file_header \<Rightarrow> cache_file_header list \<Rightarrow> cache_file_header list option" where
  "spec_enqueue cap h hs =
     (if length hs < cap \<or> (\<exists>x \<in> set hs. h_priority x \<le> h_priority h)
      then Some (evict (length hs + 1 - cap) hs @ [h]) else None)"

lemma length_evict: "n \<le> length hs \<Longrightarrow> length (evict n hs) = length hs - n"
proof (induction n arbitrary: hs)
  case (Suc n)
  then have "hs \<noteq> []" by auto
  with Suc show ?case by (simp add: length_evict_one)
qed simp

lemma evict_mset: "n \<le> length hs \<Longrightarrow> mset (victims n hs) + mset (evict n hs) = mset hs"
proof (induction n arbitrary: hs)
  case (Suc n)
  then have ne: "hs \<noteq> []" by auto
  then have "mset (victim hs # evict_one hs) = mset hs"
    using evict_one_split [OF ne] by (metis mset_append union_mset_add_mset_right mset.simps(2))
  moreover have "mset (victims n (evict_one hs)) + mset (evict n (evict_one hs)) = mset (evict_one hs)"
    using Suc ne by (simp add: length_evict_one)
  ultimately show ?case by simp
qed simp

lemma evict_sets:
  assumes "n \<le> length hs"
  shows "set (victims n hs) \<union> set (evict n hs) = set hs"
  using arg_cong [OF evict_mset [OF assms], of set_mset] by simp

lemma evict_distinct:
  assumes "n \<le> length hs" and "distinct (map h_timestamp hs)"
  shows "distinct (map h_timestamp (evict n hs))"
    and "x \<in> set (victims n hs) \<Longrightarrow> y \<in> set (evict n hs) \<Longrightarrow> h_timestamp x \<noteq> h_timestamp y"
proof -
  have "mset (map h_timestamp (victims n hs @ evict n hs)) = mset (map h_timestamp hs)"
    using arg_cong [OF evict_mset [OF assms(1)], of "image_mset h_timestamp"] by simp
  then have d: "distinct (map h_timestamp (victims n hs @ evict n hs))"
    using assms(2) by (metis mset_eq_imp_distinct_iff)
  then show "distinct (map h_timestamp (evict n hs))" by simp
  show "x \<in> set (victims n hs) \<Longrightarrow> y \<in> set (evict n hs) \<Longrightarrow> h_timestamp x \<noteq> h_timestamp y"
    using d by (auto simp: image_iff)
qed

lemma cache_path_timestamp:
  "header_ok x \<Longrightarrow> header_ok y \<Longrightarrow> cache_path s x = cache_path s y \<Longrightarrow> h_timestamp x = h_timestamp y"
  by (auto simp: cache_path_def intro: header_name_timestamp)

lemma can_enter_spec:
  assumes "g_list s = Some hs" and "0 < g_cacheCapacity s"
  shows "can_message_enter_offine_queue p s =
    Some (length hs < nat (g_cacheCapacity s) \<or> (\<exists>h \<in> set hs. h_priority h \<le> p))"
  using assms by (auto simp: can_message_enter_offine_queue_def list_len_def)

lemma cache_admit_full:
  "can_message_enter_offine_queue p s = Some False \<Longrightarrow>
     cache_admit m p t s = Some (Inl ''offline queue is full, and no message with lower or same priority exists, discard it'',
       increase_offline_discarded_msg_count s)"
  by (simp add: cache_admit_def)

lemma cache_admit_write:
  assumes "can_message_enter_offine_queue (h_priority h) s = Some True" and "g_cacheRootPath s \<noteq> []"
    and "0 < h_timestamp h" and "m \<noteq> []" and "fs_open_ok s (cache_path s h)" and "0 < fs_room s"
  shows "cache_admit (Some m) (h_priority h) (h_timestamp h) s =
    Some (Inr h, s\<lparr>fs_files := (fs_files s)(cache_path s h \<mapsto> take (fs_room s) m)\<rparr>)"
  using assms by (auto simp: cache_admit_def get_cache_file_path_ready write_file_string_def cache_path_def
      header_name_def Let_def)

text \<open>A failed \<open>fopen\<close> passes for a success.\<close>

lemma cache_admit_no_open:
  assumes "can_message_enter_offine_queue (h_priority h) s = Some True" and "g_cacheRootPath s \<noteq> []"
    and "0 < h_timestamp h" and "m \<noteq> []" and "\<not> fs_open_ok s (cache_path s h)"
  shows "cache_admit (Some m) (h_priority h) (h_timestamp h) s = Some (Inr h, s)"
  using assms by (auto simp: cache_admit_def get_cache_file_path_ready write_file_string_def cache_path_def
      header_name_def)

lemma cache_push_effect:
  assumes "cache_wf s hs" and "0 < g_cacheCapacity s"
  shows "cache_push h s =
    (let s1 = evicted_state (length hs + 1 - nat (g_cacheCapacity s)) hs s
     in Some (s1\<lparr>g_list := Some (evict (length hs + 1 - nat (g_cacheCapacity s)) hs @ [h])\<rparr>))"
proof -
  have "evict_loop s = Some (evicted_state (length hs + 1 - nat (g_cacheCapacity s)) hs s)"
    using assms by (intro evict_loop_effect) (auto simp: cache_wf_def header_ok_def)
  then show ?thesis by (simp add: cache_push_def evicted_state_def)
qed

lemma enqueue_ready: "g_list s \<noteq> None \<Longrightarrow> enqueue_offline_message m p t s = cache_offline_message m p t s"
  by (auto simp: enqueue_offline_message_def)

lemma enqueue_outcome:
  assumes wf: "cache_wf s hs" and cap: "0 < g_cacheCapacity s" and h: "header_ok h"
    and m: "m \<noteq> []" and w: "fs_open_ok s (cache_path s h)" "0 < fs_room s"
  shows "enqueue_offline_message (Some m) (h_priority h) (h_timestamp h) s =
    (case spec_enqueue (nat (g_cacheCapacity s)) h hs of
       None \<Rightarrow> Some (FAILURE, ''offline queue is full, and no message with lower or same priority exists, discard it'',
                    increase_offline_discarded_msg_count s)
     | Some hs' \<Rightarrow>
         let n = length hs + 1 - nat (g_cacheCapacity s);
             s1 = s\<lparr>fs_files := (fs_files s)(cache_path s h \<mapsto> take (fs_room s) m)\<rparr>
         in Some (SUCCESS, '''', (evicted_state n hs s1)\<lparr>g_list := Some hs'\<rparr>))"
proof -
  have l: "g_list s = Some hs" and r: "g_cacheRootPath s \<noteq> []" using wf by (simp_all add: cache_wf_def)
  note can = can_enter_spec [OF l cap, of "h_priority h"]
  show ?thesis
  proof (cases "length hs < nat (g_cacheCapacity s) \<or> (\<exists>x \<in> set hs. h_priority x \<le> h_priority h)")
    case False
    then show ?thesis
      using can l by (simp add: enqueue_ready cache_offline_message_def cache_admit_full spec_enqueue_def)
  next
    case True
    let ?s1 = "s\<lparr>fs_files := (fs_files s)(cache_path s h \<mapsto> take (fs_room s) m)\<rparr>"
    have a: "cache_admit (Some m) (h_priority h) (h_timestamp h) s = Some (Inr h, ?s1)"
      using True can r h m w by (intro cache_admit_write) (auto simp: header_ok_def)
    have "cache_wf ?s1 hs" using wf by (simp add: cache_wf_def)
    then show ?thesis
      using True a l cache_push_effect [of ?s1 hs h] cap
      by (simp add: enqueue_ready cache_offline_message_def spec_enqueue_def Let_def)
  qed
qed

lemma room_le: "hs \<noteq> [] \<or> 0 < cap \<Longrightarrow> 0 < cap \<Longrightarrow> length hs + 1 - cap \<le> length hs"
  by auto

lemma enqueued_wf:
  assumes wf: "cache_wf s hs" and f: "files_wf s hs" and cap: "0 < cap" and h: "header_ok h"
    and fresh: "h_timestamp h \<notin> h_timestamp ` set hs" and c: "c \<noteq> []" and n: "n = length hs + 1 - cap"
  defines "s1 \<equiv> s\<lparr>fs_files := (fs_files s)(cache_path s h \<mapsto> c)\<rparr>"
  defines "s' \<equiv> (evicted_state n hs s1)\<lparr>g_list := Some (evict n hs @ [h])\<rparr>"
  shows "cache_wf s' (evict n hs @ [h])" and "files_wf s' (evict n hs @ [h])"
    and "fs_files s' (cache_path s' h) = Some c"
    and "\<forall>v \<in> set (victims n hs). fs_files s' (cache_path s' v) = None"
    and "\<forall>x \<in> set (evict n hs). fs_files s' (cache_path s' x) = fs_files s (cache_path s x)"
proof -
  have le: "n \<le> length hs" using cap n by simp
  note sets = evict_sets [OF le]
  have d: "distinct (map h_timestamp hs)" and ok: "\<forall>x \<in> set hs. header_ok x" using wf by (simp_all add: cache_wf_def)
  have p: "cache_path s' x = cache_path s x" "cache_path s1 x = cache_path s x" for x
    by (simp_all add: s'_def s1_def evicted_state_def cache_path_def)
  have ff: "fs_files s' q = (if q \<in> cache_path s ` set (victims n hs) then None
      else if q = cache_path s h then Some c else fs_files s q)" for q
  proof -
    have "fs_files s' q = (if q \<in> cache_path s1 ` set (victims n hs) then None else fs_files s1 q)"
      by (simp add: s'_def evicted_state_def)
    moreover have "cache_path s1 = cache_path s" using p(2) by (rule ext)
    moreover have "fs_files s1 q = (if q = cache_path s h then Some c else fs_files s q)" by (simp add: s1_def)
    ultimately show ?thesis by simp
  qed
  have apart: "cache_path s x \<noteq> cache_path s y" if "header_ok x" "header_ok y" "h_timestamp x \<noteq> h_timestamp y" for x y
    using that cache_path_timestamp by blast
  have vok: "header_ok v" "h_timestamp h \<noteq> h_timestamp v" if "v \<in> set (victims n hs) \<union> set (evict n hs)" for v
    using that ok fresh sets by auto
  have hv: "cache_path s h \<notin> cache_path s ` set (victims n hs)"
    using apart [OF h] vok by blast
  have kv: "cache_path s x \<notin> cache_path s ` set (victims n hs)" if x: "x \<in> set (evict n hs)" for x
  proof
    assume "cache_path s x \<in> cache_path s ` set (victims n hs)"
    then obtain v where v: "v \<in> set (victims n hs)" "cache_path s x = cache_path s v" by blast
    then show False using x evict_distinct(2) [OF le d v(1) x] apart [of x v] vok by simp
  qed
  have kh: "cache_path s x \<noteq> cache_path s h" if x: "x \<in> set (evict n hs)" for x
    using apart [OF h, of x] vok x by force
  show "fs_files s' (cache_path s' h) = Some c" using hv by (simp add: ff p)
  show "\<forall>v \<in> set (victims n hs). fs_files s' (cache_path s' v) = None" by (simp add: ff p)
  show kept: "\<forall>x \<in> set (evict n hs). fs_files s' (cache_path s' x) = fs_files s (cache_path s x)"
    using kv kh by (simp add: ff p)
  show "files_wf s' (evict n hs @ [h])"
    using f kept \<open>fs_files s' (cache_path s' h) = Some c\<close> c sets by (auto simp: files_wf_def p)
  have "h_timestamp h \<notin> h_timestamp ` set (evict n hs)" using fresh sets by blast
  then show "cache_wf s' (evict n hs @ [h])"
    using wf h ok sets evict_distinct(1) [OF le d] by (auto simp: cache_wf_def s'_def s1_def evicted_state_def)
qed

lemma spec_displaces_lower:
  assumes "spec_enqueue cap h hs = Some hs'" and "length hs \<le> cap" and "0 < cap"
    and "x \<in> set hs" and "x \<notin> set hs'"
  shows "h_priority x \<le> h_priority h \<and> (\<forall>y \<in> set hs. h_priority x \<le> h_priority y) \<and> mset hs' + {#x#} = mset hs + {#h#}"
proof -
  have c: "length hs < cap \<or> (\<exists>x \<in> set hs. h_priority x \<le> h_priority h)" and hs': "hs' = evict (length hs + 1 - cap) hs @ [h]"
    using assms(1) by (auto simp: spec_enqueue_def split: if_splits)
  have eq: "length hs = cap" using assms(2,4,5) hs' by (cases "length hs < cap") auto
  then have n: "length hs + 1 - cap = Suc 0" by simp
  have ne: "hs \<noteq> []" using assms(3) eq by auto
  obtain as bs where sp: "hs = as @ victim hs # bs" "evict_one hs = as @ bs"
      "\<forall>y \<in> set hs. h_priority (victim hs) \<le> h_priority y"
    using evict_one_split [OF ne] by blast
  have e: "hs' = as @ bs @ [h]" using hs' n sp(2) by simp
  have x: "x = victim hs" using assms(4,5) sp(1) e by (metis Un_iff insert_iff list.simps(15) set_append)
  have "h_priority (victim hs) \<le> h_priority h" using c eq sp(3) by force
  moreover have "mset hs' + {#x#} = mset hs + {#h#}"
    using arg_cong [OF sp(1), of mset] by (simp add: e x)
  ultimately show ?thesis using sp(3) x by simp
qed

section \<open>Properties\<close>

text \<open>
  C2: enqueue_offline_message implements the abstract bounded priority queue: it accepts exactly
  when there is room or a message of lower or equal priority, evicts the first messages of
  lowest priority until there is room, appends the new header, and otherwise leaves queue and
  files alone and counts one discarded message.
\<close>

theorem enqueue_refines_spec:
  assumes "cache_wf s hs" and "0 < g_cacheCapacity s" and "header_ok h" and "m \<noteq> []"
    and "fs_open_ok s (cache_path s h)" and "0 < fs_room s"
  shows "\<exists>rc err s'. enqueue_offline_message (Some m) (h_priority h) (h_timestamp h) s = Some (rc, err, s') \<and>
    (case spec_enqueue (nat (g_cacheCapacity s)) h hs of
       None \<Rightarrow> rc = FAILURE \<and> g_list s' = Some hs \<and> fs_files s' = fs_files s \<and>
         g_offline_discarded_msg_count s' = wrap32 (g_offline_discarded_msg_count s + 1)
     | Some hs' \<Rightarrow> rc = SUCCESS \<and> g_list s' = Some hs')"
  using enqueue_outcome [OF assms] assms(1)
  by (cases "spec_enqueue (nat (g_cacheCapacity s)) h hs")
    (auto simp: Let_def cache_wf_def increase_offline_discarded_msg_count_def)

text \<open>
  C1: When a message is admitted to the offline cache (readable directory, room on the disk, a
  fresh timestamp), enqueue_offline_message succeeds, the new queue is well-formed, holds at
  most the configured capacity and ends with the new header, every queued header still has its
  non-empty file, the file of the new header holds the message, and the file of every displaced
  message is gone.
\<close>

theorem enqueue_keeps_cache:
  assumes "cache_wf s hs" and "files_wf s hs" and "0 < g_cacheCapacity s" and "header_ok h" and "m \<noteq> []"
    and "h_timestamp h \<notin> h_timestamp ` set hs" and "fs_open_ok s (cache_path s h)" and "length m \<le> fs_room s"
    and "spec_enqueue (nat (g_cacheCapacity s)) h hs = Some hs'"
  shows "\<exists>s'. enqueue_offline_message (Some m) (h_priority h) (h_timestamp h) s = Some (SUCCESS, '''', s') \<and>
    cache_wf s' hs' \<and> files_wf s' hs' \<and> int (length hs') \<le> g_cacheCapacity s \<and> last hs' = h \<and>
    fs_files s' (cache_path s' h) = Some m \<and>
    (\<forall>x \<in> set hs. x \<notin> set hs' \<longrightarrow> fs_files s' (cache_path s' x) = None)"
proof -
  let ?n = "length hs + 1 - nat (g_cacheCapacity s)"
  have room: "0 < fs_room s" "take (fs_room s) m = m" using assms(5,8) by (auto intro: gr_zeroI)
  have hs': "hs' = evict ?n hs @ [h]" using assms(9) by (auto simp: spec_enqueue_def split: if_splits)
  have cap: "0 < nat (g_cacheCapacity s)" using assms(3) by simp
  note wf = enqueued_wf [OF assms(1,2) cap assms(4,6,5) refl]
  have le: "?n \<le> length hs" using cap by simp
  have "length hs' = length hs - ?n + 1" unfolding hs' using length_evict [OF le] by simp
  then have "int (length hs') \<le> g_cacheCapacity s" using cap by linarith
  moreover have "x \<in> set (victims ?n hs)" if "x \<in> set hs" "x \<notin> set hs'" for x
    using that evict_sets [OF le] unfolding hs' by auto
  ultimately show ?thesis
    using enqueue_outcome [OF assms(1,3,4,5,7) room(1)] assms(9) wf room(2) unfolding hs' by (auto simp: Let_def)
qed

text \<open>
  C3: A message that enqueue_offline_message displaces from a queue within its capacity has the
  lowest priority of the queue, a priority not above that of the new message, and it is the only
  one displaced.
\<close>

theorem enqueue_displaces_lower:
  assumes "cache_wf s hs" and "0 < g_cacheCapacity s" and "int (length hs) \<le> g_cacheCapacity s"
    and "header_ok h" and "m \<noteq> []" and "fs_open_ok s (cache_path s h)" and "0 < fs_room s"
    and "enqueue_offline_message (Some m) (h_priority h) (h_timestamp h) s = Some (rc, err, s')"
    and "g_list s' = Some hs'" and "x \<in> set hs" and "x \<notin> set hs'"
  shows "h_priority x \<le> h_priority h \<and> (\<forall>y \<in> set hs. h_priority x \<le> h_priority y) \<and>
    mset hs' + {#x#} = mset hs + {#h#}"
proof -
  note o = enqueue_outcome [OF assms(1,2,4-7)]
  have "spec_enqueue (nat (g_cacheCapacity s)) h hs \<noteq> None"
  proof
    assume "spec_enqueue (nat (g_cacheCapacity s)) h hs = None"
    then have "g_list s' = g_list s" using o assms(8) by (simp add: increase_offline_discarded_msg_count_def)
    then show False using assms(1,9-11) by (simp add: cache_wf_def)
  qed
  then have "spec_enqueue (nat (g_cacheCapacity s)) h hs = Some hs'" using o assms(8,9) by (auto simp: Let_def)
  then show ?thesis using spec_displaces_lower assms(2,3,10,11) by (meson nat_le_iff zero_less_nat_eq le_nat_iff order_less_imp_le)
qed

theorem capacity_not_positive_hangs:
  assumes "g_cacheCapacity s \<le> 0"
  shows "evict_loop s = None"
proof (cases "evict_loop s")
  case (Some s')
  then have "list_len s' < g_cacheCapacity s" using evict_loop_result by blast
  moreover have "0 \<le> list_len s'" by (simp add: list_len_def split: option.split)
  ultimately show ?thesis using assms by simp
qed

theorem enqueue_without_file:
  assumes "cache_wf s hs" and "int (length hs) < g_cacheCapacity s" and "header_ok h" and "m \<noteq> []"
    and "\<not> fs_open_ok s (cache_path s h)" and "fs_files s (cache_path s h) = None"
  shows "\<exists>s'. enqueue_offline_message (Some m) (h_priority h) (h_timestamp h) s = Some (SUCCESS, '''', s') \<and>
    g_list s' = Some (hs @ [h]) \<and> fs_files s' (cache_path s' h) = None"
proof -
  have l: "g_list s = Some hs" and r: "g_cacheRootPath s \<noteq> []" using assms(1) by (simp_all add: cache_wf_def)
  have cap: "0 < g_cacheCapacity s" using assms(2) by linarith
  have can: "can_message_enter_offine_queue (h_priority h) s = Some True"
    using can_enter_spec [OF l cap] assms(2) by (simp add: zless_nat_eq_int_zless)
  have a: "cache_admit (Some m) (h_priority h) (h_timestamp h) s = Some (Inr h, s)"
    using can r assms by (intro cache_admit_no_open) (auto simp: header_ok_def)
  have "length hs + 1 - nat (g_cacheCapacity s) = 0" using assms(2) by simp
  then show ?thesis
    using a l assms(6) cache_push_effect [OF assms(1) cap, of h]
    by (simp add: enqueue_ready cache_offline_message_def evicted_state_def Let_def cache_path_def)
qed

end
