(* ===== verification/OfflineSender.thy ===== *)
theory OfflineSender
  imports OfflineCache
begin

text \<open>
  The sender thread of the offline cache, its restart and its interleaving with the
  producers. When every publish is accepted the thread drains the queue in order and
  removes the files; a refused publish puts the header back at the head. The files
  written by one run are read back by the next in time order. Under every interleaving of
  producers and sender threads, cut at the lock operations, the queue stays within its
  capacity and at most one sender works.
\<close>

section \<open>Interleaving\<close>

text \<open>
  A sender thread is about to take the flag, is between two headers, holds a popped
  header, or is finished. A producer that has passed the admission test and written its
  file holds a header to be pushed.
\<close>

datatype sender_pc = Starting | Looping | Holding cache_file_header | Finished

type_synonym 'a cache_sys = "'a cache_state_scheme \<times> sender_pc list \<times> cache_file_header list"

inductive cache_step ::
    "'k hub_env \<Rightarrow> (string \<Rightarrow> json option) \<Rightarrow> 'a cache_sys \<Rightarrow> 'a cache_sys \<Rightarrow> bool" where
  spawn: "asyn_send_offline_messages rc s = (r, True) \<Longrightarrow> cache_step e tok (s, pcs, fl) (s, pcs @ [Starting], fl)"
| begin_send: "i < length pcs \<Longrightarrow> pcs ! i = Starting \<Longrightarrow> send_begin s = (True, s') \<Longrightarrow>
    cache_step e tok (s, pcs, fl) (s', pcs[i := Looping], fl)"
| begin_refused: "i < length pcs \<Longrightarrow> pcs ! i = Starting \<Longrightarrow> send_begin s = (False, s') \<Longrightarrow>
    cache_step e tok (s, pcs, fl) (s', pcs[i := Finished], fl)"
| pop: "i < length pcs \<Longrightarrow> pcs ! i = Looping \<Longrightarrow> send_pop s = Some (Some h, s') \<Longrightarrow>
    cache_step e tok (s, pcs, fl) (s', pcs[i := Holding h], fl)"
| pop_empty: "i < length pcs \<Longrightarrow> pcs ! i = Looping \<Longrightarrow> send_pop s = Some (None, s') \<Longrightarrow>
    cache_step e tok (s, pcs, fl) (s', pcs, fl)"
| finish: "i < length pcs \<Longrightarrow> pcs ! i = Holding h \<Longrightarrow> send_finish e tok h s = Some s' \<Longrightarrow>
    cache_step e tok (s, pcs, fl) (s', pcs[i := Looping], fl)"
| leave: "i < length pcs \<Longrightarrow> pcs ! i = Looping \<Longrightarrow>
    cache_step e tok (s, pcs, fl) (send_end s, pcs[i := Finished], fl)"
| admit: "cache_admit m p t s = Some (Inr h, s') \<Longrightarrow> cache_step e tok (s, pcs, fl) (s', pcs, fl @ [h])"
| refuse: "cache_admit m p t s = Some (Inl err, s') \<Longrightarrow> cache_step e tok (s, pcs, fl) (s', pcs, fl)"
| push: "i < length fl \<Longrightarrow> cache_push (fl ! i) s = Some s' \<Longrightarrow>
    cache_step e tok (s, pcs, fl) (s', pcs, take i fl @ drop (Suc i) fl)"
| mqtt_event: "queue_fields s' = queue_fields s \<Longrightarrow> cache_step e tok (s, pcs, fl) (s', pcs, fl)"

inductive_cases cache_stepE: "cache_step e tok c c'"

fun working :: "sender_pc \<Rightarrow> bool" where
  "working Looping = True"
| "working (Holding h) = True"
| "working Starting = False"
| "working Finished = False"

definition sys_inv :: "int \<Rightarrow> 'a cache_sys \<Rightarrow> bool" where
  "sys_inv cap c \<longleftrightarrow>
     (case c of (s, pcs, fl) \<Rightarrow>
        g_cacheCapacity s = cap \<and> list_len s \<le> cap \<and>
        length (filter working pcs) = (if g_isAsyncSending s then 1 else 0))"

section \<open>Lemmas: frames\<close>

lemma list_len_fields: "queue_fields s' = queue_fields s \<Longrightarrow> list_len s' = list_len s"
  by (simp add: queue_fields_def list_len_def)

lemma fields_simps [simp]:
  "queue_fields (s\<lparr>fs_files := f\<rparr>) = queue_fields s"
  "queue_fields (s\<lparr>g_deviceSN := d\<rparr>) = queue_fields s"
  "queue_fields (s\<lparr>paho_trace := t\<rparr>) = queue_fields s"
  "queue_fields (unlink p s) = queue_fields s"
  "queue_fields (increase_sent_msg_count s) = queue_fields s"
  "queue_fields (increase_offline_sent_msg_count s) = queue_fields s"
  "queue_fields (increase_offline_discarded_msg_count s) = queue_fields s"
  by (simp_all add: queue_fields_def unlink_def increase_sent_msg_count_def increase_offline_sent_msg_count_def
      increase_offline_discarded_msg_count_def)

lemma device_sn_update: "\<exists>d. snd (get_device_sn s) = s\<lparr>g_deviceSN := d\<rparr>"
proof -
  have "\<exists>d. s = s\<lparr>g_deviceSN := d\<rparr>" by (rule exI [of _ "g_deviceSN s"]) simp
  then show ?thesis by (auto simp: get_device_sn_def Let_def)
qed

lemma enrich_update: "\<exists>d. snd (enrich_payload mac j s) = s\<lparr>g_deviceSN := d\<rparr>"
proof -
  have "\<exists>d. s = s\<lparr>g_deviceSN := d\<rparr>" by (rule exI [of _ "g_deviceSN s"]) simp
  moreover have "snd (enrich_payload mac j s) \<in> {s, snd (get_device_sn s)}"
    by (simp add: enrich_payload_def Let_def split: prod.split)
  ultimately show ?thesis using device_sn_update [of s] by auto
qed

lemma parse_update:
  assumes "parse_mqtt_send_request_body tok body mac s = (rc, c, j, err, s')"
  shows "\<exists>d. s' = s\<lparr>g_deviceSN := d\<rparr>"
proof -
  have "\<exists>d. s = s\<lparr>g_deviceSN := d\<rparr>" by (rule exI [of _ "g_deviceSN s"]) simp
  moreover have "s' = s \<or> (\<exists>j. s' = snd (enrich_payload mac j s))"
    using assms by (auto simp: parse_mqtt_send_request_body_def Let_def split: option.splits prod.splits if_splits)
      (metis snd_conv)+
  ultimately show ?thesis using enrich_update by metis
qed

lemma send_message_fields:
  "MQTTClientWrapper_sendMessage e t m q s = Some (rc, s') \<Longrightarrow> queue_fields s' = queue_fields s"
  by (auto simp: MQTTClientWrapper_sendMessage_def paho_def split: option.splits if_splits prod.splits)

lemma send_requeue_len:
  assumes "send_requeue h s = Some s'"
  shows "g_cacheCapacity s' = g_cacheCapacity s \<and> g_isAsyncSending s' = g_isAsyncSending s \<and>
    (list_len s \<le> g_cacheCapacity s \<longrightarrow> list_len s' \<le> g_cacheCapacity s)"
  using assms by (auto simp: send_requeue_def list_len_def split: if_splits option.splits)

lemma fields_eqs:
  "queue_fields s' = queue_fields s \<Longrightarrow> g_cacheCapacity s' = g_cacheCapacity s \<and> g_isAsyncSending s' = g_isAsyncSending s \<and>
     g_list s' = g_list s \<and> list_len s' = list_len s"
  by (simp add: queue_fields_def list_len_def)

text \<open>Finishing a header changes the queue only through \<open>send_requeue\<close>.\<close>

lemma send_finish_cases:
  assumes "send_finish e tok h s = Some s'"
  obtains "queue_fields s' = queue_fields s"
    | s3 where "queue_fields s3 = queue_fields s" and "send_requeue h s3 = Some s'"
proof -
  obtain path s1 where s1: "get_cache_file_path (h_priority h) (h_timestamp h) s = Some (path, s1)"
    using assms by (auto simp: send_finish_def bind_eq_Some_conv)
  note f1 = get_cache_file_path_fields [OF s1]
  consider (keep) "s' = s1 \<or> s' = unlink path s1"
    | (parsed) body rc content jobj err s2 where
        "parse_mqtt_send_request_body tok (c_str body) None s1 = (rc, content, jobj, err, s2)"
        "s' = unlink path s2 \<or> (\<exists>r s3. MQTTClientWrapper_sendMessage e (the (topic content)) (the (payload content))
            (qos content) s2 = Some (r, s3) \<and>
          (s' = unlink path (increase_offline_sent_msg_count s3) \<or> send_requeue h s3 = Some s'))"
    using assms s1 by (auto simp: send_finish_def bind_eq_Some_conv split: if_splits prod.splits option.splits)
  then show thesis
  proof cases
    case keep
    then show thesis using f1 by (intro that(1)) auto
  next
    case parsed
    have f2: "queue_fields s2 = queue_fields s" using parse_update [OF parsed(1)] f1 by auto
    from parsed(2) show thesis
    proof (elim disjE exE conjE)
      assume "s' = unlink path s2"
      then show thesis using f2 by (intro that(1)) simp
    next
      fix r s3
      assume m: "MQTTClientWrapper_sendMessage e (the (topic content)) (the (payload content)) (qos content) s2 = Some (r, s3)"
      note f3 = send_message_fields [OF m]
      { assume "s' = unlink path (increase_offline_sent_msg_count s3)"
        then show thesis using f2 f3 by (intro that(1)) simp
      next
        assume "send_requeue h s3 = Some s'"
        then show thesis using f2 f3 by (intro that(2) [of s3]) simp_all }
    qed
  qed
qed

lemma cache_admit_fields:
  assumes "cache_admit m p t s = Some (r, s')"
  shows "queue_fields s' = queue_fields s"
proof -
  obtain ok where ok: "can_message_enter_offine_queue p s = Some ok"
    using assms by (auto simp: cache_admit_def bind_eq_Some_conv)
  show ?thesis
  proof (cases "\<not> ok \<or> t \<le> 0 \<or> string_is_empty m")
    case True
    then show ?thesis using assms ok by (auto simp: cache_admit_def split: if_splits)
  next
    case False
    then obtain path s1 where g: "get_cache_file_path p t s = Some (path, s1)"
      using assms ok by (auto simp: cache_admit_def bind_eq_Some_conv)
    obtain n s2 where w: "write_file_string (the m) path s1 = (n, s2)" by (rule prod.exhaust)
    have "queue_fields s2 = queue_fields s1" using w by (auto simp: write_file_string_def Let_def split: if_splits)
    moreover have "s' \<in> {s1, s2, unlink path s2}"
      using assms ok False g w by (auto simp: cache_admit_def split: if_splits)
    ultimately show ?thesis using get_cache_file_path_fields [OF g] by auto
  qed
qed

lemma cache_push_len:
  assumes "cache_push h s = Some s'"
  shows "list_len s' \<le> g_cacheCapacity s" and "g_cacheCapacity s' = g_cacheCapacity s"
    and "g_isAsyncSending s' = g_isAsyncSending s"
proof -
  obtain s1 hs where s1: "evict_loop s = Some s1" "g_list s1 = Some hs" "s' = s1\<lparr>g_list := Some (hs @ [h])\<rparr>"
    using assms by (auto simp: cache_push_def bind_eq_Some_conv split: option.splits)
  have "list_len s1 < g_cacheCapacity s \<and> g_cacheCapacity s1 = g_cacheCapacity s \<and> g_isAsyncSending s1 = g_isAsyncSending s"
    using evict_loop_result [OF s1(1)] .
  then show "list_len s' \<le> g_cacheCapacity s" "g_cacheCapacity s' = g_cacheCapacity s" "g_isAsyncSending s' = g_isAsyncSending s"
    using s1(2,3) by (auto simp: list_len_def)
qed

lemma send_pop_len:
  assumes "send_pop s = Some (r, s')"
  shows "list_len s' \<le> list_len s" and "g_cacheCapacity s' = g_cacheCapacity s"
    and "g_isAsyncSending s' = g_isAsyncSending s"
  using assms by (auto simp: send_pop_def list_len_def split: option.splits list.splits)

lemma send_finish_len:
  assumes "send_finish e tok h s = Some s'" and "list_len s \<le> g_cacheCapacity s"
  shows "list_len s' \<le> g_cacheCapacity s" and "g_cacheCapacity s' = g_cacheCapacity s"
    and "g_isAsyncSending s' = g_isAsyncSending s"
proof -
  have "list_len s' \<le> g_cacheCapacity s \<and> g_cacheCapacity s' = g_cacheCapacity s \<and> g_isAsyncSending s' = g_isAsyncSending s"
    using assms(1)
  proof (cases rule: send_finish_cases)
    case 1
    then show ?thesis using fields_eqs [of s' s] assms(2) by simp
  next
    case (2 s3)
    then show ?thesis using fields_eqs [of s3 s] send_requeue_len [of h s3 s'] assms(2) by simp
  qed
  then show "list_len s' \<le> g_cacheCapacity s" "g_cacheCapacity s' = g_cacheCapacity s"
    "g_isAsyncSending s' = g_isAsyncSending s" by auto
qed

lemma working_update:
  "i < length pcs \<Longrightarrow> length (filter working (pcs[i := x])) + (if working (pcs ! i) then 1 else 0) =
     length (filter working pcs) + (if working x then 1 else 0)"
  by (rule length_filter_update)

lemma cache_step_inv: "cache_step e tok c c' \<Longrightarrow> sys_inv cap c \<Longrightarrow> sys_inv cap c'"
proof (induction rule: cache_step.induct)
  case (begin_send i pcs s s' e tok fl)
  then show ?case using working_update [of i pcs Looping]
    by (auto simp: sys_inv_def send_begin_def list_len_def split: if_splits)
next
  case (begin_refused i pcs s s' e tok fl)
  then show ?case using working_update [of i pcs Finished]
    by (auto simp: sys_inv_def send_begin_def split: if_splits)
next
  case (pop i pcs s h s' e tok fl)
  then show ?case using working_update [of i pcs "Holding h"] send_pop_len [OF pop(3)] by (auto simp: sys_inv_def)
next
  case (pop_empty i pcs s s' e tok fl)
  then show ?case using send_pop_len [OF pop_empty(3)] by (auto simp: sys_inv_def)
next
  case (finish i pcs h e tok s s' fl)
  then show ?case using working_update [of i pcs Looping] send_finish_len [OF finish(3)] by (auto simp: sys_inv_def)
next
  case (leave i pcs e tok s fl)
  then show ?case using working_update [of i pcs Finished]
    by (auto simp: sys_inv_def send_end_def list_len_def split: if_splits)
next
  case (admit m p t s h s' e tok pcs fl)
  then show ?case using fields_eqs [OF cache_admit_fields [OF admit(1)]] by (simp add: sys_inv_def)
next
  case (refuse m p t s err s' e tok pcs fl)
  then show ?case using fields_eqs [OF cache_admit_fields [OF refuse(1)]] by (simp add: sys_inv_def)
next
  case (push i fl s s' e tok pcs)
  then show ?case using cache_push_len [OF push(2)] by (simp add: sys_inv_def)
next
  case (mqtt_event s' s e tok pcs fl)
  then show ?case using fields_eqs [OF mqtt_event(1)] by (simp add: sys_inv_def)
qed (simp_all add: sys_inv_def)

lemma cache_reachable_inv: "(cache_step e tok)\<^sup>*\<^sup>* c c' \<Longrightarrow> sys_inv cap c \<Longrightarrow> sys_inv cap c'"
  by (induction rule: rtranclp_induct) (auto intro: cache_step_inv)

section \<open>Lemmas: one message\<close>

text \<open>The request stored for a header.\<close>

definition stored :: "(string \<Rightarrow> json option) \<Rightarrow> 'a cache_state_scheme \<Rightarrow> cache_file_header \<Rightarrow> json \<Rightarrow> bool" where
  "stored tok s h j \<longleftrightarrow> (\<exists>body. fs_files s (cache_path s h) = Some body \<and> body \<noteq> [] \<and> tok (c_str body) = Some j)"

definition wire_payload :: "json \<Rightarrow> 'a mqtt_state_scheme \<Rightarrow> string" where
  "wire_payload j s = fst (accepted None j s)"

text \<open>A header whose file holds an acceptable request of sendable size.\<close>

definition sendable :: "(string \<Rightarrow> json option) \<Rightarrow> 'a cache_state_scheme \<Rightarrow> cache_file_header \<Rightarrow> bool" where
  "sendable tok s h \<longleftrightarrow> (\<exists>j. stored tok s h j \<and> request_ok j \<and> length (wire_payload j s) < 2147483633)"

definition publishes ::
    "'k hub_env \<Rightarrow> (string \<Rightarrow> json option) \<Rightarrow> 'a cache_state_scheme \<Rightarrow> cache_file_header \<Rightarrow> paho_call \<Rightarrow> bool" where
  "publishes e tok s h c \<longleftrightarrow>
     (\<exists>j p. stored tok s h j \<and> c = MQTTAsync_sendMessage (the_topic j) p (clamp_qos (the_qos j)) \<and>
        mqtt_payload_encrypt (aes e) (c_rand e) (time_now s)
          (bytes_of (wire_payload j s) @ 0 # heap_tail e) (length (wire_payload j s)) = Some (SUCCESS, Some p))"

text \<open>What sending a header depends on and must keep for the next one.\<close>

definition same_sender :: "'a cache_state_scheme \<Rightarrow> 'a cache_state_scheme \<Rightarrow> bool" where
  "same_sender s s' \<longleftrightarrow> fst (get_device_sn s') = fst (get_device_sn s) \<and> clock s' = clock s \<and>
     g_cacheRootPath s' = g_cacheRootPath s \<and> client s' = client s \<and> connected s' = connected s \<and>
     g_cacheCapacity s' = g_cacheCapacity s"

lemma wire_payload_cong:
  assumes "same_sender s s'"
  shows "wire_payload j s' = wire_payload j s"
proof -
  have e: "fst (enrich_payload mac (JObject ms) s') = fst (enrich_payload mac (JObject ms) s)" for mac ms
    using assms by (simp add: enrich_payload_eq same_sender_def time_now_def)
  show ?thesis
    by (simp add: wire_payload_def accepted_def case_prod_beta e split: option.split json.split)
qed

lemma accepted_sender:
  assumes "accepted None j s = (t, j', s')"
  shows "\<exists>d. s' = s\<lparr>g_deviceSN := d\<rparr>" and "same_sender s s'"
proof -
  have id: "\<exists>d. s = s\<lparr>g_deviceSN := d\<rparr>" by (rule exI [of _ "g_deviceSN s"]) simp
  have "s' = s \<or> s' = snd (get_device_sn s)"
    using assms by (auto simp: accepted_def enrich_payload_def Let_def split: option.splits json.splits prod.splits if_splits)
  moreover have "same_sender s s" by (simp add: same_sender_def)
  moreover have "same_sender s (snd (get_device_sn s))"
  proof -
    have "fst (get_device_sn (snd (get_device_sn s))) = fst (get_device_sn s)" by (simp only: get_device_sn_cached)
    moreover have "clock (snd (get_device_sn s)) = clock s" "g_cacheRootPath (snd (get_device_sn s)) = g_cacheRootPath s"
      "g_cacheCapacity (snd (get_device_sn s)) = g_cacheCapacity s"
      by (simp_all add: get_device_sn_def Let_def)
    ultimately show ?thesis by (simp add: same_sender_def)
  qed
  ultimately show "\<exists>d. s' = s\<lparr>g_deviceSN := d\<rparr>" "same_sender s s'"
    using id device_sn_update [of s] by blast+
qed

lemma send_finish_parsed:
  assumes r: "g_cacheRootPath s \<noteq> []" and j: "stored tok s h j" "request_ok j" "length (wire_payload j s) < 2147483633"
    and e: "send_env_ok e"
  obtains p s2 d where "s2 = s\<lparr>g_deviceSN := d\<rparr>" and "same_sender s s2"
    and "mqtt_payload_encrypt (aes e) (c_rand e) (time_now s)
      (bytes_of (wire_payload j s) @ 0 # heap_tail e) (length (wire_payload j s)) = Some (SUCCESS, Some p)"
    and "send_finish e tok h s =
      (let c = MQTTAsync_sendMessage (the_topic j) p (clamp_qos (the_qos j)); s3 = s2\<lparr>paho_trace := paho_trace s @ [c]\<rparr>
       in if answer e (paho_trace s) c = 0
          then Some (unlink (cache_path s h) (increase_offline_sent_msg_count (increase_sent_msg_count s3)))
          else send_requeue h s3)"
proof -
  obtain body where b: "fs_files s (cache_path s h) = Some body" "body \<noteq> []" "tok (c_str body) = Some j"
    using j(1) by (auto simp: stored_def)
  obtain pl j' s2 where a: "accepted None j s = (pl, j', s2)" by (metis prod.exhaust)
  have pl: "pl = wire_payload j s" using a by (simp add: wire_payload_def)
  obtain d where d: "s2 = s\<lparr>g_deviceSN := d\<rparr>" using accepted_sender(1) [OF a] by blast
  have ss: "same_sender s s2" using accepted_sender(2) [OF a] .
  obtain fm where p: "parse_mqtt_send_request_body tok (c_str body) None s =
      (SUCCESS, \<lparr>from_module = fm, topic = Some (the_topic j), payload = Some pl, qos = the_qos j,
        cache_priority = the_priority j\<rparr>, Some j', '''', s2)"
    using parse_result [where tok = tok and body = "c_str body", OF b(3) j(2) a] by blast
  have path: "get_cache_file_path (h_priority h) (h_timestamp h) s = Some (cache_path s h, s)"
    using r by (simp add: get_cache_file_path_ready cache_path_def header_name_def)
  have ex: "file_exists (cache_path s h) s" using b by (simp add: file_exists_def os_exists_def)
  have rd: "read_file_string (cache_path s h) s = (length body, Some body)" using b by (simp add: read_file_string_def)
  have len: "length pl < 2147483633" using j(3) pl by simp
  obtain q where q: "mqtt_payload_encrypt (aes e) (c_rand e) (time_now s2) (bytes_of pl @ 0 # heap_tail e) (length pl)
      = Some (SUCCESS, Some q)"
    "MQTTClientWrapper_sendMessage e (the_topic j) pl (the_qos j) s2 =
      (let c = MQTTAsync_sendMessage (the_topic j) q (clamp_qos (the_qos j)); s1 = s2\<lparr>paho_trace := paho_trace s2 @ [c]\<rparr>
       in if answer e (paho_trace s2) c = 0 then Some (SUCCESS, increase_sent_msg_count s1) else Some (FAILURE, s1))"
    using sendMessage_cases [OF e len, of s2 "the_topic j" "the_qos j"] by blast
  have tn: "time_now s2 = time_now s" and tr: "paho_trace s2 = paho_trace s" by (simp_all add: d time_now_def)
  have fin: "send_finish e tok h s =
      (let c = MQTTAsync_sendMessage (the_topic j) q (clamp_qos (the_qos j)); s3 = s2\<lparr>paho_trace := paho_trace s @ [c]\<rparr>
       in if answer e (paho_trace s) c = 0
          then Some (unlink (cache_path s h) (increase_offline_sent_msg_count (increase_sent_msg_count s3)))
          else send_requeue h s3)"
    using path ex rd b(2) p q(2)
    by (simp add: send_finish_def tr Let_def MQTTClientWrapper_errorDescription_def)
  show thesis by (rule that [OF d ss q(1) [unfolded tn pl] fin])
qed

section \<open>Lemmas: draining the queue\<close>

lemma same_sender_trans: "same_sender s s1 \<Longrightarrow> same_sender s1 s2 \<Longrightarrow> same_sender s s2"
  by (simp add: same_sender_def)

lemma stored_frame:
  assumes "same_sender s s'" and "fs_files s' (cache_path s h) = fs_files s (cache_path s h)"
  shows "stored tok s' h j = stored tok s h j" and "sendable tok s' h = sendable tok s h"
    and "publishes e tok s' h c = publishes e tok s h c"
proof -
  have "cache_path s' h = cache_path s h" using assms(1) by (simp add: cache_path_def same_sender_def)
  then have st: "stored tok s' h j = stored tok s h j" for j using assms(2) by (simp add: stored_def)
  then show "stored tok s' h j = stored tok s h j" .
  have tn: "time_now s' = time_now s" using assms(1) by (simp add: time_now_def same_sender_def)
  show "sendable tok s' h = sendable tok s h" by (simp add: sendable_def st wire_payload_cong [OF assms(1)])
  show "publishes e tok s' h c = publishes e tok s h c"
    by (simp add: publishes_def st wire_payload_cong [OF assms(1)] tn)
qed

text \<open>One accepted publish: the file is gone, the trace has one more call, the counter one more.\<close>

lemma send_one:
  assumes wf: "cache_wf s (h # hs)" and sd: "sendable tok s h" and e: "send_env_ok e"
    and ok: "\<And>tr t p q. answer e tr (MQTTAsync_sendMessage t p q) = 0"
  obtains s' c where "send_finish e tok h (s\<lparr>g_list := Some hs\<rparr>) = Some s'" and "cache_wf s' hs"
    and "same_sender s s'" and "fs_files s' = (fs_files s)(cache_path s h := None)"
    and "paho_trace s' = paho_trace s @ [c]" and "publishes e tok s h c"
    and "g_offline_sent_msg_count s' = wrap32 (g_offline_sent_msg_count s + 1)"
proof -
  let ?s = "s\<lparr>g_list := Some hs\<rparr>"
  obtain j where j: "stored tok s h j" "request_ok j" "length (wire_payload j s) < 2147483633"
    using sd by (auto simp: sendable_def)
  have ss: "same_sender s ?s" by (simp add: same_sender_def get_device_sn_def Let_def)
  have st: "stored tok ?s h j" and wp: "wire_payload j ?s = wire_payload j s"
    using stored_frame(1) [OF ss, of h tok j] j(1) wire_payload_cong [OF ss] by simp_all
  have r: "g_cacheRootPath ?s \<noteq> []" using wf by (simp add: cache_wf_def)
  obtain p s2 d where s2: "s2 = ?s\<lparr>g_deviceSN := d\<rparr>" and sss: "same_sender ?s s2"
    and enc: "mqtt_payload_encrypt (aes e) (c_rand e) (time_now ?s)
      (bytes_of (wire_payload j ?s) @ 0 # heap_tail e) (length (wire_payload j ?s)) = Some (SUCCESS, Some p)"
    and fin: "send_finish e tok h ?s =
      (let c = MQTTAsync_sendMessage (the_topic j) p (clamp_qos (the_qos j)); s3 = s2\<lparr>paho_trace := paho_trace ?s @ [c]\<rparr>
       in if answer e (paho_trace ?s) c = 0
          then Some (unlink (cache_path ?s h) (increase_offline_sent_msg_count (increase_sent_msg_count s3)))
          else send_requeue h s3)"
    using send_finish_parsed [OF r st j(2) _ e] j(3) wp by metis
  let ?c = "MQTTAsync_sendMessage (the_topic j) p (clamp_qos (the_qos j))"
  let ?s' = "unlink (cache_path s h) (increase_offline_sent_msg_count (increase_sent_msg_count (s2\<lparr>paho_trace := paho_trace s @ [?c]\<rparr>)))"
  note defs = unlink_def increase_offline_sent_msg_count_def increase_sent_msg_count_def
  have cp: "cache_path ?s h = cache_path s h" by (simp add: cache_path_def)
  have 1: "send_finish e tok h ?s = Some ?s'" using fin ok cp by (simp add: Let_def)
  have "same_sender s2 ?s'" by (simp add: same_sender_def defs get_device_sn_def Let_def)
  then have 3: "same_sender s ?s'" using ss sss same_sender_trans by blast
  have 2: "cache_wf ?s' hs" using wf by (simp add: cache_wf_def defs s2)
  have 6: "publishes e tok s h ?c" using enc wp j(1) by (auto simp: publishes_def time_now_def)
  show thesis by (rule that [OF 1 2 3 _ _ 6]) (simp_all add: defs s2)
qed

lemma send_loop_drains:
  assumes "cache_wf s hs" and "\<forall>h \<in> set hs. sendable tok s h" and "send_env_ok e"
    and "\<And>tr t p q. answer e tr (MQTTAsync_sendMessage t p q) = 0" and "client s" and "connected s"
  shows "\<exists>s' cs. send_loop e tok s = Some s' \<and> g_list s' = Some [] \<and> paho_trace s' = paho_trace s @ cs \<and>
    list_all2 (publishes e tok s) hs cs \<and> (\<forall>h \<in> set hs. fs_files s' (cache_path s h) = None) \<and>
    (\<forall>p. p \<notin> cache_path s ` set hs \<longrightarrow> fs_files s' p = fs_files s p) \<and>
    g_offline_sent_msg_count s' = (if hs = [] then g_offline_sent_msg_count s
      else wrap32 (g_offline_sent_msg_count s + int (length hs)))"
  using assms(1,2,5,6)
proof (induction hs arbitrary: s)
  case Nil
  then have "send_loop e tok s = Some s"
    by (subst send_loop.simps) (simp add: offline_messages_count_def list_len_def cache_wf_def)
  then show ?case using Nil by (auto simp: cache_wf_def)
next
  case (Cons h hs)
  obtain s1 c where s1: "send_finish e tok h (s\<lparr>g_list := Some hs\<rparr>) = Some s1" "cache_wf s1 hs" "same_sender s s1"
      "fs_files s1 = (fs_files s)(cache_path s h := None)" "paho_trace s1 = paho_trace s @ [c]" "publishes e tok s h c"
      "g_offline_sent_msg_count s1 = wrap32 (g_offline_sent_msg_count s + 1)"
    using send_one [OF Cons.prems(1) _ assms(3,4)] Cons.prems(2) by (metis list.set_intros(1))
  have apart: "cache_path s x \<noteq> cache_path s h" if "x \<in> set hs" for x
  proof -
    have "h_timestamp h \<notin> h_timestamp ` set hs" "header_ok x" "header_ok h"
      using Cons.prems(1) that by (auto simp: cache_wf_def)
    then show ?thesis using that cache_path_timestamp [of x h s] by (metis imageI)
  qed
  then have keep: "fs_files s1 (cache_path s x) = fs_files s (cache_path s x)" if "x \<in> set hs" for x
    using that s1(4) by simp
  have cp: "cache_path s1 = cache_path s" using s1(3) by (simp add: cache_path_def same_sender_def fun_eq_iff)
  have "\<forall>x \<in> set hs. sendable tok s1 x" using Cons.prems(2) stored_frame(2) [OF s1(3) keep] by simp
  moreover have "client s1" "connected s1" using Cons.prems s1(3) by (simp_all add: same_sender_def)
  ultimately obtain s' cs where IH: "send_loop e tok s1 = Some s'" "g_list s' = Some []" "paho_trace s' = paho_trace s1 @ cs"
      "list_all2 (publishes e tok s1) hs cs" "\<forall>x \<in> set hs. fs_files s' (cache_path s1 x) = None"
      "\<forall>p. p \<notin> cache_path s1 ` set hs \<longrightarrow> fs_files s' p = fs_files s1 p"
      "g_offline_sent_msg_count s' = (if hs = [] then g_offline_sent_msg_count s1
        else wrap32 (g_offline_sent_msg_count s1 + int (length hs)))"
    using Cons.IH [OF s1(2)] by blast
  have "list_all2 (publishes e tok s) hs cs"
    using IH(4) stored_frame(3) [where e = e, OF s1(3) keep] by (auto simp: list_all2_conv_all_nth)
  moreover have "send_loop e tok s = Some s'"
    using Cons.prems s1(1) IH(1)
    by (subst send_loop.simps)
      (simp add: offline_messages_count_def list_len_def cache_wf_def MQTTClientWrapper_isConnected_def send_pop_def)
  moreover have "fs_files s' (cache_path s h) = None"
    using IH(5,6) s1(4) cp by (cases "cache_path s h \<in> cache_path s1 ` set hs") auto
  moreover have "g_offline_sent_msg_count s' = wrap32 (g_offline_sent_msg_count s + int (length (h # hs)))"
    using IH(7) s1(7) wrap32_add [of "g_offline_sent_msg_count s + 1" "int (length hs)"] by (auto simp: add.assoc)
  ultimately show ?case
    using IH(2,3,5,6) s1(4,5,6) cp by (intro exI [of _ s'] exI [of _ "c # cs"]) auto
qed

section \<open>Lemmas: loading\<close>

text \<open>The names a run leaves in the cache directory give back its headers.\<close>

definition reloaded :: "cache_file_header \<Rightarrow> cache_file_header" where
  "reloaded h = h\<lparr>h_priority := (if 0 \<le> h_priority h then h_priority h else VALUE_CACHE_PRIORITY_DEFAULT)\<rparr>"

lemma header_name_base:
  assumes "header_ok h"
  shows "get_file_base_name (Some (header_name h)) \<noteq> []"
    and "get_cache_file_header_from_file_base (get_file_base_name (Some (header_name h))) =
      (h_priority (reloaded h), h_timestamp h)"
    and "string_equals (get_file_suffix (Some (header_name h))) CACHE_FILE_SUFFIX True"
proof -
  have n: "header_name h = (if 0 \<le> h_priority h then show_int (h_timestamp h) @ ''-'' @ show_int (h_priority h)
      else show_int (h_timestamp h)) @ CACHE_FILE_SUFFIX"
    by (simp add: header_name_def cache_file_name_def)
  have "show_int (h_timestamp h) \<noteq> []" using assms by (simp add: show_int_pos header_ok_def)
  then show "get_file_base_name (Some (header_name h)) \<noteq> []" unfolding n by (simp add: base_of_cache_name)
  show "get_cache_file_header_from_file_base (get_file_base_name (Some (header_name h))) =
      (h_priority (reloaded h), h_timestamp h)"
    using header_name_round_trip [OF assms] by (simp add: reloaded_def)
  show "string_equals (get_file_suffix (Some (header_name h))) CACHE_FILE_SUFFIX True"
    unfolding n suffix_of_cache_name by (simp add: string_equals_def strcase_eq_def)
qed

lemma compare_names:
  "header_ok x \<Longrightarrow> header_ok y \<Longrightarrow>
     offline_cache_file_compare (header_name x) (header_name y) \<le> 0 \<longleftrightarrow> h_timestamp x \<le> h_timestamp y"
  by (simp add: offline_cache_file_compare_def header_name_base)

lemma insert_entry_names:
  "header_ok x \<Longrightarrow> \<forall>y \<in> set ys. header_ok y \<Longrightarrow>
     insert_entry (header_name x) (map header_name ys) = map header_name (insort_key h_timestamp x ys)"
  by (induction ys) (simp_all add: compare_names)

lemma sort_names:
  "\<forall>y \<in> set ys. header_ok y \<Longrightarrow>
     foldr insert_entry (map header_name ys) [] = map header_name (sort_key h_timestamp ys)"
proof (induction ys)
  case (Cons y ys)
  then have "\<forall>z \<in> set (sort_key h_timestamp ys). header_ok z" by simp
  with Cons show ?case by (simp add: insert_entry_names)
qed simp

lemma load_loop_names:
  "\<forall>h \<in> set hs. header_ok h \<Longrightarrow> g_list s = Some qs \<Longrightarrow>
     load_loop root (map header_name hs) n s =
       Some (n + int (length hs), s\<lparr>g_list := Some (qs @ map reloaded hs)\<rparr>)"
proof (induction hs arbitrary: n s qs)
  case (Cons h hs)
  have h: "header_ok h" using Cons.prems by simp
  then have t: "0 < h_timestamp h" by (simp add: header_ok_def)
  have "\<lparr>h_priority = h_priority (reloaded h), h_timestamp = h_timestamp h\<rparr> = reloaded h"
    by (simp add: reloaded_def)
  then show ?case
    using Cons.IH [of "s\<lparr>g_list := Some (qs @ [reloaded h])\<rparr>" "qs @ [reloaded h]" "n + 1"] Cons.prems h t
    by (simp add: header_name_base Let_def)
qed simp

lemma filter_names:
  assumes "\<forall>h \<in> set hs. header_ok h \<and> fs_files s (root @ ''/'' @ header_name h) \<noteq> None"
  shows "filter (\<lambda>d. filter_offline_cache_file root d s) (map header_name hs) = map header_name hs"
proof -
  have "filter_offline_cache_file root (header_name h) s" if "h \<in> set hs" for h
    using assms that header_name_base(3) [of h]
    by (auto simp: filter_offline_cache_file_def is_file_def os_exists_def)
  then show ?thesis by (auto simp: filter_map filter_id_conv o_def)
qed

section \<open>Properties\<close>

text \<open>
  C5: In every interleaving of producers, sender threads and broker events, cut at the lock
  operations, the queue never exceeds its capacity, at most one sender thread works, and
  g_isAsyncSending is set exactly while one does.
\<close>

theorem queue_bounded_and_one_sender:
  assumes "(cache_step e tok)\<^sup>*\<^sup>* (s, [], []) (s', pcs, fl)" and "list_len s \<le> g_cacheCapacity s"
    and "\<not> g_isAsyncSending s"
  shows "list_len s' \<le> g_cacheCapacity s \<and> length (filter working pcs) \<le> 1 \<and>
    (g_isAsyncSending s' \<longleftrightarrow> (\<exists>pc \<in> set pcs. working pc))"
proof -
  have "sys_inv (g_cacheCapacity s) (s, [], [])" using assms(2,3) by (simp add: sys_inv_def)
  then have i: "sys_inv (g_cacheCapacity s) (s', pcs, fl)" using assms(1) cache_reachable_inv by blast
  then have "g_isAsyncSending s' \<longleftrightarrow> filter working pcs \<noteq> []" by (auto simp: sys_inv_def split: if_splits)
  then show ?thesis using i by (auto simp: sys_inv_def filter_empty_conv)
qed

text \<open>
  C4: When the broker accepts every publish, the sender thread terminates with an empty queue;
  it has published every cached message once, in queue order, with the encrypted payload of its
  document, removed every cache file and released its flag.
\<close>

theorem sender_drains_in_order:
  assumes "cache_wf s hs" and "\<forall>h \<in> set hs. sendable tok s h" and "send_env_ok e"
    and "\<And>tr t p q. answer e tr (MQTTAsync_sendMessage t p q) = 0"
    and "client s" and "connected s" and "\<not> g_isAsyncSending s"
  shows "\<exists>s' cs. send_messages_thread_fun e tok s = Some s' \<and> g_list s' = Some [] \<and> \<not> g_isAsyncSending s' \<and>
    paho_trace s' = paho_trace s @ cs \<and> list_all2 (publishes e tok s) hs cs \<and>
    (\<forall>h \<in> set hs. fs_files s' (cache_path s h) = None)"
proof -
  let ?s = "s\<lparr>g_isAsyncSending := True\<rparr>"
  have ss: "same_sender s ?s" by (simp add: same_sender_def get_device_sn_def Let_def)
  have fr: "fs_files ?s (cache_path s h) = fs_files s (cache_path s h)" for h by simp
  have "cache_wf ?s hs" using assms(1) by (simp add: cache_wf_def)
  moreover have "\<forall>h \<in> set hs. sendable tok ?s h" using assms(2) stored_frame(2) [OF ss fr] by simp
  ultimately obtain s' cs where l: "send_loop e tok ?s = Some s'" "g_list s' = Some []" "paho_trace s' = paho_trace ?s @ cs"
      "list_all2 (publishes e tok ?s) hs cs" "\<forall>h \<in> set hs. fs_files s' (cache_path ?s h) = None"
    using send_loop_drains [of ?s hs tok e] assms(3-6) by auto
  have "publishes e tok ?s = publishes e tok s" using stored_frame(3) [where e = e, OF ss fr] by (simp add: fun_eq_iff)
  then show ?thesis
    using l assms(7) by (intro exI [of _ "send_end s'"] exI [of _ cs])
      (auto simp: send_messages_thread_fun_def send_begin_def send_end_def cache_path_def)
qed


text \<open>
  C6: load_offline_messages after a restart rebuilds the queue from the file names of the cache
  directory: all headers come back in time order, with their priority (a negative priority
  becomes the default).
\<close>

theorem restart_recovers_queue:
  assumes "g_cacheRootPath s \<noteq> []" and "g_list s = None"
    and "\<forall>h \<in> set hs. header_ok h \<and> fs_files s (cache_path s h) \<noteq> None"
  shows "load_offline_messages (Some (map header_name hs)) s =
    Some (int (length hs), s\<lparr>g_list := Some (map reloaded (sort_key h_timestamp hs))\<rparr>)"
proof -
  have f: "filter (\<lambda>d. filter_offline_cache_file (g_cacheRootPath s) d s) (map header_name hs) = map header_name hs"
    using assms(3) by (intro filter_names) (simp add: cache_path_def)
  have sc: "scandir (\<lambda>d. filter_offline_cache_file (g_cacheRootPath s) d s) (map header_name hs) =
      map header_name (sort_key h_timestamp hs)"
    unfolding scandir_def f using assms(3) by (intro sort_names) blast
  have "load_loop (g_cacheRootPath s) (map header_name (sort_key h_timestamp hs)) 0 (s\<lparr>g_list := Some []\<rparr>) =
      Some (0 + int (length (sort_key h_timestamp hs)),
        s\<lparr>g_list := Some []\<rparr>\<lparr>g_list := Some ([] @ map reloaded (sort_key h_timestamp hs))\<rparr>)"
    using assms(3) by (intro load_loop_names) simp_all
  then show ?thesis
    using assms(1,2) sc by (simp add: load_offline_messages_def cache_root_path_def init_list_def)
qed

end
