(* ===== verification/ThreadPool.thy ===== *)
theory ThreadPool
  imports Prelude "HOL-Library.Multiset"
begin

text \<open>
  The thread pool of \<open>sharelibs/utils/source/threadpool.c\<close> and its wrapper
  \<open>hub-app/source/threadpoolwrapper.c\<close>. The task queue is the ring buffer of the
  source (array, \<open>head\<close>, \<open>tail\<close>, \<open>count\<close>); it implements a bounded
  FIFO queue. Worker threads are program counters that move by \<open>pool_step\<close>, cut at
  the pool's lock; condition variables only delay a step. \<open>locked\<close> is a lock that an
  operation has taken and not released: every later operation on the pool blocks, the
  result \<open>None\<close>.

  Main results: tasks are started in the order in which they were accepted, none twice
  and none lost; the queue never exceeds its size; a graceful shutdown ends with every
  accepted task run.
\<close>

section \<open>Definitions\<close>

definition MAX_THREADS :: int where "MAX_THREADS = 64"
definition MAX_QUEUE :: int where "MAX_QUEUE = 65536"

abbreviation (input) threadpool_invalid :: int where "threadpool_invalid \<equiv> - 1"
abbreviation (input) threadpool_queue_full :: int where "threadpool_queue_full \<equiv> - 3"
abbreviation (input) threadpool_shutdown :: int where "threadpool_shutdown \<equiv> - 4"

datatype shutdown_mode = running | immediate_shutdown | graceful_shutdown

record 't threadpool =
  queue :: "'t option list"
  thread_count :: nat
  queue_size :: nat
  head :: nat
  tail :: nat
  count :: nat
  shutdown :: shutdown_mode
  started :: nat
  locked :: bool

text \<open>
  \<open>alloc_ok\<close>: the allocations and initialisations succeed; \<open>created\<close>: how many
  calls of \<open>pthread_create\<close> succeed before one fails. A failed creation destroys the
  pool and returns NULL.
\<close>

definition threadpool_create :: "bool \<Rightarrow> nat \<Rightarrow> int \<Rightarrow> int \<Rightarrow> 't threadpool option" where
  "threadpool_create alloc_ok created n_threads qsize =
     (if n_threads \<le> 0 \<or> n_threads > MAX_THREADS \<or> qsize \<le> 0 \<or> qsize > MAX_QUEUE then None
      else if \<not> alloc_ok then None
      else if created < nat n_threads then None
      else Some \<lparr>queue = replicate (nat qsize) None, thread_count = nat n_threads,
                 queue_size = nat qsize, head = 0, tail = 0, count = 0,
                 shutdown = running, started = nat n_threads, locked = False\<rparr>)"

definition threadpool_add :: "'t threadpool option \<Rightarrow> 't option \<Rightarrow> (int \<times> 't threadpool option) option" where
  "threadpool_add pool task =
     (case (pool, task) of
        (Some p, Some t) \<Rightarrow>
          if locked p then None
          else let nxt = (tail p + 1) mod queue_size p
               in if count p = queue_size p then Some (threadpool_queue_full, Some p)
                  else if shutdown p \<noteq> running then Some (threadpool_shutdown, Some p)
                  else Some (0, Some (p\<lparr>queue := (queue p)[tail p := Some t], tail := nxt, count := count p + 1\<rparr>))
      | _ \<Rightarrow> Some (threadpool_invalid, pool))"

text \<open>
  The first part of \<open>threadpool_destroy\<close>: set the flag, wake the workers, unlock. The
  branch for a pool that is already shutting down leaves without unlocking.
\<close>

definition threadpool_destroy :: "bool \<Rightarrow> 't threadpool option \<Rightarrow> (int \<times> 't threadpool option) option" where
  "threadpool_destroy graceful pool =
     (case pool of
        None \<Rightarrow> Some (threadpool_invalid, None)
      | Some p \<Rightarrow>
          if locked p then None
          else if shutdown p \<noteq> running then Some (threadpool_shutdown, Some (p\<lparr>locked := True\<rparr>))
          else Some (0, Some (p\<lparr>shutdown := (if graceful then graceful_shutdown else immediate_shutdown)\<rparr>)))"

text \<open>\<open>threadpool_free\<close> after the joins; -1 while a worker is alive.\<close>

definition threadpool_free :: "'t threadpool option \<Rightarrow> int \<times> 't threadpool option" where
  "threadpool_free pool =
     (case pool of
        None \<Rightarrow> (-1, None)
      | Some p \<Rightarrow> if started p > 0 then (-1, pool) else (0, None))"

text \<open>
  One pass of \<open>threadpool_thread\<close> through the lock: \<open>None\<close> waits on the condition
  variable; otherwise the worker leaves (no task) or has grabbed a task.
\<close>

definition threadpool_grab :: "'t threadpool \<Rightarrow> ('t option \<times> 't threadpool) option" where
  "threadpool_grab p =
     (if locked p \<or> (count p = 0 \<and> shutdown p = running) then None
      else if shutdown p = immediate_shutdown \<or> (shutdown p = graceful_shutdown \<and> count p = 0)
      then Some (None, p\<lparr>started := started p - 1\<rparr>)
      else Some (queue p ! head p, p\<lparr>head := (head p + 1) mod queue_size p, count := count p - 1\<rparr>))"

subsection \<open>threadpoolwrapper.c\<close>

definition THREAD_COUNT :: int where "THREAD_COUNT = 1"
definition TASK_QUEUE_COUNT :: int where "TASK_QUEUE_COUNT = 2048"

definition ThreadPoolWrapper_init :: "bool \<Rightarrow> nat \<Rightarrow> 't threadpool option \<Rightarrow> int \<times> 't threadpool option" where
  "ThreadPoolWrapper_init alloc_ok created g_threadpool =
     (if g_threadpool \<noteq> None then (SUCCESS, g_threadpool)
      else let pool = threadpool_create alloc_ok created THREAD_COUNT TASK_QUEUE_COUNT
           in if pool = None then (FAILURE, None) else (SUCCESS, pool))"

definition ThreadPoolWrapper_isInited :: "'t threadpool option \<Rightarrow> bool" where
  "ThreadPoolWrapper_isInited g_threadpool \<longleftrightarrow> g_threadpool \<noteq> None"

definition ThreadPoolWrapper_addTask ::
    "bool \<Rightarrow> nat \<Rightarrow> 't option \<Rightarrow> 't threadpool option \<Rightarrow> (int \<times> 't threadpool option) option" where
  "ThreadPoolWrapper_addTask alloc_ok created task g_threadpool =
     (if \<not> ThreadPoolWrapper_isInited g_threadpool
      then (case ThreadPoolWrapper_init alloc_ok created g_threadpool of
              (rc, pool) \<Rightarrow> if rc < 0 then Some (FAILURE, pool) else threadpool_add pool task)
      else threadpool_add g_threadpool task)"

definition ThreadPoolWrapper_deinit :: "bool \<Rightarrow> 't threadpool option \<Rightarrow> (int \<times> 't threadpool option) option" where
  "ThreadPoolWrapper_deinit graceful g_threadpool =
     (if g_threadpool = None then Some (SUCCESS, None)
      else threadpool_destroy graceful g_threadpool)"

subsection \<open>Steps\<close>

datatype 't worker_pc = Waiting | Working 't | Exited

text \<open>
  The pool with its workers, and three histories: the tasks accepted, the tasks grabbed
  and the tasks finished.
\<close>

record 't pool_sys =
  pool :: "'t threadpool"
  workers :: "'t worker_pc list"
  accepted_tasks :: "'t list"
  grabbed_tasks :: "'t list"
  finished_tasks :: "'t list"

inductive pool_step :: "'t pool_sys \<Rightarrow> 't pool_sys \<Rightarrow> bool" where
  add: "threadpool_add (Some (pool c)) (Some t) = Some (rc, Some p) \<Longrightarrow>
    pool_step c (c\<lparr>pool := p, accepted_tasks := accepted_tasks c @ (if rc = 0 then [t] else [])\<rparr>)"
| grab: "i < length (workers c) \<Longrightarrow> workers c ! i = Waiting \<Longrightarrow> threadpool_grab (pool c) = Some (Some t, p) \<Longrightarrow>
    pool_step c (c\<lparr>pool := p, workers := (workers c)[i := Working t], grabbed_tasks := grabbed_tasks c @ [t]\<rparr>)"
| leave: "i < length (workers c) \<Longrightarrow> workers c ! i = Waiting \<Longrightarrow> threadpool_grab (pool c) = Some (None, p) \<Longrightarrow>
    pool_step c (c\<lparr>pool := p, workers := (workers c)[i := Exited]\<rparr>)"
| work: "i < length (workers c) \<Longrightarrow> workers c ! i = Working t \<Longrightarrow>
    pool_step c (c\<lparr>workers := (workers c)[i := Waiting], finished_tasks := finished_tasks c @ [t]\<rparr>)"
| destroy: "threadpool_destroy g (Some (pool c)) = Some (rc, Some p) \<Longrightarrow> pool_step c (c\<lparr>pool := p\<rparr>)"

definition pool_start :: "'t threadpool \<Rightarrow> 't pool_sys" where
  "pool_start p = \<lparr>pool = p, workers = replicate (thread_count p) Waiting, accepted_tasks = [],
     grabbed_tasks = [], finished_tasks = []\<rparr>"

section \<open>The ring buffer is a queue\<close>

definition ring_wf :: "'t threadpool \<Rightarrow> bool" where
  "ring_wf p \<longleftrightarrow> 0 < queue_size p \<and> length (queue p) = queue_size p \<and> head p < queue_size p \<and>
     count p \<le> queue_size p \<and> tail p = (head p + count p) mod queue_size p \<and>
     (\<forall>i < count p. queue p ! ((head p + i) mod queue_size p) \<noteq> None)"

definition ring_contents :: "'t threadpool \<Rightarrow> 't list" where
  "ring_contents p = map (\<lambda>i. the (queue p ! ((head p + i) mod queue_size p))) [0..<count p]"

text \<open>
  A bounded FIFO queue: what a client may rely on. The lemma is the law of the queue for
  any sequence of insertions and removals.
\<close>

locale bounded_fifo =
  fixes put :: "'t \<Rightarrow> 's \<Rightarrow> 's option"
    and get :: "'s \<Rightarrow> ('t \<times> 's) option"
    and contents :: "'s \<Rightarrow> 't list"
    and bound :: nat
    and invar :: "'s \<Rightarrow> bool"
  assumes put_some: "invar s \<Longrightarrow> length (contents s) < bound \<Longrightarrow>
      \<exists>s'. put t s = Some s' \<and> invar s' \<and> contents s' = contents s @ [t]"
    and put_none: "invar s \<Longrightarrow> \<not> length (contents s) < bound \<Longrightarrow> put t s = None"
    and get_some: "invar s \<Longrightarrow> contents s = t # ts \<Longrightarrow> \<exists>s'. get s = Some (t, s') \<and> invar s' \<and> contents s' = ts"
    and get_none: "invar s \<Longrightarrow> contents s = [] \<Longrightarrow> get s = None"
    and within: "invar s \<Longrightarrow> length (contents s) \<le> bound"
begin

lemma put_all:
  assumes "invar s" and "length (contents s) + length ts \<le> bound"
  shows "\<exists>s'. run_ops put ts s = Some s' \<and> invar s' \<and> contents s' = contents s @ ts"
  using assms
proof (induction ts arbitrary: s)
  case (Cons t ts)
  then obtain s1 where "put t s = Some s1" "invar s1" "contents s1 = contents s @ [t]"
    using put_some [of s t] by auto
  with Cons.IH [of s1] Cons.prems show ?case by auto
qed auto

lemma get_all:
  "invar s \<Longrightarrow> \<exists>s'. run_ops (\<lambda>t s. case get s of Some (u, s') \<Rightarrow> if u = t then Some s' else None | None \<Rightarrow> None)
     (contents s) s = Some s' \<and> contents s' = []"
proof (induction "contents s" arbitrary: s)
  case (Cons t ts)
  then obtain s1 where "get s = Some (t, s1)" "invar s1" "contents s1 = ts" using get_some [of s t ts] by auto
  with Cons.hyps show ?case by (metis (mono_tags, lifting) case_prod_conv option.simps(5) run_ops.simps(2))
qed auto

end

definition ring_put :: "'t \<Rightarrow> 't threadpool \<Rightarrow> 't threadpool option" where
  "ring_put t p = (case threadpool_add (Some p) (Some t) of Some (rc, Some p') \<Rightarrow> if rc = 0 then Some p' else None | _ \<Rightarrow> None)"

definition ring_get :: "'t threadpool \<Rightarrow> ('t \<times> 't threadpool) option" where
  "ring_get p = (case threadpool_grab p of Some (Some t, p') \<Rightarrow> Some (t, p') | _ \<Rightarrow> None)"

definition ring_open :: "nat \<Rightarrow> 't threadpool \<Rightarrow> bool" where
  "ring_open n p \<longleftrightarrow> ring_wf p \<and> queue_size p = n \<and> shutdown p = running \<and> \<not> locked p"

lemma ring_index_apart:
  fixes h :: nat
  assumes "i < j" and "j < n"
  shows "(h + i) mod n \<noteq> (h + j) mod n"
proof
  assume "(h + i) mod n = (h + j) mod n"
  then have "n dvd (h + j) - (h + i)" using assms by (metis add_le_cancel_left less_imp_le_nat mod_eq_dvd_iff_nat)
  then have "n dvd j - i" by simp
  then show False using assms by (auto dest: dvd_imp_le)
qed

lemma length_ring_contents [simp]: "length (ring_contents p) = count p"
  by (simp add: ring_contents_def)

lemma ring_add:
  fixes p :: "'t threadpool" and t :: 't
  assumes "ring_wf p" and "count p < queue_size p"
  defines "p' \<equiv> p\<lparr>queue := (queue p)[tail p := Some t], tail := (tail p + 1) mod queue_size p, count := count p + 1\<rparr>"
  shows "ring_wf p' \<and> ring_contents p' = ring_contents p @ [t]"
proof -
  let ?n = "queue_size p"
  have n: "0 < ?n" "length (queue p) = ?n" "tail p = (head p + count p) mod ?n" using assms(1) by (simp_all add: ring_wf_def)
  have tl: "tail p < ?n" using n by simp
  have old: "queue p' ! ((head p + i) mod ?n) = queue p ! ((head p + i) mod ?n)" if "i < count p" for i
    using ring_index_apart [of i "count p" ?n "head p"] that assms(2) n by (simp add: p'_def)
  have new: "queue p' ! ((head p + count p) mod ?n) = Some t" using n tl by (simp add: p'_def)
  have "ring_contents p' = map (\<lambda>i. the (queue p' ! ((head p + i) mod ?n))) [0..<count p] @ [t]"
    using new by (simp add: ring_contents_def p'_def)
  also have "map (\<lambda>i. the (queue p' ! ((head p + i) mod ?n))) [0..<count p] = ring_contents p"
    using old by (simp add: ring_contents_def)
  finally have c: "ring_contents p' = ring_contents p @ [t]" .
  have "queue p' ! ((head p + i) mod ?n) \<noteq> None" if "i < Suc (count p)" for i
    using that old new assms(1) by (cases "i = count p") (auto simp: ring_wf_def)
  moreover have "((head p + count p) mod ?n + 1) mod ?n = (head p + (count p + 1)) mod ?n"
    by (simp add: mod_simps)
  ultimately have "ring_wf p'" using assms n by (simp add: ring_wf_def p'_def)
  with c show ?thesis by simp
qed

lemma ring_take:
  fixes p :: "'t threadpool"
  assumes "ring_wf p" and "ring_contents p = t # ts"
  defines "p' \<equiv> p\<lparr>head := (head p + 1) mod queue_size p, count := count p - 1\<rparr>"
  shows "queue p ! head p = Some t \<and> ring_wf p' \<and> ring_contents p' = ts"
proof -
  let ?n = "queue_size p"
  have n: "0 < ?n" "head p < ?n" "length (queue p) = ?n" "tail p = (head p + count p) mod ?n" "count p \<le> ?n"
    using assms(1) by (simp_all add: ring_wf_def)
  obtain c where c: "count p = Suc c" using assms(2) length_ring_contents [of p] by (metis length_Cons)
  have full: "queue p ! ((head p + i) mod ?n) \<noteq> None" if "i < Suc c" for i using assms(1) c that by (simp add: ring_wf_def)
  have sh: "((head p + 1) mod ?n + i) mod ?n = (head p + Suc i) mod ?n" for i by (simp add: mod_simps)
  have "ring_contents p = the (queue p ! (head p mod ?n)) # map (\<lambda>i. the (queue p ! ((head p + Suc i) mod ?n))) [0..<c]"
    unfolding ring_contents_def c by (simp add: upt_conv_Cons map_Suc_upt [symmetric] del: upt_Suc)
  also have "map (\<lambda>i. the (queue p ! ((head p + Suc i) mod ?n))) [0..<c] = ring_contents p'"
    unfolding ring_contents_def using sh by (simp add: p'_def c)
  finally have "t = the (queue p ! head p)" "ts = ring_contents p'" using assms(2) n by simp_all
  moreover have "queue p ! head p \<noteq> None" using full [of 0] n by simp
  moreover have "ring_wf p'"
  proof -
    have "queue p ! (((head p + 1) mod ?n + i) mod ?n) \<noteq> None" if "i < c" for i using full [of "Suc i"] that sh by simp
    moreover have "(head p + Suc c) mod ?n = ((head p + 1) mod ?n + c) mod ?n" using sh by simp
    ultimately show ?thesis using n c by (simp add: ring_wf_def p'_def)
  qed
  ultimately show ?thesis by auto
qed

interpretation ring: bounded_fifo ring_put ring_get ring_contents n "ring_open n" for n
proof unfold_locales
  fix s :: "'t threadpool" and t
  assume o: "ring_open n s" and l: "length (ring_contents s) < n"
  show "\<exists>s'. ring_put t s = Some s' \<and> ring_open n s' \<and> ring_contents s' = ring_contents s @ [t]"
    using o l ring_add [of s t] by (simp add: ring_open_def ring_put_def threadpool_add_def Let_def)
next
  fix s :: "'t threadpool" and t
  assume "ring_open n s" and "\<not> length (ring_contents s) < n"
  then have "count s = queue_size s" by (simp add: ring_open_def ring_wf_def)
  then show "ring_put t s = None" by (simp add: ring_put_def threadpool_add_def split: option.split)
next
  fix s :: "'t threadpool" and t ts
  assume o: "ring_open n s" and c: "ring_contents s = t # ts"
  then have "count s \<noteq> 0" by (metis length_ring_contents length_0_conv list.distinct(1))
  then show "\<exists>s'. ring_get s = Some (t, s') \<and> ring_open n s' \<and> ring_contents s' = ts"
    using o ring_take [of s t ts] c by (simp add: ring_open_def ring_get_def threadpool_grab_def)
next
  fix s :: "'t threadpool"
  assume "ring_open n s" and "ring_contents s = []"
  then show "ring_get s = None"
    using length_ring_contents [of s] by (simp add: ring_open_def ring_get_def threadpool_grab_def)
next
  fix s :: "'t threadpool"
  assume "ring_open n s"
  then show "length (ring_contents s) \<le> n" by (auto simp: ring_open_def ring_wf_def)
qed

section \<open>The pool\<close>

fun working_on :: "'t worker_pc \<Rightarrow> 't list" where
  "working_on Waiting = []"
| "working_on (Working t) = [t]"
| "working_on Exited = []"

definition pool_inv :: "'t pool_sys \<Rightarrow> bool" where
  "pool_inv c \<longleftrightarrow> ring_wf (pool c) \<and> grabbed_tasks c @ ring_contents (pool c) = accepted_tasks c \<and>
     mset (finished_tasks c) + mset (concat (map working_on (workers c))) = mset (grabbed_tasks c) \<and>
     (shutdown (pool c) \<noteq> immediate_shutdown \<and> Exited \<in> set (workers c) \<longrightarrow>
        shutdown (pool c) = graceful_shutdown \<and> count (pool c) = 0)"

lemma mset_concat_update:
  "i < length xs \<Longrightarrow> mset (concat (map f (xs[i := x]))) + mset (f (xs ! i)) = mset (concat (map f xs)) + mset (f x)"
proof (induction xs arbitrary: i)
  case (Cons y ys)
  then show ?case by (cases i) (auto simp: ac_simps)
qed simp

lemma grab_some:
  assumes "ring_wf p" and "threadpool_grab p = Some (Some t, p')"
  shows "ring_wf p'" and "ring_contents p = t # ring_contents p'" and "shutdown p' = shutdown p" and "count p \<noteq> 0"
proof -
  have c: "count p \<noteq> 0" and q: "queue p ! head p = Some t"
    and p': "p' = p\<lparr>head := (head p + 1) mod queue_size p, count := count p - 1\<rparr>"
    using assms(2) by (auto simp: threadpool_grab_def split: if_splits) (metis shutdown_mode.exhaust)
  obtain u us where u: "ring_contents p = u # us" using c length_ring_contents [of p] by (cases "ring_contents p") auto
  show "ring_wf p'" "ring_contents p = t # ring_contents p'" "shutdown p' = shutdown p" "count p \<noteq> 0"
    using ring_take [OF assms(1) u] q u c p' by auto
qed

lemma ring_head: "ring_wf p \<Longrightarrow> count p \<noteq> 0 \<Longrightarrow> queue p ! head p \<noteq> None"
  unfolding ring_wf_def by (metis add.right_neutral gr0I mod_less)

lemma grab_none:
  assumes "ring_wf p" and "threadpool_grab p = Some (None, p')"
  shows "p' = p\<lparr>started := started p - 1\<rparr>"
    and "shutdown p = immediate_shutdown \<or> shutdown p = graceful_shutdown \<and> count p = 0"
proof -
  have "p' = p\<lparr>started := started p - 1\<rparr> \<and> (shutdown p = immediate_shutdown \<or> shutdown p = graceful_shutdown \<and> count p = 0)"
    using assms(2) ring_head [OF assms(1)]
    by (cases "shutdown p") (auto simp: threadpool_grab_def split: if_splits)
  then show "p' = p\<lparr>started := started p - 1\<rparr>" "shutdown p = immediate_shutdown \<or> shutdown p = graceful_shutdown \<and> count p = 0"
    by auto
qed

lemma pool_step_inv: "pool_step c c' \<Longrightarrow> pool_inv c \<Longrightarrow> pool_inv c'"
proof (induction rule: pool_step.induct)
  case (add c t rc p)
  show ?case
  proof (cases "rc = 0")
    case True
    then have p: "count (pool c) < queue_size (pool c)" "shutdown (pool c) = running"
      "p = (pool c)\<lparr>queue := (queue (pool c))[tail (pool c) := Some t],
        tail := (tail (pool c) + 1) mod queue_size (pool c), count := count (pool c) + 1\<rparr>"
      using add by (auto simp: threadpool_add_def pool_inv_def ring_wf_def Let_def split: if_splits)
    then show ?thesis using ring_add [of "pool c" t] add.prems True by (auto simp: pool_inv_def)
  next
    case False
    then have "p = pool c" using add.hyps by (auto simp: threadpool_add_def Let_def split: if_splits)
    then show ?thesis using add.prems False by (simp add: pool_inv_def)
  qed
next
  case (grab i c t p)
  note g = grab_some [OF _ grab.hyps(3)]
  have wf: "ring_wf (pool c)" using grab.prems by (simp add: pool_inv_def)
  have "Exited \<in> set ((workers c)[i := Working t]) \<Longrightarrow> Exited \<in> set (workers c)"
    using set_update_subset_insert [of "workers c" i "Working t"] by auto
  moreover have "mset (concat (map working_on ((workers c)[i := Working t]))) =
      mset (concat (map working_on (workers c))) + {#t#}"
    using mset_concat_update [of i "workers c" working_on "Working t"] grab.hyps by simp
  ultimately show ?case using g [OF wf] grab.prems by (auto simp: pool_inv_def ac_simps)
next
  case (leave i c p)
  have wf: "ring_wf (pool c)" using leave.prems by (simp add: pool_inv_def)
  note p = grab_none [OF wf leave.hyps(3)]
  have "mset (concat (map working_on ((workers c)[i := Exited]))) = mset (concat (map working_on (workers c)))"
    using mset_concat_update [of i "workers c" working_on Exited] leave.hyps by simp
  then show ?case using leave.prems p by (auto simp: pool_inv_def ring_wf_def ring_contents_def)
next
  case (work i c t)
  have "mset (concat (map working_on (workers c))) = mset (concat (map working_on ((workers c)[i := Waiting]))) + {#t#}"
    using mset_concat_update [of i "workers c" working_on Waiting] work.hyps by simp
  moreover have "Exited \<in> set ((workers c)[i := Waiting]) \<Longrightarrow> Exited \<in> set (workers c)"
    using set_update_subset_insert [of "workers c" i Waiting] by auto
  ultimately show ?case using work.prems by (auto simp: pool_inv_def ac_simps)
next
  case (destroy g c rc p)
  then show ?case
    by (auto simp: threadpool_destroy_def pool_inv_def ring_wf_def ring_contents_def split: if_splits)
qed

lemma pool_start_inv:
  assumes "threadpool_create ok n k sz = Some p"
  shows "pool_inv (pool_start p)"
proof -
  have "concat (map working_on (replicate m Waiting)) = []" for m :: nat by (induction m) auto
  then show ?thesis
    using assms by (auto simp: pool_inv_def pool_start_def threadpool_create_def ring_wf_def ring_contents_def split: if_splits)
qed

lemma pool_reachable_inv: "pool_step\<^sup>*\<^sup>* c c' \<Longrightarrow> pool_inv c \<Longrightarrow> pool_inv c'"
  by (induction rule: rtranclp_induct) (auto intro: pool_step_inv)

section \<open>Properties\<close>

text \<open>
  C31: In every reachable state of the thread pool the tasks taken followed by those in the ring
  buffer are the accepted tasks in order, the buffer is within its size, and only taken tasks
  have been finished, each once.
\<close>

theorem pool_runs_in_order:
  assumes "threadpool_create ok n k sz = Some p" and "pool_step\<^sup>*\<^sup>* (pool_start p) c"
  shows "grabbed_tasks c @ ring_contents (pool c) = accepted_tasks c \<and> count (pool c) \<le> queue_size (pool c) \<and>
    mset (finished_tasks c) \<subseteq># mset (grabbed_tasks c)"
proof -
  have "pool_inv c" using assms pool_start_inv pool_reachable_inv by blast
  then show ?thesis unfolding pool_inv_def ring_wf_def by (metis mset_subset_eq_add_left)
qed

text \<open>
  C32: When all workers have left after a graceful shutdown, every accepted task has been taken
  and finished exactly once.
\<close>

theorem graceful_shutdown_completes:
  assumes "threadpool_create ok n k sz = Some p" and "pool_step\<^sup>*\<^sup>* (pool_start p) c"
    and "shutdown (pool c) = graceful_shutdown" and "workers c \<noteq> []" and "set (workers c) = {Exited}"
  shows "grabbed_tasks c = accepted_tasks c \<and> mset (finished_tasks c) = mset (accepted_tasks c)"
proof -
  have i: "pool_inv c" using assms(1,2) pool_start_inv pool_reachable_inv by blast
  then have "count (pool c) = 0" using assms(3,5) by (simp add: pool_inv_def)
  then have "ring_contents (pool c) = []" by (simp add: ring_contents_def)
  moreover have none: "concat (map working_on (workers c)) = []" using assms(5) by simp
  moreover have "mset (finished_tasks c) + mset (concat (map working_on (workers c))) = mset (grabbed_tasks c)"
    using i by (simp only: pool_inv_def)
  ultimately show ?thesis using i unfolding none by (simp add: pool_inv_def)
qed

end
