(* ===== verification/MsgReceive.thy ===== *)
theory MsgReceive
  imports OfflineCache ThreadPool
begin

text \<open>
  Messages from the broker: the command handler \<open>hub-app/source/msgrevhandler.c\<close> and
  the named pipe \<open>hub-app/source/writepipe.c\<close>, whose writes are tasks of the thread
  pool. The operating system's answers (\<open>mkfifo\<close>, \<open>open\<close>, \<open>write\<close>) are
  the record \<open>pipe_env\<close>; what is written to the FIFO is kept in order in the state. A
  \<open>strcpy\<close> or \<open>sprintf\<close> past a fixed buffer is \<open>None\<close>.

  Main results: which topics are accepted; an accepted message becomes exactly one task
  whose text carries the payload in Base64 and fits the allocated buffer; a topic whose
  last segment is too long overruns the stack buffer before it is checked.
\<close>

section \<open>Definitions\<close>

record pipe_state = cache_state +
  g_threadpool :: "string threadpool option"
  g_pipe_fd :: int
  fifo_files :: "string list"
  fifo_out :: "string list"
  closed_fds :: "int list"

record pipe_env =
  pool_alloc :: bool
  pool_created :: nat
  mkfifo_rc :: "string \<Rightarrow> int"
  open_fd :: "string \<Rightarrow> int"

definition FIFO_FILE_NAME :: string where "FIFO_FILE_NAME = ''mqtt_received_fifo''"

definition get_fifo_file_path :: "'a pipe_state_scheme \<Rightarrow> string \<times> 'a pipe_state_scheme" where
  "get_fifo_file_path s =
     (case home_path s of
        (home, s1) \<Rightarrow>
          let appDataPath = home @ ''/'' @ APP_DATA_PATH;
              s2 = (if \<not> path_exists appDataPath s1 then snd (mkdirp appDataPath s1) else s1)
          in (appDataPath @ ''/'' @ FIFO_FILE_NAME, s2))"

definition open_write_pipe :: "pipe_env \<Rightarrow> 'a pipe_state_scheme \<Rightarrow> int \<times> 'a pipe_state_scheme" where
  "open_write_pipe e s =
     (case get_fifo_file_path s of
        (fifoFilePath, s1) \<Rightarrow>
          let missing = (\<not> file_exists fifoFilePath s1 \<and> fifoFilePath \<notin> set (fifo_files s1));
              rc = (if missing then mkfifo_rc e fifoFilePath else 0)
          in if missing \<and> rc < 0 then (rc, s1)
             else let s2 = (if missing then s1\<lparr>fifo_files := fifoFilePath # fifo_files s1\<rparr> else s1);
                      s3 = s2\<lparr>g_pipe_fd := open_fd e fifoFilePath\<rparr>
                  in if g_pipe_fd s3 < 0 then (g_pipe_fd s3, s3) else (SUCCESS, s3))"

text \<open>The task that a worker runs, under \<open>g_write_pipe_mutex\<close>.\<close>

definition write_pipe_thread_fun :: "pipe_env \<Rightarrow> string \<Rightarrow> 'a pipe_state_scheme \<Rightarrow> 'a pipe_state_scheme" where
  "write_pipe_thread_fun e buffer s =
     (case (if g_pipe_fd s \<le> 0 then open_write_pipe e s else (0, s)) of
        (rc, s1) \<Rightarrow> if rc < 0 then s1 else s1\<lparr>fifo_out := fifo_out s1 @ [buffer]\<rparr>)"

definition write_pipe_buffer :: "pipe_env \<Rightarrow> string \<Rightarrow> 'a pipe_state_scheme \<Rightarrow> 'a pipe_state_scheme option" where
  "write_pipe_buffer e buffer s =
     (if string_is_empty (Some buffer) then Some s
      else case ThreadPoolWrapper_addTask (pool_alloc e) (pool_created e) (Some buffer) (g_threadpool s) of
             None \<Rightarrow> None
           | Some (rc, tp) \<Rightarrow> Some (s\<lparr>g_threadpool := tp\<rparr>))"

definition close_write_pipe :: "'a pipe_state_scheme \<Rightarrow> int \<times> 'a pipe_state_scheme" where
  "close_write_pipe s =
     (if g_pipe_fd s > 0 then (SUCCESS, s\<lparr>closed_fds := closed_fds s @ [g_pipe_fd s]\<rparr>) else (SUCCESS, s))"

text \<open>\<open>{"topic":"...",["sn":"...",]"payload":"..."}\<close>\<close>

definition pipe_text :: "string \<Rightarrow> string \<Rightarrow> string \<Rightarrow> string" where
  "pipe_text tpc sn_part base64payload =
     ''{'' @ json_field ''topic'' tpc @ '','' @ sn_part @ json_field ''payload'' base64payload @ ''}''"

definition msg_received_handler ::
    "pipe_env \<Rightarrow> string \<Rightarrow> byte list \<Rightarrow> 'a pipe_state_scheme \<Rightarrow> (bool \<times> 'a pipe_state_scheme) option" where
  "msg_received_handler e tpc pay s =
     (case strstr tpc (CAT_TOPIC MAIN_TOPIC ''cmd'') of
        None \<Rightarrow> Some (False, s)
      | Some _ \<Rightarrow>
          (case strrchr tpc (CHR ''/'') of
             None \<Rightarrow> Some (False, s)
           | Some splitter \<Rightarrow> do {
               topicTail \<leftarrow> fits 64 (tl splitter);
               let (sn, s1) = get_device_sn s;
               let mine = string_equals topicTail sn True;
               (if \<not> mine \<and> \<not> string_equals topicTail ''ALL'' True then Some (False, s1)
                else do {
                  deviceSNSubJson \<leftarrow> fits 64 (if mine then json_field ''sn'' (string_upper_case topicTail) @ '','' else '''');
                  (if length pay > 0
                   then do {
                     base64payload \<leftarrow> base64_encrypt pay;
                     s2 \<leftarrow> (if string_is_empty (Some base64payload) then Some s1
                           else do {
                             pipeBuffer \<leftarrow> fits (calc_base64_encrypted_size (length pay) + 1 + length tpc + 256)
                                            (pipe_text tpc deviceSNSubJson base64payload);
                             write_pipe_buffer e pipeBuffer s1 });
                     Some (True, s2) }
                   else Some (True, s1)) }) }))"

section \<open>Lemmas\<close>

lemma get_device_sn_pair:
  obtains sn d where "get_device_sn s = (sn, s\<lparr>g_deviceSN := d\<rparr>)" and "sn = d"
proof -
  have "g_deviceSN s = [] \<Longrightarrow> get_device_sn s = (string_upper_case ''SN0000000001'', s\<lparr>g_deviceSN := string_upper_case ''SN0000000001''\<rparr>)"
    by (simp add: get_device_sn_def Let_def)
  moreover have "g_deviceSN s \<noteq> [] \<Longrightarrow> get_device_sn s = (g_deviceSN s, s\<lparr>g_deviceSN := g_deviceSN s\<rparr>)"
    by (simp add: get_device_sn_def Let_def)
  ultimately show thesis using that [OF _ refl] by blast
qed

lemma strrchr_last: "CHR ''/'' \<notin> set t \<Longrightarrow> strrchr (x @ CHR ''/'' # t) (CHR ''/'') = Some (CHR ''/'' # t)"
  by (rule strrchr_append)

lemma cmd_prefix_found: "\<exists>r. strstr (CAT_TOPIC MAIN_TOPIC ''cmd'' @ x) (CAT_TOPIC MAIN_TOPIC ''cmd'') = Some r"
  using strstr_prefix by blast

lemma length_pipe_text: "length (pipe_text tpc sn_part b) = length tpc + length sn_part + length b + 25"
  by (simp add: pipe_text_def json_field_def quoted_def)

text \<open>The buffer for the text is large enough.\<close>

lemma pipe_text_fits:
  assumes "pay \<noteq> []" and "length pay * 4 < ULONG_MOD" and "length sn_part < 64"
  obtains b where "base64_encrypt pay = Some b"
    and "fits (calc_base64_encrypted_size (length pay) + 1 + length tpc + 256) (pipe_text tpc sn_part b)
      = Some (pipe_text tpc sn_part b)"
    and "b \<noteq> []"
proof -
  obtain b where b: "base64_encrypt pay = Some b" "Suc (length b) \<le> calc_base64_encrypted_size (length pay)"
    using base64_encrypted_fits [OF assms(1,2)] by blast
  moreover have "b \<noteq> []" using base64_encrypt_nonempty [OF assms(1,2) b(1)] .
  ultimately show thesis using that assms(3) by (simp add: fits_def length_pipe_text)
qed

text \<open>Which topics the handler takes: the last segment is the serial number or \<open>ALL\<close>.\<close>

definition command_tail :: "'a pipe_state_scheme \<Rightarrow> string \<Rightarrow> bool" where
  "command_tail s t \<longleftrightarrow> string_equals t (fst (get_device_sn s)) True \<or> string_equals t ''ALL'' True"

lemma string_upper_case_length: "length (string_upper_case t) = length t"
  by (simp add: string_upper_case_map)

lemma handler_accepts:
  assumes t: "tpc = CAT_TOPIC MAIN_TOPIC ''cmd'' @ ''/'' @ t" and sl: "CHR ''/'' \<notin> set t" and len: "length t < 56"
    and ok: "command_tail s t" and p: "pay \<noteq> []" "length pay * 4 < ULONG_MOD"
    and tp: "g_threadpool s = Some p" "ring_wf p" "count p < queue_size p" "shutdown p = running" "\<not> locked p"
  obtains b sn_part s' p' where "base64_encrypt pay = Some b" and "msg_received_handler e tpc pay s = Some (True, s')"
    and "g_threadpool s' = Some p'" and "ring_contents p' = ring_contents p @ [pipe_text tpc sn_part b]"
proof -
  obtain sn d where sn: "get_device_sn s = (sn, s\<lparr>g_deviceSN := d\<rparr>)" by (rule get_device_sn_pair)
  have "tpc = CAT_TOPIC MAIN_TOPIC ''cmd'' @ (''/'' @ t)" using t by simp
  then obtain r where r: "strstr tpc (CAT_TOPIC MAIN_TOPIC ''cmd'') = Some r" using cmd_prefix_found by blast
  have sp: "strrchr tpc (CHR ''/'') = Some (CHR ''/'' # t)"
    unfolding t using strrchr_last [OF sl, of "CAT_TOPIC MAIN_TOPIC ''cmd''"] by simp
  let ?mine = "string_equals t sn True"
  let ?sn = "if ?mine then json_field ''sn'' (string_upper_case t) @ '','' else ''''"
  have lsn: "length ?sn < 64"
    using len by (simp add: json_field_def quoted_def string_upper_case_length)
  obtain b where b: "base64_encrypt pay = Some b" "b \<noteq> []"
      "fits (calc_base64_encrypted_size (length pay) + 1 + length tpc + 256) (pipe_text tpc ?sn b) = Some (pipe_text tpc ?sn b)"
    using pipe_text_fits [OF p lsn] by metis
  let ?p' = "p\<lparr>queue := (queue p)[tail p := Some (pipe_text tpc ?sn b)], tail := (tail p + 1) mod queue_size p, count := count p + 1\<rparr>"
  have add: "threadpool_add (Some p) (Some (pipe_text tpc ?sn b)) = Some (0, Some ?p')"
    using tp by (simp add: threadpool_add_def Let_def)
  have ne: "pipe_text tpc ?sn b \<noteq> []" by (simp add: pipe_text_def)
  have w: "write_pipe_buffer e (pipe_text tpc ?sn b) (s\<lparr>g_deviceSN := d\<rparr>) = Some (s\<lparr>g_deviceSN := d, g_threadpool := Some ?p'\<rparr>)"
    using add tp(1) ne by (simp add: write_pipe_buffer_def ThreadPoolWrapper_addTask_def ThreadPoolWrapper_isInited_def)
  have f1: "fits 64 t = Some t" and f2: "fits 64 ?sn = Some ?sn" using len lsn by (simp_all add: fits_def)
  have h: "msg_received_handler e tpc pay s = Some (True, s\<lparr>g_deviceSN := d, g_threadpool := Some ?p'\<rparr>)"
    using r sp f1 f2 b w ok p(1) sn by (simp add: msg_received_handler_def command_tail_def Let_def)
  show thesis
    by (rule that [OF b(1) h, of ?p' ?sn]) (use ring_add [OF tp(2,3)] in simp_all)
qed

lemma handler_refuses:
  assumes "strrchr tpc (CHR ''/'') = Some (CHR ''/'' # t)" and "length t < 64" and "\<not> command_tail s t"
  shows "\<exists>s'. msg_received_handler e tpc pay s = Some (False, s') \<and> g_threadpool s' = g_threadpool s"
proof -
  obtain sn d where sn: "get_device_sn s = (sn, s\<lparr>g_deviceSN := d\<rparr>)" by (rule get_device_sn_pair)
  then show ?thesis
    using assms by (auto simp: msg_received_handler_def command_tail_def fits_def Let_def split: option.split)
qed

section \<open>Properties\<close>


theorem foreign_topic_ignored:
  assumes "strrchr tpc (CHR ''/'') = Some (CHR ''/'' # t)" and "length t < 64" and "\<not> command_tail s t"
  shows "\<exists>s'. msg_received_handler e tpc pay s = Some (False, s') \<and> g_threadpool s' = g_threadpool s"
  using assms by (rule handler_refuses)

theorem long_topic_overruns:
  assumes "CHR ''/'' \<notin> set t" and "64 \<le> length t"
  shows "msg_received_handler e (CAT_TOPIC MAIN_TOPIC ''cmd'' @ ''/'' @ t) pay s = None"
proof -
  obtain r where r: "strstr (CAT_TOPIC MAIN_TOPIC ''cmd'' @ ''/'' @ t) (CAT_TOPIC MAIN_TOPIC ''cmd'') = Some r"
    using cmd_prefix_found by blast
  have "strrchr (CAT_TOPIC MAIN_TOPIC ''cmd'' @ ''/'' @ t) (CHR ''/'') = Some (CHR ''/'' # t)"
    using strrchr_last [OF assms(1), of "CAT_TOPIC MAIN_TOPIC ''cmd''"] by simp
  with r show ?thesis using assms(2) by (simp add: msg_received_handler_def fits_def)
qed

end
