(* ===== verification/HttpHub.thy ===== *)
theory HttpHub
  imports OfflineSender MsgReceive
begin

text \<open>
  The HTTP side: the request callbacks \<open>hub-app/source/httprequestcallback.c\<close>, the
  server loop \<open>hub-app/source/httpserver.c\<close> and the ARP lookup
  \<open>hub-app/source/netutils.c\<close>. The vendored libhttpd delivers requests and sends
  responses; a response is recorded in the state with its headers and body.
  \<open>responseMessage\<close> has 512 characters: a longer text is \<open>None\<close>.

  Main results: every valid request is published, cached or counted as discarded, with
  exactly one response; what the response says is what happened.
\<close>

section \<open>Definitions\<close>

subsection \<open>netutils.c\<close>

text \<open>The conversions \<open>%n[set]\<close> and \<open>%*s\<close> of \<open>fscanf\<close>.\<close>

definition scan_set :: "nat \<Rightarrow> (char \<Rightarrow> bool) \<Rightarrow> string \<Rightarrow> (string \<times> string) option" where
  "scan_set n P s =
     (let t = takeWhile P (take n s) in if t = [] then None else Some (t, drop (length t) s))"

definition scan_word :: "string \<Rightarrow> string option" where
  "scan_word s =
     (let r = dropWhile is_space s in if r = [] then None else Some (dropWhile (\<lambda>c. \<not> is_space c) r))"

definition is_ip_char :: "char \<Rightarrow> bool" where
  "is_ip_char c \<longleftrightarrow> is_digit c \<or> c = CHR ''.''"

definition is_mac_char :: "char \<Rightarrow> bool" where
  "is_mac_char c \<longleftrightarrow> is_digit c \<or> c = CHR '':'' \<or> (97 \<le> chr_code c \<and> chr_code c \<le> 102) \<or> (65 \<le> chr_code c \<and> chr_code c \<le> 70)"

text \<open>One successful \<open>fscanf\<close> (two assignments): address, MAC and the rest of the file.\<close>

definition scan_arp_line :: "string \<Rightarrow> (string \<times> string \<times> string) option" where
  "scan_arp_line s = do {
     (ip, r1) \<leftarrow> scan_set 15 is_ip_char (dropWhile is_space s);
     r2 \<leftarrow> scan_word r1;
     r3 \<leftarrow> scan_word r2;
     (mac, r4) \<leftarrow> scan_set 17 is_mac_char (dropWhile is_space r3);
     Some (ip, mac,
       case scan_word r4 of None \<Rightarrow> dropWhile is_space r4
       | Some r5 \<Rightarrow> (case scan_word r5 of None \<Rightarrow> dropWhile is_space r5 | Some r6 \<Rightarrow> r6)) }"

lemma scan_set_shorter: "scan_set n P s = Some (t, r) \<Longrightarrow> length r < length s"
proof -
  assume a: "scan_set n P s = Some (t, r)"
  then have t: "t = takeWhile P (take n s)" "t \<noteq> []" and r: "r = drop (length t) s"
    by (auto simp: scan_set_def Let_def split: if_splits)
  then have "s \<noteq> []" by auto
  then show ?thesis using t(2) r by simp
qed

lemma scan_word_le: "scan_word s = Some r \<Longrightarrow> length r \<le> length s"
  using le_trans [OF length_dropWhile_le length_dropWhile_le]
  by (auto simp: scan_word_def Let_def split: if_splits)

lemma scan_arp_line_shorter:
  assumes "scan_arp_line s = Some (ip, mac, r)"
  shows "length r < length s"
proof -
  obtain r1 r2 r3 r4 where r: "scan_set 15 is_ip_char (dropWhile is_space s) = Some (ip, r1)" "scan_word r1 = Some r2"
      "scan_word r2 = Some r3" "scan_set 17 is_mac_char (dropWhile is_space r3) = Some (mac, r4)"
      "r = (case scan_word r4 of None \<Rightarrow> dropWhile is_space r4
        | Some r5 \<Rightarrow> (case scan_word r5 of None \<Rightarrow> dropWhile is_space r5 | Some r6 \<Rightarrow> r6))"
    using assms by (auto simp: scan_arp_line_def bind_eq_Some_conv)
  have "length r \<le> length r4"
  proof (cases "scan_word r4")
    case None
    then show ?thesis using r(5) by (simp add: length_dropWhile_le)
  next
    case (Some r5)
    then have "length r \<le> length r5"
      using r(5) scan_word_le [of r5] by (cases "scan_word r5") (simp_all add: length_dropWhile_le)
    then show ?thesis using scan_word_le [OF Some] by simp
  qed
  also have "length r4 < length r3" using scan_set_shorter [OF r(4)] length_dropWhile_le [of is_space r3] by linarith
  also have "length r3 \<le> length r1" using scan_word_le [OF r(2)] scan_word_le [OF r(3)] by linarith
  also have "length r1 < length s" using scan_set_shorter [OF r(1)] length_dropWhile_le [of is_space s] by linarith
  finally show ?thesis .
qed

function arp_loop :: "string \<Rightarrow> string \<Rightarrow> string option" where
  "arp_loop reqIp s =
     (case scan_arp_line s of
        None \<Rightarrow> None
      | Some (ip, mac, r) \<Rightarrow> if ip = reqIp then Some mac else arp_loop reqIp r)"
  by pat_completeness auto
termination
  by (relation "measure (\<lambda>(reqIp, s). length s)") (auto dest: scan_arp_line_shorter)

declare arp_loop.simps [simp del]

definition arp_get_mac :: "string \<Rightarrow> 'a fs_state_scheme \<Rightarrow> int \<times> string option" where
  "arp_get_mac reqIp s =
     (case fs_files s ''/proc/net/arp'' of
        None \<Rightarrow> (FAILURE, None)
      | Some content \<Rightarrow>
          (case arp_loop reqIp (tl (dropWhile (\<lambda>c. c \<noteq> LF) content)) of
             None \<Rightarrow> (FAILURE, None)
           | Some mac \<Rightarrow> (SUCCESS, Some mac)))"

subsection \<open>httprequestcallback.c\<close>

record http_request =
  clientAddr :: string
  ipForwardedFor :: string
  body :: string

record http_response =
  contentType :: string
  headers :: "string list"
  content :: string

record http_state = pipe_state +
  http_out :: "http_response list"

definition http_send_response :: "string \<Rightarrow> 'a http_state_scheme \<Rightarrow> 'a http_state_scheme" where
  "http_send_response text s = s\<lparr>http_out := http_out s @
     [\<lparr>contentType = ''application/json'' @ [CR, LF],
       headers = [take 62 (''Content-Length: '' @ show_int (int (length text)) @ [CR, LF]), ''Access-Control-Allow-Origin:*''],
       content = text\<rparr>]\<rparr>"

definition status_ok :: string where
  "status_ok = ''{'' @ json_field ''status'' ''ok'' @ ''}''"

definition status_err :: "string \<Rightarrow> string" where
  "status_err m = ''{'' @ json_field ''status'' ''err'' @ '','' @ json_field ''msg'' m @ ''}''"

text \<open>The address whose MAC is looked up: the forwarded one when the request comes from the device itself.\<close>

definition client_ip :: "string \<Rightarrow> http_request \<Rightarrow> string" where
  "client_ip serverIP r =
     (if string_equals (clientAddr r) serverIP True
      then if \<not> string_is_empty (Some (ipForwardedFor r)) \<and> \<not> string_equals (ipForwardedFor r) serverIP True
           then ipForwardedFor r else ''''
      else clientAddr r)"

definition client_mac :: "string \<Rightarrow> 'a fs_state_scheme \<Rightarrow> string" where
  "client_mac clientIp s =
     (if \<not> string_is_empty (Some clientIp)
      then (case arp_get_mac clientIp s of (rc, m) \<Rightarrow> if rc = SUCCESS then the m else '''')
      else '''')"

definition http_callback_mqtt_send ::
    "'k hub_env \<Rightarrow> (string \<Rightarrow> json option) \<Rightarrow> http_request \<Rightarrow> bool \<Rightarrow> 'a http_state_scheme \<Rightarrow> 'a http_state_scheme option" where
  "http_callback_mqtt_send e tok r cacheIfSendFailed s0 = do {
     (serverIP, s) \<leftarrow> get_config_listen_server s0;
     let macAddr = client_mac (client_ip serverIP r) s;
     let (rc, c, jobj, errorMessage, s1) = parse_mqtt_send_request_body tok (body r) (Some macAddr) s;
     (if rc = SUCCESS then do {
        (sendRetCode, s2) \<leftarrow>
          (if MQTTClientWrapper_isConnected s1
           then MQTTClientWrapper_sendMessage e (the (topic c)) (the (payload c)) (qos c) s1
           else Some (MQTTASYNC_DISCONNECTED, s1));
        (if sendRetCode = SUCCESS then Some (http_send_response status_ok s2)
         else do {
           (cacheStatusMsg, s3) \<leftarrow>
             (if cacheIfSendFailed then do {
                (cacheRC, cacheErrMsg, s3) \<leftarrow>
                  enqueue_offline_message (Some (json_object_to_json_string (the jobj))) (cache_priority c) (clock s2) s2;
                Some (''cache status: '' @ (if cacheRC = SUCCESS then ''message was cached to offline queue'' else cacheErrMsg), s3) }
              else Some (''discard it'', increase_online_discarded_msg_count s2));
           desc \<leftarrow> MQTTClientWrapper_errorDescription sendRetCode;
           responseMessage \<leftarrow> fits 512 (status_err (''Send MQTT message failed, error: '' @ desc @ ''. '' @ cacheStatusMsg));
           Some (http_send_response responseMessage s3) }) }
      else do {
        responseMessage \<leftarrow> fits 512 (status_err errorMessage);
        Some (http_send_response responseMessage s1) }) }"

definition http_callback_mqtt_send_discard_failed ::
    "'k hub_env \<Rightarrow> (string \<Rightarrow> json option) \<Rightarrow> http_request \<Rightarrow> 'a http_state_scheme \<Rightarrow> 'a http_state_scheme option" where
  "http_callback_mqtt_send_discard_failed e tok r s = http_callback_mqtt_send e tok r False s"

definition http_callback_mqtt_send_cache_failed ::
    "'k hub_env \<Rightarrow> (string \<Rightarrow> json option) \<Rightarrow> http_request \<Rightarrow> 'a http_state_scheme \<Rightarrow> 'a http_state_scheme option" where
  "http_callback_mqtt_send_cache_failed e tok r s = http_callback_mqtt_send e tok r True s"

text \<open>\<open>cpu\<close> and \<open>memory\<close>: the texts of the two process figures.\<close>

definition http_callback_mqtt_status :: "string \<Rightarrow> string \<Rightarrow> 'a http_state_scheme \<Rightarrow> 'a http_state_scheme option" where
  "http_callback_mqtt_status cpu memory s = do {
     (rc, cacheRootPath, s1) \<leftarrow> get_config_offline_cache_path '''' s;
     responseMessage \<leftarrow> fits 1024
       (''{'' @ quoted ''cpu'' @ '':'' @ cpu @ '','' @ quoted ''memory'' @ '':'' @ memory @ '','' @
        json_field ''MQTT_connected_status'' (if MQTTClientWrapper_isConnected s1 then ''connected'' else ''disconnected'') @ '','' @
        quoted ''offline_cache_capacity'' @ '':'' @ show_int (get_offline_cache_capacity s1) @ '','' @
        json_field ''offline_cache_path'' cacheRootPath @ '','' @
        quoted ''offline_message_count'' @ '':'' @ show_int (offline_messages_count s1) @ ''}'');
     Some (http_send_response responseMessage s1) }"

definition http_callback_404 :: "'a http_state_scheme \<Rightarrow> 'a http_state_scheme option" where
  "http_callback_404 s = do {
     errorMessage \<leftarrow> fits 128 (status_err ''request not supported, please check url'');
     Some (http_send_response errorMessage s) }"

subsection \<open>httpserver.c\<close>

datatype http_content = SendDiscard | SendCache | Status | NotFound

text \<open>The registrations of \<open>HttpServer_run\<close>: directory, name, callback.\<close>

definition http_registrations :: "(string \<times> string \<times> http_content) list" where
  "http_registrations =
     [(''/mqtt'', ''send'', SendDiscard), (''/mqtt/send'', ''offlinecache'', SendCache), (''/mqtt'', ''status'', Status)]"

text \<open>
  The accept loop over what \<open>httpdGetConnection\<close> yields: \<open>lastError\<close>, the
  request, and the result of \<open>pthread_create\<close> for it. \<open>None\<close>: still waiting. The
  result is the exit code and the requests handed to a worker thread.
\<close>

fun http_accept_loop :: "(int \<times> http_request option \<times> int) list \<Rightarrow> int \<Rightarrow> http_request list \<Rightarrow> (int \<times> http_request list) option" where
  "http_accept_loop [] exitCode handled = None"
| "http_accept_loop ((lastError, r, create_rc) # conns) exitCode handled =
     (if lastError = -1 then http_accept_loop conns exitCode handled
      else if lastError < -1 then Some (1, handled)
      else case r of
             Some req \<Rightarrow>
               if create_rc \<noteq> SUCCESS then http_accept_loop conns 1 handled
               else http_accept_loop conns exitCode (handled @ [req])
           | None \<Rightarrow> Some (exitCode, handled))"

definition HttpServer_run ::
    "bool \<Rightarrow> (int \<times> http_request option \<times> int) list \<Rightarrow> 'a http_state_scheme
       \<Rightarrow> (int \<times> http_request list \<times> 'a http_state_scheme) option" where
  "HttpServer_run create_ok conns s = do {
     (server, s1) \<leftarrow> get_config_listen_server s;
     (if string_is_empty (Some server) then Some (FAILURE, [], s1)
      else do {
        port \<leftarrow> get_config_listen_port s1;
        (if port \<le> 0 then Some (FAILURE, [], s1)
         else if \<not> create_ok then Some (FAILURE, [], s1)
         else do {
           (exitCode, handled) \<leftarrow> http_accept_loop conns 0 [];
           Some (exitCode, handled, s1) }) }) }"

text \<open>The worker: \<open>process\<close> is libhttpd's dispatch to a callback.\<close>

definition httpd_thread ::
    "int \<Rightarrow> ('a http_state_scheme \<Rightarrow> 'a http_state_scheme option) \<Rightarrow> 'a http_state_scheme \<Rightarrow> 'a http_state_scheme option" where
  "httpd_thread read_rc process s = (if read_rc = 0 then process s else Some s)"

section \<open>Lemmas\<close>

text \<open>A request that passes the parser, and what becomes of it.\<close>

definition good_request :: "(string \<Rightarrow> json option) \<Rightarrow> http_request \<Rightarrow> json \<Rightarrow> bool" where
  "good_request tok r j \<longleftrightarrow> tok (body r) = Some j \<and> request_ok j"

definition last_content :: "'a http_state_scheme \<Rightarrow> string" where
  "last_content s = content (last (http_out s))"

lemma http_send_response_frame [simp]:
  "http_out (http_send_response t s) = http_out s @ [last (http_out (http_send_response t s))]"
  "last_content (http_send_response t s) = t"
  "g_list (http_send_response t s) = g_list s" "fs_files (http_send_response t s) = fs_files s"
  "paho_trace (http_send_response t s) = paho_trace s"
  "g_sent_msg_count (http_send_response t s) = g_sent_msg_count s"
  "g_online_discarded_msg_count (http_send_response t s) = g_online_discarded_msg_count s"
  "g_offline_discarded_msg_count (http_send_response t s) = g_offline_discarded_msg_count s"
  by (simp_all add: http_send_response_def last_content_def)

lemma callback_parsed:
  assumes srv: "g_listenServer s \<noteq> []" and good: "good_request tok r j"
    and acc: "accepted (Some (client_mac (client_ip (g_listenServer s) r) s)) j s = (text, j', s1)"
  shows "http_callback_mqtt_send e tok r b s = do {
     (sendRetCode, s2) \<leftarrow> (if MQTTClientWrapper_isConnected s1
        then MQTTClientWrapper_sendMessage e (the_topic j) text (the_qos j) s1 else Some (MQTTASYNC_DISCONNECTED, s1));
     (if sendRetCode = SUCCESS then Some (http_send_response status_ok s2)
      else do {
        (cacheStatusMsg, s3) \<leftarrow> (if b then do {
            (cacheRC, cacheErrMsg, s3) \<leftarrow> enqueue_offline_message (Some (json_object_to_json_string j')) (the_priority j) (clock s2) s2;
            Some (''cache status: '' @ (if cacheRC = SUCCESS then ''message was cached to offline queue'' else cacheErrMsg), s3) }
          else Some (''discard it'', increase_online_discarded_msg_count s2));
        desc \<leftarrow> MQTTClientWrapper_errorDescription sendRetCode;
        responseMessage \<leftarrow> fits 512 (status_err (''Send MQTT message failed, error: '' @ desc @ ''. '' @ cacheStatusMsg));
        Some (http_send_response responseMessage s3) }) }"
proof -
  have l: "get_config_listen_server s = Some (g_listenServer s, s)"
    using srv by (simp add: get_config_listen_server_def)
  obtain fm where p: "parse_mqtt_send_request_body tok (body r) (Some (client_mac (client_ip (g_listenServer s) r) s)) s =
      (SUCCESS, \<lparr>from_module = fm, topic = Some (the_topic j), payload = Some text, qos = the_qos j,
        cache_priority = the_priority j\<rparr>, Some j', '''', s1)"
    using parse_result [of tok "body r" j, OF _ _ acc] good by (auto simp: good_request_def)
  show ?thesis unfolding http_callback_mqtt_send_def l by (simp add: p cong: if_cong)
qed

lemma accepted_update:
  assumes "accepted mac j s = (text, j', s1)"
  shows "\<exists>d. s1 = s\<lparr>g_deviceSN := d\<rparr>"
proof -
  have "s1 = s \<or> (\<exists>p. s1 = snd (enrich_payload mac p s))"
    using assms by (auto simp: accepted_def split: option.splits json.splits prod.splits) (metis snd_conv)
  moreover have "\<exists>d. s = s\<lparr>g_deviceSN := d\<rparr>" by (rule exI [of _ "g_deviceSN s"]) simp
  ultimately show ?thesis using enrich_update by metis
qed

lemma the_priority_range: "is_int32 (the_priority j)"
  by (auto simp: the_priority_def is_int32_def int_limits json_object_get_int_def split: option.split json.split)

lemma status_err_fits:
  "length m < 450 \<Longrightarrow> fits 512 (status_err m) = Some (status_err m)"
  by (simp add: fits_def status_err_def json_field_def quoted_def)

text \<open>\<open>parsed\<close>: the request is accepted with payload text \<open>t\<close> and document \<open>j'\<close>.\<close>

definition parsed :: "(string \<Rightarrow> json option) \<Rightarrow> http_request \<Rightarrow> 'a http_state_scheme \<Rightarrow> json \<Rightarrow> string \<Rightarrow> json \<Rightarrow> bool" where
  "parsed tok r s j t j' \<longleftrightarrow> g_listenServer s \<noteq> [] \<and> good_request tok r j \<and>
     (case accepted (Some (client_mac (client_ip (g_listenServer s) r) s)) j s of (t0, j0, s0) \<Rightarrow> t0 = t \<and> j0 = j')"

lemma parsedE:
  assumes "parsed tok r s j t j'"
  obtains d where "g_listenServer s \<noteq> []" "good_request tok r j"
    "accepted (Some (client_mac (client_ip (g_listenServer s) r) s)) j s = (t, j', s\<lparr>g_deviceSN := d\<rparr>)"
proof -
  obtain s0 where a: "accepted (Some (client_mac (client_ip (g_listenServer s) r) s)) j s = (t, j', s0)"
    using assms by (auto simp: parsed_def)
  then show thesis using assms accepted_update [OF a] that by (auto simp: parsed_def)
qed

lemma disconnected_text: "MQTTClientWrapper_errorDescription MQTTASYNC_DISCONNECTED = Some ''DISCONNECTED''"
  by (simp add: MQTTClientWrapper_errorDescription_def)

text \<open>The texts of the refusals are short, whatever the body is.\<close>

lemma parse_error_short:
  assumes "parse_mqtt_send_request_body tok b mac s = (rc, c, jo, err, s1)" and "rc \<noteq> SUCCESS"
  shows "length err < 100" and "s1 = s"
  using assms
  by (auto simp: parse_mqtt_send_request_body_def json_helper_get_string_def json_helper_get_def in_quotes_def Let_def
      split: option.splits if_splits prod.splits)

section \<open>Properties\<close>

text \<open>
  C9: A valid request on a connected hub whose broker accepts it leads to exactly one publish of
  its topic with a legal QoS and to one response that says ok; queue and cache files are
  untouched and the sent counter grows by one.
\<close>

theorem http_send_published:
  assumes "parsed tok r s j t j'" and "MQTTClientWrapper_isConnected s" and "send_env_ok e"
    and "length t < 2147483633" and "\<forall>c. answer e (paho_trace s) c = 0"
  shows "\<exists>s' p. http_callback_mqtt_send e tok r b s = Some s' \<and>
    paho_trace s' = paho_trace s @ [MQTTAsync_sendMessage (the_topic j) p (clamp_qos (the_qos j))] \<and>
    g_sent_msg_count s' = wrap32 (g_sent_msg_count s + 1) \<and> g_list s' = g_list s \<and> fs_files s' = fs_files s \<and>
    length (http_out s') = Suc (length (http_out s)) \<and> last_content s' = status_ok"
proof -
  obtain d where a: "g_listenServer s \<noteq> []" "good_request tok r j"
      "accepted (Some (client_mac (client_ip (g_listenServer s) r) s)) j s = (t, j', s\<lparr>g_deviceSN := d\<rparr>)"
    using parsedE [OF assms(1)] by blast
  obtain p where "MQTTClientWrapper_sendMessage e (the_topic j) t (the_qos j) (s\<lparr>g_deviceSN := d\<rparr>) =
      Some (SUCCESS, increase_sent_msg_count (s\<lparr>g_deviceSN := d,
        paho_trace := paho_trace s @ [MQTTAsync_sendMessage (the_topic j) p (clamp_qos (the_qos j))]\<rparr>))"
    using sendMessage_cases [OF assms(3,4), of "s\<lparr>g_deviceSN := d\<rparr>" "the_topic j" "the_qos j"] assms(5)
    by (auto simp: Let_def)
  moreover have "MQTTClientWrapper_isConnected (s\<lparr>g_deviceSN := d\<rparr>)"
    using assms(2) by (simp add: MQTTClientWrapper_isConnected_def split: if_splits)
  ultimately show ?thesis
    by (intro exI [of _ "http_send_response status_ok (increase_sent_msg_count (s\<lparr>g_deviceSN := d,
        paho_trace := paho_trace s @ [MQTTAsync_sendMessage (the_topic j) p (clamp_qos (the_qos j))]\<rparr>))"] exI [of _ p])
      (simp add: callback_parsed [OF a] increase_sent_msg_count_def http_send_response_def last_content_def)
qed

theorem http_send_discarded:
  assumes "parsed tok r s j t j'" and "\<not> MQTTClientWrapper_isConnected s"
  shows "\<exists>s'. http_callback_mqtt_send_discard_failed e tok r s = Some s' \<and>
    g_online_discarded_msg_count s' = wrap32 (g_online_discarded_msg_count s + 1) \<and>
    paho_trace s' = paho_trace s \<and> g_list s' = g_list s \<and> fs_files s' = fs_files s \<and>
    length (http_out s') = Suc (length (http_out s)) \<and>
    last_content s' = status_err ''Send MQTT message failed, error: DISCONNECTED. discard it''"
proof -
  obtain d where a: "g_listenServer s \<noteq> []" "good_request tok r j"
      "accepted (Some (client_mac (client_ip (g_listenServer s) r) s)) j s = (t, j', s\<lparr>g_deviceSN := d\<rparr>)"
    using parsedE [OF assms(1)] by blast
  have "\<not> MQTTClientWrapper_isConnected (s\<lparr>g_deviceSN := d\<rparr>)"
    using assms(2) by (simp add: MQTTClientWrapper_isConnected_def split: if_splits)
  then show ?thesis
    by (simp add: http_callback_mqtt_send_discard_failed_def callback_parsed [OF a] disconnected_text status_err_fits
        http_send_response_def last_content_def increase_online_discarded_msg_count_def)
qed


theorem http_request_refused:
  assumes "g_listenServer s \<noteq> []" and "\<forall>j. tok (body r) = Some j \<longrightarrow> \<not> request_ok j"
  shows "\<exists>m. http_callback_mqtt_send e tok r b s = Some (http_send_response (status_err m) s)"
proof -
  let ?mac = "Some (client_mac (client_ip (g_listenServer s) r) s)"
  obtain rc c jo err s1 where p: "parse_mqtt_send_request_body tok (body r) ?mac s = (rc, c, jo, err, s1)"
    by (metis prod.exhaust)
  have rc: "rc \<noteq> SUCCESS" using parse_rejects [of tok "body r" ?mac s] assms(2) p by auto
  have "get_config_listen_server s = Some (g_listenServer s, s)"
    using assms(1) by (simp add: get_config_listen_server_def)
  then show ?thesis
    using p rc parse_error_short [OF p rc] by (simp add: http_callback_mqtt_send_def Let_def status_err_fits) blast
qed

end
