(* ===== verification/Schedule.thy ===== *)
theory Schedule
  imports HttpHub
begin

text \<open>
  The periodic jobs \<open>hub-app/source/schedulejob.c\<close> and the timer helper
  \<open>utils/source/timerhelper.c\<close>. The POSIX timer calls the alarm handler every ten
  seconds; the results of \<open>timer_create\<close>, \<open>timer_settime\<close> and
  \<open>timer_delete\<close> are arguments. The job table keeps its end tag.

  Main result: the second counter never overflows, and the connection check runs at every
  third tick for ever, across the reset of the counter.
\<close>

section \<open>Definitions\<close>

record sched_state = http_state +
  g_totalSeconds :: int
  g_scheduleTimerId :: int

subsection \<open>timerhelper.c\<close>

text \<open>\<open>timer_create\<close> yields a return code and, on success, the id; \<open>errno\<close> is only printed.\<close>

definition timer_helper_setup_timer :: "int \<times> int \<Rightarrow> int \<Rightarrow> 'a sched_state_scheme \<Rightarrow> int \<times> 'a sched_state_scheme" where
  "timer_helper_setup_timer created settime_rc s =
     (case created of
        (rc, timerId) \<Rightarrow>
          if rc \<noteq> 0 then (rc, s)
          else let s1 = s\<lparr>g_scheduleTimerId := timerId\<rparr>
               in if settime_rc \<noteq> 0 then (settime_rc, s1) else (0, s1))"

definition timer_helper_destroy_timer :: "int \<Rightarrow> 'a sched_state_scheme \<Rightarrow> int" where
  "timer_helper_destroy_timer delete_rc s = (if g_scheduleTimerId s > 0 then delete_rc else 0)"

datatype do_job_fun = Check_mqtt_connection | Sync_msg_count_file

record schedule_job =
  name :: "string option"
  interval :: int
  doJob :: "do_job_fun option"

text \<open>The interval of one job after the configuration was read; \<open>None\<close>: remainder by zero.\<close>

definition configured_interval :: "int \<Rightarrow> ini_parser \<Rightarrow> schedule_job \<Rightarrow> schedule_job option" where
  "configured_interval baseInterval parser job =
     (if string_is_empty (name job) then Some job
      else case ini_value parser (the (name job)) of
             None \<Rightarrow> Some job
           | Some v \<Rightarrow>
               let strInterval = string_trim v (CHR '' '')
               in if string_is_empty (Some strInterval) then Some job
                  else if string_is_number (Some strInterval)
                  then let iv = atoi strInterval
                       in if iv = 0 then Some (job\<lparr>interval := iv\<rparr>)
                          else if baseInterval = 0 then None
                          else if iv mod baseInterval = 0 then Some (job\<lparr>interval := iv\<rparr>)
                          else Some job
                  else Some job)"

fun update_jobs :: "int \<Rightarrow> ini_parser \<Rightarrow> schedule_job list \<Rightarrow> schedule_job list option" where
  "update_jobs baseInterval parser [] = None"
| "update_jobs baseInterval parser (job # jobs) =
     (if doJob job = None then Some (job # jobs)
      else case configured_interval baseInterval parser job of
             None \<Rightarrow> None
           | Some job' \<Rightarrow> map_option ((#) job') (update_jobs baseInterval parser jobs))"

definition timer_helper_update_interval_from_config ::
    "int \<Rightarrow> schedule_job list \<Rightarrow> string \<Rightarrow> 'a fs_state_scheme \<Rightarrow> schedule_job list option" where
  "timer_helper_update_interval_from_config baseInterval jobList iniFile s =
     (case create_app_ini_parser iniFile s of
        None \<Rightarrow> None
      | Some None \<Rightarrow> Some jobList
      | Some (Some parser) \<Rightarrow> update_jobs baseInterval parser jobList)"

subsection \<open>schedulejob.c\<close>

definition BASE_SCHEDULE_INTERVAL :: int where "BASE_SCHEDULE_INTERVAL = 10"

definition schedule_job_list :: "schedule_job list" where
  "schedule_job_list =
     [\<lparr>name = Some ''chkconninterval'', interval = 30, doJob = Some Check_mqtt_connection\<rparr>,
      \<lparr>name = Some ''syncmsgcountinterval'', interval = 5, doJob = Some Sync_msg_count_file\<rparr>,
      \<lparr>name = None, interval = 0, doJob = None\<rparr>]"

text \<open>Built with \<open>USE_BUILD_IN_MQTT_RECONNECT\<close>.\<close>

definition check_mqtt_connection :: "'k hub_env \<Rightarrow> 'a mqtt_state_scheme \<Rightarrow> 'a mqtt_state_scheme" where
  "check_mqtt_connection e s =
     (if MQTTClientWrapper_isConnected s
      then if MQTTClientWrapper_isSubscribed s then s else snd (MQTTClientWrapper_subscribe e s)
      else if \<not> MQTTClientWrapper_hasEverConnected s then snd (MQTTClientWrapper_connect e s) else s)"

definition sync_msg_count_file :: "'a counter_state_scheme \<Rightarrow> 'a counter_state_scheme option" where
  "sync_msg_count_file s = save_msg_count_to_file s"

fun do_job :: "'k hub_env \<Rightarrow> do_job_fun \<Rightarrow> 'a mqtt_state_scheme \<Rightarrow> 'a mqtt_state_scheme option" where
  "do_job e Check_mqtt_connection s = Some (check_mqtt_connection e s)"
| "do_job e Sync_msg_count_file s = sync_msg_count_file s"

text \<open>The loop over the table; it ends at the entry without a name and calls through \<open>doJob\<close>.\<close>

fun run_jobs :: "'k hub_env \<Rightarrow> schedule_job list \<Rightarrow> 'a sched_state_scheme \<Rightarrow> 'a sched_state_scheme option" where
  "run_jobs e [] s = None"
| "run_jobs e (job # jobs) s =
     (if name job = None then Some s
      else if interval job > 0 \<and> g_totalSeconds s mod interval job = 0
      then (case doJob job of None \<Rightarrow> None | Some f \<Rightarrow> Option.bind (do_job e f s) (run_jobs e jobs))
      else run_jobs e jobs s)"

definition sig_alarm_handler :: "'k hub_env \<Rightarrow> 'a sched_state_scheme \<Rightarrow> 'a sched_state_scheme option" where
  "sig_alarm_handler e s = do {
     let s1 = s\<lparr>g_totalSeconds := wrap32 (g_totalSeconds s + BASE_SCHEDULE_INTERVAL)\<rparr>;
     s2 \<leftarrow> run_jobs e schedule_job_list s1;
     Some (if g_totalSeconds s2 \<ge> INT_MAX - BASE_SCHEDULE_INTERVAL then s2\<lparr>g_totalSeconds := 0\<rparr> else s2) }"

definition setup_schedule_timer :: "int \<times> int \<Rightarrow> int \<Rightarrow> 'a sched_state_scheme \<Rightarrow> int \<times> 'a sched_state_scheme" where
  "setup_schedule_timer created settime_rc s = timer_helper_setup_timer created settime_rc s"

definition destroy_schedule_timer :: "int \<Rightarrow> 'a sched_state_scheme \<Rightarrow> int" where
  "destroy_schedule_timer delete_rc s = timer_helper_destroy_timer delete_rc s"

section \<open>Lemmas\<close>

text \<open>The number of ticks between two resets of the counter.\<close>

definition reset_ticks :: nat where "reset_ticks = 214748364"

lemma check_connection_seconds [simp]: "g_totalSeconds (check_mqtt_connection e s) = g_totalSeconds s"
  by (simp add: check_mqtt_connection_def MQTTClientWrapper_subscribe_def MQTTClientWrapper_connect_def
      paho_def get_device_sn_def Let_def)

text \<open>The counter operations touch the file system and the counters, nothing else of a larger state.\<close>

definition counter_frame :: "'a counter_state_scheme \<Rightarrow> 'a counter_state_scheme \<Rightarrow> bool" where
  "counter_frame s s' \<longleftrightarrow> counter_state.more s' = counter_state.more s \<and> g_deviceSN s' = g_deviceSN s \<and>
     g_mqttEndPoint s' = g_mqttEndPoint s \<and> g_listenServer s' = g_listenServer s"

lemma counter_frame_trans: "counter_frame s s1 \<Longrightarrow> counter_frame s1 s2 \<Longrightarrow> counter_frame s s2"
  by (simp add: counter_frame_def)

lemma msg_count_path_frame: "counter_frame s (snd (get_msg_count_file_path s))"
proof -
  have "\<exists>g. snd (home_path s) = s\<lparr>gHomePath := g\<rparr> \<or> snd (home_path s) = s" by (auto simp: home_path_def Let_def)
  then have "counter_frame s (snd (home_path s))" by (auto simp: counter_frame_def)
  moreover have "counter_frame s1 (snd (mkdirp p s1))" for p and s1 :: "'a counter_state_scheme"
    using mkdirp_frame [of p s1] by (auto simp: counter_frame_def)
  ultimately show ?thesis
    by (auto simp: get_msg_count_file_path_def Let_def split: prod.split intro: counter_frame_trans)
qed

lemma read_counts_frame: "read_total_msg_count s = Some (rc, c, s') \<Longrightarrow> counter_frame s s'"
  using msg_count_path_frame [of s]
  by (auto simp: read_total_msg_count_def bind_eq_Some_conv split: prod.splits if_splits)

lemma save_counts_frame: "save_total_msg_count c s = Some (rc, s') \<Longrightarrow> counter_frame s s'"
proof -
  assume a: "save_total_msg_count c s = Some (rc, s')"
  obtain p s1 where p: "get_msg_count_file_path s = (p, s1)" by fastforce
  obtain ini where s': "s' = snd (save_to_file ini p s1)"
    using a by (auto simp: save_total_msg_count_def p bind_eq_Some_conv Let_def)
  have "counter_frame s1 s'" unfolding s' by (auto simp: save_to_file_def counter_frame_def Let_def)
  then show ?thesis using msg_count_path_frame [of s] p counter_frame_trans by fastforce
qed

lemma save_msg_count_frame: "save_msg_count_to_file s = Some s' \<Longrightarrow> counter_frame s s'"
proof (cases "g_sent_msg_count s = 0 \<and> g_online_discarded_msg_count s = 0 \<and> g_offline_discarded_msg_count s = 0 \<and> g_offline_sent_msg_count s = 0")
  case False
  assume a: "save_msg_count_to_file s = Some s'"
  obtain rc c1 c2 c3 c4 s1 where r: "read_total_msg_count s = Some (rc, (c1, c2, c3, c4), s1)"
    using a False by (auto simp: save_msg_count_to_file_def bind_eq_Some_conv)
  let ?s5 = "s1\<lparr>g_sent_msg_count := 0, g_online_discarded_msg_count := 0, g_offline_discarded_msg_count := 0, g_offline_sent_msg_count := 0\<rparr>"
  obtain c rc2 where "save_total_msg_count c ?s5 = Some (rc2, s')"
    using a False r by (auto simp: save_msg_count_to_file_def bind_eq_Some_conv Let_def)
  then have "counter_frame ?s5 s'" by (rule save_counts_frame)
  moreover have "counter_frame s1 ?s5" by (simp add: counter_frame_def)
  ultimately show ?thesis using read_counts_frame [OF r] counter_frame_trans by blast
qed (simp add: save_msg_count_to_file_def counter_frame_def)

lemma clear_msg_count_frame: "clear_msg_count_file s = Some s' \<Longrightarrow> counter_frame s s'"
  using save_counts_frame by (auto simp: clear_msg_count_file_def)

lemma frame_seconds: "counter_frame s s' \<Longrightarrow> g_totalSeconds s' = g_totalSeconds s"
  by (cases s; cases s') (simp add: counter_frame_def)

lemma frame_mqtt:
  assumes "counter_frame s s'"
  shows "client s' = client s \<and> connected s' = connected s \<and> hasEverConnected s' = hasEverConnected s \<and>
    subscribed s' = subscribed s \<and> paho_trace s' = paho_trace s"
  using assms by (cases s; cases s') (simp add: counter_frame_def)

text \<open>One tick, whatever the counter is.\<close>

lemma run_jobs_end_tag: "Option.bind x (run_jobs e [\<lparr>name = None, interval = 0, doJob = None\<rparr>]) = x"
  by (cases x) simp_all

lemma alarm_unfold:
  assumes "is_int32 (g_totalSeconds s + 10)" and "t = g_totalSeconds s + 10" and "t mod 5 = 0"
  shows "sig_alarm_handler e s = do {
     s2 \<leftarrow> save_msg_count_to_file (if t mod 30 = 0 then check_mqtt_connection e (s\<lparr>g_totalSeconds := t\<rparr>) else s\<lparr>g_totalSeconds := t\<rparr>);
     Some (s2\<lparr>g_totalSeconds := (if t \<ge> 2147483637 then 0 else t)\<rparr>) }"
proof -
  let ?s1 = "s\<lparr>g_totalSeconds := t\<rparr>"
  let ?s2 = "if t mod 30 = 0 then check_mqtt_connection e ?s1 else ?s1"
  have w: "wrap32 (g_totalSeconds s + 10) = t" using assms(1,2) wrap32_id by simp
  have sec: "g_totalSeconds ?s2 = t" by simp
  have run: "run_jobs e schedule_job_list ?s1 = save_msg_count_to_file ?s2"
    using assms(3) by (simp add: schedule_job_list_def sync_msg_count_file_def run_jobs_end_tag)
  have "g_totalSeconds s3 = t" if "save_msg_count_to_file ?s2 = Some s3" for s3
    using frame_seconds [OF save_msg_count_frame [OF that]] sec by simp
  then show ?thesis
    unfolding sig_alarm_handler_def BASE_SCHEDULE_INTERVAL_def w Let_def run
    by (cases "save_msg_count_to_file ?s2") (auto simp: int_limits)
qed

section \<open>Properties\<close>

theorem schedule_tick:
  assumes "g_totalSeconds s = 10 * int (n mod reset_ticks)" and "t = 10 * int (n mod reset_ticks) + 10"
  shows "is_int32 t \<and> sig_alarm_handler e s = do {
      s2 \<leftarrow> save_msg_count_to_file (if Suc n mod 3 = 0 then check_mqtt_connection e (s\<lparr>g_totalSeconds := t\<rparr>)
                                     else s\<lparr>g_totalSeconds := t\<rparr>);
      Some (s2\<lparr>g_totalSeconds := 10 * int (Suc n mod reset_ticks)\<rparr>) }"
proof -
  let ?k = "n mod reset_ticks"
  have k: "?k < 214748364" by (simp add: reset_ticks_def)
  have i: "is_int32 t" using k assms(2) by (simp add: is_int32_def int_limits)
  have reset: "(if t \<ge> 2147483637 then 0 else t) = 10 * int (Suc n mod reset_ticks)"
    using k assms(2) by (auto simp: mod_Suc reset_ticks_def)
  have "(10 * int k + 10) mod 30 = 0 \<longleftrightarrow> Suc k mod 3 = 0" for k :: nat by presburger
  moreover have "Suc ?k mod 3 = Suc n mod 3" 
  proof -
    have "(3 :: nat) dvd reset_ticks" by (simp add: reset_ticks_def)
    then have "?k mod 3 = n mod 3" by (rule mod_mod_cancel)
    then show ?thesis by (metis mod_Suc_eq)
  qed
  ultimately have m: "t mod 30 = 0 \<longleftrightarrow> Suc n mod 3 = 0" using assms(2) by simp
  have "(10 * int k + 10) mod 5 = 0" for k :: nat by presburger
  then have f: "t mod 5 = 0" using assms(2) by simp
  show ?thesis
    using alarm_unfold [of s t e] i m f reset assms by simp
qed

end
