(* ===== verification/App.thy ===== *)
theory App
  imports Schedule
begin

text \<open>
  The application \<open>hub-app/source/app.c\<close>: arguments, the connected callback and
  \<open>run_app\<close>, with the process helpers of \<open>utils/source/sysutils.c\<close> and the
  logger set-up of \<open>hub-app/source/logger.c\<close> it starts with. What the operating
  system answers is the record \<open>app_env\<close>; \<open>Inl\<close> is a call of
  \<open>exit\<close> with its code. While the server loop runs, the other threads act on the
  state: they are the argument \<open>others\<close> of \<open>run_app\<close>.

  Main results: the interface of the connected callback holds for the hub's callback, so
  the status invariant of the MQTT wrapper holds in every reachable state; the callback
  reports the counters and clears them only when the report was accepted; every way out of
  \<open>run_app\<close> releases what was set up.
\<close>

section \<open>Definitions\<close>

record app_state = sched_state +
  senders_started :: nat

record app_env =
  os_pipe :: pipe_env
  sender_create_rc :: int
  fork1 :: int
  setsid_rc :: int
  fork2 :: int
  chdir_rc :: int
  lock_fd :: int
  lock_test :: int
  lock_rc :: int
  cache_dir_entries :: "string list option"
  timer_created :: "int \<times> int"
  timer_settime_rc :: int
  timer_delete_rc :: int
  httpd_created :: bool
  connections :: "(int \<times> http_request option \<times> int) list"

subsection \<open>sysutils.c\<close>

text \<open>\<open>None\<close>: this process goes on as the daemon.\<close>

definition daemonize :: "app_env \<Rightarrow> int option" where
  "daemonize ae =
     (if fork1 ae < 0 then Some 1
      else if fork1 ae > 0 then Some 0
      else if setsid_rc ae < 0 then Some 1
      else if fork2 ae < 0 then Some 1
      else if fork2 ae > 0 then Some 0
      else if chdir_rc ae < 0 then Some 1
      else None)"

definition single_instance_app :: "app_env \<Rightarrow> int + int" where
  "single_instance_app ae =
     (if lock_fd ae < 0 then Inr (-1)
      else if lock_test ae < 0 then Inl 0
      else if lock_rc ae < 0 then Inl 0
      else Inr 0)"

text \<open>
  \<open>cmd_system\<close> over the lines that the command printed and the result of
  \<open>pclose\<close>: the lines that fit are joined, the last line feed is dropped.
\<close>

fun join_output :: "nat \<Rightarrow> string list \<Rightarrow> string \<Rightarrow> string" where
  "join_output bufSize [] buf = buf"
| "join_output bufSize (l # ls) buf =
     (if length buf + length l > bufSize - 1 then buf else join_output bufSize ls (buf @ l))"

definition cmd_system :: "(string list \<times> int) option \<Rightarrow> nat \<Rightarrow> int \<times> string option" where
  "cmd_system output bufSize =
     (case output of
        None \<Rightarrow> (-1, None)
      | Some (lines, rc) \<Rightarrow>
          let buf = join_output bufSize lines [];
              buf' = (if buf \<noteq> [] \<and> last buf = LF then butlast buf else buf)
          in (if rc < 0 then rc else rc div 256 mod 256, Some buf'))"

subsection \<open>logger.c\<close>

definition Log_init :: "int \<Rightarrow> 'a fs_state_scheme \<Rightarrow> int" where
  "Log_init dzlog_rc s =
     (if \<not> os_exists (local_path s @ ''/'' @ ''zlog.conf'') s then FAILURE
      else if dzlog_rc < 0 then dzlog_rc else SUCCESS)"

subsection \<open>app.c\<close>

record Args =
  isDaemon :: bool
  isTest :: bool

fun parse_args :: "string list \<Rightarrow> Args \<Rightarrow> int + Args" where
  "parse_args [] a = Inr a"
| "parse_args (v # vs) a =
     (if string_equals v ''--help'' True then Inl 0
      else if string_equals v ''--version'' True then Inl 0
      else if string_equals v ''--test'' True then Inl 0
      else if string_equals v ''--nodaemon'' True then parse_args vs (a\<lparr>isDaemon := False\<rparr>)
      else parse_args vs a)"

definition APP_VERSION :: string where "APP_VERSION = ''1.0.0''"
definition BUILD_TIMESTAMP :: string where "BUILD_TIMESTAMP = ''20180720-145526''"
definition MQTTMSGHUB_APP_NAME :: string where "MQTTMSGHUB_APP_NAME = ''mqttmsghub''"

definition version_string :: string where
  "version_string = APP_VERSION @ '' '' @ BUILD_TIMESTAMP"

definition write_run_version :: "'a fs_state_scheme \<Rightarrow> 'a fs_state_scheme" where
  "write_run_version s = snd (write_app_run_version_file MQTTMSGHUB_APP_NAME version_string s)"

definition clear_run_version :: "'a fs_state_scheme \<Rightarrow> 'a fs_state_scheme" where
  "clear_run_version s = delete_app_run_version_file MQTTMSGHUB_APP_NAME s"

definition online_text :: "string \<Rightarrow> int \<Rightarrow> string" where
  "online_text sn timestamp = ''{'' @ json_field ''sn'' sn @ '','' @ quoted ''time'' @ '':'' @ show_int timestamp @ ''}''"

definition count_text :: "counts \<Rightarrow> int \<Rightarrow> string \<Rightarrow> int \<Rightarrow> string" where
  "count_text c capacity sn timestamp =
     (case c of
        (sentCount, onlineDiscardedCount, offlineDiscardedCount, offlineSentCount) \<Rightarrow>
          ''{'' @ quoted ''sent'' @ '':'' @ show_int sentCount @ '','' @
          quoted ''onlinediscard'' @ '':'' @ show_int onlineDiscardedCount @ '','' @
          quoted ''offlinediscard'' @ '':'' @ show_int offlineDiscardedCount @ '','' @
          quoted ''offlinesent'' @ '':'' @ show_int offlineSentCount @ '','' @
          quoted ''offlinecap'' @ '':'' @ show_int capacity @ '','' @
          json_field ''sn'' sn @ '','' @ quoted ''time'' @ '':'' @ show_int timestamp @ ''}'')"

definition start_sender :: "int \<Rightarrow> 'a app_state_scheme \<Rightarrow> 'a app_state_scheme" where
  "start_sender create_rc s =
     (if offline_messages_count s > 0
      then if snd (asyn_send_offline_messages create_rc s) then s\<lparr>senders_started := senders_started s + 1\<rparr> else s
      else s)"

definition report_counts :: "'k hub_env \<Rightarrow> int \<Rightarrow> 'a cache_state_scheme \<Rightarrow> 'a cache_state_scheme option" where
  "report_counts e timestamp s = do {
     (rc, c, s1) \<leftarrow> get_total_msg_count s;
     (case c of
        (sentCount, onlineDiscardedCount, offlineDiscardedCount, offlineSentCount) \<Rightarrow>
          if sentCount > 0 \<or> onlineDiscardedCount > 0 \<or> offlineDiscardedCount > 0 \<or> offlineSentCount > 0
          then do {
            let (sn, s2) = get_device_sn s1;
            msgCountMessage \<leftarrow> fits 256 (count_text c (get_offline_cache_capacity s2) sn timestamp);
            (sendRc, s3) \<leftarrow> MQTTClientWrapper_sendMessage e (CAT_TOPIC MAIN_TOPIC ''msgcount'') msgCountMessage MAXQOS s2;
            (if sendRc = SUCCESS then clear_msg_count_file s3 else Some s3) }
          else Some s1) }"

definition on_mqtt_client_connected :: "'k hub_env \<Rightarrow> int \<Rightarrow> 'a app_state_scheme \<Rightarrow> 'a app_state_scheme option" where
  "on_mqtt_client_connected e create_rc s = do {
     let timestamp = time_now s;
     let (sn, s1) = get_device_sn s;
     onlineMessage \<leftarrow> fits 64 (online_text sn timestamp);
     (rc, s2) \<leftarrow> MQTTClientWrapper_sendMessage e (CAT_TOPIC MAIN_TOPIC ''online'') onlineMessage MAXQOS s1;
     report_counts e timestamp (start_sender create_rc s2) }"

text \<open>The wait for a serial number.\<close>

partial_function (option) wait_device_sn :: "'a config_state_scheme \<Rightarrow> 'a config_state_scheme option" where
  [code]: "wait_device_sn s =
     (case get_device_sn s of (sn, s1) \<Rightarrow> if string_is_empty (Some sn) then wait_device_sn s1 else Some s1)"

text \<open>The code after the label \<open>EXIT\<close>.\<close>

definition app_exit :: "'k hub_env \<Rightarrow> app_env \<Rightarrow> 'a app_state_scheme \<Rightarrow> (int \<times> 'a app_state_scheme) option" where
  "app_exit e ae s = do {
     let s1 = MQTTClientWrapper_deinit e s;
     let timer_rc = destroy_schedule_timer (timer_delete_rc ae) s1;
     let (rc, s2) = close_write_pipe s1;
     (rc2, tp) \<leftarrow> ThreadPoolWrapper_deinit False (g_threadpool s2);
     Some (0, clear_run_version (s2\<lparr>g_threadpool := tp\<rparr>)) }"

definition start_client :: "'k hub_env \<Rightarrow> 'a mqtt_state_scheme \<Rightarrow> (int \<times> 'a mqtt_state_scheme) option" where
  "start_client e s = do {
     (rc, s1) \<leftarrow> MQTTClientWrapper_init e s;
     let s2 = MQTTClientWrapper_setConnectedCallback True (MQTTClientWrapper_setMessageReceivedCallback True s1);
     Some (rc, if rc = SUCCESS then snd (MQTTClientWrapper_connect e s2) else s2) }"

definition run_app ::
    "'k hub_env \<Rightarrow> app_env \<Rightarrow> ('a app_state_scheme \<Rightarrow> 'a app_state_scheme) \<Rightarrow> string list \<Rightarrow> 'a app_state_scheme
       \<Rightarrow> (int \<times> 'a app_state_scheme) option" where
  "run_app e ae others argv s =
     (case parse_args (drop 1 argv) \<lparr>isDaemon = True, isTest = False\<rparr> of
        Inl code \<Rightarrow> Some (code, s)
      | Inr args \<Rightarrow>
          (case (if isDaemon args then daemonize ae else None) of
             Some code \<Rightarrow> Some (code, s)
           | None \<Rightarrow>
               (case single_instance_app ae of
                  Inl code \<Rightarrow> Some (code, s)
                | Inr _ \<Rightarrow> do {
                    s1 \<leftarrow> wait_device_sn (write_run_version s);
                    capacity \<leftarrow> get_config_offline_cache_capacity s1;
                    let s2 = set_offline_cache_capacity capacity s1;
                    let (prc, s3) = open_write_pipe (os_pipe ae) s2;
                    (loaded, s4) \<leftarrow> load_offline_messages (cache_dir_entries ae) s3;
                    (rc, s5) \<leftarrow> start_client e s4;
                    (if rc \<noteq> SUCCESS then app_exit e ae s5
                     else case setup_schedule_timer (timer_created ae) (timer_settime_rc ae) s5 of
                            (trc, s6) \<Rightarrow>
                              if trc < 0 then app_exit e ae s6
                              else do {
                                (hrc, handled, s7) \<leftarrow> HttpServer_run (httpd_created ae) (connections ae) s6;
                                app_exit e ae (others s7) }) })))"

section \<open>Lemmas\<close>

lemma wait_device_sn_ends: "wait_device_sn s = Some (snd (get_device_sn s))"
  using get_device_sn_nonempty [of s] by (subst wait_device_sn.simps) (cases "get_device_sn s", simp)

text \<open>What the status of the wrapper depends on.\<close>

definition status_of :: "'a mqtt_state_scheme \<Rightarrow> bool \<times> bool \<times> nat" where
  "status_of s = (connected s, hasEverConnected s, subscribe_count s)"

lemma status_device_sn: "status_of (snd (get_device_sn s)) = status_of s"
  by (simp add: status_of_def subscribe_count_def)

lemma status_send: "MQTTClientWrapper_sendMessage e t m q s = Some (rc, s') \<Longrightarrow> status_of s' = status_of s"
  using sendMessage_status [of e t m q s rc s'] sendMessage_subscribes [of e t m q s rc s'] by (simp add: status_of_def)

lemma status_frame: "counter_frame s s' \<Longrightarrow> status_of s' = status_of s"
  using frame_mqtt [of s s'] by (simp add: status_of_def subscribe_count_def)

lemma status_start_sender: "status_of (start_sender rc s) = status_of s"
  by (simp add: start_sender_def status_of_def subscribe_count_def)

lemma status_report:
  assumes "report_counts e ts s = Some s'"
  shows "status_of s' = status_of s"
proof -
  obtain rc c s1 where r: "get_total_msg_count s = Some (rc, c, s1)"
    using assms by (auto simp: report_counts_def bind_eq_Some_conv)
  have f: "status_of s1 = status_of s"
    using r read_counts_frame status_frame by (fastforce simp: get_total_msg_count_def)
  obtain sn s2 where sn: "get_device_sn s1 = (sn, s2)" by fastforce
  have "s' = s1 \<or> (\<exists>t m src s3. MQTTClientWrapper_sendMessage e t m MAXQOS s2 = Some (src, s3) \<and>
      (s' = s3 \<or> clear_msg_count_file s3 = Some s'))"
    using assms r sn by (auto simp: report_counts_def bind_eq_Some_conv split: if_splits prod.splits)
  moreover have "status_of s2 = status_of s" using status_device_sn [of s1] sn f by simp
  ultimately show ?thesis using f status_send status_frame clear_msg_count_frame by metis
qed

lemma callback_status:
  assumes "on_mqtt_client_connected e rc s = Some s'"
  shows "status_of s' = status_of s"
proof -
  obtain sn s1 where sn: "get_device_sn s = (sn, s1)" by fastforce
  obtain t m rc2 s2 where "MQTTClientWrapper_sendMessage e t m MAXQOS s1 = Some (rc2, s2)"
      "report_counts e (time_now s) (start_sender rc s2) = Some s'"
    using assms sn by (auto simp: on_mqtt_client_connected_def bind_eq_Some_conv Let_def)
  then show ?thesis
    using status_report status_send status_start_sender status_device_sn [of s] sn by (metis snd_conv)
qed

interpretation hub_callback: connected_callback "on_mqtt_client_connected e rc" for e rc
  by unfold_locales (use callback_status in \<open>auto simp: status_of_def\<close>)

text \<open>The counter file seen through the states of the callback.\<close>

definition counter_view :: "'a counter_state_scheme \<Rightarrow> string \<times> bool \<times> bool \<times> nat \<times> string option" where
  "counter_view s = (gHomePath s, path_exists (app_data_dir s) s, fs_open_ok s (counter_file s), fs_room s,
     fs_files s (counter_file s))"

lemma counter_view_eq:
  assumes "counter_view s' = counter_view s"
  shows "counter_env s' = counter_env s" and "counter_file_holds s' t = counter_file_holds s t"
  using assms by (auto simp: counter_view_def counter_env_def counter_file_holds_def)

lemma sent_view: "counter_view (increase_sent_msg_count (s\<lparr>paho_trace := tr\<rparr>)) = counter_view s"
  by (simp add: counter_view_def increase_sent_msg_count_def app_data_dir_def counter_file_def path_exists_def os_exists_def)

lemma sender_view: "counter_view (start_sender rc s) = counter_view s"
  by (simp add: counter_view_def start_sender_def app_data_dir_def counter_file_def path_exists_def os_exists_def)

lemma sendMessage_accepted:
  assumes "send_env_ok e" and "length m < 2147483633" and "\<forall>tr c. answer e tr c = 0"
  shows "\<exists>p. MQTTClientWrapper_sendMessage e t m q s =
    Some (SUCCESS, increase_sent_msg_count (s\<lparr>paho_trace := paho_trace s @ [MQTTAsync_sendMessage t p (clamp_qos q)]\<rparr>))"
proof -
  obtain p where "MQTTClientWrapper_sendMessage e t m q s =
      (let c = MQTTAsync_sendMessage t p (clamp_qos q); s1 = s\<lparr>paho_trace := paho_trace s @ [c]\<rparr>
       in if answer e (paho_trace s) c = 0 then Some (SUCCESS, increase_sent_msg_count s1) else Some (FAILURE, s1))"
    using sendMessage_cases [OF assms(1,2), of s t q] by blast
  then show ?thesis using assms(3) by (intro exI [of _ p]) (simp add: Let_def)
qed

lemma get_device_sn_ready: "g_deviceSN s \<noteq> [] \<Longrightarrow> get_device_sn s = (g_deviceSN s, s)"
  by (simp add: get_device_sn_def)

lemma clamp_max: "clamp_qos MAXQOS = 2"
  by (simp add: clamp_qos_def QOS0_def MAXQOS_def)

lemma show_int32_short: "is_int32 i \<Longrightarrow> length (show_int i) \<le> 11"
proof -
  assume a: "is_int32 i"
  have "nat i < 10 ^ 10" "nat (- i) < 10 ^ 10" using a by (auto simp: is_int32_def int_limits)
  then have "length (show_nat (nat i)) \<le> 10" "length (show_nat (nat (- i))) \<le> 10" using length_show_nat by simp_all
  then show ?thesis by (simp add: show_int_def)
qed

lemma show_time_short: "0 \<le> ts \<Longrightarrow> ts < 10 ^ 12 \<Longrightarrow> length (show_int ts) \<le> 12"
  using length_show_nat [of "nat ts" 12] by (simp add: show_int_def nat_less_iff)

lemma count_text_short:
  assumes "counts_within INT_MAX t" and "is_int32 cap" and "length sn < 32" and "length (show_int ts) \<le> 12"
  shows "length (count_text t cap sn ts) < 256"
proof -
  obtain t1 t2 t3 t4 where t: "t = (t1, t2, t3, t4)" by (metis prod.exhaust)
  have i32: "is_int32 t1" "is_int32 t2" "is_int32 t3" "is_int32 t4" using assms(1) by (auto simp: t is_int32_def int_limits)
  show ?thesis
    using i32 [THEN show_int32_short] show_int32_short [OF assms(2)] assms(3,4)
    by (simp add: t count_text_def json_field_def quoted_def)
qed

text \<open>The report on a broker that accepts it: one publish when there is something to report, and a cleared file.\<close>

lemma report_counts_accepted:
  fixes s :: "'a app_state_scheme"
  assumes env: "send_env_ok e" "\<forall>tr c. answer e tr c = 0"
    and ini: "counter_env s" "counter_file_holds s t" "counts_within INT_MAX t"
    and sn: "g_deviceSN s \<noteq> []" "length (g_deviceSN s) < 32" "length (show_int ts) \<le> 12" "is_int32 (g_cacheCapacity s)"
  shows "\<exists>s' q. report_counts e ts s = Some s' \<and>
    paho_trace s' = paho_trace s @ (if t = (0, 0, 0, 0) then [] else [MQTTAsync_sendMessage ''hub/msgcount'' q 2]) \<and>
    counter_file_holds s' (0, 0, 0, 0) \<and> senders_started s' = senders_started s"
proof -
  obtain r where rd: "get_total_msg_count s = Some (r, t, s)"
    using read_total_holds [OF ini] by (auto simp: get_total_msg_count_def)
  obtain t1 t2 t3 t4 where t: "t = (t1, t2, t3, t4)" by (metis prod.exhaust)
  show ?thesis
  proof (cases "t = (0, 0, 0, 0)")
    case True
    then have "report_counts e ts s = Some s" using rd by (simp add: report_counts_def)
    then show ?thesis using True ini(2) by auto
  next
    case False
    let ?m = "count_text t (g_cacheCapacity s) (g_deviceSN s) ts"
    have pos: "t1 > 0 \<or> t2 > 0 \<or> t3 > 0 \<or> t4 > 0" using False ini(3) by (auto simp: t)
    have m: "fits 256 ?m = Some ?m" "length ?m < 2147483633"
      using count_text_short [OF ini(3) sn(4,2,3)] by (simp_all add: fits_def)
    obtain q where q: "MQTTClientWrapper_sendMessage e ''hub/msgcount'' ?m MAXQOS s =
        Some (SUCCESS, increase_sent_msg_count (s\<lparr>paho_trace := paho_trace s @ [MQTTAsync_sendMessage ''hub/msgcount'' q 2]\<rparr>))"
      using sendMessage_accepted [OF env(1) m(2) env(2)] clamp_max by metis
    define s4 where "s4 = increase_sent_msg_count (s\<lparr>paho_trace := paho_trace s @ [MQTTAsync_sendMessage ''hub/msgcount'' q 2]\<rparr>)"
    have "counter_view s4 = counter_view s" by (simp add: s4_def sent_view)
    note view4 = counter_view_eq [OF this]
    have clear: "clear_msg_count_file s4 =
        Some (s4\<lparr>fs_files := (fs_files s4)(counter_file s4 \<mapsto> concat (map write_keyvalue (keyvalues (counts_ini (0, 0, 0, 0)))))\<rparr>)"
      using save_total_holds [of s4 t "(0, 0, 0, 0)"] view4 ini
      by (simp add: clear_msg_count_file_def int_limits del: counts_ini.simps)
    have "report_counts e ts s = clear_msg_count_file s4"
      using rd pos m(1) q get_device_sn_ready [OF sn(1)]
      by (simp add: report_counts_def t CAT_TOPIC_def MAIN_TOPIC_def get_offline_cache_capacity_def s4_def)
    then show ?thesis
      using clear False
      by (auto simp: counter_file_holds_def s4_def increase_sent_msg_count_def counter_file_def app_data_dir_def
          simp del: counts_ini.simps)
  qed
qed

lemma app_exit_effect:
  assumes "app_exit e ae s = Some (code, s')"
  shows "code = 0 \<and> \<not> client s' \<and> fs_files s' (run_version_path MQTTMSGHUB_APP_NAME) = None \<and>
    (g_pipe_fd s > 0 \<longrightarrow> g_pipe_fd s \<in> set (closed_fds s')) \<and>
    (\<forall>p. g_threadpool s' = Some p \<longrightarrow> shutdown p \<noteq> running)"
  using assms
  by (auto simp: app_exit_def bind_eq_Some_conv MQTTClientWrapper_deinit_def paho_def close_write_pipe_def
      clear_run_version_def delete_app_run_version_file_def unlink_def ThreadPoolWrapper_deinit_def
      threadpool_destroy_def Let_def split: if_splits option.splits)

section \<open>Properties\<close>


text \<open>
  C29: On a connection whose broker accepts publishes, the connected callback publishes the
  online message and, when the counter file holds a count, one count message; afterwards the
  counter file is cleared and the sender is started exactly when messages are cached and no
  sender runs.
\<close>

theorem connected_callback_reports:
  assumes "send_env_ok e" and "\<forall>tr c. answer e tr c = 0"
    and "counter_env s" and "counter_file_holds s t" and "counts_within INT_MAX t"
    and "g_deviceSN s \<noteq> []" and "length (g_deviceSN s) < 32" and "0 \<le> time_now s" and "time_now s < 10 ^ 12"
    and "is_int32 (g_cacheCapacity s)"
  shows "\<exists>s' p q. on_mqtt_client_connected e rc s = Some s' \<and>
    paho_trace s' = paho_trace s @ MQTTAsync_sendMessage ''hub/online'' p 2 #
      (if t = (0, 0, 0, 0) then [] else [MQTTAsync_sendMessage ''hub/msgcount'' q 2]) \<and>
    counter_file_holds s' (0, 0, 0, 0) \<and>
    senders_started s' = senders_started s +
      (if list_len s > 0 \<and> \<not> g_isAsyncSending s \<and> rc = 0 then 1 else 0)"
proof -
  let ?sn = "g_deviceSN s" and ?ts = "time_now s"
  note ts = show_time_short [OF assms(8,9)]
  have on: "fits 64 (online_text ?sn ?ts) = Some (online_text ?sn ?ts)" "length (online_text ?sn ?ts) < 2147483633"
    using assms(7) ts by (simp_all add: fits_def online_text_def json_field_def quoted_def)
  obtain p where p: "MQTTClientWrapper_sendMessage e ''hub/online'' (online_text ?sn ?ts) MAXQOS s =
      Some (SUCCESS, increase_sent_msg_count (s\<lparr>paho_trace := paho_trace s @ [MQTTAsync_sendMessage ''hub/online'' p 2]\<rparr>))"
    using sendMessage_accepted [OF assms(1) on(2) assms(2)] clamp_max by metis
  define s2 where "s2 = increase_sent_msg_count (s\<lparr>paho_trace := paho_trace s @ [MQTTAsync_sendMessage ''hub/online'' p 2]\<rparr>)"
  define s3 where "s3 = start_sender rc s2"
  have "counter_view s3 = counter_view s" by (simp add: s3_def s2_def sender_view sent_view)
  note view = counter_view_eq [OF this]
  have st: "senders_started s3 = senders_started s + (if list_len s > 0 \<and> \<not> g_isAsyncSending s \<and> rc = 0 then 1 else 0)"
    by (auto simp: s3_def s2_def start_sender_def increase_sent_msg_count_def asyn_send_offline_messages_def
        offline_messages_count_def list_len_def)
  have keep: "g_deviceSN s3 = ?sn" "g_cacheCapacity s3 = g_cacheCapacity s"
      "paho_trace s3 = paho_trace s @ [MQTTAsync_sendMessage ''hub/online'' p 2]"
    by (simp_all add: s3_def s2_def start_sender_def increase_sent_msg_count_def)
  have cb: "on_mqtt_client_connected e rc s = report_counts e ?ts s3"
    using p on(1) by (simp add: on_mqtt_client_connected_def get_device_sn_ready [OF assms(6)] Let_def CAT_TOPIC_def
        MAIN_TOPIC_def s3_def s2_def)
  obtain s' q where "report_counts e ?ts s3 = Some s'" "senders_started s' = senders_started s3" "counter_file_holds s' (0, 0, 0, 0)"
      "paho_trace s' = paho_trace s3 @ (if t = (0, 0, 0, 0) then [] else [MQTTAsync_sendMessage ''hub/msgcount'' q 2])"
    using report_counts_accepted [of e s3 t ?ts] assms(1-7,10) view keep ts by auto
  then show ?thesis
    using cb st keep(3) by (intro exI [of _ s'] exI [of _ p] exI [of _ q]) (simp del: split_paired_Ex)
qed

theorem run_app_releases:
  assumes "run_app e ae others argv s = Some (code, s')"
  shows "s' = s \<or> (code = 0 \<and> \<not> client s' \<and> fs_files s' (run_version_path MQTTMSGHUB_APP_NAME) = None \<and>
    (\<forall>p. g_threadpool s' = Some p \<longrightarrow> shutdown p \<noteq> running))"
proof -
  have "s' = s \<or> (\<exists>s0. app_exit e ae s0 = Some (code, s'))"
    using assms by (auto simp: run_app_def bind_eq_Some_conv Let_def split: sum.splits option.splits if_splits prod.splits)
  then show ?thesis using app_exit_effect by metis
qed

end
