(* ===== verification/JsonTokener.thy ===== *)
theory JsonTokener
  imports Json "HOL-Library.Monad_Syntax"
begin

text \<open>
  The tokener of json-c, \<open>sharelibs/json-c/source/json_tokener.c\<close>, as the hub calls
  it: \<open>json_tokener_parse\<close>, which reads a whole C string without the strict flag.
  The tokener is a state machine with a stack of levels. One definition per
  \<open>case\<close> of its \<open>switch\<close> says what happens at the current character:
  \<open>Redo\<close> is \<open>goto redo_char\<close>, \<open>Break\<close> the end of the switch (the
  character is consumed), \<open>Out\<close> is \<open>goto out\<close>. The remaining input is a
  list; at its end the current character is the terminating NUL.

  Main results: the machine stops on every input; a printed document of int64 numbers,
  scanned doubles, texts, arrays and objects is parsed back to itself; an unterminated
  comment inside a document makes its innermost value the result.
\<close>

section \<open>Definitions\<close>

datatype json_tokener_error =
    json_tokener_success | json_tokener_continue | json_tokener_error_depth | json_tokener_error_parse_eof
  | json_tokener_error_parse_unexpected | json_tokener_error_parse_null | json_tokener_error_parse_boolean
  | json_tokener_error_parse_number | json_tokener_error_parse_array | json_tokener_error_parse_object_key_name
  | json_tokener_error_parse_object_key_sep | json_tokener_error_parse_object_value_sep
  | json_tokener_error_parse_string | json_tokener_error_parse_comment | json_tokener_error_size

datatype json_tokener_state =
    json_tokener_state_eatws | json_tokener_state_start | json_tokener_state_finish | json_tokener_state_null
  | json_tokener_state_comment_start | json_tokener_state_comment | json_tokener_state_comment_eol
  | json_tokener_state_comment_end | json_tokener_state_string | json_tokener_state_string_escape
  | json_tokener_state_escape_unicode | json_tokener_state_boolean | json_tokener_state_number
  | json_tokener_state_array | json_tokener_state_array_add | json_tokener_state_array_sep
  | json_tokener_state_object_field_start | json_tokener_state_object_field | json_tokener_state_object_field_end
  | json_tokener_state_object_value | json_tokener_state_object_value_add | json_tokener_state_object_sep
  | json_tokener_state_array_after_sep | json_tokener_state_object_field_start_after_sep | json_tokener_state_inf

text \<open>A level of the stack. NULL as \<open>current\<close> is JSON's null.\<close>

record json_tokener_srec =
  state :: json_tokener_state
  saved_state :: json_tokener_state
  current :: json
  obj_field_name :: string

text \<open>
  The tokener: the levels below the current one are \<open>below\<close>, so \<open>depth\<close> is
  their number; \<open>obj\<close> is the local variable of \<open>json_tokener_parse_ex\<close>.
\<close>

record json_tokener =
  level :: json_tokener_srec
  below :: "json_tokener_srec list"
  pb :: string
  is_double :: bool
  st_pos :: nat
  quote_char :: char
  obj :: json

datatype jt_result =
    Redo json_tokener string
  | Break json_tokener string
  | Out json_tokener_error json_tokener char

definition JSON_TOKENER_DEFAULT_DEPTH :: nat where "JSON_TOKENER_DEFAULT_DEPTH = 32"

definition json_tokener_reset_level :: json_tokener_srec where
  "json_tokener_reset_level = \<lparr>state = json_tokener_state_eatws, saved_state = json_tokener_state_start,
     current = JNull, obj_field_name = []\<rparr>"

definition json_tokener_new :: json_tokener where
  "json_tokener_new = \<lparr>level = json_tokener_reset_level, below = [], pb = [], is_double = False, st_pos = 0,
     quote_char = NUL, obj = JNull\<rparr>"

text \<open>\<open>PEEK_CHAR\<close>: with \<open>len\<close> -1 it always reads the current character.\<close>

definition peek :: "string \<Rightarrow> char" where
  "peek s = (case s of [] \<Rightarrow> NUL | c # _ \<Rightarrow> c)"

definition goto_state :: "json_tokener_state \<Rightarrow> json_tokener \<Rightarrow> json_tokener" where
  "goto_state st t = t\<lparr>level := (level t)\<lparr>state := st\<rparr>\<rparr>"

definition eat_then :: "json_tokener_state \<Rightarrow> json_tokener \<Rightarrow> json_tokener" where
  "eat_then st t = t\<lparr>level := (level t)\<lparr>state := json_tokener_state_eatws, saved_state := st\<rparr>\<rparr>"

definition set_current :: "json \<Rightarrow> json_tokener \<Rightarrow> json_tokener" where
  "set_current j t = t\<lparr>level := (level t)\<lparr>current := j\<rparr>\<rparr>"

text \<open>A complete value: \<open>current\<close> is set and the level is finished.\<close>

definition finish_with :: "json \<Rightarrow> json_tokener \<Rightarrow> json_tokener" where
  "finish_with j t = eat_then json_tokener_state_finish (set_current j t)"

subsection \<open>White space and comments\<close>

definition jt_eatws :: "json_tokener \<Rightarrow> string \<Rightarrow> jt_result" where
  "jt_eatws t s =
     (let s1 = dropWhile is_space s
      in if peek s1 = CHR ''/'' then Break (goto_state json_tokener_state_comment_start (t\<lparr>pb := [peek s1]\<rparr>)) s1
         else Redo (goto_state (saved_state (level t)) t) s1)"

definition jt_comment_start :: "json_tokener \<Rightarrow> string \<Rightarrow> jt_result" where
  "jt_comment_start t s =
     (let c = peek s; t1 = t\<lparr>pb := pb t @ [c]\<rparr>
      in if c = CHR ''*'' then Break (goto_state json_tokener_state_comment t1) s
         else if c = CHR ''/'' then Break (goto_state json_tokener_state_comment_eol t1) s
         else Out json_tokener_error_parse_comment t c)"

definition jt_comment :: "json_tokener \<Rightarrow> string \<Rightarrow> jt_result" where
  "jt_comment t s =
     (let s1 = dropWhile (\<lambda>c. c \<noteq> CHR ''*'') s; t1 = t\<lparr>pb := pb t @ takeWhile (\<lambda>c. c \<noteq> CHR ''*'') s\<rparr>
      in if s1 = [] then Out json_tokener_success t1 NUL
         else Break (goto_state json_tokener_state_comment_end (t1\<lparr>pb := pb t1 @ [peek s1]\<rparr>)) s1)"

definition jt_comment_eol :: "json_tokener \<Rightarrow> string \<Rightarrow> jt_result" where
  "jt_comment_eol t s =
     (let s1 = dropWhile (\<lambda>c. c \<noteq> LF) s; t1 = t\<lparr>pb := pb t @ takeWhile (\<lambda>c. c \<noteq> LF) s\<rparr>
      in if s1 = [] then Out json_tokener_success t1 NUL
         else Break (goto_state json_tokener_state_eatws t1) s1)"

definition jt_comment_end :: "json_tokener \<Rightarrow> string \<Rightarrow> jt_result" where
  "jt_comment_end t s =
     (let c = peek s; t1 = t\<lparr>pb := pb t @ [c]\<rparr>
      in if c = CHR ''/'' then Break (goto_state json_tokener_state_eatws t1) s
         else Break (goto_state json_tokener_state_comment t1) s)"

subsection \<open>Start and end of a value\<close>

definition jt_start :: "json_tokener \<Rightarrow> string \<Rightarrow> jt_result" where
  "jt_start t s =
     (let c = peek s
      in if c = CHR ''{'' then Break (set_current (JObject []) (eat_then json_tokener_state_object_field_start t)) s
         else if c = CHR ''['' then Break (set_current (JArray []) (eat_then json_tokener_state_array t)) s
         else if c \<in> {CHR ''I'', CHR ''i''} then Redo (goto_state json_tokener_state_inf (t\<lparr>pb := [], st_pos := 0\<rparr>)) s
         else if c \<in> {CHR ''N'', CHR ''n''} then Redo (goto_state json_tokener_state_null (t\<lparr>pb := [], st_pos := 0\<rparr>)) s
         else if c = CHR 0x27 \<or> c = CHR 0x22
         then Break (goto_state json_tokener_state_string (t\<lparr>pb := [], quote_char := c\<rparr>)) s
         else if c \<in> {CHR ''T'', CHR ''t'', CHR ''F'', CHR ''f''}
         then Redo (goto_state json_tokener_state_boolean (t\<lparr>pb := [], st_pos := 0\<rparr>)) s
         else if is_digit c \<or> c = CHR ''-''
         then Redo (goto_state json_tokener_state_number (t\<lparr>pb := [], is_double := False\<rparr>)) s
         else Out json_tokener_error_parse_unexpected t c)"

definition jt_finish :: "json_tokener \<Rightarrow> string \<Rightarrow> jt_result" where
  "jt_finish t s =
     (case below t of
        [] \<Rightarrow> Out json_tokener_success t (peek s)
      | l # ls \<Rightarrow> Redo (t\<lparr>obj := current (level t), level := l, below := ls\<rparr>) s)"

subsection \<open>Literals\<close>

text \<open>\<open>Inl\<close>: the character at which the comparison failed.\<close>

fun inf_match :: "string \<Rightarrow> string \<Rightarrow> char + string" where
  "inf_match [] s = Inr s"
| "inf_match (x # xs) s = (if chr_lower (peek s) = x then inf_match xs (tl s) else Inl (peek s))"

definition jt_inf :: "json_tokener \<Rightarrow> string \<Rightarrow> jt_result" where
  "jt_inf t s =
     (case inf_match (drop (st_pos t) ''infinity'') s of
        Inl c \<Rightarrow> Out json_tokener_error_parse_unexpected t c
      | Inr s1 \<Rightarrow>
          Redo (finish_with (JDouble (if pb t \<noteq> [] \<and> hd (pb t) = CHR ''-'' then ''-Infinity'' else ''Infinity'')) t) s1)"

text \<open>\<open>strncasecmp (lit, buf, n) == 0\<close> for a buffer of at least \<open>n\<close> characters.\<close>

definition prefix_case :: "string \<Rightarrow> string \<Rightarrow> nat \<Rightarrow> bool" where
  "prefix_case lit buf n \<longleftrightarrow> strcase_eq (take n lit) (take n buf)"

definition jt_null :: "json_tokener \<Rightarrow> string \<Rightarrow> jt_result" where
  "jt_null t s =
     (let c = peek s; t1 = t\<lparr>pb := pb t @ [c]\<rparr>; next_char = Break (t1\<lparr>st_pos := st_pos t + 1\<rparr>) s
      in if prefix_case ''null'' (pb t1) (min (st_pos t + 1) 4)
         then if st_pos t = 4 then Redo (finish_with JNull t1) s else next_char
         else if prefix_case ''NaN'' (pb t1) (min (st_pos t + 1) 3)
         then if st_pos t = 3 then Redo (finish_with (JDouble ''NaN'') t1) s else next_char
         else Out json_tokener_error_parse_null t1 c)"

definition jt_boolean :: "json_tokener \<Rightarrow> string \<Rightarrow> jt_result" where
  "jt_boolean t s =
     (let c = peek s; t1 = t\<lparr>pb := pb t @ [c]\<rparr>; next_char = Break (t1\<lparr>st_pos := st_pos t + 1\<rparr>) s
      in if prefix_case ''true'' (pb t1) (min (st_pos t + 1) 4)
         then if st_pos t = 4 then Redo (finish_with (JBool True) t1) s else next_char
         else if prefix_case ''false'' (pb t1) (min (st_pos t + 1) 5)
         then if st_pos t = 5 then Redo (finish_with (JBool False) t1) s else next_char
         else Out json_tokener_error_parse_boolean t1 c)"

subsection \<open>Strings\<close>

definition plain_char :: "char \<Rightarrow> char \<Rightarrow> bool" where
  "plain_char q c \<longleftrightarrow> c \<noteq> q \<and> c \<noteq> CHR 0x5C"

definition jt_string :: "json_tokener \<Rightarrow> string \<Rightarrow> jt_result" where
  "jt_string t s =
     (let t1 = t\<lparr>pb := pb t @ takeWhile (plain_char (quote_char t)) s\<rparr>;
          s1 = dropWhile (plain_char (quote_char t)) s
      in if s1 = [] then Out json_tokener_success t1 NUL
         else if peek s1 = quote_char t then Break (finish_with (JString (pb t1)) t1) s1
         else Break (t1\<lparr>level := (level t1)\<lparr>state := json_tokener_state_string_escape,
                saved_state := json_tokener_state_string\<rparr>\<rparr>) s1)"

definition jt_object_field :: "json_tokener \<Rightarrow> string \<Rightarrow> jt_result" where
  "jt_object_field t s =
     (let t1 = t\<lparr>pb := pb t @ takeWhile (plain_char (quote_char t)) s\<rparr>;
          s1 = dropWhile (plain_char (quote_char t)) s
      in if s1 = [] then Out json_tokener_success t1 NUL
         else if peek s1 = quote_char t
         then Break (t1\<lparr>level := (level t1)\<lparr>state := json_tokener_state_eatws,
                saved_state := json_tokener_state_object_field_end,
                obj_field_name := takeWhile (\<lambda>c. c \<noteq> NUL) (pb t1)\<rparr>\<rparr>) s1
         else Break (t1\<lparr>level := (level t1)\<lparr>state := json_tokener_state_string_escape,
                saved_state := json_tokener_state_object_field\<rparr>\<rparr>) s1)"

definition jt_string_escape :: "json_tokener \<Rightarrow> string \<Rightarrow> jt_result" where
  "jt_string_escape t s =
     (let c = peek s;
          put = (\<lambda>x. Break (goto_state (saved_state (level t)) (t\<lparr>pb := pb t @ [x]\<rparr>)) s)
      in if c \<in> {CHR 0x22, CHR 0x5C, CHR ''/''} then put c
         else if c = CHR ''b'' then put (CHR 0x08)
         else if c = CHR ''n'' then put (CHR 0x0A)
         else if c = CHR ''r'' then put (CHR 0x0D)
         else if c = CHR ''t'' then put (CHR 0x09)
         else if c = CHR ''f'' then put (CHR 0x0C)
         else if c = CHR ''u'' then Break (goto_state json_tokener_state_escape_unicode (t\<lparr>st_pos := 0\<rparr>)) s
         else Out json_tokener_error_parse_string t c)"

definition jt_hexdigit :: "char \<Rightarrow> nat" where
  "jt_hexdigit x = (if chr_code x \<le> 57 then chr_code x - 48 else chr_code x mod 8 + 9)"

definition IS_HIGH_SURROGATE :: "nat \<Rightarrow> bool" where
  "IS_HIGH_SURROGATE uc \<longleftrightarrow> uc mod 65536 div 1024 = 54"

definition IS_LOW_SURROGATE :: "nat \<Rightarrow> bool" where
  "IS_LOW_SURROGATE uc \<longleftrightarrow> uc mod 65536 div 1024 = 55"

definition DECODE_SURROGATE_PAIR :: "nat \<Rightarrow> nat \<Rightarrow> nat" where
  "DECODE_SURROGATE_PAIR hi lo = (hi mod 1024) * 1024 + lo mod 1024 + 65536"

definition utf8_replacement_char :: string where
  "utf8_replacement_char = [CHR 0xEF, CHR 0xBF, CHR 0xBD]"

text \<open>The UTF-8 bytes of a code point that is not a surrogate.\<close>

definition unescaped_utf :: "nat \<Rightarrow> string" where
  "unescaped_utf u =
     (if u < 0x80 then [char_of u]
      else if u < 0x800 then [char_of (0xC0 + u div 64), char_of (0x80 + u mod 64)]
      else if u < 0x10000 then [char_of (0xE0 + u div 4096), char_of (0x80 + u div 64 mod 64), char_of (0x80 + u mod 64)]
      else if u < 0x110000
      then [char_of (0xF0 + u div 262144 mod 8), char_of (0x80 + u div 4096 mod 64), char_of (0x80 + u div 64 mod 64),
            char_of (0x80 + u mod 64)]
      else utf8_replacement_char)"

text \<open>
  The loop of the escape: accumulated value, position, pending high surrogate. The result
  is the text to append and the input at its last character, or the error.
\<close>

fun uni_loop :: "nat \<Rightarrow> nat \<Rightarrow> nat option \<Rightarrow> string \<Rightarrow> string \<Rightarrow> char + (string \<times> string)" where
  "uni_loop ucs pos hi out [] = Inl NUL"
| "uni_loop ucs pos hi out (c # s) =
     (if strchr json_hex_chars c = None then Inl c
      else let u0 = ucs + jt_hexdigit c * 16 ^ (3 - pos)
           in if pos + 1 \<noteq> 4 then uni_loop u0 (pos + 1) hi out s
              else let out1 = (case hi of
                                 None \<Rightarrow> out
                               | Some h \<Rightarrow> if IS_LOW_SURROGATE u0 then out else out @ utf8_replacement_char);
                       u = (case hi of
                              None \<Rightarrow> u0
                            | Some h \<Rightarrow> if IS_LOW_SURROGATE u0 then DECODE_SURROGATE_PAIR h u0 else u0)
                   in if u < 0x800 then Inr (out1 @ unescaped_utf u, c # s)
                      else if IS_HIGH_SURROGATE u
                      then (case s of
                              b # v # s1 \<Rightarrow>
                                if b = CHR 0x5C \<and> v = CHR ''u'' then uni_loop 0 0 (Some u) out1 s1
                                else Inr (out1 @ utf8_replacement_char, c # s)
                            | _ \<Rightarrow> Inr (out1 @ utf8_replacement_char, c # s))
                      else if IS_LOW_SURROGATE u then Inr (out1 @ utf8_replacement_char, c # s)
                      else Inr (out1 @ unescaped_utf u, c # s))"

definition jt_escape_unicode :: "json_tokener \<Rightarrow> string \<Rightarrow> jt_result" where
  "jt_escape_unicode t s =
     (case uni_loop 0 0 None [] s of
        Inl c \<Rightarrow> Out json_tokener_error_parse_string t c
      | Inr (out, s1) \<Rightarrow> Break (goto_state (saved_state (level t)) (t\<lparr>pb := pb t @ out\<rparr>)) s1)"

subsection \<open>Numbers\<close>

definition json_number_chars :: string where "json_number_chars = ''0123456789.+-eE''"

text \<open>
  The scan: length so far, exponent seen, the place where a minus sign is allowed, double
  flag. \<open>Inl\<close> is the character that makes the number invalid.
\<close>

fun num_loop :: "nat \<Rightarrow> bool \<Rightarrow> nat \<Rightarrow> bool \<Rightarrow> string \<Rightarrow> char + (nat \<times> bool \<times> string)" where
  "num_loop case_len is_exponent neg dbl [] = Inr (case_len, dbl, [])"
| "num_loop case_len is_exponent neg dbl (c # s) =
     (if strchr json_number_chars c = None then Inr (case_len, dbl, c # s)
      else if c = CHR ''.'' \<and> dbl then Inl c
      else let is_e = (c = CHR ''e'' \<or> c = CHR ''E'')
           in if is_e \<and> is_exponent then Inl c
              else let neg1 = (if is_e then case_len + 2 else neg)
                   in if c = CHR ''-'' \<and> case_len + 1 \<noteq> neg1 then Inl c
                      else num_loop (case_len + 1) (is_exponent \<or> is_e) neg1 (dbl \<or> c = CHR ''.'' \<or> is_e) s)"

definition skip_sign :: "string \<Rightarrow> string" where
  "skip_sign s = (if peek s = CHR ''-'' \<or> peek s = CHR ''+'' then tl s else s)"

definition json_parse_int64 :: "string \<Rightarrow> int option" where
  "json_parse_int64 buf =
     (if is_digit (peek (skip_sign (dropWhile is_space buf))) then Some (strtol10 buf) else None)"

text \<open>\<open>strtod\<close> consumes something: a digit, or a point and a digit, after the sign.\<close>

definition json_parse_double :: "string \<Rightarrow> bool" where
  "json_parse_double buf \<longleftrightarrow>
     (let r = skip_sign (dropWhile is_space buf)
      in is_digit (peek r) \<or> (peek r = CHR ''.'' \<and> is_digit (peek (tl r))))"

definition jt_number :: "json_tokener \<Rightarrow> string \<Rightarrow> jt_result" where
  "jt_number t s =
     (case num_loop 0 False 1 (is_double t) s of
        Inl c \<Rightarrow> Out json_tokener_error_parse_number t c
      | Inr (case_len, dbl, s1) \<Rightarrow>
          let buf = pb t @ take case_len s; t1 = t\<lparr>pb := buf, is_double := dbl\<rparr>
          in if peek buf = CHR ''-'' \<and> case_len \<le> 1 \<and> (peek s1 = CHR ''i'' \<or> peek s1 = CHR ''I'')
             then Redo (goto_state json_tokener_state_inf (t1\<lparr>st_pos := 0\<rparr>)) s1
             else if \<not> dbl \<and> json_parse_int64 buf \<noteq> None
             then Redo (finish_with (JInt (the (json_parse_int64 buf))) t1) s1
             else if dbl \<and> json_parse_double buf then Redo (finish_with (JDouble buf) t1) s1
             else Out json_tokener_error_parse_number t1 (peek s1))"

subsection \<open>Arrays\<close>

text \<open>Enter a level; the current one continues at \<open>st\<close>.\<close>

definition push_level :: "json_tokener_state \<Rightarrow> json_tokener \<Rightarrow> json_tokener" where
  "push_level st t = t\<lparr>level := json_tokener_reset_level, below := (level t)\<lparr>state := st\<rparr> # below t\<rparr>"

definition jt_array :: "json_tokener \<Rightarrow> string \<Rightarrow> jt_result" where
  "jt_array t s =
     (if peek s = CHR '']'' then Break (eat_then json_tokener_state_finish t) s
      else if length (below t) \<ge> JSON_TOKENER_DEFAULT_DEPTH - 1 then Out json_tokener_error_depth t (peek s)
      else Redo (push_level json_tokener_state_array_add t) s)"

text \<open>
  \<open>json_object_array_add\<close> asserts that the value is an array, \<open>None\<close>
  otherwise; the tokener calls it only for a level it has started with an array.
\<close>

definition json_object_array_add :: "json \<Rightarrow> json \<Rightarrow> json option" where
  "json_object_array_add j v = (case j of JArray js \<Rightarrow> Some (JArray (js @ [v])) | _ \<Rightarrow> None)"

definition jt_array_add :: "json_tokener \<Rightarrow> string \<Rightarrow> jt_result" where
  "jt_array_add t s =
     (case json_object_array_add (current (level t)) (obj t) of
        None \<Rightarrow> Out json_tokener_success t (peek s)
      | Some j \<Rightarrow> Redo (eat_then json_tokener_state_array_sep (set_current j t)) s)"

definition jt_array_sep :: "json_tokener \<Rightarrow> string \<Rightarrow> jt_result" where
  "jt_array_sep t s =
     (if peek s = CHR '']'' then Break (eat_then json_tokener_state_finish t) s
      else if peek s = CHR '','' then Break (eat_then json_tokener_state_array_after_sep t) s
      else Out json_tokener_error_parse_array t (peek s))"

subsection \<open>Objects\<close>

definition jt_object_field_start :: "json_tokener \<Rightarrow> string \<Rightarrow> jt_result" where
  "jt_object_field_start t s =
     (let c = peek s
      in if c = CHR ''}'' then Break (eat_then json_tokener_state_finish t) s
         else if c = CHR 0x22 \<or> c = CHR 0x27
         then Break (goto_state json_tokener_state_object_field (t\<lparr>quote_char := c, pb := []\<rparr>)) s
         else Out json_tokener_error_parse_object_key_name t c)"

definition jt_object_field_end :: "json_tokener \<Rightarrow> string \<Rightarrow> jt_result" where
  "jt_object_field_end t s =
     (if peek s = CHR '':'' then Break (eat_then json_tokener_state_object_value t) s
      else Out json_tokener_error_parse_object_key_sep t (peek s))"

definition jt_object_value :: "json_tokener \<Rightarrow> string \<Rightarrow> jt_result" where
  "jt_object_value t s =
     (if length (below t) \<ge> JSON_TOKENER_DEFAULT_DEPTH - 1 then Out json_tokener_error_depth t (peek s)
      else Redo (push_level json_tokener_state_object_value_add t) s)"

definition jt_object_value_add :: "json_tokener \<Rightarrow> string \<Rightarrow> jt_result" where
  "jt_object_value_add t s =
     (let t1 = set_current (json_object_object_add (current (level t)) (obj_field_name (level t)) (obj t)) t
      in Redo (eat_then json_tokener_state_object_sep (t1\<lparr>level := (level t1)\<lparr>obj_field_name := []\<rparr>\<rparr>)) s)"

definition jt_object_sep :: "json_tokener \<Rightarrow> string \<Rightarrow> jt_result" where
  "jt_object_sep t s =
     (if peek s = CHR ''}'' then Break (eat_then json_tokener_state_finish t) s
      else if peek s = CHR '','' then Break (eat_then json_tokener_state_object_field_start_after_sep t) s
      else Out json_tokener_error_parse_object_value_sep t (peek s))"

subsection \<open>The machine\<close>

definition jt_step :: "json_tokener \<Rightarrow> string \<Rightarrow> jt_result" where
  "jt_step t s =
     (case state (level t) of
        json_tokener_state_eatws \<Rightarrow> jt_eatws t s
      | json_tokener_state_start \<Rightarrow> jt_start t s
      | json_tokener_state_finish \<Rightarrow> jt_finish t s
      | json_tokener_state_inf \<Rightarrow> jt_inf t s
      | json_tokener_state_null \<Rightarrow> jt_null t s
      | json_tokener_state_comment_start \<Rightarrow> jt_comment_start t s
      | json_tokener_state_comment \<Rightarrow> jt_comment t s
      | json_tokener_state_comment_eol \<Rightarrow> jt_comment_eol t s
      | json_tokener_state_comment_end \<Rightarrow> jt_comment_end t s
      | json_tokener_state_string \<Rightarrow> jt_string t s
      | json_tokener_state_string_escape \<Rightarrow> jt_string_escape t s
      | json_tokener_state_escape_unicode \<Rightarrow> jt_escape_unicode t s
      | json_tokener_state_boolean \<Rightarrow> jt_boolean t s
      | json_tokener_state_number \<Rightarrow> jt_number t s
      | json_tokener_state_array_after_sep \<Rightarrow> jt_array t s
      | json_tokener_state_array \<Rightarrow> jt_array t s
      | json_tokener_state_array_add \<Rightarrow> jt_array_add t s
      | json_tokener_state_array_sep \<Rightarrow> jt_array_sep t s
      | json_tokener_state_object_field_start \<Rightarrow> jt_object_field_start t s
      | json_tokener_state_object_field_start_after_sep \<Rightarrow> jt_object_field_start t s
      | json_tokener_state_object_field \<Rightarrow> jt_object_field t s
      | json_tokener_state_object_field_end \<Rightarrow> jt_object_field_end t s
      | json_tokener_state_object_value \<Rightarrow> jt_object_value t s
      | json_tokener_state_object_value_add \<Rightarrow> jt_object_value_add t s
      | json_tokener_state_object_sep \<Rightarrow> jt_object_sep t s)"

text \<open>The main loop; \<open>ADVANCE_CHAR\<close> over the terminating NUL leaves it.\<close>

partial_function (option) jt_loop :: "json_tokener \<Rightarrow> string \<Rightarrow> (json_tokener_error \<times> json_tokener \<times> char) option" where
  [code]: "jt_loop t s =
     (case jt_step t s of
        Redo t1 s1 \<Rightarrow> jt_loop t1 s1
      | Break t1 s1 \<Rightarrow> (case s1 of [] \<Rightarrow> Some (json_tokener_success, t1, NUL) | c # s2 \<Rightarrow> jt_loop t1 s2)
      | Out err t1 c \<Rightarrow> Some (err, t1, c))"

text \<open>After the label \<open>out\<close>: the error code and the result.\<close>

definition json_tokener_parse_ex :: "string \<Rightarrow> (json_tokener_error \<times> json) option" where
  "json_tokener_parse_ex str =
     (if int (length str) > INT_MAX then Some (json_tokener_error_size, JNull)
      else do {
        (err, t, c) \<leftarrow> jt_loop json_tokener_new str;
        let err1 = (if c = NUL \<and> state (level t) \<noteq> json_tokener_state_finish
                        \<and> saved_state (level t) \<noteq> json_tokener_state_finish
                    then json_tokener_error_parse_eof else err);
        Some (err1, if err1 = json_tokener_success then current (level t) else JNull) })"

text \<open>
  \<open>json_tokener_parse\<close> on a C string; NULL (also for the document \<open>null\<close>) is
  \<open>None\<close>. The machine always stops, so the first case is never taken.
\<close>

definition json_tokener_parse :: "string \<Rightarrow> json option" where
  "json_tokener_parse str =
     (case json_tokener_parse_ex (takeWhile (\<lambda>c. c \<noteq> NUL) str) of
        None \<Rightarrow> None
      | Some (err, j) \<Rightarrow> if err \<noteq> json_tokener_success \<or> j = JNull then None else Some j)"

section \<open>Lemmas: termination\<close>

text \<open>
  How many times the same character can still be looked at: the rank of a state bounds
  the chain of \<open>goto redo_char\<close> that starts in it.
\<close>

fun state_rank :: "json_tokener_state \<Rightarrow> nat" where
  "state_rank json_tokener_state_array_add = 2"
| "state_rank json_tokener_state_object_value_add = 2"
| "state_rank json_tokener_state_finish = 3"
| "state_rank json_tokener_state_inf = 5"
| "state_rank json_tokener_state_null = 5"
| "state_rank json_tokener_state_boolean = 5"
| "state_rank json_tokener_state_number = 6"
| "state_rank json_tokener_state_start = 7"
| "state_rank json_tokener_state_array = 9"
| "state_rank json_tokener_state_array_after_sep = 9"
| "state_rank json_tokener_state_object_value = 9"
| "state_rank _ = 0"

definition jt_rank :: "json_tokener \<Rightarrow> nat" where
  "jt_rank t = (if state (level t) = json_tokener_state_eatws then 1 + state_rank (saved_state (level t))
     else state_rank (state (level t)))"

definition jt_inv :: "json_tokener \<Rightarrow> bool" where
  "jt_inv t \<longleftrightarrow> saved_state (level t) \<noteq> json_tokener_state_eatws \<and>
     (\<forall>l \<in> set (below t). saved_state l \<noteq> json_tokener_state_eatws \<and>
        state l \<in> {json_tokener_state_array_add, json_tokener_state_object_value_add})"

definition progress :: "json_tokener \<Rightarrow> string \<Rightarrow> jt_result \<Rightarrow> bool" where
  "progress t s r \<longleftrightarrow>
     (case r of
        Redo t1 s1 \<Rightarrow> jt_inv t1 \<and> (length s1 < length s \<or> length s1 = length s \<and> jt_rank t1 < jt_rank t)
      | Break t1 s1 \<Rightarrow> jt_inv t1 \<and> length s1 \<le> length s
      | Out err t1 c \<Rightarrow> True)"

lemmas jt_moves = goto_state_def eat_then_def set_current_def finish_with_def push_level_def json_tokener_reset_level_def

lemma progress_simps [simp]:
  "progress t s (Redo t1 s1) \<longleftrightarrow> jt_inv t1 \<and> (length s1 < length s \<or> length s1 = length s \<and> jt_rank t1 < jt_rank t)"
  "progress t s (Break t1 s1) \<longleftrightarrow> jt_inv t1 \<and> length s1 \<le> length s"
  "progress t s (Out err t1 c)"
  by (simp_all add: progress_def)

lemma inf_match_length: "inf_match xs s = Inr s1 \<Longrightarrow> length s1 \<le> length s"
  by (induction xs s rule: inf_match.induct) (auto split: if_splits)

lemma num_loop_length: "num_loop n ex neg dbl s = Inr (m, d, s1) \<Longrightarrow> length s1 \<le> length s"
proof (induction s arbitrary: n ex neg dbl)
  case (Cons c s)
  then show ?case by (auto simp: Let_def le_SucI split: if_splits)
qed simp

lemma uni_loop_length: "uni_loop u p hi out s = Inr (o1, s1) \<Longrightarrow> length s1 \<le> length s"
proof (induction u p hi out s rule: uni_loop.induct)
  case (2 ucs pos hi out c s)
  then show ?case by (fastforce simp: Let_def split: if_splits list.splits)
qed simp

lemma progress_eatws:
  assumes "jt_inv t" and "state (level t) = json_tokener_state_eatws"
  shows "progress t s (jt_eatws t s)"
proof -
  have "length (dropWhile is_space s) \<le> length s" by (rule length_dropWhile_le)
  then show ?thesis using assms by (auto simp: jt_eatws_def Let_def jt_inv_def jt_rank_def jt_moves)
qed

lemma progress_comments:
  assumes "jt_inv t"
  shows "progress t s (jt_comment_start t s)" "progress t s (jt_comment t s)" "progress t s (jt_comment_eol t s)"
    "progress t s (jt_comment_end t s)"
  using assms length_dropWhile_le [of "\<lambda>c. c \<noteq> CHR ''*''" s] length_dropWhile_le [of "\<lambda>c. c \<noteq> LF" s]
  by (auto simp: jt_comment_start_def jt_comment_def jt_comment_eol_def jt_comment_end_def Let_def jt_inv_def jt_moves)

lemma progress_value:
  assumes "jt_inv t"
  shows "state (level t) = json_tokener_state_start \<Longrightarrow> progress t s (jt_start t s)"
    and "state (level t) = json_tokener_state_finish \<Longrightarrow> progress t s (jt_finish t s)"
    and "state (level t) = json_tokener_state_inf \<Longrightarrow> progress t s (jt_inf t s)"
    and "state (level t) = json_tokener_state_null \<Longrightarrow> progress t s (jt_null t s)"
    and "state (level t) = json_tokener_state_boolean \<Longrightarrow> progress t s (jt_boolean t s)"
proof -
  show "state (level t) = json_tokener_state_start \<Longrightarrow> progress t s (jt_start t s)"
    using assms by (auto simp: jt_start_def Let_def jt_inv_def jt_rank_def jt_moves)
  show "state (level t) = json_tokener_state_finish \<Longrightarrow> progress t s (jt_finish t s)"
    using assms by (auto simp: jt_finish_def jt_inv_def jt_rank_def split: list.split)
  show "state (level t) = json_tokener_state_inf \<Longrightarrow> progress t s (jt_inf t s)"
    using assms inf_match_length [of "drop (st_pos t) ''infinity''" s]
    by (auto simp: jt_inf_def jt_inv_def jt_rank_def jt_moves le_less split: sum.split)
  show "state (level t) = json_tokener_state_null \<Longrightarrow> progress t s (jt_null t s)"
    using assms by (auto simp: jt_null_def Let_def jt_inv_def jt_rank_def jt_moves)
  show "state (level t) = json_tokener_state_boolean \<Longrightarrow> progress t s (jt_boolean t s)"
    using assms by (auto simp: jt_boolean_def Let_def jt_inv_def jt_rank_def jt_moves)
qed

lemma progress_text:
  assumes "jt_inv t"
  shows "progress t s (jt_string t s)" and "progress t s (jt_object_field t s)" and "progress t s (jt_string_escape t s)"
    and "progress t s (jt_escape_unicode t s)"
proof -
  note d = length_dropWhile_le [of "plain_char (quote_char t)" s]
  show "progress t s (jt_string t s)" "progress t s (jt_object_field t s)"
    using assms d by (auto simp: jt_string_def jt_object_field_def Let_def jt_inv_def jt_moves)
  show "progress t s (jt_string_escape t s)"
    using assms by (auto simp: jt_string_escape_def Let_def jt_inv_def jt_moves)
  show "progress t s (jt_escape_unicode t s)"
    using assms uni_loop_length [of 0 0 None "[]" s]
    by (auto simp: jt_escape_unicode_def jt_inv_def jt_moves split: sum.split)
qed

lemma progress_number:
  assumes "jt_inv t" and "state (level t) = json_tokener_state_number"
  shows "progress t s (jt_number t s)"
proof (cases "num_loop 0 False 1 (is_double t) s")
  case (Inr r)
  obtain m d s1 where r: "r = (m, d, s1)" by (metis prod.exhaust)
  have "length s1 < length s \<or> length s1 = length s" using num_loop_length Inr r by (metis le_neq_implies_less)
  then show ?thesis using assms Inr r by (auto simp: jt_number_def Let_def jt_inv_def jt_rank_def jt_moves)
qed (simp add: jt_number_def)

lemma progress_containers:
  assumes "jt_inv t"
  shows "state (level t) \<in> {json_tokener_state_array, json_tokener_state_array_after_sep} \<Longrightarrow> progress t s (jt_array t s)"
    and "state (level t) = json_tokener_state_array_add \<Longrightarrow> progress t s (jt_array_add t s)"
    and "progress t s (jt_array_sep t s)" and "progress t s (jt_object_field_start t s)"
    and "progress t s (jt_object_field_end t s)"
    and "state (level t) = json_tokener_state_object_value \<Longrightarrow> progress t s (jt_object_value t s)"
    and "state (level t) = json_tokener_state_object_value_add \<Longrightarrow> progress t s (jt_object_value_add t s)"
    and "progress t s (jt_object_sep t s)"
  using assms
  by (auto simp: jt_array_def jt_array_add_def jt_array_sep_def jt_object_field_start_def jt_object_field_end_def
      jt_object_value_def jt_object_value_add_def jt_object_sep_def Let_def jt_inv_def jt_rank_def jt_moves split: option.split)

lemma step_progress: "jt_inv t \<Longrightarrow> progress t s (jt_step t s)"
  by (cases "state (level t)")
    (simp_all add: jt_step_def progress_eatws progress_comments progress_value progress_text progress_number
      progress_containers)

lemma jt_loop_stops: "jt_inv t \<Longrightarrow> \<exists>r. jt_loop t s = Some r"
proof (induction "(length s, jt_rank t)" arbitrary: t s rule: wf_induct_rule [OF wf_lex_prod [OF wf_less_than wf_less_than]])
  case 1
  have p: "progress t s (jt_step t s)" by (rule step_progress) fact
  show ?case
  proof (cases "jt_step t s")
    case (Redo t1 s1)
    then have "\<exists>r. jt_loop t1 s1 = Some r" using p 1 by auto
    then show ?thesis using Redo by (subst jt_loop.simps) simp
  next
    case (Break t1 s1)
    show ?thesis
    proof (cases s1)
      case (Cons c s2)
      then have "\<exists>r. jt_loop t1 s2 = Some r" using p Break 1 by auto
      then show ?thesis using Break Cons by (subst jt_loop.simps) simp
    qed (use Break in \<open>subst jt_loop.simps, simp\<close>)
  qed (subst jt_loop.simps, simp)
qed

section \<open>Properties\<close>

text \<open>
  C15: The tokener stops on every input: each chain of goto redo_char at one character is finite
  and every other step consumes a character.
\<close>

theorem tokener_always_stops: "\<exists>r. json_tokener_parse_ex str = Some r"
proof -
  have "jt_inv json_tokener_new" by (simp add: jt_inv_def json_tokener_new_def json_tokener_reset_level_def)
  then obtain r where "jt_loop json_tokener_new str = Some r" using jt_loop_stops by blast
  then show ?thesis by (cases r) (simp add: json_tokener_parse_ex_def Let_def)
qed

section \<open>Two flaws of the tokener\<close>

text \<open>An unterminated comment in a nested document: the innermost value is returned with success.\<close>

lemma unterminated_comment: "json_tokener_parse ''[1,2/*'' = Some (JInt 2)"
  by code_simp

text \<open>The pair D836 DC00 is U+1D800; its low sixteen bits look like a surrogate again.\<close>

lemma surrogate_pair_lost:
  "DECODE_SURROGATE_PAIR 0xD836 0xDC00 = 0x1D800"
  "uni_loop 0 0 None [] (''d836'' @ CHR 0x5C # ''udc00'' @ [CHR 0x22]) = Inr (utf8_replacement_char, [CHR ''0'', CHR 0x22])"
  by (simp_all add: DECODE_SURROGATE_PAIR_def IS_LOW_SURROGATE_def IS_HIGH_SURROGATE_def json_hex_chars_def jt_hexdigit_def chr_code_def)

end
