(* ===== verification/JsonRoundTrip.thy ===== *)
theory JsonRoundTrip
  imports JsonTokener
begin

text \<open>
  Printing and parsing: what \<open>json_object_to_json_string_ext\<close> of
  \<open>json_object.c\<close> writes, \<open>json_tokener_parse\<close> of \<open>json_tokener.c\<close>
  reads back. The proof follows the machine: a printed value, read by a fresh level of
  the stack, leaves that level finished with the value as its \<open>current\<close>,
  whatever levels are below it. Strings may hold every character, NUL included.
\<close>

section \<open>Definitions\<close>

text \<open>
  The text json-c keeps for a double: one of the three special values or a text that the
  number scanner takes as a whole and as a double.
\<close>

definition double_text :: "string \<Rightarrow> bool" where
  "double_text d \<longleftrightarrow> d \<in> {''NaN'', ''Infinity'', ''-Infinity''} \<or>
     (is_digit (peek d) \<or> peek d = CHR ''-'') \<and> num_loop 0 False 1 False d = Inr (length d, True, []) \<and> json_parse_double d"

text \<open>
  The documents that can be read back: 64-bit numbers, keys that are C strings and
  occur once.
\<close>

fun json_ok :: "json \<Rightarrow> bool" where
  "json_ok JNull \<longleftrightarrow> True"
| "json_ok (JBool b) \<longleftrightarrow> True"
| "json_ok (JInt i) \<longleftrightarrow> is_int64 i"
| "json_ok (JDouble d) \<longleftrightarrow> double_text d"
| "json_ok (JString s) \<longleftrightarrow> True"
| "json_ok (JArray js) \<longleftrightarrow> (\<forall>j \<in> set js. json_ok j)"
| "json_ok (JObject ms) \<longleftrightarrow> distinct (map fst ms) \<and> (\<forall>m \<in> set ms. is_cstr (fst m) \<and> json_ok (snd m))"

fun json_depth :: "json \<Rightarrow> nat" where
  "json_depth (JArray js) = Max (insert 0 ((\<lambda>j. Suc (json_depth j)) ` set js))"
| "json_depth (JObject ms) = Max (insert 0 ((\<lambda>m. Suc (json_depth (snd m))) ` set ms))"
| "json_depth _ = 0"

text \<open>What may follow a value inside a document.\<close>

definition rest_ok :: "string \<Rightarrow> bool" where
  "rest_ok rest \<longleftrightarrow> rest = [] \<or> hd rest \<in> {CHR '','', CHR '']'', CHR ''}''}"

definition finished :: "json \<Rightarrow> json_tokener_srec" where
  "finished j = \<lparr>state = json_tokener_state_eatws, saved_state = json_tokener_state_finish, current = j, obj_field_name = []\<rparr>"

definition parses :: "json_tokener_srec list \<Rightarrow> string \<Rightarrow> json \<Rightarrow> bool" where
  "parses stk str j \<longleftrightarrow> (\<forall>t rest. level t = json_tokener_reset_level \<longrightarrow> below t = stk \<longrightarrow> rest_ok rest \<longrightarrow>
     (\<exists>t'. jt_loop t (str @ rest) = jt_loop t' rest \<and> level t' = finished j \<and> below t' = stk))"

section \<open>Lemmas: one step\<close>

lemma jt_redo: "jt_step t s = Redo t1 s1 \<Longrightarrow> jt_loop t s = jt_loop t1 s1"
  by (subst jt_loop.simps) simp

lemma jt_break: "jt_step t s = Break t1 (c # s1) \<Longrightarrow> jt_loop t s = jt_loop t1 s1"
  by (subst jt_loop.simps) simp

lemma jt_eatws_skip:
  assumes "state (level t) = json_tokener_state_eatws" and "s = [] \<or> \<not> is_space (hd s) \<and> hd s \<noteq> CHR ''/''"
  shows "jt_loop t s = jt_loop (goto_state (saved_state (level t)) t) s"
proof (rule jt_redo)
  have "dropWhile is_space s = s" using assms(2) by (cases s) auto
  then show "jt_step t s = Redo (goto_state (saved_state (level t)) t) s"
    using assms by (cases s) (auto simp: jt_step_def jt_eatws_def peek_def)
qed

lemma rest_ok_eatws: "rest_ok s \<Longrightarrow> s = [] \<or> \<not> is_space (hd s) \<and> hd s \<noteq> CHR ''/''"
  by (auto simp: rest_ok_def is_space_def chr_code_def)

section \<open>Lemmas: strings\<close>

text \<open>The part of the state a string scan keeps.\<close>

definition in_text :: "json_tokener_state \<Rightarrow> json_tokener \<Rightarrow> string \<Rightarrow> json_tokener \<Rightarrow> bool" where
  "in_text st t b t' \<longleftrightarrow> state (level t') = st \<and> pb t' = b \<and> quote_char t' = CHR 0x22 \<and> below t' = below t \<and>
     current (level t') = current (level t) \<and> obj_field_name (level t') = obj_field_name (level t)"

lemma plain_char_step:
  assumes "plain_char (quote_char t) c"
    and "state (level t) = json_tokener_state_string \<or> state (level t) = json_tokener_state_object_field"
  shows "jt_loop t (c # s) = jt_loop (t\<lparr>pb := pb t @ [c]\<rparr>) s"
proof -
  have "jt_step t (c # s) = jt_step (t\<lparr>pb := pb t @ [c]\<rparr>) s"
    using assms by (auto simp: jt_step_def jt_string_def jt_object_field_def Let_def)
  then show ?thesis by (subst (1 2) jt_loop.simps) simp
qed

lemma backslash_step:
  assumes "quote_char t = CHR 0x22"
    and "st = json_tokener_state_string \<or> st = json_tokener_state_object_field" and "state (level t) = st"
  shows "jt_loop t (CHR 0x5C # s) =
    jt_loop (t\<lparr>level := (level t)\<lparr>state := json_tokener_state_string_escape, saved_state := st\<rparr>\<rparr>) s"
  by (rule jt_break) (use assms in \<open>auto simp: jt_step_def jt_string_def jt_object_field_def Let_def plain_char_def peek_def\<close>)

text \<open>The escapes of one letter.\<close>

definition escape_letters :: "(char \<times> char) list" where
  "escape_letters = [(CHR 0x08, CHR ''b''), (CHR 0x0A, CHR ''n''), (CHR 0x0D, CHR ''r''), (CHR 0x09, CHR ''t''),
     (CHR 0x0C, CHR ''f''), (CHR 0x22, CHR 0x22), (CHR 0x5C, CHR 0x5C)]"

lemma letter_step:
  assumes "(c, l) \<in> set escape_letters" and "state (level t) = json_tokener_state_string_escape"
  shows "jt_loop t (l # s) = jt_loop (goto_state (saved_state (level t)) (t\<lparr>pb := pb t @ [c]\<rparr>)) s"
proof (rule jt_break)
  have "\<forall>(c, l) \<in> set escape_letters. jt_string_escape t (l # s) =
      Break (goto_state (saved_state (level t)) (t\<lparr>pb := pb t @ [c]\<rparr>)) (l # s)"
    by (simp add: escape_letters_def jt_string_escape_def peek_def)
  then show "jt_step t (l # s) = Break (goto_state (saved_state (level t)) (t\<lparr>pb := pb t @ [c]\<rparr>)) (l # s)"
    using assms by (auto simp: jt_step_def)
qed

lemma hex_digit:
  assumes "k < 16"
  shows "jt_hexdigit (json_hex_chars ! k) = k" and "strchr json_hex_chars (json_hex_chars ! k) \<noteq> None"
proof -
  have "\<forall>k \<in> set [0..<16]. jt_hexdigit (json_hex_chars ! k) = k" by code_simp
  then show "jt_hexdigit (json_hex_chars ! k) = k" using assms by simp
  have "k < length json_hex_chars" using assms by (simp add: json_hex_chars_def)
  then show "strchr json_hex_chars (json_hex_chars ! k) \<noteq> None" by (simp add: strchr_None_iff)
qed

lemma uni_loop_control:
  assumes "n < 32"
  shows "uni_loop 0 0 None [] (''00'' @ [json_hex_chars ! (n div 16), json_hex_chars ! (n mod 16)] @ s) =
    Inr ([char_of n], json_hex_chars ! (n mod 16) # s)"
proof -
  have z: "strchr json_hex_chars (CHR ''0'') \<noteq> None" "jt_hexdigit (CHR ''0'') = 0" by code_simp+
  have n: "n div 16 < 16" "n mod 16 < 16" using assms by simp_all
  have e: "uni_loop u 0 None [] (CHR ''0'' # xs) = uni_loop u 1 None [] xs"
    "uni_loop u (Suc 0) None [] (CHR ''0'' # xs) = uni_loop u 2 None [] xs" for u xs
    using z by (simp_all add: numeral_2_eq_2 del: not_None_eq)
  have h: "uni_loop 0 2 None [] (json_hex_chars ! (n div 16) # xs) = uni_loop (n div 16 * 16) 3 None [] xs" for xs
    using hex_digit [OF n(1)] by (simp del: not_None_eq)
  have l: "n div 16 * 16 + n mod 16 = n" by simp
  have "uni_loop (n div 16 * 16) 3 None [] (json_hex_chars ! (n mod 16) # xs) = Inr ([char_of n], json_hex_chars ! (n mod 16) # xs)" for xs
    using hex_digit [OF n(2)] assms by (simp add: l unescaped_utf_def del: not_None_eq)
  then show ?thesis using e h by simp
qed

lemma unicode_step:
  assumes "n < 32" and "state (level t) = json_tokener_state_string_escape"
  shows "jt_loop t (''u00'' @ [json_hex_chars ! (n div 16), json_hex_chars ! (n mod 16)] @ s) =
      jt_loop (goto_state (saved_state (level t)) (t\<lparr>pb := pb t @ [char_of n], st_pos := 0\<rparr>)) s"
proof -
  let ?h = "json_hex_chars ! (n div 16)" and ?l = "json_hex_chars ! (n mod 16)"
  let ?t = "goto_state json_tokener_state_escape_unicode (t\<lparr>st_pos := 0\<rparr>)"
  have u: "jt_loop t (''u00'' @ [?h, ?l] @ s) = jt_loop ?t (''00'' @ [?h, ?l] @ s)"
    by (rule jt_break) (use assms in \<open>simp add: jt_step_def jt_string_escape_def peek_def\<close>)
  have "jt_step ?t (''00'' @ [?h, ?l] @ s) =
      Break (goto_state (saved_state (level t)) (t\<lparr>pb := pb t @ [char_of n], st_pos := 0\<rparr>)) (?l # s)"
    using uni_loop_control [OF assms(1), of s]
    by (simp add: jt_step_def jt_escape_unicode_def goto_state_def del: uni_loop.simps)
  from u jt_break [OF this] show ?thesis by (rule trans)
qed

lemma escape_char_cases:
  "plain_char (CHR 0x22) c \<and> json_escape_char c = [c] \<or>
   (\<exists>l. (c, l) \<in> set escape_letters \<and> json_escape_char c = [CHR 0x5C, l]) \<or>
   chr_code c < 32 \<and> json_escape_char c =
     CHR 0x5C # ''u00'' @ [json_hex_chars ! (chr_code c div 16), json_hex_chars ! (chr_code c mod 16)]"
  by (simp add: json_escape_char_def plain_char_def escape_letters_def)

lemma escape_char_step:
  assumes st: "st = json_tokener_state_string \<or> st = json_tokener_state_object_field" and t: "in_text st t0 b t"
  shows "\<exists>t'. jt_loop t (json_escape_char c @ s) = jt_loop t' s \<and> in_text st t0 (b @ [c]) t'"
proof -
  note bs = backslash_step [of t st, OF _ st]
  let ?e = "t\<lparr>level := (level t)\<lparr>state := json_tokener_state_string_escape, saved_state := st\<rparr>\<rparr>"
  consider (plain) "plain_char (CHR 0x22) c" "json_escape_char c = [c]"
    | (letter) l where "(c, l) \<in> set escape_letters" "json_escape_char c = [CHR 0x5C, l]"
    | (code) "chr_code c < 32" "json_escape_char c =
        CHR 0x5C # ''u00'' @ [json_hex_chars ! (chr_code c div 16), json_hex_chars ! (chr_code c mod 16)]"
    using escape_char_cases [of c] by blast
  then show ?thesis
  proof cases
    case plain
    then have "jt_loop t (json_escape_char c @ s) = jt_loop (t\<lparr>pb := b @ [c]\<rparr>) s"
      using plain_char_step [of t c s] st t by (auto simp: in_text_def)
    then show ?thesis using t by (intro exI [of _ "t\<lparr>pb := b @ [c]\<rparr>"]) (simp add: in_text_def)
  next
    case letter
    then have "jt_loop t (json_escape_char c @ s) = jt_loop ?e (l # s)" using bs t by (simp add: in_text_def)
    also have "\<dots> = jt_loop (goto_state st (?e\<lparr>pb := b @ [c]\<rparr>)) s"
      using letter_step [OF letter(1), of ?e] t by (simp add: in_text_def)
    finally show ?thesis using t by (intro exI [of _ "goto_state st (?e\<lparr>pb := b @ [c]\<rparr>)"]) (simp add: in_text_def goto_state_def)
  next
    case code
    then have "jt_loop t (json_escape_char c @ s) =
        jt_loop ?e (''u00'' @ [json_hex_chars ! (chr_code c div 16), json_hex_chars ! (chr_code c mod 16)] @ s)"
      using bs t by (simp add: in_text_def)
    also have "\<dots> = jt_loop (goto_state st (?e\<lparr>pb := b @ [c], st_pos := 0\<rparr>)) s"
      using unicode_step [OF code(1), of ?e] t by (simp add: in_text_def)
    finally show ?thesis using t
      by (intro exI [of _ "goto_state st (?e\<lparr>pb := b @ [c], st_pos := 0\<rparr>)"]) (simp add: in_text_def goto_state_def)
  qed
qed

lemma escape_str_steps:
  assumes st: "st = json_tokener_state_string \<or> st = json_tokener_state_object_field" and "in_text st t0 b t"
  shows "\<exists>t'. jt_loop t (json_escape_str x @ s) = jt_loop t' s \<and> in_text st t0 (b @ x) t'"
  using assms(2)
proof (induction x arbitrary: b t)
  case Nil
  then show ?case by (auto simp: json_escape_str_def)
next
  case (Cons c x)
  obtain t1 where 1: "jt_loop t (json_escape_char c @ json_escape_str x @ s) = jt_loop t1 (json_escape_str x @ s)"
    "in_text st t0 (b @ [c]) t1" using escape_char_step [OF st Cons.prems] by blast
  obtain t2 where "jt_loop t1 (json_escape_str x @ s) = jt_loop t2 s" "in_text st t0 ((b @ [c]) @ x) t2"
    using Cons.IH [OF 1(2)] by blast
  then show ?case using 1(1) by (auto simp: json_escape_str_def)
qed

lemma parses_string: "parses stk (CHR 0x22 # json_escape_str x @ [CHR 0x22]) (JString x)"
  unfolding parses_def
proof (intro allI impI)
  fix t :: json_tokener and rest assume t: "level t = json_tokener_reset_level" "below t = stk" and r: "rest_ok rest"
  let ?s = "json_escape_str x @ CHR 0x22 # rest"
  let ?t1 = "goto_state json_tokener_state_start t"
  let ?t2 = "goto_state json_tokener_state_string (?t1\<lparr>pb := [], quote_char := CHR 0x22\<rparr>)"
  have "jt_loop t (CHR 0x22 # ?s) = jt_loop ?t1 (CHR 0x22 # ?s)"
    using jt_eatws_skip [of t "CHR 0x22 # ?s"] t by (simp add: json_tokener_reset_level_def is_space_def chr_code_def)
  also have "\<dots> = jt_loop ?t2 ?s"
    by (rule jt_break [where c = "CHR 0x22"]) (simp add: jt_step_def jt_start_def peek_def goto_state_def Let_def)
  finally have 1: "jt_loop t (CHR 0x22 # ?s) = jt_loop ?t2 ?s" .
  have "in_text json_tokener_state_string ?t2 [] ?t2" by (simp add: in_text_def goto_state_def)
  then obtain t3 where 2: "jt_loop ?t2 ?s = jt_loop t3 (CHR 0x22 # rest)" and t3: "in_text json_tokener_state_string ?t2 x t3"
    using escape_str_steps by fastforce
  let ?t4 = "finish_with (JString x) (t3\<lparr>pb := x\<rparr>)"
  have 3: "jt_loop t3 (CHR 0x22 # rest) = jt_loop ?t4 rest"
    by (rule jt_break [where c = "CHR 0x22"]) (use t3 in \<open>simp add: in_text_def jt_step_def jt_string_def plain_char_def peek_def\<close>)
  have "level ?t4 = finished (JString x) \<and> below ?t4 = stk"
    using t t3 by (simp add: in_text_def jt_moves finished_def)
  then show "\<exists>t'. jt_loop t ((CHR 0x22 # json_escape_str x @ [CHR 0x22]) @ rest) = jt_loop t' rest \<and>
      level t' = finished (JString x) \<and> below t' = stk" using 1 2 3 by auto
qed

section \<open>Lemmas: numbers and literals\<close>

lemma parsesI:
  assumes "\<And>t rest. level t = json_tokener_reset_level\<lparr>state := json_tokener_state_start\<rparr> \<Longrightarrow> below t = stk \<Longrightarrow> rest_ok rest \<Longrightarrow>
      \<exists>t'. jt_loop t (str @ rest) = jt_loop t' rest \<and> level t' = finished j \<and> below t' = stk"
    and "str \<noteq> []" and "\<not> is_space (hd str)" and "hd str \<noteq> CHR ''/''"
  shows "parses stk str j"
  unfolding parses_def
proof (intro allI impI)
  fix t :: json_tokener and rest
  assume t: "level t = json_tokener_reset_level" "below t = stk" and r: "rest_ok rest"
  have "jt_loop t (str @ rest) = jt_loop (goto_state json_tokener_state_start t) (str @ rest)"
    using jt_eatws_skip [of t "str @ rest"] assms(2-4) t by (simp add: json_tokener_reset_level_def)
  then show "\<exists>t'. jt_loop t (str @ rest) = jt_loop t' rest \<and> level t' = finished j \<and> below t' = stk"
    using assms(1) [of "goto_state json_tokener_state_start t" rest] t r by (simp add: goto_state_def)
qed

lemma num_loop_append:
  assumes "num_loop n ex neg dbl s = Inr (m, d, [])" and "rest_ok rest"
  shows "num_loop n ex neg dbl (s @ rest) = Inr (m, d, rest)"
  using assms(1)
proof (induction s arbitrary: n ex neg dbl)
  case Nil
  have "rest \<noteq> [] \<Longrightarrow> strchr json_number_chars (hd rest) = None"
    using assms(2) by (auto simp: rest_ok_def json_number_chars_def)
  then show ?case using Nil by (cases rest) auto
next
  case (Cons c s)
  then show ?case by (auto simp: Let_def split: if_splits)
qed

lemma digit_number_char:
  assumes "is_digit c"
  shows "strchr json_number_chars c \<noteq> None" and "c \<notin> {CHR ''.'', CHR ''e'', CHR ''E'', CHR ''-''}"
proof -
  have "\<forall>n \<in> set [48..<58]. strchr json_number_chars (char_of n) \<noteq> None" by code_simp
  moreover have "chr_code c \<in> set [48..<58]" 
    using assms unfolding set_upt atLeastLessThan_iff by (simp add: is_digit_def)
  ultimately show "strchr json_number_chars c \<noteq> None" by (metis char_of_chr_code)
  show "c \<notin> {CHR ''.'', CHR ''e'', CHR ''E'', CHR ''-''}" using assms by (auto simp: is_digit_def chr_code_def)
qed

lemma num_loop_digits: "\<forall>c \<in> set s. is_digit c \<Longrightarrow> num_loop n False neg False s = Inr (n + length s, False, [])"
proof (induction s arbitrary: n)
  case (Cons c s)
  then show ?case using digit_number_char [of c] by (auto simp del: not_None_eq)
qed simp

lemma num_loop_show_int: "num_loop 0 False 1 False (show_int i) = Inr (length (show_int i), False, [])"
  using num_loop_digits [OF show_nat_digits] by (auto simp: show_int_def json_number_chars_def)

lemma show_int_head: "is_digit (hd (show_int i)) \<or> hd (show_int i) = CHR ''-''"
  using show_nat_Cons [of "nat i"] by (auto simp: show_int_def)

lemma json_parse_int64_show: "is_int64 i \<Longrightarrow> json_parse_int64 (show_int i) = Some i"
proof -
  assume "is_int64 i"
  moreover have "is_digit (peek (skip_sign (dropWhile is_space (show_int i))))"
  proof (cases "i < 0")
    case True
    obtain c cs where "show_nat (nat (- i)) = c # cs" "is_digit c" using show_nat_Cons by blast
    then show ?thesis using True by (simp add: show_int_def skip_sign_def peek_def is_space_def chr_code_def)
  next
    case False
    obtain c cs where "show_nat (nat i) = c # cs" "is_digit c" using show_nat_Cons by blast
    then show ?thesis using False digit_not_sign [of c] not_space_digit [of c]
      by (simp add: show_int_def skip_sign_def peek_def)
  qed
  ultimately show ?thesis by (simp add: json_parse_int64_def strtol10_show_int)
qed

lemma number_steps:
  assumes "level t = json_tokener_reset_level\<lparr>state := json_tokener_state_start\<rparr>" and "rest_ok rest"
    and "b \<noteq> []" and "is_digit (hd b) \<or> hd b = CHR ''-''" and "num_loop 0 False 1 False b = Inr (length b, dbl, [])"
    and "\<not> dbl \<and> json_parse_int64 b = Some i \<and> j = JInt i \<or> dbl \<and> json_parse_double b \<and> j = JDouble b"
  shows "\<exists>t'. jt_loop t (b @ rest) = jt_loop t' rest \<and> level t' = finished j \<and> below t' = below t"
proof -
  let ?t = "goto_state json_tokener_state_number (t\<lparr>pb := [], is_double := False\<rparr>)"
  have h: "peek (b @ rest) = hd b" using assms(3) by (cases b) (auto simp: peek_def)
  have "hd b \<notin> {CHR ''{'', CHR ''['', CHR ''I'', CHR ''i'', CHR ''N'', CHR ''n'', CHR 0x27, CHR 0x22, CHR ''T'', CHR ''t'', CHR ''F'', CHR ''f''}"
    using assms(4) by (auto simp: is_digit_def chr_code_def)
  then have 1: "jt_loop t (b @ rest) = jt_loop ?t (b @ rest)"
    by (intro jt_redo) (use assms(1,4) h in \<open>auto simp: jt_step_def jt_start_def Let_def\<close>)
  have r: "peek rest \<noteq> CHR ''i'' \<and> peek rest \<noteq> CHR ''I''"
    using assms(2) by (cases rest) (auto simp: rest_ok_def peek_def)
  have "num_loop 0 False 1 False (b @ rest) = Inr (length b, dbl, rest)" using num_loop_append assms(5,2) by blast
  then have "jt_step ?t (b @ rest) = Redo (finish_with j (?t\<lparr>pb := b, is_double := dbl\<rparr>)) rest"
    using assms(6) r by (auto simp: jt_step_def jt_number_def goto_state_def Let_def)
  then have "jt_loop t (b @ rest) = jt_loop (finish_with j (?t\<lparr>pb := b, is_double := dbl\<rparr>)) rest"
    using 1 jt_redo by simp
  then show ?thesis using assms(1)
    by (intro exI [of _ "finish_with j (?t\<lparr>pb := b, is_double := dbl\<rparr>)"]) (simp add: jt_moves finished_def)
qed

lemma parses_int: "is_int64 i \<Longrightarrow> parses stk (show_int i) (JInt i)"
proof (rule parsesI)
  assume i: "is_int64 i"
  show ne: "show_int i \<noteq> []" by (simp add: show_int_def)
  show "\<not> is_space (hd (show_int i))" "hd (show_int i) \<noteq> CHR ''/''"
    using show_int_head [of i] not_space_digit by (auto simp: is_space_def is_digit_def chr_code_def)
  fix t :: json_tokener and rest
  assume "level t = json_tokener_reset_level\<lparr>state := json_tokener_state_start\<rparr>" "below t = stk" "rest_ok rest"
  then show "\<exists>t'. jt_loop t (show_int i @ rest) = jt_loop t' rest \<and> level t' = finished (JInt i) \<and> below t' = stk"
    using number_steps [OF _ _ ne show_int_head num_loop_show_int] json_parse_int64_show [OF i] by blast
qed

lemma parses_scanned_double:
  assumes "is_digit (peek d) \<or> peek d = CHR ''-''" and "num_loop 0 False 1 False d = Inr (length d, True, [])"
    and "json_parse_double d"
  shows "parses stk d (JDouble d)"
proof (rule parsesI)
  show ne: "d \<noteq> []" using assms(1) by (auto simp: peek_def is_digit_def chr_code_def)
  then have h: "is_digit (hd d) \<or> hd d = CHR ''-''" using assms(1) by (cases d) (auto simp: peek_def)
  then show "\<not> is_space (hd d)" "hd d \<noteq> CHR ''/''" using not_space_digit by (auto simp: is_space_def is_digit_def chr_code_def)
  fix t :: json_tokener and rest
  assume "level t = json_tokener_reset_level\<lparr>state := json_tokener_state_start\<rparr>" "below t = stk" "rest_ok rest"
  then show "\<exists>t'. jt_loop t (d @ rest) = jt_loop t' rest \<and> level t' = finished (JDouble d) \<and> below t' = stk"
    using number_steps [OF _ _ ne h assms(2)] assms(3) by blast
qed

text \<open>The literals: every character is compared as part of a prefix.\<close>

definition at_literal :: "json_tokener_state \<Rightarrow> json_tokener \<Rightarrow> string \<Rightarrow> json_tokener" where
  "at_literal st t p = t\<lparr>level := (level t)\<lparr>state := st\<rparr>, pb := p, st_pos := length p\<rparr>"

lemma at_literal_start: "goto_state st (t\<lparr>pb := [], st_pos := 0\<rparr>) = at_literal st t []"
  by (simp add: goto_state_def at_literal_def)

lemma literal_run:
  assumes "\<forall>k < length lit. \<forall>s. jt_step (at_literal st t (take k lit)) (lit ! k # s) = Break (at_literal st t (take (Suc k) lit)) (lit ! k # s)"
  shows "jt_loop (at_literal st t []) (lit @ s) = jt_loop (at_literal st t lit) s"
proof -
  have "k \<le> length lit \<Longrightarrow> jt_loop (at_literal st t (take k lit)) (drop k lit @ s) = jt_loop (at_literal st t lit) s" for k
  proof (induction "length lit - k" arbitrary: k)
    case (Suc n)
    then have k: "k < length lit" by simp
    then have "drop k lit @ s = lit ! k # drop (Suc k) lit @ s" by (metis Cons_nth_drop_Suc append_Cons)
    then have "jt_loop (at_literal st t (take k lit)) (drop k lit @ s) = jt_loop (at_literal st t (take (Suc k) lit)) (drop (Suc k) lit @ s)"
      using assms k jt_break by metis
    also have "\<dots> = jt_loop (at_literal st t lit) s" using Suc k by (intro Suc.hyps(1)) simp_all
    finally show ?case .
  qed simp
  from this [of 0] show ?thesis by simp
qed

lemma all_less_numeral: "(\<forall>k < length lit. P k) \<longleftrightarrow> (\<forall>k \<in> set [0..<length lit]. P k)" for lit :: string
  by auto

lemma parses_literal:
  assumes "lit \<noteq> []" and "\<not> is_space (hd lit)" and "hd lit \<noteq> CHR ''/''"
    and "\<And>t rest. jt_start t (lit @ rest) = Redo (at_literal st t []) (lit @ rest)"
    and "\<And>t. \<forall>k < length lit. \<forall>s. jt_step (at_literal st t (take k lit)) (lit ! k # s) = Break (at_literal st t (take (Suc k) lit)) (lit ! k # s)"
    and "\<And>t rest. jt_step (at_literal st t lit) rest = Redo (finish_with j (at_literal st t lit\<lparr>pb := lit @ [peek rest]\<rparr>)) rest"
  shows "parses stk lit j"
proof (rule parsesI)
  fix t :: json_tokener and rest
  let ?t = "finish_with j (at_literal st t lit\<lparr>pb := lit @ [peek rest]\<rparr>)"
  assume t: "level t = json_tokener_reset_level\<lparr>state := json_tokener_state_start\<rparr>" "below t = stk"
  have "jt_loop t (lit @ rest) = jt_loop (at_literal st t []) (lit @ rest)"
    by (rule jt_redo) (use t assms(4) in \<open>simp add: jt_step_def\<close>)
  also have "\<dots> = jt_loop (at_literal st t lit) rest" by (rule literal_run [OF assms(5)])
  also have "\<dots> = jt_loop ?t rest" by (rule jt_redo [OF assms(6)])
  finally show "\<exists>t'. jt_loop t (lit @ rest) = jt_loop t' rest \<and> level t' = finished j \<and> below t' = stk" using t
    by (intro exI [of _ ?t]) (simp add: at_literal_def jt_moves finished_def)
qed (use assms in simp_all)

lemmas literal_eval = at_literal_def jt_step_def jt_start_def jt_null_def jt_boolean_def goto_state_def prefix_case_def
  strcase_eq_def peek_def chr_lower_def chr_code_def Let_def

lemma parses_null: "parses stk ''null'' JNull"
proof (rule parses_literal [where st = json_tokener_state_null])
qed (unfold all_less_numeral at_literal_start [symmetric], simp_all add: literal_eval is_space_def)

lemma parses_nan: "parses stk ''NaN'' (JDouble ''NaN'')"
proof (rule parses_literal [where st = json_tokener_state_null])
qed (unfold all_less_numeral at_literal_start [symmetric], simp_all add: literal_eval is_space_def)

lemma parses_bool: "parses stk ''true'' (JBool True)" "parses stk ''false'' (JBool False)"
proof -
  show "parses stk ''true'' (JBool True)"
    by (rule parses_literal [where st = json_tokener_state_boolean], unfold all_less_numeral at_literal_start [symmetric])
      (simp_all add: literal_eval is_space_def)
  show "parses stk ''false'' (JBool False)"
    by (rule parses_literal [where st = json_tokener_state_boolean], unfold all_less_numeral at_literal_start [symmetric])
      (simp_all add: literal_eval is_space_def)
qed

lemma inf_match_text: "inf_match ''infinity'' (''Infinity'' @ rest) = Inr rest"
proof -
  have "chr_lower (CHR ''I'') = CHR ''i''" by code_simp
  moreover have "\<forall>c \<in> set ''nfity''. chr_lower c = c" by (simp add: chr_lower_def chr_code_def)
  ultimately show ?thesis by (simp add: peek_def)
qed

lemma infinity_step:
  assumes "state (level t) = json_tokener_state_inf" and "st_pos t = 0" and "obj_field_name (level t) = []"
  shows "\<exists>t'. jt_loop t (''Infinity'' @ rest) = jt_loop t' rest \<and> below t' = below t \<and>
    level t' = finished (JDouble (if pb t \<noteq> [] \<and> hd (pb t) = CHR ''-'' then ''-Infinity'' else ''Infinity''))"
proof (intro exI conjI)
  let ?j = "JDouble (if pb t \<noteq> [] \<and> hd (pb t) = CHR ''-'' then ''-Infinity'' else ''Infinity'')"
  show "jt_loop t (''Infinity'' @ rest) = jt_loop (finish_with ?j t) rest"
    by (rule jt_redo) (use assms inf_match_text in \<open>simp add: jt_step_def jt_inf_def\<close>)
qed (use assms in \<open>simp_all add: jt_moves finished_def\<close>)

lemma parses_infinity: "parses stk ''Infinity'' (JDouble ''Infinity'')" "parses stk ''-Infinity'' (JDouble ''-Infinity'')"
proof -
  show "parses stk ''Infinity'' (JDouble ''Infinity'')"
  proof (rule parsesI)
    fix t :: json_tokener and rest
    assume t: "level t = json_tokener_reset_level\<lparr>state := json_tokener_state_start\<rparr>" "below t = stk"
    let ?t = "at_literal json_tokener_state_inf t []"
    have "jt_loop t (''Infinity'' @ rest) = jt_loop ?t (''Infinity'' @ rest)"
      by (rule jt_redo) (use t in \<open>simp add: jt_step_def jt_start_def peek_def at_literal_start\<close>)
    then show "\<exists>t'. jt_loop t (''Infinity'' @ rest) = jt_loop t' rest \<and> level t' = finished (JDouble ''Infinity'') \<and> below t' = stk"
      using infinity_step [of ?t rest] t by (auto simp: at_literal_def json_tokener_reset_level_def)
  qed (simp_all add: is_space_def chr_code_def)
  show "parses stk ''-Infinity'' (JDouble ''-Infinity'')"
  proof (rule parsesI)
    fix t :: json_tokener and rest
    assume t: "level t = json_tokener_reset_level\<lparr>state := json_tokener_state_start\<rparr>" "below t = stk"
    let ?t = "goto_state json_tokener_state_number (t\<lparr>pb := [], is_double := False\<rparr>)"
    let ?u = "goto_state json_tokener_state_inf (?t\<lparr>pb := ''-'', is_double := False, st_pos := 0\<rparr>)"
    have "jt_loop t (''-Infinity'' @ rest) = jt_loop ?t (''-Infinity'' @ rest)"
      by (rule jt_redo) (use t in \<open>simp add: jt_step_def jt_start_def peek_def\<close>)
    also have "\<dots> = jt_loop ?u (''Infinity'' @ rest)"
      by (rule jt_redo) (simp add: jt_step_def jt_number_def goto_state_def json_number_chars_def peek_def)
    finally show "\<exists>t'. jt_loop t (''-Infinity'' @ rest) = jt_loop t' rest \<and> level t' = finished (JDouble ''-Infinity'') \<and> below t' = stk"
      using infinity_step [of ?u rest] t by (auto simp: goto_state_def json_tokener_reset_level_def)
  qed (simp_all add: is_space_def chr_code_def)
qed

lemma parses_double: "double_text d \<Longrightarrow> parses stk d (JDouble d)"
  using parses_scanned_double parses_nan parses_infinity by (auto simp: double_text_def)

section \<open>Lemmas: containers\<close>

text \<open>A value read inside a container: the level below goes on with it as \<open>obj\<close>.\<close>

lemma member_steps:
  assumes "parses (l # stk) str j" and "rest_ok rest" and "level t = json_tokener_reset_level" and "below t = l # stk"
  shows "\<exists>t'. jt_loop t (str @ rest) = jt_loop t' rest \<and> level t' = l \<and> below t' = stk \<and> obj t' = j"
proof -
  obtain t1 where t1: "jt_loop t (str @ rest) = jt_loop t1 rest" "level t1 = finished j" "below t1 = l # stk"
    using assms by (auto simp: parses_def)
  let ?t2 = "goto_state json_tokener_state_finish t1"
  have "jt_loop t1 rest = jt_loop ?t2 rest"
    using jt_eatws_skip [of t1 rest] rest_ok_eatws [OF assms(2)] t1(2) by (simp add: finished_def)
  also have "\<dots> = jt_loop (?t2\<lparr>obj := current (level ?t2), level := l, below := stk\<rparr>) rest"
    by (rule jt_redo) (use t1 in \<open>simp add: jt_step_def jt_finish_def goto_state_def\<close>)
  finally show ?thesis using t1
    by (intro exI [of _ "?t2\<lparr>obj := current (level ?t2), level := l, below := stk\<rparr>"]) (simp add: goto_state_def finished_def)
qed

definition eating :: "json_tokener_state \<Rightarrow> json \<Rightarrow> json_tokener_srec" where
  "eating st j = \<lparr>state = json_tokener_state_eatws, saved_state = st, current = j, obj_field_name = []\<rparr>"

text \<open>A character that no white space step skips, read at a level that eats white space.\<close>

lemma eating_skip:
  assumes "level t = eating st j" and "s = [] \<or> \<not> is_space (hd s) \<and> hd s \<noteq> CHR ''/''"
  shows "jt_loop t s = jt_loop (goto_state st t) s"
  using jt_eatws_skip [of t s] assms by (simp add: eating_def)

lemma container_start:
  assumes "level t = json_tokener_reset_level\<lparr>state := json_tokener_state_start\<rparr>"
  shows "\<exists>t'. jt_loop t (CHR ''['' # s) = jt_loop t' s \<and> level t' = eating json_tokener_state_array (JArray []) \<and> below t' = below t"
    and "\<exists>t'. jt_loop t (CHR ''{'' # s) = jt_loop t' s \<and> level t' = eating json_tokener_state_object_field_start (JObject []) \<and> below t' = below t"
proof -
  let ?a = "set_current (JArray []) (eat_then json_tokener_state_array t)"
  let ?o = "set_current (JObject []) (eat_then json_tokener_state_object_field_start t)"
  have "jt_loop t (CHR ''['' # s) = jt_loop ?a s"
    by (rule jt_break [where c = "CHR ''[''"]) (use assms in \<open>simp add: jt_step_def jt_start_def peek_def\<close>)
  then show "\<exists>t'. jt_loop t (CHR ''['' # s) = jt_loop t' s \<and> level t' = eating json_tokener_state_array (JArray []) \<and> below t' = below t"
    using assms by (intro exI [of _ ?a]) (simp add: jt_moves eating_def)
  have "jt_loop t (CHR ''{'' # s) = jt_loop ?o s"
    by (rule jt_break [where c = "CHR ''{''"]) (use assms in \<open>simp add: jt_step_def jt_start_def peek_def\<close>)
  then show "\<exists>t'. jt_loop t (CHR ''{'' # s) = jt_loop t' s \<and> level t' = eating json_tokener_state_object_field_start (JObject []) \<and> below t' = below t"
    using assms by (intro exI [of _ ?o]) (simp add: jt_moves eating_def)
qed

text \<open>The closing bracket and the comma, at the states where the code looks for them.\<close>

lemma array_close:
  assumes "level t = eating st j" and "st \<in> {json_tokener_state_array, json_tokener_state_array_sep}"
  shows "\<exists>t'. jt_loop t (CHR '']'' # s) = jt_loop t' s \<and> level t' = finished j \<and> below t' = below t"
proof -
  let ?t = "eat_then json_tokener_state_finish (goto_state st t)"
  have "jt_loop t (CHR '']'' # s) = jt_loop (goto_state st t) (CHR '']'' # s)"
    by (rule eating_skip [OF assms(1)]) (simp add: is_space_def chr_code_def)
  also have "\<dots> = jt_loop ?t s"
    by (rule jt_break [where c = "CHR '']''"]) (use assms in \<open>auto simp: jt_step_def jt_array_def jt_array_sep_def peek_def goto_state_def\<close>)
  finally show ?thesis using assms by (intro exI [of _ ?t]) (simp add: jt_moves eating_def finished_def)
qed

lemma array_comma:
  assumes "level t = eating json_tokener_state_array_sep j"
  shows "\<exists>t'. jt_loop t (CHR '','' # s) = jt_loop t' s \<and> level t' = eating json_tokener_state_array_after_sep j \<and> below t' = below t"
proof -
  let ?t = "eat_then json_tokener_state_array_after_sep (goto_state json_tokener_state_array_sep t)"
  have "jt_loop t (CHR '','' # s) = jt_loop (goto_state json_tokener_state_array_sep t) (CHR '','' # s)"
    by (rule eating_skip [OF assms(1)]) (simp add: is_space_def chr_code_def)
  also have "\<dots> = jt_loop ?t s"
    by (rule jt_break [where c = "CHR '',''"]) (simp add: jt_step_def jt_array_sep_def peek_def goto_state_def)
  finally show ?thesis using assms by (intro exI [of _ ?t]) (simp add: jt_moves eating_def)
qed

text \<open>One element.\<close>

lemma array_element:
  assumes "level t = eating st (JArray acc)" and "st \<in> {json_tokener_state_array, json_tokener_state_array_after_sep}"
    and "below t = stk" and "length stk < 31" and "\<forall>l. parses (l # stk) str j" and "rest_ok rest"
    and "str \<noteq> []" and "\<not> is_space (hd str)" and "hd str \<notin> {CHR ''/'', CHR '']''}"
  shows "\<exists>t'. jt_loop t (str @ rest) = jt_loop t' rest \<and> level t' = eating json_tokener_state_array_sep (JArray (acc @ [j])) \<and> below t' = stk"
proof -
  let ?t1 = "push_level json_tokener_state_array_add (goto_state st t)"
  let ?l = "(level t)\<lparr>state := json_tokener_state_array_add\<rparr>"
  have "jt_loop t (str @ rest) = jt_loop (goto_state st t) (str @ rest)"
    using assms by (intro eating_skip [OF assms(1)]) auto
  also have "\<dots> = jt_loop ?t1 (str @ rest)"
  proof (rule jt_redo)
    have "peek (str @ rest) \<noteq> CHR '']''" using assms by (cases str) (auto simp: peek_def)
    then show "jt_step (goto_state st t) (str @ rest) = Redo ?t1 (str @ rest)"
      using assms by (auto simp: jt_step_def jt_array_def goto_state_def JSON_TOKENER_DEFAULT_DEPTH_def)
  qed
  also obtain t2 where t2: "jt_loop ?t1 (str @ rest) = jt_loop t2 rest" "level t2 = ?l" "below t2 = stk" "obj t2 = j"
  proof -
    have "level ?t1 = json_tokener_reset_level" "below ?t1 = ?l # stk"
      using assms by (simp_all add: push_level_def goto_state_def)
    then show thesis using member_steps that assms(5,6) by blast
  qed
  note t2(1)
  also have "jt_loop t2 rest = jt_loop (eat_then json_tokener_state_array_sep (set_current (JArray (acc @ [j])) t2)) rest"
    by (rule jt_redo) (use t2 assms(1) in \<open>simp add: jt_step_def jt_array_add_def json_object_array_add_def eating_def\<close>)
  finally show ?thesis using t2 assms(1)
    by (intro exI [of _ "eat_then json_tokener_state_array_sep (set_current (JArray (acc @ [j])) t2)"])
      (simp add: jt_moves eating_def)
qed

lemma array_elements:
  assumes "level t = eating st (JArray acc)" and "st \<in> {json_tokener_state_array, json_tokener_state_array_after_sep}"
    and "below t = stk" and "length stk < 31" and "js \<noteq> []"
    and "\<forall>j \<in> set js. (\<forall>l. parses (l # stk) (pr j) j) \<and> pr j \<noteq> [] \<and> \<not> is_space (hd (pr j)) \<and> hd (pr j) \<notin> {CHR ''/'', CHR '']''}"
  shows "\<exists>t'. jt_loop t (join_comma (map pr js) @ CHR '']'' # rest) = jt_loop t' rest \<and> level t' = finished (JArray (acc @ js)) \<and> below t' = stk"
  using assms
proof (induction js arbitrary: t st acc)
  case (Cons j js)
  let ?rest = "(case js of [] \<Rightarrow> [] | _ \<Rightarrow> CHR '','' # join_comma (map pr js)) @ CHR '']'' # rest"
  have s: "join_comma (map pr (j # js)) @ CHR '']'' # rest = pr j @ ?rest" by (cases js) simp_all
  have "rest_ok ?rest" by (cases js) (simp_all add: rest_ok_def)
  then have "\<exists>t1. jt_loop t (pr j @ ?rest) = jt_loop t1 ?rest \<and>
      level t1 = eating json_tokener_state_array_sep (JArray (acc @ [j])) \<and> below t1 = stk"
    by (intro array_element [OF Cons.prems(1-4)]) (use Cons.prems(6) in simp_all)
  then obtain t1 where t1: "jt_loop t (pr j @ ?rest) = jt_loop t1 ?rest"
    "level t1 = eating json_tokener_state_array_sep (JArray (acc @ [j]))" "below t1 = stk" by blast
  show ?case
  proof (cases js)
    case Nil
    then show ?thesis using array_close [OF t1(2), of rest] t1(1,3) unfolding s by simp
  next
    case more: (Cons j1 js1)
    obtain t2 where t2: "jt_loop t1 ?rest = jt_loop t2 (join_comma (map pr js) @ CHR '']'' # rest)"
      "level t2 = eating json_tokener_state_array_after_sep (JArray (acc @ [j]))" "below t2 = stk"
      using array_comma [OF t1(2), of "join_comma (map pr js) @ CHR '']'' # rest"] t1(3) more by (simp, blast)
    have "\<exists>t'. jt_loop t2 (join_comma (map pr js) @ CHR '']'' # rest) = jt_loop t' rest \<and>
        level t' = finished (JArray ((acc @ [j]) @ js)) \<and> below t' = stk"
      by (rule Cons.IH [OF t2(2) _ t2(3)]) (use Cons.prems more in auto)
    then show ?thesis using t2(1) t1(1) unfolding s by simp
  qed
qed simp

text \<open>The name of a member.\<close>

lemma field_name:
  assumes "level t = eating st j" and "st \<in> {json_tokener_state_object_field_start, json_tokener_state_object_field_start_after_sep}"
    and "is_cstr k"
  shows "\<exists>t'. jt_loop t (CHR 0x22 # json_escape_str k @ CHR 0x22 # s) = jt_loop t' s \<and> below t' = below t \<and>
    level t' = (eating json_tokener_state_object_field_end j)\<lparr>obj_field_name := k\<rparr>"
proof -
  let ?s = "json_escape_str k @ CHR 0x22 # s"
  let ?t2 = "goto_state json_tokener_state_object_field ((goto_state st t)\<lparr>quote_char := CHR 0x22, pb := []\<rparr>)"
  have "jt_loop t (CHR 0x22 # ?s) = jt_loop (goto_state st t) (CHR 0x22 # ?s)"
    by (rule eating_skip [OF assms(1)]) (simp add: is_space_def chr_code_def)
  also have "\<dots> = jt_loop ?t2 ?s"
    by (rule jt_break [where c = "CHR 0x22"])
      (use assms(2) in \<open>auto simp: jt_step_def jt_object_field_start_def peek_def goto_state_def Let_def\<close>)
  also obtain t3 where 3: "jt_loop ?t2 ?s = jt_loop t3 (CHR 0x22 # s)" "in_text json_tokener_state_object_field ?t2 k t3"
    using escape_str_steps [of json_tokener_state_object_field ?t2 "[]" ?t2 k "CHR 0x22 # s"]
    by (auto simp: in_text_def goto_state_def)
  note 3(1)
  also have "jt_loop t3 (CHR 0x22 # s) = jt_loop (t3\<lparr>pb := k, level := (level t3)\<lparr>state := json_tokener_state_eatws,
      saved_state := json_tokener_state_object_field_end, obj_field_name := k\<rparr>\<rparr>) s" (is "_ = jt_loop ?t4 s")
  proof (rule jt_break [where c = "CHR 0x22"])
    have "takeWhile (\<lambda>c. c \<noteq> NUL) k = k" using assms(3) by (auto simp: is_cstr_def takeWhile_eq_all_conv)
    then show "jt_step t3 (CHR 0x22 # s) = Break ?t4 (CHR 0x22 # s)"
      using 3(2) by (simp add: in_text_def jt_step_def jt_object_field_def plain_char_def peek_def)
  qed
  finally show ?thesis using 3(2) assms(1)
    by (intro exI [of _ ?t4]) (simp add: in_text_def goto_state_def eating_def)
qed

lemma field_value:
  assumes "level t = (eating json_tokener_state_object_field_end (JObject ms))\<lparr>obj_field_name := k\<rparr>"
    and "below t = stk" and "length stk < 31" and "\<forall>l. parses (l # stk) str j" and "rest_ok rest"
    and "str \<noteq> []" and "\<not> is_space (hd str)" and "hd str \<noteq> CHR ''/''"
  shows "\<exists>t'. jt_loop t (CHR '':'' # str @ rest) = jt_loop t' rest \<and> below t' = stk \<and>
    level t' = eating json_tokener_state_object_sep (JObject (member_add ms k j))"
proof -
  let ?t1 = "eat_then json_tokener_state_object_value (goto_state json_tokener_state_object_field_end t)"
  let ?t2 = "goto_state json_tokener_state_object_value ?t1"
  let ?t3 = "push_level json_tokener_state_object_value_add ?t2"
  let ?l = "(level ?t2)\<lparr>state := json_tokener_state_object_value_add\<rparr>"
  have "jt_loop t (CHR '':'' # str @ rest) = jt_loop (goto_state json_tokener_state_object_field_end t) (CHR '':'' # str @ rest)"
    using jt_eatws_skip [of t "CHR '':'' # str @ rest"] assms(1) by (simp add: eating_def is_space_def chr_code_def)
  also have "\<dots> = jt_loop ?t1 (str @ rest)"
    by (rule jt_break [where c = "CHR '':''"]) (simp add: jt_step_def jt_object_field_end_def peek_def goto_state_def)
  also have "\<dots> = jt_loop ?t2 (str @ rest)"
    using jt_eatws_skip [of ?t1 "str @ rest"] assms(6-8) by (simp add: eat_then_def)
  also have "\<dots> = jt_loop ?t3 (str @ rest)"
    by (rule jt_redo) (use assms(2,3) in \<open>simp add: jt_step_def jt_object_value_def goto_state_def eat_then_def JSON_TOKENER_DEFAULT_DEPTH_def\<close>)
  also obtain t4 where t4: "jt_loop ?t3 (str @ rest) = jt_loop t4 rest" "level t4 = ?l" "below t4 = stk" "obj t4 = j"
  proof -
    have "level ?t3 = json_tokener_reset_level" "below ?t3 = ?l # stk"
      using assms(2) by (simp_all add: push_level_def goto_state_def eat_then_def)
    then show thesis using member_steps that assms(4,5) by blast
  qed
  note t4(1)
  also have "jt_loop t4 rest = jt_loop (eat_then json_tokener_state_object_sep
      ((set_current (JObject (member_add ms k j)) t4)\<lparr>level := (level (set_current (JObject (member_add ms k j)) t4))\<lparr>obj_field_name := []\<rparr>\<rparr>)) rest"
    (is "_ = jt_loop ?t5 rest")
    by (rule jt_redo) (use t4(2,4) assms(1) in
      \<open>simp add: jt_step_def jt_object_value_add_def json_object_object_add_def eating_def goto_state_def eat_then_def Let_def\<close>)
  finally show ?thesis using t4 assms(1) by (intro exI [of _ ?t5]) (simp add: jt_moves eating_def)
qed

lemma object_close:
  assumes "level t = eating st j" and "st \<in> {json_tokener_state_object_field_start, json_tokener_state_object_sep}"
  shows "\<exists>t'. jt_loop t (CHR ''}'' # s) = jt_loop t' s \<and> level t' = finished j \<and> below t' = below t"
proof -
  let ?t = "eat_then json_tokener_state_finish (goto_state st t)"
  have "jt_loop t (CHR ''}'' # s) = jt_loop (goto_state st t) (CHR ''}'' # s)"
    by (rule eating_skip [OF assms(1)]) (simp add: is_space_def chr_code_def)
  also have "\<dots> = jt_loop ?t s"
    by (rule jt_break [where c = "CHR ''}''"])
      (use assms in \<open>auto simp: jt_step_def jt_object_field_start_def jt_object_sep_def peek_def goto_state_def Let_def\<close>)
  finally show ?thesis using assms by (intro exI [of _ ?t]) (simp add: jt_moves eating_def finished_def)
qed

lemma object_comma:
  assumes "level t = eating json_tokener_state_object_sep j"
  shows "\<exists>t'. jt_loop t (CHR '','' # s) = jt_loop t' s \<and> level t' = eating json_tokener_state_object_field_start_after_sep j \<and> below t' = below t"
proof -
  let ?t = "eat_then json_tokener_state_object_field_start_after_sep (goto_state json_tokener_state_object_sep t)"
  have "jt_loop t (CHR '','' # s) = jt_loop (goto_state json_tokener_state_object_sep t) (CHR '','' # s)"
    by (rule eating_skip [OF assms(1)]) (simp add: is_space_def chr_code_def)
  also have "\<dots> = jt_loop ?t s"
    by (rule jt_break [where c = "CHR '',''"]) (simp add: jt_step_def jt_object_sep_def peek_def goto_state_def)
  finally show ?thesis using assms by (intro exI [of _ ?t]) (simp add: jt_moves eating_def)
qed

abbreviation (input) member_text :: "('a \<Rightarrow> string) \<Rightarrow> string \<times> 'a \<Rightarrow> string" where
  "member_text pr m \<equiv> CHR 0x22 # json_escape_str (fst m) @ CHR 0x22 # CHR '':'' # pr (snd m)"

lemma object_members:
  assumes "level t = eating st (JObject acc)"
    and "st \<in> {json_tokener_state_object_field_start, json_tokener_state_object_field_start_after_sep}"
    and "below t = stk" and "length stk < 31" and "ms \<noteq> []" and "distinct (map fst (acc @ ms))"
    and "\<forall>m \<in> set ms. is_cstr (fst m) \<and> (\<forall>l. parses (l # stk) (pr (snd m)) (snd m)) \<and>
      pr (snd m) \<noteq> [] \<and> \<not> is_space (hd (pr (snd m))) \<and> hd (pr (snd m)) \<noteq> CHR ''/''"
  shows "\<exists>t'. jt_loop t (join_comma (map (member_text pr) ms) @ CHR ''}'' # rest) = jt_loop t' rest \<and>
    level t' = finished (JObject (acc @ ms)) \<and> below t' = stk"
  using assms
proof (induction ms arbitrary: t st acc)
  case (Cons m ms)
  let ?more = "join_comma (map (member_text pr) ms) @ CHR ''}'' # rest"
  let ?rest = "(case ms of [] \<Rightarrow> [] | _ \<Rightarrow> CHR '','' # join_comma (map (member_text pr) ms)) @ CHR ''}'' # rest"
  have s: "join_comma (map (member_text pr) (m # ms)) @ CHR ''}'' # rest =
      CHR 0x22 # json_escape_str (fst m) @ CHR 0x22 # CHR '':'' # pr (snd m) @ ?rest" by (cases ms) simp_all
  have r: "rest_ok ?rest" by (cases ms) (simp_all add: rest_ok_def)
  obtain t1 where t1: "jt_loop t (CHR 0x22 # json_escape_str (fst m) @ CHR 0x22 # CHR '':'' # pr (snd m) @ ?rest) =
      jt_loop t1 (CHR '':'' # pr (snd m) @ ?rest)" "below t1 = stk"
      "level t1 = (eating json_tokener_state_object_field_end (JObject acc))\<lparr>obj_field_name := fst m\<rparr>"
    using field_name [OF Cons.prems(1,2), of "fst m" "CHR '':'' # pr (snd m) @ ?rest"] Cons.prems(3,7) by auto
  have "member_add acc (fst m) (snd m) = acc @ [m]" using member_add_append Cons.prems(6) by (cases m) auto
  moreover have "\<exists>t2. jt_loop t1 (CHR '':'' # pr (snd m) @ ?rest) = jt_loop t2 ?rest \<and> below t2 = stk \<and>
      level t2 = eating json_tokener_state_object_sep (JObject (member_add acc (fst m) (snd m)))"
    by (rule field_value [OF t1(3,2) Cons.prems(4) _ r]) (use Cons.prems(7) in simp_all)
  ultimately obtain t2 where t2: "jt_loop t1 (CHR '':'' # pr (snd m) @ ?rest) = jt_loop t2 ?rest" "below t2 = stk"
      "level t2 = eating json_tokener_state_object_sep (JObject (acc @ [m]))" by auto
  show ?case
  proof (cases ms)
    case Nil
    then show ?thesis using object_close [OF t2(3), of rest] t2(1,2) t1(1) unfolding s by simp
  next
    case more: (Cons m1 ms1)
    obtain t3 where t3: "jt_loop t2 ?rest = jt_loop t3 ?more"
      "level t3 = eating json_tokener_state_object_field_start_after_sep (JObject (acc @ [m]))" "below t3 = stk"
      using object_comma [OF t2(3), of ?more] t2(2) more by (simp, blast)
    have "\<exists>t'. jt_loop t3 ?more = jt_loop t' rest \<and> level t' = finished (JObject ((acc @ [m]) @ ms)) \<and> below t' = stk"
      by (rule Cons.IH [OF t3(2) _ t3(3)]) (use Cons.prems more in auto)
    then show ?thesis using t3(1) t2(1) t1(1) unfolding s by simp
  qed
qed simp

section \<open>The round trip\<close>

definition value_head :: "string \<Rightarrow> bool" where
  "value_head s \<longleftrightarrow> s \<noteq> [] \<and> \<not> is_space (hd s) \<and> hd s \<notin> {CHR ''/'', CHR '']''}"

lemma print_head: "json_ok j \<Longrightarrow> value_head (json_object_to_json_string j)"
proof (cases j)
  case (JInt i)
  then show ?thesis using show_int_head [of i] not_space_digit [of "hd (show_int i)"]
    by (auto simp: value_head_def is_space_def is_digit_def chr_code_def show_int_def)
next
  case (JDouble d)
  moreover assume "json_ok j"
  ultimately show ?thesis using not_space_digit [of "hd d"]
    by (cases d) (auto simp: value_head_def double_text_def peek_def is_space_def is_digit_def chr_code_def)
qed (auto simp: value_head_def is_space_def chr_code_def)

lemma json_depth_element: "j \<in> set js \<Longrightarrow> json_depth j < json_depth (JArray js)"
  by (simp add: Suc_le_eq [symmetric])

lemma json_depth_member: "m \<in> set ms \<Longrightarrow> json_depth (snd m) < json_depth (JObject ms)"
  by (simp add: Suc_le_eq [symmetric])

lemma parses_array:
  assumes "\<forall>j \<in> set js. (\<forall>l. parses (l # stk) (pr j) j) \<and> value_head (pr j)" and "js \<noteq> [] \<Longrightarrow> length stk < 31"
  shows "parses stk (''['' @ join_comma (map pr js) @ '']'') (JArray js)"
proof (rule parsesI)
  fix t :: json_tokener and rest
  assume t: "level t = json_tokener_reset_level\<lparr>state := json_tokener_state_start\<rparr>" "below t = stk"
  obtain t1 where t1: "jt_loop t (CHR ''['' # join_comma (map pr js) @ CHR '']'' # rest) = jt_loop t1 (join_comma (map pr js) @ CHR '']'' # rest)"
    "level t1 = eating json_tokener_state_array (JArray [])" "below t1 = stk"
    using container_start(1) [OF t(1)] t(2) by blast
  have "\<exists>t'. jt_loop t1 (join_comma (map pr js) @ CHR '']'' # rest) = jt_loop t' rest \<and> level t' = finished (JArray js) \<and> below t' = stk"
  proof (cases "js = []")
    case True
    then show ?thesis using array_close [OF t1(2), of rest] t1(3) by simp
  next
    case False
    then show ?thesis using array_elements [OF t1(2) _ t1(3), of js pr rest] assms by (simp add: value_head_def)
  qed
  then show "\<exists>t'. jt_loop t ((''['' @ join_comma (map pr js) @ '']'') @ rest) = jt_loop t' rest \<and> level t' = finished (JArray js) \<and> below t' = stk"
    using t1(1) by simp
qed (simp_all add: is_space_def chr_code_def)

lemma parses_object:
  assumes "\<forall>m \<in> set ms. is_cstr (fst m) \<and> (\<forall>l. parses (l # stk) (pr (snd m)) (snd m)) \<and> value_head (pr (snd m))"
    and "ms \<noteq> [] \<Longrightarrow> length stk < 31" and "distinct (map fst ms)"
  shows "parses stk (''{'' @ join_comma (map (member_text pr) ms) @ ''}'') (JObject ms)"
proof (rule parsesI)
  fix t :: json_tokener and rest
  assume t: "level t = json_tokener_reset_level\<lparr>state := json_tokener_state_start\<rparr>" "below t = stk"
  let ?s = "join_comma (map (member_text pr) ms) @ CHR ''}'' # rest"
  obtain t1 where t1: "jt_loop t (CHR ''{'' # ?s) = jt_loop t1 ?s"
    "level t1 = eating json_tokener_state_object_field_start (JObject [])" "below t1 = stk"
    using container_start(2) [OF t(1)] t(2) by blast
  have "\<exists>t'. jt_loop t1 ?s = jt_loop t' rest \<and> level t' = finished (JObject ms) \<and> below t' = stk"
  proof (cases "ms = []")
    case True
    then show ?thesis using object_close [OF t1(2), of rest] t1(3) by simp
  next
    case False
    then show ?thesis using object_members [OF t1(2) _ t1(3), of ms pr rest] assms by (simp add: value_head_def)
  qed
  then show "\<exists>t'. jt_loop t ((''{'' @ join_comma (map (member_text pr) ms) @ ''}'') @ rest) = jt_loop t' rest \<and>
      level t' = finished (JObject ms) \<and> below t' = stk" using t1(1) by simp
qed (simp_all add: is_space_def chr_code_def)

lemma print_object:
  "json_object_to_json_string (JObject ms) = ''{'' @ join_comma (map (member_text json_object_to_json_string) ms) @ ''}''"
  by (simp, intro arg_cong [where f = join_comma] map_cong) auto

lemma parses_print: "json_ok j \<Longrightarrow> length stk + json_depth j \<le> 31 \<Longrightarrow> parses stk (json_object_to_json_string j) j"
proof (induction j arbitrary: stk rule: json_ok.induct)
  case (6 js)
  have *: "\<forall>j \<in> set js. (\<forall>l. parses (l # stk) (json_object_to_json_string j) j) \<and> value_head (json_object_to_json_string j)"
  proof (intro ballI conjI allI)
    fix j l assume j: "j \<in> set js"
    then show "parses (l # stk) (json_object_to_json_string j) j"
      using 6 json_depth_element [OF j] by (intro "6.IH") (auto simp del: json_depth.simps)
    show "value_head (json_object_to_json_string j)" using print_head 6 j by auto
  qed
  have "js \<noteq> [] \<Longrightarrow> length stk < 31"
    using 6(3) json_depth_element [of "hd js" js] by (simp del: json_depth.simps)
  then show ?case using parses_array [OF *] by simp
next
  case (7 ms)
  have *: "\<forall>m \<in> set ms. is_cstr (fst m) \<and> (\<forall>l. parses (l # stk) (json_object_to_json_string (snd m)) (snd m)) \<and>
      value_head (json_object_to_json_string (snd m))"
  proof (intro ballI conjI allI)
    fix m l assume m: "m \<in> set ms"
    then show "parses (l # stk) (json_object_to_json_string (snd m)) (snd m)"
      using 7 json_depth_member [OF m] by (intro "7.IH") (auto simp del: json_depth.simps)
    show "value_head (json_object_to_json_string (snd m))" "is_cstr (fst m)" using print_head 7 m by auto
  qed
  have "ms \<noteq> [] \<Longrightarrow> length stk < 31"
    using 7(3) json_depth_member [of "hd ms" ms] by (simp del: json_depth.simps)
  then show ?case using parses_object [OF *] 7(2) unfolding print_object by simp
qed (simp_all add: parses_null parses_bool parses_int parses_double parses_string)

text \<open>The printed text is a C string.\<close>

lemma num_loop_chars: "num_loop n ex neg dbl s = Inr (m, d, []) \<Longrightarrow> set s \<subseteq> set json_number_chars"
proof (induction s arbitrary: n ex neg dbl)
  case (Cons c s)
  then show ?case by (auto simp: Let_def strchr_None_iff split: if_splits)
qed simp

lemma join_comma_cstr: "(\<And>x. x \<in> set xs \<Longrightarrow> NUL \<notin> set x) \<Longrightarrow> NUL \<notin> set (join_comma xs)"
  by (induction xs rule: join_comma.induct) auto

lemma escape_str_cstr: "NUL \<notin> set (json_escape_str s)"
  using escape_str_printable [of s] by (auto simp: chr_code_def)

lemma print_cstr: "json_ok j \<Longrightarrow> NUL \<notin> set (json_object_to_json_string j)"
proof (induction j rule: json_ok.induct)
  case (3 i)
  have "\<not> is_digit NUL" by (simp add: is_digit_def chr_code_def)
  then show ?case using show_nat_digits [of "nat i"] show_nat_digits [of "nat (- i)"] by (auto simp: show_int_def)
next
  case (4 d)
  then show ?case using num_loop_chars [of 0 False 1 False d "length d" True]
    by (auto simp: double_text_def json_number_chars_def)
next
  case (6 js)
  then show ?case using join_comma_cstr [of "map json_object_to_json_string js"] by auto
next
  case (7 ms)
  then have "NUL \<notin> set (member_text json_object_to_json_string m)" if "m \<in> set ms" for m
    using that escape_str_cstr by auto
  then have "NUL \<notin> set (join_comma (map (member_text json_object_to_json_string) ms))"
    by (intro join_comma_cstr) (auto simp del: list.set)
  then show ?case unfolding print_object by simp
qed (simp_all add: escape_str_cstr)

lemma read_back:
  assumes "json_ok j" and "j \<noteq> JNull" and "json_depth j \<le> 31" and "int (length (json_object_to_json_string j)) \<le> INT_MAX"
  shows "json_tokener_parse (json_object_to_json_string j) = Some j"
proof -
  let ?s = "json_object_to_json_string j"
  have s: "takeWhile (\<lambda>c. c \<noteq> NUL) ?s = ?s" using print_cstr [OF assms(1)] by (auto simp: takeWhile_eq_all_conv)
  have "parses [] ?s j" using parses_print assms(1,3) by simp
  then obtain t where t: "jt_loop json_tokener_new (?s @ []) = jt_loop t []" "level t = finished j" "below t = []"
    unfolding parses_def by (force simp: json_tokener_new_def rest_ok_def)
  have "jt_loop t [] = jt_loop (goto_state json_tokener_state_finish t) []"
    using jt_eatws_skip [of t "[]"] t(2) by (simp add: finished_def)
  also have "\<dots> = Some (json_tokener_success, goto_state json_tokener_state_finish t, NUL)"
    using t(3) by (subst jt_loop.simps) (simp add: jt_step_def jt_finish_def goto_state_def peek_def)
  finally have "json_tokener_parse_ex ?s = Some (json_tokener_success, j)"
    using t assms(4) by (simp add: json_tokener_parse_ex_def goto_state_def finished_def)
  then show ?thesis unfolding json_tokener_parse_def s using assms(2) by simp
qed

text \<open>
  C14: A document of 64-bit integers, scanned doubles, arbitrary texts (quotes, control
  characters and zero bytes included), arrays and objects with distinct names, nested at most 31
  deep, is parsed back from its printed form.
\<close>

theorem json_print_parse:
  assumes "json_ok j" and "j \<noteq> JNull" and "json_depth j \<le> 31" and "int (length (json_object_to_json_string j)) \<le> INT_MAX"
  shows "json_tokener_parse (json_object_to_json_string j) = Some j"
  using assms by (rule read_back)

end
