(* ===== verification/JsonResult.thy ===== *)
theory JsonResult
  imports JsonRoundTrip
begin

text \<open>
  What the tokener returns: every document of \<open>json_tokener_parse\<close> holds 64-bit
  numbers, scanned doubles and objects without duplicate names, and is nested at most 31
  deep. It can therefore be printed and read back. The proof is an invariant of the
  machine of \<open>json_tokener.c\<close> and its stack.
\<close>

section \<open>Definitions\<close>

definition adding :: "json_tokener_state set" where
  "adding = {json_tokener_state_array_add, json_tokener_state_object_value_add}"

definition level_ok :: "nat \<Rightarrow> json_tokener_srec \<Rightarrow> bool" where
  "level_ok d l \<longleftrightarrow> json_ok (current l) \<and> is_cstr (obj_field_name l) \<and> d + json_depth (current l) \<le> 31 \<and>
     saved_state l \<notin> adding \<and> saved_state l \<noteq> json_tokener_state_number"

fun levels_ok :: "json_tokener_srec list \<Rightarrow> bool" where
  "levels_ok [] \<longleftrightarrow> True"
| "levels_ok (l # ls) \<longleftrightarrow> level_ok (length ls) l \<and> state l \<in> adding \<and> levels_ok ls"

definition doc_inv :: "json_tokener \<Rightarrow> bool" where
  "doc_inv t \<longleftrightarrow> level_ok (length (below t)) (level t) \<and> levels_ok (below t) \<and> json_ok (obj t) \<and>
     (state (level t) \<in> adding \<longrightarrow> length (below t) + Suc (json_depth (obj t)) \<le> 31)"

definition number_inv :: "json_tokener \<Rightarrow> string \<Rightarrow> bool" where
  "number_inv t s \<longleftrightarrow> (state (level t) = json_tokener_state_number \<longrightarrow>
     pb t = [] \<and> \<not> is_double t \<and> (is_digit (peek s) \<or> peek s = CHR ''-''))"

definition keeps_doc :: "jt_result \<Rightarrow> bool" where
  "keeps_doc r \<longleftrightarrow>
     (case r of
        Redo t s \<Rightarrow> doc_inv t \<and> number_inv t s
      | Break t s \<Rightarrow> doc_inv t \<and> state (level t) \<noteq> json_tokener_state_number
      | Out err t c \<Rightarrow> doc_inv t)"

section \<open>Lemmas\<close>

lemma keeps_doc_simps [simp]:
  "keeps_doc (Redo t s) \<longleftrightarrow> doc_inv t \<and> number_inv t s"
  "keeps_doc (Break t s) \<longleftrightarrow> doc_inv t \<and> state (level t) \<noteq> json_tokener_state_number"
  "keeps_doc (Out err t c) \<longleftrightarrow> doc_inv t"
  by (simp_all add: keeps_doc_def)

lemmas doc_defs = doc_inv_def number_inv_def level_ok_def adding_def jt_moves

subsection \<open>Values\<close>

lemma num_loop_prefix:
  "num_loop n ex neg dbl s = Inr (m, d, s1) \<Longrightarrow> \<exists>p. s = p @ s1 \<and> m = n + length p \<and> num_loop n ex neg dbl p = Inr (m, d, [])"
proof (induction s arbitrary: n ex neg dbl)
  case (Cons c s)
  show ?case
  proof (cases "strchr json_number_chars c = None")
    case True
    then show ?thesis using Cons.prems by (intro exI [of _ "[]"]) simp
  next
    case False
    let ?e = "c = CHR ''e'' \<or> c = CHR ''E''"
    let ?neg = "if ?e then n + 2 else neg"
    have step: "num_loop n ex neg dbl (c # q) = (if c = CHR ''.'' \<and> dbl \<or> ?e \<and> ex \<or> c = CHR ''-'' \<and> n + 1 \<noteq> ?neg then Inl c
        else num_loop (n + 1) (ex \<or> ?e) ?neg (dbl \<or> c = CHR ''.'' \<or> ?e) q)" for q
      using False by (auto simp: Let_def)
    then have ok: "\<not> (c = CHR ''.'' \<and> dbl \<or> ?e \<and> ex \<or> c = CHR ''-'' \<and> n + 1 \<noteq> ?neg)"
      using Cons.prems by (auto split: if_splits)
    have next_step: "num_loop n ex neg dbl (c # q) = num_loop (n + 1) (ex \<or> ?e) ?neg (dbl \<or> c = CHR ''.'' \<or> ?e) q" for q
      using step [of q] unfolding if_not_P [OF ok] .
    have "num_loop (n + 1) (ex \<or> ?e) ?neg (dbl \<or> c = CHR ''.'' \<or> ?e) s = Inr (m, d, s1)"
      using Cons.prems unfolding next_step .
    then obtain p where p: "s = p @ s1" "m = n + 1 + length p" "num_loop (n + 1) (ex \<or> ?e) ?neg (dbl \<or> c = CHR ''.'' \<or> ?e) p = Inr (m, d, [])"
      using Cons.IH by blast
    then have "num_loop n ex neg dbl (c # p) = Inr (m, d, [])" unfolding next_step by blast
    then show ?thesis using p by (intro exI [of _ "c # p"]) simp
  qed
qed simp

lemma json_parse_int64_range: "json_parse_int64 b = Some i \<Longrightarrow> is_int64 i"
  by (auto simp: json_parse_int64_def strtol10_def sat64_def is_int64_def int_limits split: if_splits)

lemma json_parse_double_peek: "json_parse_double b \<Longrightarrow> b \<noteq> []"
  by (auto simp: json_parse_double_def skip_sign_def peek_def is_digit_def chr_code_def)

lemma double_text_special: "double_text ''NaN''" "double_text ''Infinity''" "double_text ''-Infinity''"
  by (simp_all add: double_text_def)

lemma depth_array_add: "json_depth (JArray (js @ [v])) \<le> max (json_depth (JArray js)) (Suc (json_depth v))"
proof -
  have "\<forall>j \<in> set (js @ [v]). Suc (json_depth j) \<le> max (json_depth (JArray js)) (Suc (json_depth v))"
    using json_depth_element [of _ js] by (auto simp: less_max_iff_disj Suc_le_eq simp del: json_depth.simps)
  then show ?thesis by simp
qed

lemma depth_member_add: "json_depth (JObject (member_add ms k v)) \<le> max (json_depth (JObject ms)) (Suc (json_depth v))"
proof -
  have "snd ` set (member_add ms k v) \<subseteq> insert v (snd ` set ms)" by (induction ms k v rule: member_add.induct) auto
  then have "\<forall>m \<in> set (member_add ms k v). snd m = v \<or> (\<exists>m' \<in> set ms. snd m = snd m')" by force
  then have "\<forall>m \<in> set (member_add ms k v). Suc (json_depth (snd m)) \<le> max (json_depth (JObject ms)) (Suc (json_depth v))"
    using json_depth_member Suc_le_eq by (metis max.cobounded2 max.coboundedI1)
  then show ?thesis by simp
qed

lemma member_add_ok:
  assumes "json_ok (JObject ms)" and "is_cstr k" and "json_ok v"
  shows "json_ok (JObject (member_add ms k v))"
proof -
  have "distinct (map fst (member_add ms k v))" using assms(1) unfolding member_add_keys by auto
  moreover have "set (member_add ms k v) \<subseteq> insert (k, v) (set ms)" by (induction ms k v rule: member_add.induct) auto
  ultimately show ?thesis using assms by auto
qed

subsection \<open>The steps\<close>

lemma doc_eatws: "doc_inv t \<Longrightarrow> keeps_doc (jt_eatws t s)"
  by (auto simp: jt_eatws_def Let_def doc_defs)

lemma doc_comments:
  assumes "doc_inv t" and "state (level t) \<notin> adding"
  shows "keeps_doc (jt_comment_start t s)" and "keeps_doc (jt_comment t s)" and "keeps_doc (jt_comment_eol t s)"
    and "keeps_doc (jt_comment_end t s)"
  using assms by (auto simp: jt_comment_start_def jt_comment_def jt_comment_eol_def jt_comment_end_def Let_def doc_defs)

lemma doc_start: "doc_inv t \<Longrightarrow> state (level t) = json_tokener_state_start \<Longrightarrow> keeps_doc (jt_start t s)"
  by (auto simp: jt_start_def Let_def doc_defs)

lemma doc_finish: "doc_inv t \<Longrightarrow> state (level t) = json_tokener_state_finish \<Longrightarrow> keeps_doc (jt_finish t s)"
  by (auto simp: jt_finish_def doc_defs split: list.split)

lemma doc_literals:
  assumes "doc_inv t"
  shows "state (level t) = json_tokener_state_inf \<Longrightarrow> keeps_doc (jt_inf t s)"
    and "state (level t) = json_tokener_state_null \<Longrightarrow> keeps_doc (jt_null t s)"
    and "state (level t) = json_tokener_state_boolean \<Longrightarrow> keeps_doc (jt_boolean t s)"
proof -
  show "state (level t) = json_tokener_state_inf \<Longrightarrow> keeps_doc (jt_inf t s)"
    using assms by (auto simp: jt_inf_def doc_defs double_text_special split: sum.split)
  show "state (level t) = json_tokener_state_null \<Longrightarrow> keeps_doc (jt_null t s)"
    using assms by (auto simp: jt_null_def doc_defs double_text_special Let_def)
  show "state (level t) = json_tokener_state_boolean \<Longrightarrow> keeps_doc (jt_boolean t s)"
    using assms by (auto simp: jt_boolean_def doc_defs Let_def)
qed

lemma doc_text:
  assumes "doc_inv t" and "state (level t) \<notin> adding" and "state (level t) \<noteq> json_tokener_state_number"
  shows "keeps_doc (jt_string t s)" and "keeps_doc (jt_object_field t s)" and "keeps_doc (jt_string_escape t s)"
    and "keeps_doc (jt_escape_unicode t s)"
proof -
  show "keeps_doc (jt_string t s)" using assms by (auto simp: jt_string_def Let_def doc_defs)
  have "is_cstr (takeWhile (\<lambda>c. c \<noteq> NUL) x)" for x by (auto simp: is_cstr_def dest: set_takeWhileD)
  then show "keeps_doc (jt_object_field t s)" using assms by (auto simp: jt_object_field_def Let_def doc_defs)
  show "keeps_doc (jt_string_escape t s)" using assms by (auto simp: jt_string_escape_def Let_def doc_defs)
  show "keeps_doc (jt_escape_unicode t s)" using assms by (auto simp: jt_escape_unicode_def doc_defs split: sum.split)
qed

lemma doc_number:
  assumes "doc_inv t" and "number_inv t s" and "state (level t) = json_tokener_state_number"
  shows "keeps_doc (jt_number t s)"
proof (cases "num_loop 0 False 1 False s")
  case (Inr r)
  obtain m d s1 where r: "r = (m, d, s1)" by (metis prod.exhaust)
  obtain p where p: "s = p @ s1" "m = length p" "num_loop 0 False 1 False p = Inr (m, d, [])"
    using num_loop_prefix Inr r by fastforce
  have "double_text p" if "d" "json_parse_double p"
    using that p assms(2,3) json_parse_double_peek by (cases p) (auto simp: double_text_def number_inv_def peek_def)
  then show ?thesis using assms Inr r p json_parse_int64_range
    by (auto simp: jt_number_def Let_def doc_defs)
qed (use assms in \<open>simp add: jt_number_def number_inv_def\<close>)

lemma doc_array_add:
  assumes "doc_inv t" and "state (level t) = json_tokener_state_array_add"
  shows "keeps_doc (jt_array_add t s)"
proof (cases "current (level t)")
  case (JArray js)
  have "length (below t) + json_depth (JArray (js @ [obj t])) \<le> 31"
    using assms JArray depth_array_add [of js "obj t"]
    by (auto simp: doc_inv_def level_ok_def adding_def max_def simp del: json_depth.simps split: if_splits)
  then show ?thesis using assms JArray
    by (simp add: jt_array_add_def json_object_array_add_def doc_defs del: json_depth.simps)
qed (use assms in \<open>simp_all add: jt_array_add_def json_object_array_add_def\<close>)

lemma doc_object_value_add:
  assumes "doc_inv t" and "state (level t) = json_tokener_state_object_value_add"
  shows "keeps_doc (jt_object_value_add t s)"
proof (cases "current (level t)")
  case (JObject ms)
  have "json_ok (JObject (member_add ms (obj_field_name (level t)) (obj t)))"
    using assms JObject by (intro member_add_ok) (auto simp: doc_inv_def level_ok_def)
  moreover have "length (below t) + json_depth (JObject (member_add ms (obj_field_name (level t)) (obj t))) \<le> 31"
    using assms JObject depth_member_add [of ms "obj_field_name (level t)" "obj t"]
    by (auto simp: doc_inv_def level_ok_def adding_def max_def simp del: json_depth.simps split: if_splits)
  ultimately show ?thesis using assms JObject
    by (simp add: jt_object_value_add_def json_object_object_add_def doc_defs is_cstr_def Let_def del: json_depth.simps json_ok.simps)
qed (use assms in \<open>simp_all add: jt_object_value_add_def json_object_object_add_def doc_defs is_cstr_def Let_def\<close>)

lemma doc_containers:
  assumes "doc_inv t" and "state (level t) \<notin> adding" and "state (level t) \<noteq> json_tokener_state_number"
  shows "keeps_doc (jt_array t s)" and "keeps_doc (jt_array_sep t s)" and "keeps_doc (jt_object_field_start t s)"
    and "keeps_doc (jt_object_field_end t s)" and "keeps_doc (jt_object_value t s)" and "keeps_doc (jt_object_sep t s)"
  using assms
  by (auto simp: jt_array_def jt_array_sep_def jt_object_field_start_def jt_object_field_end_def jt_object_value_def
      jt_object_sep_def Let_def doc_defs is_cstr_def JSON_TOKENER_DEFAULT_DEPTH_def)

lemma doc_step: "doc_inv t \<Longrightarrow> number_inv t s \<Longrightarrow> keeps_doc (jt_step t s)"
  by (cases "state (level t)")
    (simp_all add: jt_step_def doc_eatws doc_comments doc_start doc_finish doc_literals doc_text doc_number doc_array_add
      doc_object_value_add doc_containers adding_def)

lemma doc_loop:
  assumes "jt_loop t s = Some r"
  shows "doc_inv t \<longrightarrow> number_inv t s \<longrightarrow> doc_inv (fst (snd r))"
proof (rule jt_loop.raw_induct [OF _ assms, where P = "\<lambda>t s r. doc_inv t \<longrightarrow> number_inv t s \<longrightarrow> doc_inv (fst (snd r))"], intro impI)
  fix loop t s r
  assume IH: "\<And>t s r. loop t s = Some r \<Longrightarrow> doc_inv t \<longrightarrow> number_inv t s \<longrightarrow> doc_inv (fst (snd r))"
    and eq: "(case jt_step t s of Redo t1 s1 \<Rightarrow> loop t1 s1
      | Break t1 s1 \<Rightarrow> (case s1 of [] \<Rightarrow> Some (json_tokener_success, t1, NUL) | c # s2 \<Rightarrow> loop t1 s2)
      | Out err t1 c \<Rightarrow> Some (err, t1, c)) = Some r"
    and inv: "doc_inv t" "number_inv t s"
  have "state (level t1) \<noteq> json_tokener_state_number \<Longrightarrow> number_inv t1 s1" for t1 s1 by (simp add: number_inv_def)
  then show "doc_inv (fst (snd r))" using doc_step [OF inv] eq IH by (auto split: jt_result.splits list.splits)
qed

lemma parse_ex_doc:
  assumes "json_tokener_parse_ex str = Some (err, j)"
  shows "json_ok j \<and> json_depth j \<le> 31"
proof (cases "int (length str) > INT_MAX")
  case False
  obtain e t c where l: "jt_loop json_tokener_new str = Some (e, t, c)" and j: "j = current (level t) \<or> j = JNull"
    using assms False by (auto simp: json_tokener_parse_ex_def bind_eq_Some_conv Let_def split: if_splits)
  have "doc_inv json_tokener_new" "number_inv json_tokener_new str"
    by (simp_all add: doc_defs json_tokener_new_def is_cstr_def)
  then have "doc_inv t" using doc_loop [OF l] by simp
  then show ?thesis using j by (auto simp: doc_inv_def level_ok_def)
qed (use assms in \<open>simp add: json_tokener_parse_ex_def\<close>)

lemma parse_doc: "json_tokener_parse str = Some j \<Longrightarrow> json_ok j \<and> json_depth j \<le> 31 \<and> j \<noteq> JNull"
  using parse_ex_doc by (fastforce simp: json_tokener_parse_def split: option.splits prod.splits if_splits)

section \<open>Properties\<close>

text \<open>
  C13: Whatever json_tokener_parse returns for a text, printing it and parsing the printed text
  gives the same document again.
\<close>

theorem json_parse_print_parse:
  assumes "json_tokener_parse str = Some j" and "int (length (json_object_to_json_string j)) \<le> INT_MAX"
  shows "json_tokener_parse (json_object_to_json_string j) = Some j"
  using parse_doc [OF assms(1)] assms(2) read_back by blast

end
