(* ===== verification/SendDocument.thy ===== *)
theory SendDocument
  imports SendParser JsonResult
begin

text \<open>
  The request parser of \<open>mqttsendreqbodyparser.c\<close> on the tokener of
  \<open>json_tokener.c\<close>: the parameter \<open>tok\<close> of \<open>SendParser\<close> is
  \<open>json_tokener_parse\<close>. The document an accepted request leaves behind can be printed
  into the offline cache, read back and accepted again.
\<close>

section \<open>Lemmas\<close>

definition doc_ok :: "nat \<Rightarrow> json \<Rightarrow> bool" where
  "doc_ok d j \<longleftrightarrow> json_ok j \<and> json_depth j \<le> d"

lemma doc_ok_add:
  assumes "doc_ok (Suc d) (JObject ms)" and "is_cstr k" and "doc_ok d v"
  shows "doc_ok (Suc d) (json_object_object_add (JObject ms) k v)"
  using assms member_add_ok [of ms k v] depth_member_add [of ms k v]
  by (auto simp: doc_ok_def json_object_object_add_def simp del: json_ok.simps json_depth.simps)

lemma doc_ok_add_missing:
  assumes "doc_ok (Suc d) j" and "is_object j" and "is_cstr k" and "doc_ok d v"
  shows "doc_ok (Suc d) (add_missing k v j)"
  using assms doc_ok_add by (auto simp: add_missing_def is_object_def)

lemma doc_ok_enrich:
  assumes "doc_ok (Suc d) (JObject ms)" and "is_int64 (time_now s)"
  shows "doc_ok (Suc d) (fst (enrich_payload mac (JObject ms) s))"
proof -
  have names: "is_cstr ''sn''" "is_cstr ''mac''" "is_cstr ''time''" by (simp_all add: is_cstr_def)
  have vals: "doc_ok d (JString x)" "doc_ok d (JInt (time_now s))" for x using assms(2) by (simp_all add: doc_ok_def)
  have "is_object (JObject ms)" by (simp add: is_object_def)
  then show ?thesis using assms(1) names vals
    by (simp add: enrich_payload_eq Let_def add_missing_object doc_ok_add_missing)
qed

text \<open>A member of an object is a document one level shallower.\<close>

lemma doc_ok_member: "doc_ok d j \<Longrightarrow> json_object_object_get_ex j k = Some v \<Longrightarrow> \<exists>d'. d = Suc d' \<and> doc_ok d' v"
proof -
  assume d: "doc_ok d j" and g: "json_object_object_get_ex j k = Some v"
  obtain ms where ms: "j = JObject ms" using g by (cases j) (auto simp: json_object_object_get_ex_def)
  have m: "(k, v) \<in> set ms" using g ms by (auto simp: json_object_object_get_ex_def dest: map_of_SomeD)
  have "json_depth v < d" using json_depth_member [OF m] d ms by (simp add: doc_ok_def del: json_depth.simps)
  moreover have "json_ok v" using d ms m by (force simp: doc_ok_def)
  ultimately show ?thesis by (cases d) (auto simp: doc_ok_def)
qed

lemma doc_ok_accepted:
  assumes "doc_ok 31 j" and "is_int64 (time_now s)" and "accepted mac j s = (text, j', s')"
  shows "doc_ok 31 j'"
proof (cases "\<exists>ms. json_object_object_get_ex j ''payload'' = Some (JObject ms)")
  case True
  then obtain ms where ms: "json_object_object_get_ex j ''payload'' = Some (JObject ms)" by blast
  obtain top where top: "j = JObject top" using ms by (cases j) (auto simp: json_object_object_get_ex_def)
  have "doc_ok 30 (JObject ms)" using doc_ok_member [OF assms(1) ms] by (metis Suc_inject eval_nat_numeral(3))
  then have "doc_ok 30 (fst (enrich_payload mac (JObject ms) s))" using doc_ok_enrich [of 29 ms s mac] assms(2) by simp
  then have "doc_ok 31 (json_object_object_add j ''payload'' (fst (enrich_payload mac (JObject ms) s)))"
    using doc_ok_add [of 30 top "''payload''"] assms(1) top by (simp add: is_cstr_def)
  then show ?thesis using assms(3) ms by (auto simp: accepted_def split: prod.splits)
next
  case False
  then show ?thesis using assms by (auto simp: accepted_def split: option.splits json.splits)
qed

section \<open>Properties\<close>

text \<open>
  C8: The document that an accepted request leaves behind, printed into the cache file and
  parsed again by the sender with the tokener of json-c, gives the same topic, payload, QoS and
  priority, and is not changed a second time.
\<close>

theorem cached_message_unchanged:
  assumes "parse_mqtt_send_request_body json_tokener_parse body mac s = (SUCCESS, c, Some j', err, s1)"
    and "is_int64 (time_now s)" and "int (length (json_object_to_json_string j')) \<le> INT_MAX"
  shows "\<exists>c'. parse_mqtt_send_request_body json_tokener_parse (json_object_to_json_string j') None s2 = (SUCCESS, c', Some j', '''', s2) \<and>
    topic c' = topic c \<and> payload c' = payload c \<and> qos c' = qos c \<and> cache_priority c' = cache_priority c"
proof (rule stored_request_again [OF assms(1)])
  obtain j where j: "json_tokener_parse body = Some j" "request_ok j"
    using parse_rejects [of json_tokener_parse body mac s] assms(1) by auto
  obtain pl ja sa where a: "accepted mac j s = (pl, ja, sa)" by (metis prod.exhaust)
  have "ja = j'" using parse_result [where tok = json_tokener_parse and body = body, OF j a] assms(1) by auto
  then have "doc_ok 31 j'" using doc_ok_accepted [OF _ assms(2) a] parse_doc [OF j(1)] by (simp add: doc_ok_def)
  moreover have "j' \<noteq> JNull" using accepted_again [OF j(2) a] \<open>ja = j'\<close> by (auto simp: request_ok_def json_object_object_get_ex_def)
  ultimately show "json_tokener_parse (json_object_to_json_string j') = Some j'"
    using read_back assms(3) by (simp add: doc_ok_def)
qed

end
