(* ===== verification/Examples.thy ===== *)
theory Examples
  imports AesSpec MqttPacket Utf8 LinkHash App SendDocument DList SList
begin

text \<open>
  Concrete inputs at which the hypotheses of the properties hold: a hub with two cached
  messages, a small request document, an environment with the AES descriptor whose broker
  accepts everything.
\<close>

section \<open>Definitions\<close>

definition demo_env :: "rijndael_key hub_env" where
  "demo_env = \<lparr>aes = aes_desc, c_rand = (\<lambda>now i. i), answer = (\<lambda>_ _. 0), heap_tail = replicate 16 0\<rparr>"

definition refusing_env :: "rijndael_key hub_env" where
  "refusing_env = demo_env\<lparr>answer := (\<lambda>_ _. -3)\<rparr>"

definition demo_json :: json where
  "demo_json = JObject [(''topic'', JString ''t''), (''payload'', JString ''hi''), (''cache_priority'', JInt 6)]"

definition demo_text :: string where "demo_text = json_object_to_json_string demo_json"

definition h1 :: cache_file_header where "h1 = \<lparr>h_priority = 5, h_timestamp = 1000\<rparr>"
definition h2 :: cache_file_header where "h2 = \<lparr>h_priority = 8, h_timestamp = 2000\<rparr>"
definition h3 :: cache_file_header where "h3 = \<lparr>h_priority = 6, h_timestamp = 3000\<rparr>"

definition demo_pool :: "string threadpool" where
  "demo_pool = \<lparr>queue = replicate 4 None, thread_count = 1, queue_size = 4, head = 0, tail = 0, count = 0,
     shutdown = running, started = 1, locked = False\<rparr>"

text \<open>A hub of capacity two with two cached messages.\<close>

definition demo_hub :: http_state where
  "demo_hub = \<lparr>fs_files = [''/c/1000-5.cache'' \<mapsto> demo_text, ''/c/2000-8.cache'' \<mapsto> demo_text],
     fs_dirs = [''/'', ''/c'', ''/h/mqttmsghub-data''], fs_open_ok = (\<lambda>_. True), fs_mkdir_ok = (\<lambda>_. True), fs_room = 100000,
     fs_exe = ''/app/mqttmsghub'', fs_passwd_dir = ''/h'', gHomePath = ''/h'',
     g_deviceSN = ''SN1'', g_mqttEndPoint = ''tcp://b'', g_listenServer = ''127.0.0.1'',
     g_sent_msg_count = 0, g_online_discarded_msg_count = 0, g_offline_discarded_msg_count = 0, g_offline_sent_msg_count = 0,
     client = True, connected = False, hasEverConnected = False, subscribed = False,
     messageReceivedCallback = True, connectedCallback = True, g_ClientId = '''', paho_trace = [], clock = 3000,
     g_list = Some [h1, h2], g_cacheCapacity = 2, g_isAsyncSending = False, g_cacheRootPath = ''/c'',
     g_threadpool = Some demo_pool, g_pipe_fd = 0, fifo_files = [], fifo_out = [], closed_fds = [], http_out = []\<rparr>"

definition demo_request :: http_request where
  "demo_request = \<lparr>clientAddr = ''10.0.0.2'', ipForwardedFor = '''', body = demo_text\<rparr>"

definition online_hub :: http_state where
  "online_hub = demo_hub\<lparr>connected := True\<rparr>"

definition object_json :: json where
  "object_json = JObject [(''topic'', JString ''t''), (''payload'', JObject [(''a'', JInt 1)])]"

text \<open>The application's state around the hub, with two messages counted in the counter file.\<close>

definition demo_app :: app_state where
  "demo_app = http_state.extend (demo_hub\<lparr>fs_files := (fs_files demo_hub)(''/h/mqttmsghub-data/msgcounter.ini'' \<mapsto>
       concat (map write_keyvalue (keyvalues (counts_ini (2, 0, 0, 0)))))\<rparr>)
     \<lparr>g_totalSeconds = 0, g_scheduleTimerId = 0, senders_started = 0\<rparr>"

definition pool0 :: "nat threadpool" where
  "pool0 = \<lparr>queue = [None, None], thread_count = 1, queue_size = 2, head = 0, tail = 0, count = 0,
     shutdown = running, started = 1, locked = False\<rparr>"

definition pool1 :: "nat threadpool" where "pool1 = pool0\<lparr>queue := [Some 7, None], tail := 1, count := 1\<rparr>"
definition pool2 :: "nat threadpool" where "pool2 = pool1\<lparr>shutdown := graceful_shutdown\<rparr>"
definition pool3 :: "nat threadpool" where "pool3 = pool2\<lparr>head := 1, count := 0\<rparr>"
definition pool4 :: "nat threadpool" where "pool4 = pool3\<lparr>started := 0\<rparr>"

definition sys_with :: "nat threadpool \<Rightarrow> nat worker_pc \<Rightarrow> nat list \<Rightarrow> nat list \<Rightarrow> nat list \<Rightarrow> nat pool_sys" where
  "sys_with p w a g f = \<lparr>pool = p, workers = [w], accepted_tasks = a, grabbed_tasks = g, finished_tasks = f\<rparr>"

definition demo_pipe_env :: pipe_env where
  "demo_pipe_env = \<lparr>pool_alloc = True, pool_created = 1, mkfifo_rc = (\<lambda>_. 0), open_fd = (\<lambda>_. 5)\<rparr>"

definition demo_ini :: ini_parser where "demo_ini = \<lparr>keyvalues = [(''port'', ''80''), (''server'', ''a b'')]\<rparr>"

definition demo_publish :: Publish where
  "demo_publish = \<lparr>pub_header = header_bits 0, pub_topic = [0x74, 0x2F, 0x61], pub_msgId = 258, pub_payload = [1, 0, 2]\<rparr>"

definition demo_client :: Clients where
  "demo_client = \<lparr>clientID = [0x68], cl_username = Some [0x75], cl_password = None, cl_cleansession = True,
     cl_keepAliveInterval = 60, cl_will = None\<rparr>"

section \<open>Lemmas\<close>

lemma demo_env_ok: "send_env_ok demo_env" "send_env_ok refusing_env"
  using aes_desc_ok by (simp_all add: send_env_ok_def demo_env_def refusing_env_def)

lemma demo_headers: "header_ok h1" "header_ok h2" "header_ok h3"
  by (simp_all add: header_ok_def h1_def h2_def h3_def is_int32_def is_int64_def int_limits)

lemma demo_names: "header_name h1 = ''1000-5.cache''" "header_name h2 = ''2000-8.cache''" "header_name h3 = ''3000-6.cache''"
  by code_simp+

lemma demo_paths:
  "cache_path demo_hub h1 = ''/c/1000-5.cache''" "cache_path demo_hub h2 = ''/c/2000-8.cache''"
  "cache_path demo_hub h3 = ''/c/3000-6.cache''"
  by (simp_all add: cache_path_def demo_names) (simp_all add: demo_hub_def)

lemma demo_text_val: "demo_text \<noteq> []" "length demo_text < 100" "NUL \<notin> set demo_text"
  by code_simp+

lemma demo_tok_text: "json_tokener_parse demo_text = Some demo_json"
  unfolding demo_text_def
proof (rule read_back)
  show "int (length (json_object_to_json_string demo_json)) \<le> INT_MAX"
    using demo_text_val(2) by (simp add: demo_text_def int_limits)
qed (simp_all add: demo_json_def is_cstr_def is_int64_def int_limits)

lemma demo_wf: "cache_wf demo_hub [h1, h2]" "files_wf demo_hub [h1, h2]"
proof -
  show "cache_wf demo_hub [h1, h2]" using demo_headers by (simp add: cache_wf_def) (simp add: demo_hub_def h1_def h2_def)
  show "files_wf demo_hub [h1, h2]"
    using demo_text_val(1) by (simp add: files_wf_def demo_paths) (simp add: demo_hub_def)
qed

lemma demo_spec: "spec_enqueue 2 h3 [h1, h2] = Some [h2, h3]"
  by code_simp

section \<open>Witnesses\<close>

theorem enqueue_keeps_cache_witness:
  "\<exists>s'. enqueue_offline_message (Some demo_text) 6 3000 demo_hub = Some (SUCCESS, '''', s') \<and>
    cache_wf s' [h2, h3] \<and> files_wf s' [h2, h3] \<and> fs_files s' (cache_path s' h3) = Some demo_text \<and>
    fs_files s' (cache_path s' h1) = None"
proof -
  have "cache_wf demo_hub [h1, h2]" "files_wf demo_hub [h1, h2]" "header_ok h3" "demo_text \<noteq> []"
    by (simp_all add: demo_wf demo_headers demo_text_val)
  moreover have "0 < g_cacheCapacity demo_hub" "fs_open_ok demo_hub (cache_path demo_hub h3)" "length demo_text \<le> fs_room demo_hub"
      "spec_enqueue (nat (g_cacheCapacity demo_hub)) h3 [h1, h2] = Some [h2, h3]"
    using demo_spec demo_text_val(2) by (simp_all add: demo_hub_def)
  moreover have "h_timestamp h3 \<notin> h_timestamp ` set [h1, h2]" by (simp add: h1_def h2_def h3_def)
  moreover have "h1 \<notin> set [h2, h3]" "h_priority h3 = 6" "h_timestamp h3 = 3000" by (simp_all add: h1_def h2_def h3_def)
  ultimately show ?thesis using enqueue_keeps_cache [of demo_hub "[h1, h2]" h3 demo_text "[h2, h3]"] by auto
qed

theorem enqueue_refines_spec_witness:
  "\<exists>rc err s'. enqueue_offline_message (Some ''{}'') 6 3000 demo_hub = Some (rc, err, s') \<and> rc = SUCCESS \<and> g_list s' = Some [h2, h3]"
proof -
  have "cache_wf demo_hub [h1, h2]" "header_ok h3" by (simp_all add: demo_wf demo_headers)
  moreover have "0 < g_cacheCapacity demo_hub" "fs_open_ok demo_hub (cache_path demo_hub h3)" "0 < fs_room demo_hub"
      "spec_enqueue (nat (g_cacheCapacity demo_hub)) h3 [h1, h2] = Some [h2, h3]"
    using demo_spec by (simp_all add: demo_hub_def)
  moreover have "h_priority h3 = 6" "h_timestamp h3 = 3000" by (simp_all add: h3_def)
  ultimately show ?thesis using enqueue_refines_spec [of demo_hub "[h1, h2]" h3 "''{}''"] by auto
qed

theorem enqueue_displaces_lower_witness:
  "h_priority h1 \<le> h_priority h3 \<and> mset [h2, h3] + {#h1#} = mset [h1, h2] + {#h3#}"
proof -
  have n: "0 < g_cacheCapacity demo_hub" "int (length [h1, h2]) \<le> g_cacheCapacity demo_hub" "''{}'' \<noteq> []"
      "fs_open_ok demo_hub (cache_path demo_hub h3)" "0 < fs_room demo_hub" "nat (g_cacheCapacity demo_hub) = 2"
    by (simp_all add: demo_hub_def)
  note o = enqueue_outcome [OF demo_wf(1) n(1) demo_headers(3) n(3,4,5), unfolded n(6) demo_spec option.case Let_def]
  have "h1 \<notin> set [h2, h3]" "h1 \<in> set [h1, h2]" by (simp_all add: h1_def h2_def h3_def)
  then show ?thesis using enqueue_displaces_lower [OF demo_wf(1) n(1,2) demo_headers(3) n(3,4,5) o, of "[h2, h3]" h1] by simp
qed

theorem capacity_not_positive_hangs_witness: "evict_loop (demo_hub\<lparr>g_cacheCapacity := 0\<rparr>) = None"
  using capacity_not_positive_hangs [of "demo_hub\<lparr>g_cacheCapacity := 0\<rparr>"] by simp

theorem enqueue_without_file_witness:
  "\<exists>s'. enqueue_offline_message (Some demo_text) 6 3000 (demo_hub\<lparr>fs_open_ok := (\<lambda>_. False), g_cacheCapacity := 3\<rparr>) =
      Some (SUCCESS, '''', s') \<and> g_list s' = Some [h1, h2, h3] \<and> fs_files s' (cache_path s' h3) = None"
proof -
  let ?s = "demo_hub\<lparr>fs_open_ok := (\<lambda>_. False), g_cacheCapacity := 3\<rparr>"
  have "cache_path ?s h3 = ''/c/3000-6.cache''" using demo_paths(3) by (simp add: cache_path_def)
  then have "fs_files ?s (cache_path ?s h3) = None" by (simp add: demo_hub_def)
  moreover have "cache_wf ?s [h1, h2]" using demo_wf(1) by (simp add: cache_wf_def)
  moreover have "h_priority h3 = 6" "h_timestamp h3 = 3000" by (simp_all add: h3_def)
  ultimately show ?thesis using enqueue_without_file [of ?s "[h1, h2]" h3 demo_text] demo_headers demo_text_val by simp
qed

text \<open>Producers, a sender and a connected broker.\<close>

lemma online_paths: "cache_path online_hub h = cache_path demo_hub h"
  by (simp add: cache_path_def online_hub_def)

lemma online_wf: "cache_wf online_hub [h1, h2]"
  using demo_wf(1) by (simp add: cache_wf_def online_hub_def)

lemma demo_request_ok: "request_ok demo_json"
  by (simp add: request_ok_def demo_json_def json_object_object_get_ex_def)

lemma demo_accepted: "accepted mac demo_json s = (''hi'', demo_json, s)"
  by (simp add: accepted_def demo_json_def json_object_object_get_ex_def json_object_get_string_def)

lemma demo_c_str: "c_str demo_text = demo_text"
  using demo_text_val(3) by (simp add: c_str_def takeWhile_eq_all_conv) (metis (full_types))

lemma online_sendable: "sendable json_tokener_parse online_hub h1" "sendable json_tokener_parse online_hub h2"
proof -
  have "fs_files online_hub (cache_path online_hub h1) = Some demo_text" "fs_files online_hub (cache_path online_hub h2) = Some demo_text"
    unfolding online_paths demo_paths by (simp_all add: online_hub_def demo_hub_def)
  then have "stored json_tokener_parse online_hub h1 demo_json" "stored json_tokener_parse online_hub h2 demo_json"
    using demo_text_val(1) by (simp_all add: stored_def demo_c_str demo_tok_text)
  then show "sendable json_tokener_parse online_hub h1" "sendable json_tokener_parse online_hub h2"
    using demo_request_ok unfolding sendable_def wire_payload_def
    by (auto intro!: exI [of _ demo_json] simp: demo_accepted)
qed

theorem sender_drains_in_order_witness:
  "\<exists>s' cs. send_messages_thread_fun demo_env json_tokener_parse online_hub = Some s' \<and> g_list s' = Some [] \<and>
    list_all2 (publishes demo_env json_tokener_parse online_hub) [h1, h2] cs \<and> paho_trace s' = cs"
proof -
  have "\<And>tr t p q. answer demo_env tr (MQTTAsync_sendMessage t p q) = 0" by (simp add: demo_env_def)
  moreover have "client online_hub" "connected online_hub" "\<not> g_isAsyncSending online_hub" "paho_trace online_hub = []"
    by (simp_all add: online_hub_def demo_hub_def)
  moreover have "\<forall>h \<in> set [h1, h2]. sendable json_tokener_parse online_hub h" using online_sendable by simp
  ultimately show ?thesis
    using sender_drains_in_order [OF online_wf _ demo_env_ok(1), of json_tokener_parse] by auto
qed


theorem restart_recovers_queue_witness:
  "load_offline_messages (Some [''2000-8.cache'', ''1000-5.cache'']) (demo_hub\<lparr>g_list := None\<rparr>) = Some (2, demo_hub)"
proof -
  let ?s = "demo_hub\<lparr>g_list := None\<rparr>"
  have "cache_path ?s h = cache_path demo_hub h" for h by (simp add: cache_path_def)
  then have "\<forall>h \<in> set [h2, h1]. header_ok h \<and> fs_files ?s (cache_path ?s h) \<noteq> None"
    using demo_headers by (simp add: demo_paths) (simp add: demo_hub_def)
  moreover have "g_cacheRootPath ?s \<noteq> []" "g_list ?s = None" by (simp_all add: demo_hub_def)
  moreover have "map reloaded (sort_key h_timestamp [h2, h1]) = [h1, h2]"
    by (simp add: h1_def h2_def reloaded_def)
  ultimately have "load_offline_messages (Some (map header_name [h2, h1])) ?s = Some (2, ?s\<lparr>g_list := Some [h1, h2]\<rparr>)"
    using restart_recovers_queue [of ?s "[h2, h1]"] by simp
  moreover have "?s\<lparr>g_list := Some [h1, h2]\<rparr> = demo_hub" unfolding demo_hub_def by simp
  ultimately show ?thesis by (simp only: list.map demo_names)
qed

theorem queue_bounded_and_one_sender_witness:
  "\<exists>s'. (cache_step demo_env json_tokener_parse)\<^sup>*\<^sup>* (online_hub, [], []) (s', [Looping], []) \<and>
    list_len s' \<le> g_cacheCapacity online_hub \<and> g_isAsyncSending s'"
proof -
  let ?s = "online_hub\<lparr>g_isAsyncSending := True\<rparr>"
  have sp: "asyn_send_offline_messages 0 online_hub = (SUCCESS, True)"
    by (simp add: asyn_send_offline_messages_def offline_messages_count_def list_len_def) (simp add: online_hub_def demo_hub_def)
  have a: "cache_step demo_env json_tokener_parse (online_hub, [], []) (online_hub, [Starting], [])"
    using cache_step.spawn [of 0 online_hub SUCCESS demo_env json_tokener_parse "[]" "[]"] sp by simp
  have "send_begin online_hub = (True, ?s)" by (simp add: send_begin_def online_hub_def demo_hub_def)
  then have b: "cache_step demo_env json_tokener_parse (online_hub, [Starting], []) (?s, [Looping], [])"
    using cache_step.begin_send [of 0 "[Starting]"] by simp
  have r: "(cache_step demo_env json_tokener_parse)\<^sup>*\<^sup>* (online_hub, [], []) (?s, [Looping], [])"
    using a b by (meson converse_rtranclp_into_rtranclp r_into_rtranclp)
  have "list_len online_hub \<le> g_cacheCapacity online_hub" "\<not> g_isAsyncSending online_hub"
    by (simp_all add: list_len_def online_hub_def demo_hub_def)
  then show ?thesis using queue_bounded_and_one_sender [OF r] r by auto
qed

text \<open>Requests.\<close>

lemma object_tok_text: "json_tokener_parse (json_object_to_json_string object_json) = Some object_json"
proof (rule read_back)
  show "int (length (json_object_to_json_string object_json)) \<le> INT_MAX" by code_simp
qed (simp_all add: object_json_def is_cstr_def is_int64_def int_limits)

theorem payload_only_gains_witness:
  "\<exists>c p s'. parse_mqtt_send_request_body json_tokener_parse (json_object_to_json_string object_json) (Some ''00:11'') demo_hub =
      (SUCCESS, c, Some (json_object_object_add object_json ''payload'' p), '''', s') \<and>
    payload c = Some (json_object_to_json_string p) \<and> json_object_object_get_ex p ''a'' = Some (JInt 1)"
proof -
  have "request_ok object_json" "json_object_object_get_ex object_json ''payload'' = Some (JObject [(''a'', JInt 1)])"
    by (simp_all add: object_json_def request_ok_def json_object_object_get_ex_def)
  moreover have "map_of [(''a'', JInt 1)] ''a'' = Some (JInt 1)" by simp
  ultimately show ?thesis by (rule payload_only_gains [of json_tokener_parse, OF object_tok_text])
qed

theorem cached_message_unchanged_witness:
  "\<exists>c'. parse_mqtt_send_request_body json_tokener_parse demo_text None online_hub = (SUCCESS, c', Some demo_json, '''', online_hub) \<and>
    topic c' = Some ''t'' \<and> payload c' = Some ''hi''"
proof -
  have tp: "the_topic demo_json = ''t''"
    by (simp add: the_topic_def demo_json_def json_object_object_get_ex_def json_object_get_string_def)
  obtain c where c: "parse_mqtt_send_request_body json_tokener_parse demo_text (Some ''m'') demo_hub = (SUCCESS, c, Some demo_json, '''', demo_hub)"
      "topic c = Some ''t''" "payload c = Some ''hi''"
    using parse_result [where tok = json_tokener_parse and body = demo_text, OF demo_tok_text demo_request_ok demo_accepted] tp by fastforce
  moreover have "is_int64 (time_now demo_hub)" by (simp add: time_now_def NANOSECONDS_PER_SECOND_def demo_hub_def is_int64_def int_limits)
  moreover have "int (length (json_object_to_json_string demo_json)) \<le> INT_MAX"
    using demo_text_val(2) by (simp add: demo_text_def int_limits)
  ultimately show ?thesis using cached_message_unchanged [OF c(1), of online_hub] unfolding demo_text_def by auto
qed

theorem json_print_parse_witness:
  "json_tokener_parse (json_object_to_json_string (JArray [JInt (- 5), JDouble ''1.5e-7'', JString [CHR 0x22, NUL]])) =
    Some (JArray [JInt (- 5), JDouble ''1.5e-7'', JString [CHR 0x22, NUL]])"
proof (rule json_print_parse)
  show "json_ok (JArray [JInt (- 5), JDouble ''1.5e-7'', JString [CHR 0x22, NUL]])" by code_simp
  show "int (length (json_object_to_json_string (JArray [JInt (- 5), JDouble ''1.5e-7'', JString [CHR 0x22, NUL]]))) \<le> INT_MAX"
    by code_simp
qed simp_all

theorem json_parse_print_parse_witness:
  "json_tokener_parse '' [ 1 , -0 ] '' = Some (JArray [JInt 1, JInt 0]) \<and>
   json_tokener_parse (json_object_to_json_string (JArray [JInt 1, JInt 0])) = Some (JArray [JInt 1, JInt 0])"
proof
  show p: "json_tokener_parse '' [ 1 , -0 ] '' = Some (JArray [JInt 1, JInt 0])" by code_simp
  have "int (length (json_object_to_json_string (JArray [JInt 1, JInt 0]))) \<le> INT_MAX" by code_simp
  then show "json_tokener_parse (json_object_to_json_string (JArray [JInt 1, JInt 0])) = Some (JArray [JInt 1, JInt 0])"
    by (rule json_parse_print_parse [OF p])
qed



text \<open>HTTP requests.\<close>

lemma demo_parsed: "parsed json_tokener_parse demo_request s demo_json ''hi'' demo_json \<longleftrightarrow> g_listenServer s \<noteq> []"
  by (simp add: parsed_def good_request_def demo_request_def demo_tok_text demo_request_ok demo_accepted)

lemma demo_fields: "the_topic demo_json = ''t''" "the_qos demo_json = 0" "the_priority demo_json = 6"
  by (simp_all add: the_topic_def the_qos_def the_priority_def demo_json_def json_object_object_get_ex_def
      json_object_get_string_def json_object_get_int_def int_limits)

theorem http_send_published_witness:
  "\<exists>s' p. http_callback_mqtt_send demo_env json_tokener_parse demo_request True online_hub = Some s' \<and>
    paho_trace s' = [MQTTAsync_sendMessage ''t'' p 0] \<and> last_content s' = status_ok"
proof -
  have "parsed json_tokener_parse demo_request online_hub demo_json ''hi'' demo_json"
    by (simp add: demo_parsed online_hub_def demo_hub_def)
  moreover have "MQTTClientWrapper_isConnected online_hub" "paho_trace online_hub = []"
    by (simp_all add: MQTTClientWrapper_isConnected_def online_hub_def demo_hub_def)
  moreover have "\<forall>c. answer demo_env (paho_trace online_hub) c = 0" by (simp add: demo_env_def)
  ultimately show ?thesis
    using http_send_published [OF _ _ demo_env_ok(1), of json_tokener_parse demo_request online_hub demo_json "''hi''" demo_json True]
    by (simp add: demo_fields clamp_qos_def QOS0_def MAXQOS_def) blast
qed

theorem http_send_discarded_witness:
  "\<exists>s'. http_callback_mqtt_send_discard_failed demo_env json_tokener_parse demo_request demo_hub = Some s' \<and>
    g_online_discarded_msg_count s' = wrap32 1 \<and> paho_trace s' = [] \<and> length (http_out s') = 1"
proof -
  have "parsed json_tokener_parse demo_request demo_hub demo_json ''hi'' demo_json" by (simp add: demo_parsed demo_hub_def)
  moreover have "\<not> MQTTClientWrapper_isConnected demo_hub" "paho_trace demo_hub = []" "http_out demo_hub = []"
      "g_online_discarded_msg_count demo_hub = 0"
    by (simp_all add: MQTTClientWrapper_isConnected_def demo_hub_def)
  ultimately show ?thesis using http_send_discarded [of json_tokener_parse demo_request demo_hub demo_json "''hi''" demo_json demo_env] by auto
qed


lemma empty_refused: "json_tokener_parse [] = None"
  by code_simp

theorem http_request_refused_witness:
  "\<exists>m. http_callback_mqtt_send demo_env json_tokener_parse (demo_request\<lparr>body := ''''\<rparr>) True online_hub =
    Some (http_send_response (status_err m) online_hub)"
proof -
  have "g_listenServer online_hub \<noteq> []" by (simp add: online_hub_def demo_hub_def)
  moreover have "\<forall>j. json_tokener_parse (body (demo_request\<lparr>body := ''''\<rparr>)) = Some j \<longrightarrow> \<not> request_ok j"
    using empty_refused by simp
  ultimately show ?thesis by (rule http_request_refused)
qed

text \<open>The thread pool: one task added, a graceful shutdown, the task run, the worker gone.\<close>

lemma pool0_created: "threadpool_create True 1 1 2 = Some pool0"
  by (simp add: threadpool_create_def MAX_THREADS_def MAX_QUEUE_def pool0_def numeral_2_eq_2)

lemma pool_added: "pool_step\<^sup>*\<^sup>* (pool_start pool0) (sys_with pool1 Waiting [7] [] [])"
proof -
  have "threadpool_add (Some (pool (pool_start pool0))) (Some 7) = Some (0, Some pool1)"
    by (simp add: threadpool_add_def pool_start_def pool0_def pool1_def)
  from pool_step.add [OF this] show ?thesis
    by (simp add: pool_start_def sys_with_def pool0_def r_into_rtranclp)
qed

lemma pool_finished: "pool_step\<^sup>*\<^sup>* (pool_start pool0) (sys_with pool4 Exited [7] [7] [7])"
proof -
  have "threadpool_destroy True (Some (pool (sys_with pool1 Waiting [7] [] []))) = Some (0, Some pool2)"
    by (simp add: threadpool_destroy_def sys_with_def pool0_def pool1_def pool2_def)
  from pool_step.destroy [OF this] have 2: "pool_step (sys_with pool1 Waiting [7] [] []) (sys_with pool2 Waiting [7] [] [])"
    by (simp add: sys_with_def)
  have "threadpool_grab (pool (sys_with pool2 Waiting [7] [] [])) = Some (Some 7, pool3)"
    by (simp add: threadpool_grab_def sys_with_def pool0_def pool1_def pool2_def pool3_def)
  from pool_step.grab [OF _ _ this, of 0] have 3: "pool_step (sys_with pool2 Waiting [7] [] []) (sys_with pool3 (Working 7) [7] [7] [])"
    by (simp add: sys_with_def)
  have 4: "pool_step (sys_with pool3 (Working 7) [7] [7] []) (sys_with pool3 Waiting [7] [7] [7])"
    using pool_step.work [of 0 "sys_with pool3 (Working 7) [7] [7] []" 7] by (simp add: sys_with_def)
  have "threadpool_grab (pool (sys_with pool3 Waiting [7] [7] [7])) = Some (None, pool4)"
    by (simp add: threadpool_grab_def sys_with_def pool0_def pool1_def pool2_def pool3_def pool4_def)
  from pool_step.leave [OF _ _ this, of 0] have 5: "pool_step (sys_with pool3 Waiting [7] [7] [7]) (sys_with pool4 Exited [7] [7] [7])"
    by (simp add: sys_with_def)
  show ?thesis using pool_added 2 3 4 5 by (meson rtranclp.rtrancl_into_rtrancl)
qed

theorem pool_runs_in_order_witness:
  "grabbed_tasks (sys_with pool1 Waiting [7] [] []) @ ring_contents pool1 = [7] \<and> count pool1 \<le> queue_size pool1"
  using pool_runs_in_order [OF pool0_created pool_added] by (simp add: sys_with_def)

theorem graceful_shutdown_completes_witness:
  "grabbed_tasks (sys_with pool4 Exited [7] [7] [7]) = [7] \<and> mset (finished_tasks (sys_with pool4 Exited [7] [7] [7])) = {#7#}"
  using graceful_shutdown_completes [OF pool0_created pool_finished]
  by (simp add: sys_with_def pool4_def pool3_def pool2_def)

text \<open>Commands.\<close>

lemma demo_sn: "fst (get_device_sn demo_hub) = ''SN1''"
  by (simp add: get_device_sn_def demo_hub_def)


theorem foreign_topic_ignored_witness:
  "\<exists>s'. msg_received_handler demo_pipe_env ''hub/cmd/SN2'' [1] demo_hub = Some (False, s') \<and> g_threadpool s' = Some demo_pool"
proof -
  have "strrchr ''hub/cmd/SN2'' (CHR ''/'') = Some (CHR ''/'' # ''SN2'')" by simp
  moreover have "\<not> command_tail demo_hub ''SN2''"
    unfolding command_tail_def demo_sn by (simp add: string_equals_def strcase_eq_def chr_lower_def chr_code_def)
  moreover have "g_threadpool demo_hub = Some demo_pool" by (simp add: demo_hub_def)
  ultimately show ?thesis using foreign_topic_ignored [of "''hub/cmd/SN2''" "''SN2''" demo_hub demo_pipe_env "[1]"] by simp
qed

theorem long_topic_overruns_witness:
  "msg_received_handler demo_pipe_env (CAT_TOPIC MAIN_TOPIC ''cmd'' @ ''/'' @ replicate 64 (CHR ''A'')) [1] demo_hub = None"
  using long_topic_overruns [of "replicate 64 (CHR ''A'')"] by simp

text \<open>Ciphers, encodings and texts.\<close>

theorem aes_payload_round_trip_witness:
  "\<exists>payload buf. mqtt_payload_encrypt aes_desc (\<lambda>n i. i) 5 ([1, 2, 3] @ 0 # replicate 15 0) (length [1, 2, 3 :: byte]) = Some (SUCCESS, Some payload) \<and>
    length payload = 44 \<and> mqtt_payload_decrypt aes_desc payload (length payload) = Some (SUCCESS, Some (buf, length [1, 2, 3 :: byte])) \<and>
    take (length [1, 2, 3 :: byte]) buf = [1, 2, 3]"
  using aes_payload_round_trip [of "[1, 2, 3]" "replicate 15 0" "\<lambda>n i. i" 5] by simp

theorem aes_is_fips_197_witness:
  "\<exists>skey. rijndael_setup (replicate 32 7) 0 = Inr skey \<and>
     rijndael_ecb_encrypt skey (replicate 16 1) = Inr (fips_aes (replicate 32 7) (replicate 16 1)) \<and>
     rijndael_ecb_decrypt skey (fips_aes (replicate 32 7) (replicate 16 1)) = Inr (replicate 16 1)"
proof -
  obtain skey where k: "rijndael_setup (replicate 32 7) 0 = Inr skey" by (simp add: rijndael_setup_def Let_def)
  show ?thesis using k aes_is_fips_197 [OF k, of "replicate 16 1"] by auto
qed

theorem payload_block_multiple_overrun_witness:
  "\<exists>payload. mqtt_payload_encrypt aes_desc (\<lambda>n i. i) 5 (replicate 16 1 @ 0 # []) (length (replicate 16 (1 :: byte))) = Some (SUCCESS, Some payload) \<and>
    mqtt_payload_decrypt aes_desc payload (length payload) = None"
  using payload_block_multiple_overrun [OF aes_desc_ok, of "replicate 16 1" "\<lambda>n i. i" 5 "[]"] by simp

theorem payload_encrypt_reads_past_string_witness:
  "mqtt_payload_encrypt aes_desc (\<lambda>n i. i) 5 ([1, 2, 3] @ [0]) (length [1, 2, 3 :: byte]) = None"
  using payload_encrypt_reads_past_string [OF aes_desc_ok, of "[1, 2, 3]" "\<lambda>n i. i" 5] by simp

theorem base64_round_trip_witness:
  "\<exists>text. base64_encrypt [1, 2] = Some text \<and> base64_decrypt text [0, 0] = Some (BASE64_OK, [1, 2], length [1, 2 :: byte])"
  using base64_round_trip [of "[1, 2]" "[0, 0]"] by (simp add: ULONG_MOD_def)

theorem base64_encrypt_fits_witness:
  "\<exists>text. base64_encrypt [1, 2] = Some text \<and> Suc (length text) \<le> calc_base64_encrypted_size (length [1, 2 :: byte])"
  using base64_encrypt_fits [of "[1, 2]"] by (simp add: ULONG_MOD_def)


theorem parse_line_unsafe_witness: "parse_line ''  =x'' (length ''  =x'') = None"
proof -
  have "\<exists>n rest. ''  =x'' = replicate n (CHR '' '') @ CHR ''='' # rest"
    by (intro exI [of _ 2] exI [of _ "''x''"]) (simp add: numeral_2_eq_2)
  then show ?thesis using parse_line_unsafe [of "''  =x''"] by simp
qed

theorem string_split_join_witness: "string_split ''a,bc'' [CHR '',''] = Some [''a'', ''bc'']"
  using string_split_join [of "[''a'', ''bc'']" "CHR '',''"] by (simp add: token_ok_def)

theorem string_json_friendly_overrun_witness: "string_json_friendly 2 [CHR 0x22] = None"
  using string_json_friendly_overrun [of 2 "[CHR 0x22]"] by (simp add: find_json_replace_char_def g_jsonReplaceChars_def)

text \<open>The application.\<close>

lemma demo_app_fields:
  "g_totalSeconds demo_app = 0" "connected demo_app = False" "hasEverConnected demo_app = False" "g_deviceSN demo_app = ''SN1''"
  "time_now demo_app = 0" "g_cacheCapacity demo_app = 2" "list_len demo_app = 2" "\<not> g_isAsyncSending demo_app"
  "senders_started demo_app = 0" "paho_trace demo_app = []" "gHomePath demo_app = ''/h''"
  by (simp_all add: demo_app_def http_state.defs demo_hub_def time_now_def NANOSECONDS_PER_SECOND_def list_len_def)

theorem schedule_tick_witness:
  "sig_alarm_handler demo_env demo_app = Option.bind (save_msg_count_to_file (demo_app\<lparr>g_totalSeconds := 10\<rparr>))
     (\<lambda>s2. Some (s2\<lparr>g_totalSeconds := 10\<rparr>))"
proof -
  have "g_totalSeconds demo_app = 10 * int (0 mod reset_ticks)" "10 = 10 * int (0 mod reset_ticks) + 10"
      "Suc 0 mod reset_ticks = 1"
    by (simp_all add: demo_app_fields reset_ticks_def)
  then show ?thesis using schedule_tick [of demo_app 0 10 demo_env] by simp
qed


theorem connected_callback_reports_witness:
  "\<exists>s' p q. on_mqtt_client_connected demo_env 0 demo_app = Some s' \<and>
    paho_trace s' = [MQTTAsync_sendMessage ''hub/online'' p 2, MQTTAsync_sendMessage ''hub/msgcount'' q 2] \<and>
    counter_file_holds s' (0, 0, 0, 0) \<and> senders_started s' = 1"
proof -
  have "counter_env demo_app"
    by (simp add: counter_env_def demo_app_fields app_data_dir_def APP_DATA_PATH_def counter_file_def path_exists_def os_exists_def)
      (simp add: demo_app_def http_state.defs demo_hub_def)
  moreover have "counter_file_holds demo_app (2, 0, 0, 0)"
    by (simp add: counter_file_holds_def counter_file_def app_data_dir_def APP_DATA_PATH_def demo_app_fields)
      (simp add: demo_app_def http_state.defs)
  moreover have "\<forall>tr c. answer demo_env tr c = 0" by (simp add: demo_env_def)
  moreover have "counts_within INT_MAX (2, 0, 0, 0)" "is_int32 2" by (simp_all add: is_int32_def int_limits)
  ultimately show ?thesis
    using connected_callback_reports [OF demo_env_ok(1), of demo_app "(2, 0, 0, 0)" 0] demo_app_fields by simp
qed

section \<open>MQTT packets\<close>

theorem publish_round_trip_witness:
  "MQTTPacket_Factory 0 (MQTTPacket_send_publish demo_publish False 1 True @ [0xC0]) =
    Some (0, Some (Publish_packet (demo_publish\<lparr>pub_header :=
      \<lparr>hdr_type = 3, hdr_dup = False, hdr_qos = 1, hdr_retain = True\<rparr>\<rparr>)), [0xC0])"
  using publish_round_trip [of demo_publish 1 0 False True "[0xC0]"] by (simp add: demo_publish_def)

theorem remaining_length_round_trip_witness:
  "MQTTPacket_decode (MQTTPacket_encode 321 @ [7]) = (0, 321, [7]) \<and> length (MQTTPacket_encode 321) \<le> 4"
  using remaining_length_round_trip [of 321 "[7]"] by simp

theorem connect_fills_buffer_witness:
  "\<exists>body. MQTTPacket_send_connect demo_client 4 = Some (Some (MQTTPacket_send (plain_header CONNECT) body)) \<and>
     body = writeUTF (ascii ''MQTT'') @ writeChar 4 @ writeChar (connect_flags demo_client) @ writeInt 60 @
       writeUTF [0x68] @ writeUTF [0x75]"
  using connect_fills_buffer [of 4 demo_client] by (simp add: demo_client_def opt_bytes_def)

theorem subscribe_fills_buffer_witness:
  "MQTTPacket_send_subscribe [[0x61]] [2] 7 False =
    Some (MQTTPacket_send \<lparr>hdr_type = 8, hdr_dup = False, hdr_qos = 1, hdr_retain = False\<rparr>
      (writeInt 7 @ writeUTF [0x61] @ writeChar 2))"
  using subscribe_fills_buffer [of "[2]" "[[0x61]]" 7 False] by simp

theorem short_ack_overread_witness:
  "MQTTPacket_Factory 0 (MQTTPacket_send (plain_header PUBACK) [0] @ []) = None"
  using short_ack_overread [of "[0]" PUBACK 0 "[]"] by simp

end
