(* ===== verification/MqttProtocol.thy ===== *)
theory MqttProtocol
  imports MqttPacket
begin

text \<open>
  The message delivery of the MQTT client library,
  \<open>sharelibs/mqtt-c/source/MQTTProtocolClient.c\<close> with the parts of
  \<open>MQTTProtocolOut.c\<close> and \<open>MQTTAsync.c\<close> that call it: publishing, the
  acknowledgement handlers, retries, keep-alive, message ids. The state is that of the one
  client the hub has. Stored publications live in an explicit store of reference-counted
  blocks; \<open>None\<close> as a result is a use of a block that is not allocated. The message
  lists are the contents of the linked lists, searched by message id. The client has no
  persistence (the hub passes \<open>MQTTCLIENT_PERSISTENCE_NONE\<close>).
\<close>

section \<open>Definitions\<close>

definition MAX_MSG_ID :: nat where "MAX_MSG_ID = 65535"

record Publications =
  refcount :: nat
  p_topic :: "byte list"
  p_payload :: "byte list"

text \<open>\<open>nextMessageType\<close> is left uninitialised for QoS 1: \<open>None\<close>.\<close>

record Messages =
  m_qos :: nat
  m_retain :: bool
  m_msgid :: nat
  m_publish :: nat
  m_lastTouch :: int
  m_next :: "msgTypes option"

text \<open>A message for the application, as \<open>Protocol_processPublication\<close> hands it over.\<close>

record MQTTAsync_message =
  mm_topic :: "byte list"
  mm_payload :: "byte list"
  mm_qos :: nat
  mm_retained :: bool
  mm_dup :: bool
  mm_msgid :: nat

record protocol =
  msgID :: nat
  outboundMsgs :: "Messages list"
  inboundMsgs :: "Messages list"
  publications :: "nat \<rightharpoonup> Publications"
  next_block :: nat
  pending_writes :: "nat list"
  net_connected :: bool
  good :: bool
  ping_outstanding :: bool
  keepAliveInterval :: int
  retryInterval :: int
  lastSent :: int
  lastReceived :: int
  msgs_sent :: nat
  msgs_received :: nat
  close_requests :: nat
  cleansession :: bool
  connect_state :: int
  socket_open :: bool
  has_ma :: bool
  ma_calls :: nat
  messageQueue :: "MQTTAsync_message list"
  arrived :: "MQTTAsync_message list"
  wire :: "byte list list"

text \<open>
  The surroundings: the result of the next write and whether \<open>Socket_noPendingWrites\<close> holds
  for the socket of the client, both by the number of packets written so far, whether it holds
  for the socket of a stored QoS 0 publication; what the callback \<open>messageArrived\<close>
  returns at its next call; the clock; whether \<open>Heap_findItem\<close> knows the topic, which is
  then not copied.
\<close>

record net_env =
  write_rc :: "nat \<Rightarrow> int"
  noPendingWrites :: "nat \<Rightarrow> bool"
  write_done :: "nat \<Rightarrow> bool"
  ma_rc :: "nat \<Rightarrow> bool"
  clock_now :: int
  on_heap :: bool

definition send :: "net_env \<Rightarrow> byte list \<Rightarrow> protocol \<Rightarrow> int \<times> protocol" where
  "send e pkt s =
     (let rc = write_rc e (length (wire s))
      in (rc, s\<lparr>wire := wire s @ [pkt], lastSent := (if rc = TCPSOCKET_COMPLETE then clock_now e else lastSent s)\<rparr>))"

definition no_pending :: "net_env \<Rightarrow> protocol \<Rightarrow> bool" where
  "no_pending e s = noPendingWrites e (length (wire s))"

subsection \<open>Message ids\<close>

definition messageIDCompare :: "nat \<Rightarrow> Messages \<Rightarrow> bool" where
  "messageIDCompare i m \<longleftrightarrow> m_msgid m = i"

definition find_msg :: "nat \<Rightarrow> Messages list \<Rightarrow> Messages option" where
  "find_msg i ms = find (messageIDCompare i) ms"

definition next_id :: "nat \<Rightarrow> nat" where
  "next_id msgid = (if msgid = MAX_MSG_ID then 1 else msgid + 1)"

text \<open>The search need not end: \<open>None\<close> is a loop that never returns.\<close>

partial_function (option) assign_loop :: "(nat \<Rightarrow> bool) \<Rightarrow> nat \<Rightarrow> nat \<Rightarrow> nat option" where
  "assign_loop used start_msgid msgid =
     (if used msgid
      then if next_id msgid = start_msgid then Some 0 else assign_loop used start_msgid (next_id msgid)
      else Some msgid)"

definition MQTTProtocol_assignMsgId :: "protocol \<Rightarrow> (nat \<times> protocol) option" where
  "MQTTProtocol_assignMsgId s =
     (case assign_loop (\<lambda>i. find_msg i (outboundMsgs s) \<noteq> None) (msgID s) (next_id (msgID s)) of
        None \<Rightarrow> None
      | Some msgid \<Rightarrow> Some (msgid, if msgid \<noteq> 0 then s\<lparr>msgID := msgid\<rparr> else s))"

subsection \<open>Stored publications\<close>

definition MQTTProtocol_storePublication :: "net_env \<Rightarrow> Publish \<Rightarrow> protocol \<Rightarrow> nat \<times> protocol" where
  "MQTTProtocol_storePublication e publish s =
     (let p = \<lparr>refcount = 1, p_topic = (if on_heap e then pub_topic publish else c_bytes (pub_topic publish)),
               p_payload = pub_payload publish\<rparr>
      in (next_block s, s\<lparr>publications := (publications s)(next_block s \<mapsto> p), next_block := Suc (next_block s)\<rparr>))"

definition MQTTProtocol_removePublication :: "nat \<Rightarrow> protocol \<Rightarrow> protocol option" where
  "MQTTProtocol_removePublication a s =
     (case publications s a of
        None \<Rightarrow> None
      | Some p \<Rightarrow>
          Some (if refcount p - 1 = 0 then s\<lparr>publications := (publications s)(a := None)\<rparr>
                else s\<lparr>publications := (publications s)(a \<mapsto> p\<lparr>refcount := refcount p - 1\<rparr>)\<rparr>))"

definition MQTTProtocol_storeQoS0 :: "net_env \<Rightarrow> Publish \<Rightarrow> protocol \<Rightarrow> protocol" where
  "MQTTProtocol_storeQoS0 e publish s =
     (case MQTTProtocol_storePublication e publish s of
        (a, s1) \<Rightarrow> s1\<lparr>pending_writes := pending_writes s1 @ [a]\<rparr>)"

subsection \<open>Publishing\<close>

definition MQTTProtocol_startPublishCommon :: "net_env \<Rightarrow> Publish \<Rightarrow> nat \<Rightarrow> bool \<Rightarrow> protocol \<Rightarrow> int \<times> protocol" where
  "MQTTProtocol_startPublishCommon e publish qos retained s =
     (case send e (MQTTPacket_send_publish publish False qos retained) s of
        (rc, s1) \<Rightarrow> (rc, if qos = 0 \<and> rc = TCPSOCKET_INTERRUPTED then MQTTProtocol_storeQoS0 e publish s1 else s1))"

definition MQTTProtocol_createMessage ::
    "net_env \<Rightarrow> Publish \<Rightarrow> Messages option \<Rightarrow> nat \<Rightarrow> bool \<Rightarrow> protocol \<Rightarrow> (Messages \<times> protocol) option" where
  "MQTTProtocol_createMessage e publish mm qos retained s = do {
     (a, s1) \<leftarrow>
       (case mm of
          None \<Rightarrow> Some (MQTTProtocol_storePublication e publish s)
        | Some m \<Rightarrow> map_option (\<lambda>p. (m_publish m, s\<lparr>publications := (publications s)(m_publish m \<mapsto> p\<lparr>refcount := refcount p + 1\<rparr>)\<rparr>))
                      (publications s (m_publish m)));
     Some (\<lparr>m_qos = qos, m_retain = retained, m_msgid = pub_msgId publish, m_publish = a, m_lastTouch = clock_now e,
            m_next = (if qos = 2 then Some PUBREC else None)\<rparr>, s1) }"

definition MQTTProtocol_startPublish ::
    "net_env \<Rightarrow> Publish \<Rightarrow> nat \<Rightarrow> bool \<Rightarrow> Messages option \<Rightarrow> protocol \<Rightarrow> (int \<times> protocol) option" where
  "MQTTProtocol_startPublish e publish qos retained mm s =
     (if qos > 0 then do {
        (m, s1) \<leftarrow> MQTTProtocol_createMessage e publish mm qos retained s;
        let s2 = s1\<lparr>outboundMsgs := outboundMsgs s1 @ [m]\<rparr>;
        p \<leftarrow> publications s2 (m_publish m);
        Some (MQTTProtocol_startPublishCommon e (publish\<lparr>pub_topic := p_topic p, pub_payload := p_payload p\<rparr>) qos retained s2) }
      else Some (MQTTProtocol_startPublishCommon e publish qos retained s))"

subsection \<open>Incoming packets\<close>

definition MQTTAsync_deliverMessage :: "net_env \<Rightarrow> MQTTAsync_message \<Rightarrow> protocol \<Rightarrow> bool \<times> protocol" where
  "MQTTAsync_deliverMessage e mm s =
     (ma_rc e (ma_calls s),
      s\<lparr>ma_calls := ma_calls s + 1, arrived := (if ma_rc e (ma_calls s) then arrived s @ [mm] else arrived s)\<rparr>)"

definition Protocol_processPublication :: "net_env \<Rightarrow> Publish \<Rightarrow> protocol \<Rightarrow> protocol" where
  "Protocol_processPublication e publish s =
     (let mm = \<lparr>mm_topic = pub_topic publish, mm_payload = pub_payload publish,
                mm_qos = hdr_qos (pub_header publish), mm_retained = hdr_retain (pub_header publish),
                mm_dup = (if hdr_qos (pub_header publish) = 2 then False else hdr_dup (pub_header publish)),
                mm_msgid = pub_msgId publish\<rparr>;
          (rc, s1) = (if messageQueue s = [] \<and> net_connected s \<and> has_ma s then MQTTAsync_deliverMessage e mm s else (False, s))
      in if rc then s1 else s1\<lparr>messageQueue := messageQueue s1 @ [mm]\<rparr>)"

text \<open>
  The receiving thread offers the first queued message again; without a callback it is dropped.
\<close>

definition deliver_queued :: "net_env \<Rightarrow> protocol \<Rightarrow> protocol" where
  "deliver_queued e s =
     (case messageQueue s of
        [] \<Rightarrow> s
      | mm # q \<Rightarrow>
          (case (if has_ma s then MQTTAsync_deliverMessage e mm s else (True, s)) of
             (rc, s1) \<Rightarrow> if rc then s1\<lparr>messageQueue := q\<rparr> else s1))"

text \<open>The first message with an id is replaced, updated or removed.\<close>

fun replace_msg :: "nat \<Rightarrow> Messages \<Rightarrow> Messages list \<Rightarrow> Messages list" where
  "replace_msg i m' [] = []"
| "replace_msg i m' (m # ms) = (if messageIDCompare i m then m' # ms else m # replace_msg i m' ms)"

fun remove_msg :: "nat \<Rightarrow> Messages list \<Rightarrow> Messages list" where
  "remove_msg i [] = []"
| "remove_msg i (m # ms) = (if messageIDCompare i m then ms else m # remove_msg i ms)"

definition MQTTProtocol_handlePublishes :: "net_env \<Rightarrow> Publish \<Rightarrow> protocol \<Rightarrow> (int \<times> protocol) option" where
  "MQTTProtocol_handlePublishes e publish s =
     (let qos = hdr_qos (pub_header publish); i = pub_msgId publish
      in if qos = 0 then Some (TCPSOCKET_COMPLETE, Protocol_processPublication e publish s)
         else if \<not> no_pending e s then Some (SOCKET_ERROR, s)
         else if qos = 1
         then (case send e (MQTTPacket_send_puback i) s of (rc, s1) \<Rightarrow> Some (rc, Protocol_processPublication e publish s1))
         else if qos = 2 then do {
           let (a, s1) = MQTTProtocol_storePublication e publish s;
           let m = \<lparr>m_qos = qos, m_retain = hdr_retain (pub_header publish), m_msgid = i, m_publish = a, m_lastTouch = 0, m_next = Some PUBREL\<rparr>;
           s2 \<leftarrow> (case find_msg i (inboundMsgs s1) of
                   Some msg \<Rightarrow> map_option (\<lambda>s2. s2\<lparr>inboundMsgs := replace_msg i m (inboundMsgs s2)\<rparr>)
                                 (MQTTProtocol_removePublication (m_publish msg) s1)
                 | None \<Rightarrow> Some (s1\<lparr>inboundMsgs := inboundMsgs s1 @ [m]\<rparr>));
           Some (send e (MQTTPacket_send_pubrec i) s2) }
         else Some (TCPSOCKET_COMPLETE, s))"

definition MQTTProtocol_handlePubacks :: "net_env \<Rightarrow> nat \<Rightarrow> protocol \<Rightarrow> (int \<times> protocol) option" where
  "MQTTProtocol_handlePubacks e i s =
     (case find_msg i (outboundMsgs s) of
        None \<Rightarrow> Some (TCPSOCKET_COMPLETE, s)
      | Some m \<Rightarrow>
          if m_qos m \<noteq> 1 then Some (TCPSOCKET_COMPLETE, s)
          else map_option (\<lambda>s1. (TCPSOCKET_COMPLETE, s1\<lparr>outboundMsgs := remove_msg i (outboundMsgs s1)\<rparr>))
                 (MQTTProtocol_removePublication (m_publish m) s))"

definition MQTTProtocol_handlePubrecs :: "net_env \<Rightarrow> nat \<Rightarrow> protocol \<Rightarrow> (int \<times> protocol) option" where
  "MQTTProtocol_handlePubrecs e i s =
     (case find_msg i (outboundMsgs s) of
        None \<Rightarrow> Some (TCPSOCKET_COMPLETE, s)
      | Some m \<Rightarrow>
          if m_qos m \<noteq> 2 then Some (TCPSOCKET_COMPLETE, s)
          else if m_next m \<noteq> Some PUBREC then Some (TCPSOCKET_COMPLETE, s)
          else (case send e (MQTTPacket_send_pubrel i False) s of
                  (rc, s1) \<Rightarrow>
                    Some (rc, s1\<lparr>outboundMsgs := replace_msg i (m\<lparr>m_next := Some PUBCOMP, m_lastTouch := clock_now e\<rparr>) (outboundMsgs s1)\<rparr>)))"

definition MQTTProtocol_handlePubrels :: "net_env \<Rightarrow> bool \<Rightarrow> nat \<Rightarrow> protocol \<Rightarrow> (int \<times> protocol) option" where
  "MQTTProtocol_handlePubrels e dup i s =
     (case find_msg i (inboundMsgs s) of
        None \<Rightarrow>
          if \<not> dup then Some (TCPSOCKET_COMPLETE, s)
          else if \<not> no_pending e s then Some (SOCKET_ERROR, s)
          else Some (send e (MQTTPacket_send_pubcomp i) s)
      | Some m \<Rightarrow>
          if m_qos m \<noteq> 2 then Some (TCPSOCKET_COMPLETE, s)
          else if m_next m \<noteq> Some PUBREL then Some (TCPSOCKET_COMPLETE, s)
          else if \<not> no_pending e s then Some (SOCKET_ERROR, s)
          else do {
            let (rc, s1) = send e (MQTTPacket_send_pubcomp i) s;
            p \<leftarrow> publications s1 (m_publish m);
            let publish = \<lparr>pub_header = \<lparr>hdr_type = 0, hdr_dup = False, hdr_qos = m_qos m, hdr_retain = m_retain m\<rparr>,
                           pub_topic = p_topic p, pub_msgId = m_msgid m, pub_payload = p_payload p\<rparr>;
            let s2 = Protocol_processPublication e publish s1;
            Some (rc, s2\<lparr>publications := (publications s2)(m_publish m := None),
                         inboundMsgs := remove_msg i (inboundMsgs s2), msgs_received := msgs_received s2 + 1\<rparr>) })"

definition MQTTProtocol_handlePubcomps :: "net_env \<Rightarrow> nat \<Rightarrow> protocol \<Rightarrow> (int \<times> protocol) option" where
  "MQTTProtocol_handlePubcomps e i s =
     (case find_msg i (outboundMsgs s) of
        None \<Rightarrow> Some (TCPSOCKET_COMPLETE, s)
      | Some m \<Rightarrow>
          if m_qos m \<noteq> 2 then Some (TCPSOCKET_COMPLETE, s)
          else if m_next m \<noteq> Some PUBCOMP then Some (TCPSOCKET_COMPLETE, s)
          else map_option (\<lambda>s1. (TCPSOCKET_COMPLETE,
                   s1\<lparr>outboundMsgs := remove_msg i (outboundMsgs s1), msgs_sent := msgs_sent s1 + 1\<rparr>))
                 (MQTTProtocol_removePublication (m_publish m) s))"

definition MQTTProtocol_handlePingresps :: "protocol \<Rightarrow> int \<times> protocol" where
  "MQTTProtocol_handlePingresps s = (TCPSOCKET_COMPLETE, s\<lparr>ping_outstanding := False\<rparr>)"

text \<open>The dispatch of \<open>MQTTAsync_cycle\<close> on the type of the packet.\<close>

definition cycle_dispatch :: "net_env \<Rightarrow> packet \<Rightarrow> protocol \<Rightarrow> (int \<times> protocol) option" where
  "cycle_dispatch e pack s =
     (case pack of
        Publish_packet publish \<Rightarrow> MQTTProtocol_handlePublishes e publish s
      | Ack h i \<Rightarrow>
          if hdr_type h = msg_code PUBACK then MQTTProtocol_handlePubacks e i s
          else if hdr_type h = msg_code PUBCOMP then MQTTProtocol_handlePubcomps e i s
          else if hdr_type h = msg_code PUBREC then MQTTProtocol_handlePubrecs e i s
          else if hdr_type h = msg_code PUBREL then MQTTProtocol_handlePubrels e (hdr_dup h) i s
          else Some (TCPSOCKET_COMPLETE, s)
      | Header_only b \<Rightarrow>
          if hdr_type (header_bits b) = msg_code PINGRESP then Some (MQTTProtocol_handlePingresps s)
          else Some (TCPSOCKET_COMPLETE, s)
      | _ \<Rightarrow> Some (TCPSOCKET_COMPLETE, s))"

subsection \<open>Keep-alive and retries\<close>

text \<open>\<open>MQTTAsync_disconnect_internal\<close> queues a disconnect command while the client is connected.\<close>

definition MQTTProtocol_closeSession :: "protocol \<Rightarrow> protocol" where
  "MQTTProtocol_closeSession s = (if net_connected s then s\<lparr>close_requests := close_requests s + 1\<rparr> else s)"

definition MQTTProtocol_keepalive :: "net_env \<Rightarrow> int \<Rightarrow> protocol \<Rightarrow> protocol" where
  "MQTTProtocol_keepalive e now s =
     (if net_connected s \<and> keepAliveInterval s > 0 \<and>
         (now - lastSent s \<ge> keepAliveInterval s \<or> now - lastReceived s \<ge> keepAliveInterval s)
      then if \<not> ping_outstanding s
           then if no_pending e s
                then (case send e MQTTPacket_send_pingreq s of
                        (rc, s1) \<Rightarrow> if rc \<noteq> TCPSOCKET_COMPLETE then MQTTProtocol_closeSession s1
                                   else s1\<lparr>lastSent := now, ping_outstanding := True\<rparr>)
                else s
           else MQTTProtocol_closeSession s
      else s)"

definition retry_publish :: "Messages \<Rightarrow> Publications \<Rightarrow> byte list" where
  "retry_publish m p =
     MQTTPacket_send_publish \<lparr>pub_header = plain_header PUBLISH, pub_topic = p_topic p, pub_msgId = m_msgid m, pub_payload = p_payload p\<rparr>
       True (m_qos m) (m_retain m)"

text \<open>The loop over the outbound messages; the ones passed already are in \<open>pre\<close>.\<close>

fun retries_loop :: "net_env \<Rightarrow> int \<Rightarrow> bool \<Rightarrow> Messages list \<Rightarrow> Messages list \<Rightarrow> protocol \<Rightarrow> protocol option" where
  "retries_loop e now regardless pre [] s = Some (s\<lparr>outboundMsgs := pre\<rparr>)"
| "retries_loop e now regardless pre (m # ms) s =
     (if \<not> (net_connected s \<and> good s \<and> no_pending e s) then Some (s\<lparr>outboundMsgs := pre @ m # ms\<rparr>)
      else if \<not> (regardless \<or> now - m_lastTouch m > max (retryInterval s) 10)
      then retries_loop e now regardless (pre @ [m]) ms s
      else if m_qos m = 1 \<or> m_qos m = 2 \<and> m_next m = Some PUBREC
      then (case publications s (m_publish m) of
              None \<Rightarrow> None
            | Some p \<Rightarrow>
                (case send e (retry_publish m p) s of
                   (rc, s1) \<Rightarrow>
                     if rc = SOCKET_ERROR
                     then Some (MQTTProtocol_closeSession (s1\<lparr>good := False, outboundMsgs := pre @ m # ms\<rparr>))
                     else retries_loop e now regardless (pre @ [m\<lparr>m_lastTouch := clock_now e\<rparr>]) ms s1))
      else if m_qos m \<noteq> 0 \<and> m_next m = Some PUBCOMP
      then (case send e (MQTTPacket_send_pubrel (m_msgid m) False) s of
              (rc, s1) \<Rightarrow>
                if rc \<noteq> TCPSOCKET_COMPLETE
                then Some (MQTTProtocol_closeSession (s1\<lparr>good := False, outboundMsgs := pre @ m # ms\<rparr>))
                else retries_loop e now regardless (pre @ [m\<lparr>m_lastTouch := clock_now e\<rparr>]) ms s1)
      else retries_loop e now regardless (pre @ [m]) ms s)"

definition MQTTProtocol_retries :: "net_env \<Rightarrow> int \<Rightarrow> bool \<Rightarrow> protocol \<Rightarrow> protocol option" where
  "MQTTProtocol_retries e now regardless s =
     (if \<not> regardless \<and> retryInterval s \<le> 0 then Some s
      else retries_loop e now regardless [] (outboundMsgs s) s)"

definition MQTTProtocol_retry :: "net_env \<Rightarrow> int \<Rightarrow> bool \<Rightarrow> bool \<Rightarrow> protocol \<Rightarrow> protocol option" where
  "MQTTProtocol_retry e now doRetry regardless s =
     (if \<not> net_connected s then Some s
      else if \<not> good s then Some (MQTTProtocol_closeSession s)
      else if \<not> no_pending e s then Some s
      else if doRetry then MQTTProtocol_retries e now regardless s
      else Some s)"

text \<open>What a successful CONNACK does to the messages of a session that is kept.\<close>

definition resume_session :: "net_env \<Rightarrow> protocol \<Rightarrow> protocol option" where
  "resume_session e s =
     (if outboundMsgs s \<noteq> []
      then MQTTProtocol_retry e 0 True True (s\<lparr>outboundMsgs := map (\<lambda>m. m\<lparr>m_lastTouch := 0\<rparr>) (outboundMsgs s)\<rparr>)
      else Some s)"

fun remove_publications :: "Messages list \<Rightarrow> protocol \<Rightarrow> protocol option" where
  "remove_publications [] s = Some s"
| "remove_publications (m # ms) s = Option.bind (MQTTProtocol_removePublication (m_publish m) s) (remove_publications ms)"

text \<open>Both message lists and the queue of arrived messages are emptied, the ids start again.\<close>

definition clear_session :: "protocol \<Rightarrow> protocol option" where
  "clear_session s = do {
     s1 \<leftarrow> remove_publications (inboundMsgs s) s;
     let s2 = s1\<lparr>inboundMsgs := []\<rparr>;
     s3 \<leftarrow> remove_publications (outboundMsgs s2) s2;
     Some (s3\<lparr>outboundMsgs := [], messageQueue := [], msgID := 0\<rparr>) }"

text \<open>Publications that were stored for a write are removed when the write is done.\<close>

fun pending_loop :: "net_env \<Rightarrow> nat list \<Rightarrow> nat list \<Rightarrow> protocol \<Rightarrow> protocol option" where
  "pending_loop e keep [] s = Some (s\<lparr>pending_writes := keep\<rparr>)"
| "pending_loop e keep (a # as) s =
     (if write_done e a then Option.bind (MQTTProtocol_removePublication a s) (pending_loop e keep as)
      else pending_loop e (keep @ [a]) as s)"

definition MQTTProtocol_checkPendingWrites :: "net_env \<Rightarrow> protocol \<Rightarrow> protocol option" where
  "MQTTProtocol_checkPendingWrites e s = pending_loop e [] (pending_writes s) s"

text \<open>The connection of a client is closed, its session stays.\<close>

definition MQTTAsync_closeOnly :: "net_env \<Rightarrow> protocol \<Rightarrow> protocol option" where
  "MQTTAsync_closeOnly e s = do {
     let s1 = s\<lparr>good := False, ping_outstanding := False\<rparr>;
     s2 \<leftarrow> (if socket_open s1 then do {
               s2 \<leftarrow> MQTTProtocol_checkPendingWrites e s1;
               Some ((if net_connected s2 \<and> no_pending e s2 then snd (send e MQTTPacket_send_disconnect s2) else s2)\<lparr>socket_open := False\<rparr>) }
             else Some s1);
     Some (s2\<lparr>net_connected := False, connect_state := 0\<rparr>) }"

section \<open>Message ids\<close>

text \<open>The ids the search tries, in its order: all but the one it starts from.\<close>

definition candidates :: "nat \<Rightarrow> nat list" where
  "candidates start_msgid = [start_msgid + 1..<65536] @ [1..<start_msgid]"

definition first_free :: "(nat \<Rightarrow> bool) \<Rightarrow> nat list \<Rightarrow> nat" where
  "first_free used is = (case find (\<lambda>j. \<not> used j) is of Some j \<Rightarrow> j | None \<Rightarrow> 0)"

lemma first_free_Cons [simp]: "first_free used (i # is) = (if used i then first_free used is else i)"
  by (simp add: first_free_def)

lemma first_free_Nil [simp]: "first_free used [] = 0"
  by (simp add: first_free_def)

lemma assign_wrapped:
  "0 < i \<Longrightarrow> i < start \<Longrightarrow> start \<le> 65535 \<Longrightarrow> assign_loop used start i = Some (first_free used [i..<start])"
proof (induction "start - i" arbitrary: i)
  case (Suc n)
  then have "next_id i = Suc i" by (simp add: next_id_def MAX_MSG_ID_def)
  with Suc show ?case
    by (subst assign_loop.simps) (cases "Suc i = start"; simp add: upt_conv_Cons)
qed simp

lemma assign_above:
  "0 < start \<Longrightarrow> start < i \<Longrightarrow> i \<le> 65535 \<Longrightarrow>
   assign_loop used start i = Some (first_free used ([i..<65536] @ [1..<start]))"
proof (induction "65535 - i" arbitrary: i)
  case 0
  then have i: "i = 65535" by simp
  have "assign_loop used start 1 = Some (first_free used [1..<start])" if "1 \<noteq> start"
    using that 0 by (intro assign_wrapped) auto
  then show ?case using i
    by (subst assign_loop.simps) (cases "1 = start"; simp add: upt_conv_Cons next_id_def MAX_MSG_ID_def)
next
  case (Suc n)
  then have "next_id i = Suc i" by (simp add: next_id_def MAX_MSG_ID_def)
  with Suc show ?case
    by (subst assign_loop.simps) (simp add: upt_conv_Cons)
qed

lemma assign_zero_free:
  assumes "0 < i" and "i \<le> j" and "j \<le> 65535" and "\<not> used j"
  shows "assign_loop used 0 i = Some (first_free used [i..<65536])"
  using assms
proof (induction "j - i" arbitrary: i)
  case 0
  then show ?case by (subst assign_loop.simps) (simp add: upt_conv_Cons)
next
  case (Suc n)
  then have "next_id i = Suc i" by (simp add: next_id_def MAX_MSG_ID_def)
  with Suc show ?case by (subst assign_loop.simps) (simp add: upt_conv_Cons)
qed

lemma assign_zero_full:
  assumes "\<forall>i \<in> {1..65535}. used i" and "0 < i" and "i \<le> 65535"
  shows "assign_loop used 0 i = None"
proof (rule ccontr)
  assume "assign_loop used 0 i \<noteq> None"
  then obtain y where "assign_loop used 0 i = Some y" by auto
  then have "0 = (0::nat) \<and> used = used \<and> 0 < i \<and> i \<le> 65535 \<longrightarrow> False"
    by (rule assign_loop.raw_induct [where P = "\<lambda>u st k y. st = 0 \<and> u = used \<and> 0 < k \<and> k \<le> 65535 \<longrightarrow> False", rotated])
      (use assms(1) in \<open>force simp: next_id_def MAX_MSG_ID_def split: if_splits\<close>)
  then show False using assms by simp
qed

lemma assign_loop_candidates:
  assumes "start \<le> 65535"
  shows "assign_loop used start (next_id start) =
    (if start = 0 \<and> (\<forall>i \<in> {1..65535}. used i) then None else Some (first_free used (candidates start)))"
proof -
  consider "start = 0" | "start = 65535" | "0 < start" "start < 65535" using assms by linarith
  then show ?thesis
  proof cases
    case 1
    then show ?thesis
      using assign_zero_free [of 1 _ used] assign_zero_full [of used 1]
      by (auto simp: next_id_def MAX_MSG_ID_def candidates_def)
  next
    case 2
    then show ?thesis using assign_wrapped [of 1 start used] by (simp add: next_id_def MAX_MSG_ID_def candidates_def)
  next
    case 3
    then show ?thesis using assign_above [of start "start + 1" used] by (simp add: next_id_def MAX_MSG_ID_def candidates_def)
  qed
qed

lemma first_free_props:
  "first_free used is \<noteq> 0 \<Longrightarrow> first_free used is \<in> set is \<and> \<not> used (first_free used is)"
  "first_free used is = 0 \<Longrightarrow> 0 \<notin> set is \<Longrightarrow> \<forall>i \<in> set is. used i"
  by (induction "is") (auto split: if_splits)

lemma candidates_set: "start \<le> 65535 \<Longrightarrow> set (candidates start) = {1..65535} - {start}"
  by (auto simp: candidates_def)

text \<open>The outcomes of the search, for both clients.\<close>

lemma assign_loop_outcomes:
  assumes "start \<le> 65535"
  shows "assign_loop used start (next_id start) = None \<longleftrightarrow> start = 0 \<and> (\<forall>i \<in> {1..65535}. used i)"
    and "assign_loop used start (next_id start) = Some i \<Longrightarrow> i \<noteq> 0 \<Longrightarrow> i \<le> 65535 \<and> i \<noteq> start \<and> \<not> used i"
    and "assign_loop used start (next_id start) = Some 0 \<longleftrightarrow> start \<noteq> 0 \<and> (\<forall>i \<in> {1..65535} - {start}. used i)"
proof -
  note loop = assign_loop_candidates [OF assms, of used]
  show "assign_loop used start (next_id start) = None \<longleftrightarrow> start = 0 \<and> (\<forall>i \<in> {1..65535}. used i)"
    by (simp add: loop)
  show "assign_loop used start (next_id start) = Some i \<Longrightarrow> i \<noteq> 0 \<Longrightarrow> i \<le> 65535 \<and> i \<noteq> start \<and> \<not> used i"
    using first_free_props(1) [of used "candidates start"] candidates_set [OF assms] by (auto simp: loop split: if_splits)
  have "first_free used (candidates start) = 0 \<longleftrightarrow> (\<forall>i \<in> {1..65535} - {start}. used i)"
  proof
    assume "first_free used (candidates start) = 0"
    then show "\<forall>i \<in> {1..65535} - {start}. used i"
      using first_free_props(2) [of used "candidates start"] unfolding candidates_set [OF assms] by simp
  next
    assume "\<forall>i \<in> {1..65535} - {start}. used i"
    then show "first_free used (candidates start) = 0"
      using first_free_props(1) [of used "candidates start"] unfolding candidates_set [OF assms] by blast
  qed
  then show "assign_loop used start (next_id start) = Some 0 \<longleftrightarrow> start \<noteq> 0 \<and> (\<forall>i \<in> {1..65535} - {start}. used i)"
    by (auto simp: loop)
qed

text \<open>
  C24: MQTTProtocol_assignMsgId returns an id from 1 to 65535 that no outbound message has and
  differs from the last one; it returns 0 exactly when all ids but the last one are in use, and
  runs forever exactly when it starts from 0 and all are in use.
\<close>

theorem assign_msg_id:
  assumes "msgID s \<le> MAX_MSG_ID"
  shows "(case MQTTProtocol_assignMsgId s of
       None \<Rightarrow> msgID s = 0 \<and> (\<forall>i \<in> {1..MAX_MSG_ID}. find_msg i (outboundMsgs s) \<noteq> None)
     | Some (i, s') \<Rightarrow>
         if i = 0 then s' = s \<and> msgID s \<noteq> 0 \<and> (\<forall>j \<in> {1..MAX_MSG_ID} - {msgID s}. find_msg j (outboundMsgs s) \<noteq> None)
         else s' = s\<lparr>msgID := i\<rparr> \<and> i \<le> MAX_MSG_ID \<and> i \<noteq> msgID s \<and> find_msg i (outboundMsgs s) = None)"
proof -
  have le: "msgID s \<le> 65535" using assms by (simp add: MAX_MSG_ID_def)
  define used where "used = (\<lambda>i. find_msg i (outboundMsgs s) \<noteq> None)"
  note out = assign_loop_outcomes [OF le, of used]
  have eq: "MQTTProtocol_assignMsgId s =
      (case assign_loop used (msgID s) (next_id (msgID s)) of None \<Rightarrow> None
       | Some i \<Rightarrow> Some (i, if i \<noteq> 0 then s\<lparr>msgID := i\<rparr> else s))"
    by (simp only: MQTTProtocol_assignMsgId_def used_def)
  have u: "find_msg i (outboundMsgs s) = None \<longleftrightarrow> \<not> used i" for i by (simp add: used_def)
  show ?thesis unfolding eq u MAX_MSG_ID_def
    using out by (cases "assign_loop used (msgID s) (next_id (msgID s))") auto
qed

section \<open>The stored publications\<close>

definition blocks :: "protocol \<Rightarrow> nat list" where
  "blocks s = map m_publish (inboundMsgs s) @ map m_publish (outboundMsgs s) @ pending_writes s"

definition blocks_ok :: "(nat \<rightharpoonup> Publications) \<Rightarrow> nat \<Rightarrow> nat list \<Rightarrow> bool" where
  "blocks_ok f n bs \<longleftrightarrow> distinct bs \<and> dom f = set bs \<and> (\<forall>a p. f a = Some p \<longrightarrow> refcount p = 1 \<and> a < n)"

text \<open>
  Every message has an id of its own in its list; every stored publication belongs to exactly
  one message or pending write, and nothing else is allocated.
\<close>

definition pubs_ok :: "protocol \<Rightarrow> bool" where
  "pubs_ok s \<longleftrightarrow> distinct (map m_msgid (inboundMsgs s)) \<and> distinct (map m_msgid (outboundMsgs s)) \<and>
     blocks_ok (publications s) (next_block s) (blocks s)"

lemma blocks_ok_get: "blocks_ok f n bs \<Longrightarrow> a \<in> set bs \<Longrightarrow> \<exists>p. f a = Some p \<and> refcount p = 1"
  by (metis blocks_ok_def domD)

lemma blocks_ok_fresh: "blocks_ok f n bs \<Longrightarrow> f n = None \<and> n \<notin> set bs"
  by (metis blocks_ok_def domD domIff less_irrefl)

lemma blocks_ok_remove: "blocks_ok f n (xs @ a # ys) \<Longrightarrow> blocks_ok (f(a := None)) n (xs @ ys)"
  by (auto simp: blocks_ok_def split: if_splits)

lemma blocks_ok_add:
  assumes "blocks_ok f n (xs @ ys)" and "refcount p = 1"
  shows "blocks_ok (f(n \<mapsto> p)) (Suc n) (xs @ n # ys)"
  using blocks_ok_fresh [OF assms(1)] assms by (auto simp: blocks_ok_def less_SucI)

lemma find_msg_None: "find_msg i ms = None \<longleftrightarrow> i \<notin> m_msgid ` set ms"
  by (auto simp: find_msg_def find_None_iff messageIDCompare_def)

lemma find_msg_simps [simp]:
  "find_msg i [] = None" "find_msg i (m # ms) = (if m_msgid m = i then Some m else find_msg i ms)"
  by (auto simp: find_msg_def messageIDCompare_def)

text \<open>Where the message with an id stands, and the list without it or with another in its place.\<close>

lemma find_msg_split:
  "find_msg i ms = Some m \<Longrightarrow> \<exists>xs ys. ms = xs @ m # ys \<and> m_msgid m = i \<and> i \<notin> m_msgid ` set xs \<and>
     remove_msg i ms = xs @ ys \<and> (\<forall>m'. replace_msg i m' ms = xs @ m' # ys)"
proof (induction ms)
  case (Cons x ms)
  show ?case
  proof (cases "m_msgid x = i")
    case True
    with Cons.prems show ?thesis by (intro exI [of _ "[]"] exI [of _ ms]) (simp add: messageIDCompare_def)
  next
    case False
    with Cons obtain xs ys where "ms = xs @ m # ys \<and> m_msgid m = i \<and> i \<notin> m_msgid ` set xs \<and>
        remove_msg i ms = xs @ ys \<and> (\<forall>m'. replace_msg i m' ms = xs @ m' # ys)" by auto
    with False show ?thesis by (intro exI [of _ "x # xs"] exI [of _ ys]) (auto simp: messageIDCompare_def)
  qed
qed simp

lemma pubs_ok_other [simp]:
  "pubs_ok (s\<lparr>wire := w\<rparr>) = pubs_ok s" "pubs_ok (s\<lparr>lastSent := t\<rparr>) = pubs_ok s"
  "pubs_ok (s\<lparr>arrived := ms\<rparr>) = pubs_ok s" "pubs_ok (s\<lparr>good := b\<rparr>) = pubs_ok s"
  "pubs_ok (s\<lparr>msgs_sent := n\<rparr>) = pubs_ok s" "pubs_ok (s\<lparr>msgs_received := n\<rparr>) = pubs_ok s"
  "pubs_ok (s\<lparr>net_connected := b\<rparr>) = pubs_ok s" "pubs_ok (s\<lparr>close_requests := n\<rparr>) = pubs_ok s"
  "pubs_ok (s\<lparr>ping_outstanding := b\<rparr>) = pubs_ok s" "pubs_ok (s\<lparr>msgID := n\<rparr>) = pubs_ok s"
  "pubs_ok (s\<lparr>messageQueue := ms\<rparr>) = pubs_ok s" "pubs_ok (s\<lparr>ma_calls := n\<rparr>) = pubs_ok s"
  "pubs_ok (s\<lparr>connect_state := i\<rparr>) = pubs_ok s" "pubs_ok (s\<lparr>socket_open := b\<rparr>) = pubs_ok s"
  "pubs_ok (s\<lparr>lastReceived := i\<rparr>) = pubs_ok s"
  by (simp_all add: pubs_ok_def blocks_def)

lemma pubs_ok_send [simp]: "pubs_ok (snd (send e pkt s)) = pubs_ok s"
  by (simp add: send_def Let_def)

lemma send_fields [simp]:
  "outboundMsgs (snd (send e pkt s)) = outboundMsgs s" "inboundMsgs (snd (send e pkt s)) = inboundMsgs s"
  "publications (snd (send e pkt s)) = publications s" "next_block (snd (send e pkt s)) = next_block s"
  "arrived (snd (send e pkt s)) = arrived s" "wire (snd (send e pkt s)) = wire s @ [pkt]"
  "pending_writes (snd (send e pkt s)) = pending_writes s" "messageQueue (snd (send e pkt s)) = messageQueue s"
  "has_ma (snd (send e pkt s)) = has_ma s" "net_connected (snd (send e pkt s)) = net_connected s"
  "connect_state (snd (send e pkt s)) = connect_state s" "msgID (snd (send e pkt s)) = msgID s"
  by (simp_all add: send_def Let_def)

lemma closeSession_fields [simp]:
  "pubs_ok (MQTTProtocol_closeSession s) = pubs_ok s" "outboundMsgs (MQTTProtocol_closeSession s) = outboundMsgs s"
  "publications (MQTTProtocol_closeSession s) = publications s" "wire (MQTTProtocol_closeSession s) = wire s"
  by (simp_all add: MQTTProtocol_closeSession_def)

lemma pubs_ok_block:
  "pubs_ok s \<Longrightarrow> a \<in> set (blocks s) \<Longrightarrow> \<exists>p. publications s a = Some p \<and> refcount p = 1"
  by (auto simp: pubs_ok_def dest: blocks_ok_get)

text \<open>A block less, a block more.\<close>

lemma remove_ok:
  "pubs_ok s \<Longrightarrow> a \<in> set (blocks s) \<Longrightarrow>
   MQTTProtocol_removePublication a s = Some (s\<lparr>publications := (publications s)(a := None)\<rparr>)"
  by (drule (1) pubs_ok_block) (auto simp: MQTTProtocol_removePublication_def)

lemma in_blocks:
  "find_msg i (inboundMsgs s) = Some m \<Longrightarrow> m_publish m \<in> set (blocks s)"
  "find_msg i (outboundMsgs s) = Some m \<Longrightarrow> m_publish m \<in> set (blocks s)"
  by (auto simp: blocks_def dest!: find_msg_split)

lemma store_remove_out:
  assumes "pubs_ok s" and "find_msg i (outboundMsgs s) = Some m"
  shows "pubs_ok (s\<lparr>publications := (publications s)(m_publish m := None), outboundMsgs := remove_msg i (outboundMsgs s)\<rparr>)"
proof -
  obtain xs ys where out: "outboundMsgs s = xs @ m # ys" "remove_msg i (outboundMsgs s) = xs @ ys"
    using find_msg_split [OF assms(2)] by blast
  then show ?thesis
    using assms blocks_ok_remove [of "publications s" "next_block s" "map m_publish (inboundMsgs s) @ map m_publish xs" "m_publish m"]
    by (simp add: pubs_ok_def blocks_def)
qed

lemma store_remove_in:
  assumes "pubs_ok s" and "find_msg i (inboundMsgs s) = Some m"
  shows "pubs_ok (s\<lparr>publications := (publications s)(m_publish m := None), inboundMsgs := remove_msg i (inboundMsgs s)\<rparr>)"
proof -
  obtain xs ys where out: "inboundMsgs s = xs @ m # ys" "remove_msg i (inboundMsgs s) = xs @ ys"
    using find_msg_split [OF assms(2)] by blast
  then show ?thesis
    using assms blocks_ok_remove [of "publications s" "next_block s" "map m_publish xs" "m_publish m"]
    by (simp add: pubs_ok_def blocks_def)
qed

lemma store_add_out:
  assumes "pubs_ok s" and "find_msg (m_msgid m) (outboundMsgs s) = None" and "m_publish m = next_block s" and "refcount p = 1"
  shows "pubs_ok (s\<lparr>publications := (publications s)(next_block s \<mapsto> p), next_block := Suc (next_block s), outboundMsgs := outboundMsgs s @ [m]\<rparr>)"
  using assms blocks_ok_add [of "publications s" "next_block s" "map m_publish (inboundMsgs s) @ map m_publish (outboundMsgs s)"]
  by (auto simp: pubs_ok_def blocks_def find_msg_None)

lemma store_add_in:
  assumes "pubs_ok s" and "find_msg (m_msgid m) (inboundMsgs s) = None" and "m_publish m = next_block s" and "refcount p = 1"
  shows "pubs_ok (s\<lparr>publications := (publications s)(next_block s \<mapsto> p), next_block := Suc (next_block s), inboundMsgs := inboundMsgs s @ [m]\<rparr>)"
  using assms blocks_ok_add [of "publications s" "next_block s" "map m_publish (inboundMsgs s)"]
  by (auto simp: pubs_ok_def blocks_def find_msg_None)

lemma store_add_pending:
  assumes "pubs_ok s" and "refcount p = 1"
  shows "pubs_ok (s\<lparr>publications := (publications s)(next_block s \<mapsto> p), next_block := Suc (next_block s), pending_writes := pending_writes s @ [next_block s]\<rparr>)"
  using assms blocks_ok_add [of "publications s" "next_block s" "blocks s" "[]"]
  by (auto simp: pubs_ok_def blocks_def)

lemma store_replace_in:
  assumes "pubs_ok s" and "find_msg (m_msgid m') (inboundMsgs s) = Some m" and "m_publish m' = next_block s" and "refcount p = 1"
  shows "pubs_ok (s\<lparr>next_block := Suc (next_block s), publications := (publications s)(next_block s \<mapsto> p, m_publish m := None),
    inboundMsgs := replace_msg (m_msgid m') m' (inboundMsgs s)\<rparr>)"
proof -
  obtain xs ys where ins: "inboundMsgs s = xs @ m # ys" "replace_msg (m_msgid m') m' (inboundMsgs s) = xs @ m' # ys" "m_msgid m = m_msgid m'"
    using find_msg_split [OF assms(2)] by blast
  let ?r = "map m_publish ys @ map m_publish (outboundMsgs s) @ pending_writes s"
  have "blocks_ok (publications s) (next_block s) (map m_publish xs @ m_publish m # ?r)"
    using assms(1) ins by (simp add: pubs_ok_def blocks_def)
  from blocks_ok_add [OF this assms(4)]
  have "blocks_ok ((publications s)(next_block s \<mapsto> p)) (Suc (next_block s))
      ((map m_publish xs @ [next_block s]) @ m_publish m # ?r)" by simp
  from blocks_ok_remove [OF this] show ?thesis
    using assms(1,3) ins by (auto simp: pubs_ok_def blocks_def)
qed

text \<open>Messages keep their ids and their blocks when their state changes.\<close>

lemma store_same_out:
  "pubs_ok s \<Longrightarrow> map m_msgid ms = map m_msgid (outboundMsgs s) \<Longrightarrow> map m_publish ms = map m_publish (outboundMsgs s) \<Longrightarrow>
   pubs_ok (s\<lparr>outboundMsgs := ms\<rparr>)"
  by (simp add: pubs_ok_def blocks_def)

lemma replace_same:
  "find_msg i ms = Some m \<Longrightarrow> m_msgid m' = i \<Longrightarrow> m_publish m' = m_publish m \<Longrightarrow>
   map m_msgid (replace_msg i m' ms) = map m_msgid ms \<and> map m_publish (replace_msg i m' ms) = map m_publish ms"
  by (drule find_msg_split) auto

subsection \<open>Every operation keeps it\<close>

lemma startPublish_effect:
  assumes "pubs_ok s" and "qos > 0"
  shows "MQTTProtocol_startPublish e publish qos retained None s =
    (let a = next_block s;
         p = \<lparr>refcount = 1, p_topic = (if on_heap e then pub_topic publish else c_bytes (pub_topic publish)), p_payload = pub_payload publish\<rparr>;
         m = \<lparr>m_qos = qos, m_retain = retained, m_msgid = pub_msgId publish, m_publish = a, m_lastTouch = clock_now e,
              m_next = (if qos = 2 then Some PUBREC else None)\<rparr>
     in Some (send e (MQTTPacket_send_publish (publish\<lparr>pub_topic := p_topic p\<rparr>) False qos retained)
          (s\<lparr>publications := (publications s)(a \<mapsto> p), next_block := Suc a, outboundMsgs := outboundMsgs s @ [m]\<rparr>)))"
  using assms(2)
  by (simp add: MQTTProtocol_startPublish_def MQTTProtocol_createMessage_def MQTTProtocol_storePublication_def
      MQTTProtocol_startPublishCommon_def Let_def split: prod.splits)

definition keeps_pubs :: "(int \<times> protocol) option \<Rightarrow> bool" where
  "keeps_pubs x \<longleftrightarrow> (\<exists>r. x = Some r \<and> pubs_ok (snd r))"

lemma keeps_pubs_Some [simp]: "keeps_pubs (Some r) = pubs_ok (snd r)"
  by (simp add: keeps_pubs_def)

lemma startPublish_ok:
  assumes "pubs_ok s" and "qos > 0 \<Longrightarrow> find_msg (pub_msgId publish) (outboundMsgs s) = None"
  shows "keeps_pubs (MQTTProtocol_startPublish e publish qos retained None s)"
proof (cases "qos > 0")
  case True
  then show ?thesis unfolding startPublish_effect [OF assms(1) True] Let_def keeps_pubs_Some pubs_ok_send
    using assms by (intro store_add_out) simp_all
next
  case False
  have st: "pubs_ok (snd (send e pkt s))" for pkt using assms(1) by simp
  show ?thesis using False assms(1) store_add_pending [OF st]
    by (simp add: MQTTProtocol_startPublish_def MQTTProtocol_startPublishCommon_def MQTTProtocol_storeQoS0_def
        MQTTProtocol_storePublication_def Let_def split_beta)
qed

text \<open>The retries change the time stamps only and send again what the messages wait on.\<close>

definition untouched :: "Messages list \<Rightarrow> Messages list" where
  "untouched ms = map (m_lastTouch_update (\<lambda>_. 0)) ms"

definition resent :: "(nat \<rightharpoonup> Publications) \<Rightarrow> Messages \<Rightarrow> byte list \<Rightarrow> bool" where
  "resent f m pkt \<longleftrightarrow>
     (m_qos m = 1 \<or> m_qos m = 2 \<and> m_next m = Some PUBREC) \<and> (\<exists>p. f (m_publish m) = Some p \<and> pkt = retry_publish m p) \<or>
     m_next m = Some PUBCOMP \<and> pkt = MQTTPacket_send_pubrel (m_msgid m) False"

definition same_store :: "protocol \<Rightarrow> protocol \<Rightarrow> bool" where
  "same_store s s' \<longleftrightarrow> publications s' = publications s \<and> next_block s' = next_block s \<and>
     inboundMsgs s' = inboundMsgs s \<and> pending_writes s' = pending_writes s \<and> arrived s' = arrived s \<and>
     messageQueue s' = messageQueue s \<and> net_connected s' = net_connected s \<and> connect_state s' = connect_state s \<and> msgID s' = msgID s"

lemma same_store_intros [simp]:
  "same_store s s" "same_store s (s\<lparr>outboundMsgs := ms\<rparr>)" "same_store s (snd (send e pkt s))"
  "same_store s (MQTTProtocol_closeSession s') = same_store s s'" "same_store s (s'\<lparr>good := b\<rparr>) = same_store s s'"
  "same_store s (s'\<lparr>outboundMsgs := ms\<rparr>) = same_store s s'"
  by (simp_all add: same_store_def MQTTProtocol_closeSession_def)

lemma same_store_trans [trans]: "same_store s s' \<Longrightarrow> same_store s' s'' \<Longrightarrow> same_store s s''"
  by (simp add: same_store_def)

lemma untouched_simps [simp]:
  "untouched (ms @ ns) = untouched ms @ untouched ns" "untouched (m # ms) = m\<lparr>m_lastTouch := 0\<rparr> # untouched ms" "untouched [] = []"
  by (simp_all add: untouched_def)

definition retried :: "protocol \<Rightarrow> Messages list \<Rightarrow> protocol option \<Rightarrow> bool" where
  "retried s ms r \<longleftrightarrow> (\<exists>s' ws. r = Some s' \<and> same_store s s' \<and> untouched (outboundMsgs s') = untouched ms \<and>
     wire s' = wire s @ ws \<and> (\<forall>w \<in> set ws. \<exists>m \<in> set ms. resent (publications s) m w))"

lemma retried_stop:
  assumes "resent (publications s) m w" and "m \<in> set ms"
  shows "retried s ms (Some (MQTTProtocol_closeSession (snd (send e w s)\<lparr>good := False, outboundMsgs := ms\<rparr>)))"
  unfolding retried_def using assms
  by (intro exI [of _ "MQTTProtocol_closeSession (snd (send e w s)\<lparr>good := False, outboundMsgs := ms\<rparr>)"] exI [of _ "[w]"]) auto

lemma retried_go:
  assumes "retried s1 (pre @ m' # ms) r" and "m'\<lparr>m_lastTouch := 0\<rparr> = m\<lparr>m_lastTouch := 0\<rparr>"
    and "same_store s s1" and "wire s1 = wire s @ vs" and "\<forall>w \<in> set vs. resent (publications s) m w"
  shows "retried s (pre @ m # ms) r"
proof -
  have p: "publications s1 = publications s" using assms(3) by (simp add: same_store_def)
  have r: "resent f m' w = resent f m w" for f w
    using assms(2) by (cases m; cases m') (simp add: resent_def retry_publish_def)
  obtain s' ws where "r = Some s'" "same_store s1 s'" "untouched (outboundMsgs s') = untouched (pre @ m' # ms)"
      "wire s' = wire s1 @ ws" "\<forall>w \<in> set ws. \<exists>n \<in> set (pre @ m' # ms). resent (publications s1) n w"
    using assms(1) by (auto simp: retried_def)
  then show ?thesis unfolding retried_def using assms p r same_store_trans
    by (intro exI [of _ s'] exI [of _ "vs @ ws"]) auto
qed

lemma retried_if:
  "(b \<Longrightarrow> retried s ms x) \<Longrightarrow> (\<not> b \<Longrightarrow> retried s ms y) \<Longrightarrow> retried s ms (if b then x else y)"
  by simp

lemma retries_loop_effect:
  "\<forall>m \<in> set ms. publications s (m_publish m) \<noteq> None \<Longrightarrow> retried s (pre @ ms) (retries_loop e now regardless pre ms s)"
proof (induction ms arbitrary: pre s)
  case (Cons m ms)
  then obtain p where p: "publications s (m_publish m) = Some p" by auto
  let ?m = "m\<lparr>m_lastTouch := clock_now e\<rparr>"
  have skip: "retried s (pre @ m # ms) (retries_loop e now regardless (pre @ [m]) ms s)"
    using retried_go [of s pre m ms _ m s "[]"] Cons.IH [of s "pre @ [m]"] Cons.prems by simp
  have go: "retried s (pre @ m # ms) (retries_loop e now regardless (pre @ [?m]) ms (snd (send e w s)))"
    if "resent (publications s) m w" for w
    using retried_go [of "snd (send e w s)" pre ?m ms _ m s "[w]"] Cons.IH [of "snd (send e w s)" "pre @ [?m]"] Cons.prems that by simp
  have w: "resent (publications s) m (retry_publish m p)" if "m_qos m = 1 \<or> m_qos m = 2 \<and> m_next m = Some PUBREC"
    using that p by (simp add: resent_def)
  have v: "resent (publications s) m (MQTTPacket_send_pubrel (m_msgid m) False)" if "m_qos m \<noteq> 0 \<and> m_next m = Some PUBCOMP"
    using that by (simp add: resent_def)
  have none: "retried s (pre @ m # ms) (Some (s\<lparr>outboundMsgs := pre @ m # ms\<rparr>))"
    by (simp add: retried_def)
  show ?case
    unfolding retries_loop.simps p option.case case_prod_beta'
    by (intro retried_if none skip go w v retried_stop [where m = m]) simp_all
qed (simp add: retried_def)

lemma allocated: "pubs_ok s \<Longrightarrow> m \<in> set (outboundMsgs s) \<union> set (inboundMsgs s) \<Longrightarrow> publications s (m_publish m) \<noteq> None"
  using pubs_ok_block [of s "m_publish m"] by (auto simp: blocks_def)

lemma retry_effect:
  assumes "pubs_ok s"
  shows "retried s (outboundMsgs s) (MQTTProtocol_retry e now doRetry regardless s)"
proof -
  have refl: "retried s (outboundMsgs s) (Some s)" by (simp add: retried_def)
  have close: "retried s (outboundMsgs s) (Some (MQTTProtocol_closeSession s))" by (simp add: retried_def)
  have loop: "retried s (outboundMsgs s) (retries_loop e now regardless [] (outboundMsgs s) s)"
    using retries_loop_effect [of "outboundMsgs s" s "[]"] allocated [OF assms] by simp
  show ?thesis unfolding MQTTProtocol_retry_def MQTTProtocol_retries_def
    by (intro retried_if refl close loop)
qed

lemma untouched_maps: "untouched ms = untouched ns \<Longrightarrow> map m_msgid ms = map m_msgid ns \<and> map m_publish ms = map m_publish ns"
proof -
  assume "untouched ms = untouched ns"
  moreover have "map m_msgid (untouched xs) = map m_msgid xs" "map m_publish (untouched xs) = map m_publish xs" for xs
    by (simp_all add: untouched_def)
  ultimately show ?thesis by metis
qed

lemma retried_ok: "retried s (outboundMsgs s) r \<Longrightarrow> pubs_ok s \<Longrightarrow> \<exists>s'. r = Some s' \<and> pubs_ok s'"
  by (auto simp: retried_def same_store_def pubs_ok_def blocks_def dest!: untouched_maps)

lemma resume_session_effect:
  assumes "pubs_ok s"
  shows "retried s (outboundMsgs s) (resume_session e s)"
proof (cases "outboundMsgs s = []")
  case True
  then show ?thesis by (simp add: resume_session_def retried_def same_store_def)
next
  case False
  let ?ms = "map (\<lambda>m. m\<lparr>m_lastTouch := 0\<rparr>) (outboundMsgs s)"
  have "untouched ?ms = untouched (outboundMsgs s)" by (simp add: untouched_def)
  moreover have "pubs_ok (s\<lparr>outboundMsgs := ?ms\<rparr>)"
    using assms store_same_out [of s ?ms] by (simp add: comp_def)
  moreover have "resent f (m\<lparr>m_lastTouch := t\<rparr>) w = resent f m w" for f m t w
    by (simp add: resent_def retry_publish_def)
  ultimately show ?thesis
    using False retry_effect [of "s\<lparr>outboundMsgs := ?ms\<rparr>" e 0 True True]
    by (auto simp: resume_session_def retried_def same_store_def)
qed

text \<open>The messages handed over and those that wait to be, in the order in which they came.\<close>

definition received :: "protocol \<Rightarrow> MQTTAsync_message list" where
  "received s = arrived s @ messageQueue s"

lemma deliver_fields [simp]:
  "publications (snd (MQTTAsync_deliverMessage e mm s)) = publications s" "next_block (snd (MQTTAsync_deliverMessage e mm s)) = next_block s"
  "inboundMsgs (snd (MQTTAsync_deliverMessage e mm s)) = inboundMsgs s" "outboundMsgs (snd (MQTTAsync_deliverMessage e mm s)) = outboundMsgs s"
  "pending_writes (snd (MQTTAsync_deliverMessage e mm s)) = pending_writes s" "wire (snd (MQTTAsync_deliverMessage e mm s)) = wire s"
  by (simp_all add: MQTTAsync_deliverMessage_def)

lemma process_fields [simp]:
  "publications (Protocol_processPublication e publish s) = publications s" "next_block (Protocol_processPublication e publish s) = next_block s"
  "inboundMsgs (Protocol_processPublication e publish s) = inboundMsgs s" "outboundMsgs (Protocol_processPublication e publish s) = outboundMsgs s"
  "pending_writes (Protocol_processPublication e publish s) = pending_writes s" "wire (Protocol_processPublication e publish s) = wire s"
  "msgs_received (Protocol_processPublication e publish s) = msgs_received s" "has_ma (Protocol_processPublication e publish s) = has_ma s"
  by (simp_all add: Protocol_processPublication_def MQTTAsync_deliverMessage_def Let_def)

lemma process_received:
  "received (Protocol_processPublication e publish s) = received s @
     [\<lparr>mm_topic = pub_topic publish, mm_payload = pub_payload publish, mm_qos = hdr_qos (pub_header publish),
       mm_retained = hdr_retain (pub_header publish),
       mm_dup = (if hdr_qos (pub_header publish) = 2 then False else hdr_dup (pub_header publish)), mm_msgid = pub_msgId publish\<rparr>]"
  by (auto simp: received_def Protocol_processPublication_def MQTTAsync_deliverMessage_def Let_def)

lemma pubs_ok_fields:
  "publications s' = publications s \<Longrightarrow> next_block s' = next_block s \<Longrightarrow> inboundMsgs s' = inboundMsgs s \<Longrightarrow>
   outboundMsgs s' = outboundMsgs s \<Longrightarrow> pending_writes s' = pending_writes s \<Longrightarrow> pubs_ok s' = pubs_ok s"
  by (simp add: pubs_ok_def blocks_def)

lemma process_ok [simp]: "pubs_ok (Protocol_processPublication e publish s) = pubs_ok s"
  by (rule pubs_ok_fields) simp_all

lemma deliver_queued_ok: "pubs_ok s \<Longrightarrow> pubs_ok (deliver_queued e s)"
  by (auto simp: deliver_queued_def MQTTAsync_deliverMessage_def split: list.split)

lemma deliver_queued_fields [simp]:
  "inboundMsgs (deliver_queued e s) = inboundMsgs s" "outboundMsgs (deliver_queued e s) = outboundMsgs s"
  "publications (deliver_queued e s) = publications s" "has_ma (deliver_queued e s) = has_ma s"
  "net_connected (deliver_queued e s) = net_connected s" "connect_state (deliver_queued e s) = connect_state s"
  by (auto simp: deliver_queued_def MQTTAsync_deliverMessage_def split: list.split)

text \<open>With a callback no queued message is lost, refused ones stay at the head of the queue.\<close>

lemma deliver_queued_received: "has_ma s \<Longrightarrow> received (deliver_queued e s) = received s"
  by (auto simp: deliver_queued_def received_def MQTTAsync_deliverMessage_def split: list.split)

text \<open>An incoming QoS 2 publication is stored, or takes the place of the one with its id.\<close>

definition held :: "net_env \<Rightarrow> Publish \<Rightarrow> Publications" where
  "held e publish = \<lparr>refcount = 1, p_topic = (if on_heap e then pub_topic publish else c_bytes (pub_topic publish)),
     p_payload = pub_payload publish\<rparr>"

definition hold :: "net_env \<Rightarrow> Publish \<Rightarrow> protocol \<Rightarrow> protocol" where
  "hold e publish s =
     (let a = next_block s; f = (publications s)(a \<mapsto> held e publish); i = pub_msgId publish;
          m = \<lparr>m_qos = 2, m_retain = hdr_retain (pub_header publish), m_msgid = i, m_publish = a, m_lastTouch = 0, m_next = Some PUBREL\<rparr>
      in case find_msg i (inboundMsgs s) of
           None \<Rightarrow> s\<lparr>publications := f, next_block := Suc a, inboundMsgs := inboundMsgs s @ [m]\<rparr>
         | Some msg \<Rightarrow> s\<lparr>next_block := Suc a, publications := f(m_publish msg := None), inboundMsgs := replace_msg i m (inboundMsgs s)\<rparr>)"

lemma hold_ok: "pubs_ok s \<Longrightarrow> pubs_ok (hold e publish s)"
  using store_add_in [of s "\<lparr>m_qos = 2, m_retain = hdr_retain (pub_header publish), m_msgid = pub_msgId publish, m_publish = next_block s,
        m_lastTouch = 0, m_next = Some PUBREL\<rparr>" "held e publish"]
    store_replace_in [of s "\<lparr>m_qos = 2, m_retain = hdr_retain (pub_header publish), m_msgid = pub_msgId publish, m_publish = next_block s,
        m_lastTouch = 0, m_next = Some PUBREL\<rparr>" _ "held e publish"]
  by (auto simp: hold_def held_def Let_def split: option.split)

lemma handlePublishes_qos2:
  assumes "pubs_ok s" and "hdr_qos (pub_header publish) = 2" and "no_pending e s"
  shows "MQTTProtocol_handlePublishes e publish s = Some (send e (MQTTPacket_send_pubrec (pub_msgId publish)) (hold e publish s))"
proof (cases "find_msg (pub_msgId publish) (inboundMsgs s)")
  case None
  then show ?thesis using assms
    by (simp add: MQTTProtocol_handlePublishes_def MQTTProtocol_storePublication_def Let_def hold_def held_def)
next
  case (Some m)
  then obtain p where p: "publications s (m_publish m) = Some p" "refcount p = 1"
    using pubs_ok_block [OF assms(1) in_blocks(1)] by blast
  have "m_publish m \<noteq> next_block s"
    using assms(1) in_blocks(1) [OF Some] blocks_ok_fresh [of "publications s" "next_block s" "blocks s"] by (auto simp: pubs_ok_def)
  then show ?thesis using assms Some p
    by (simp add: MQTTProtocol_handlePublishes_def MQTTProtocol_storePublication_def MQTTProtocol_removePublication_def Let_def hold_def held_def)
qed

lemma handlePublishes_ok: "pubs_ok s \<Longrightarrow> keeps_pubs (MQTTProtocol_handlePublishes e publish s)"
  using handlePublishes_qos2 [of s publish e] hold_ok [of s e publish]
  by (cases "hdr_qos (pub_header publish) = 2 \<and> no_pending e s")
    (auto simp: MQTTProtocol_handlePublishes_def Let_def split_beta)

lemma find_msg_id: "find_msg i ms = Some m \<Longrightarrow> m_msgid m = i"
  by (auto dest!: find_msg_split)

text \<open>What an acknowledgement does when it is the one the message waits on.\<close>

definition release :: "nat \<Rightarrow> Messages \<Rightarrow> protocol \<Rightarrow> protocol" where
  "release i m s = s\<lparr>publications := (publications s)(m_publish m := None), outboundMsgs := remove_msg i (outboundMsgs s)\<rparr>"

lemma release_ok: "pubs_ok s \<Longrightarrow> find_msg i (outboundMsgs s) = Some m \<Longrightarrow> pubs_ok (release i m s)"
  by (simp add: release_def store_remove_out)

lemma handlePubacks_effect:
  "pubs_ok s \<Longrightarrow> MQTTProtocol_handlePubacks e i s =
    (case find_msg i (outboundMsgs s) of
       Some m \<Rightarrow> if m_qos m = 1 then Some (TCPSOCKET_COMPLETE, release i m s) else Some (TCPSOCKET_COMPLETE, s)
     | None \<Rightarrow> Some (TCPSOCKET_COMPLETE, s))"
  using remove_ok [of s, OF _ in_blocks(2)]
  by (simp add: MQTTProtocol_handlePubacks_def release_def split: option.split)

lemma handlePubcomps_effect:
  "pubs_ok s \<Longrightarrow> MQTTProtocol_handlePubcomps e i s =
    (case find_msg i (outboundMsgs s) of
       Some m \<Rightarrow> if m_qos m = 2 \<and> m_next m = Some PUBCOMP then Some (TCPSOCKET_COMPLETE, (release i m s)\<lparr>msgs_sent := msgs_sent s + 1\<rparr>)
                else Some (TCPSOCKET_COMPLETE, s)
     | None \<Rightarrow> Some (TCPSOCKET_COMPLETE, s))"
  using remove_ok [of s, OF _ in_blocks(2)]
  by (simp add: MQTTProtocol_handlePubcomps_def release_def split: option.split)

lemma handlePubrels_effect:
  assumes "pubs_ok s" and "find_msg i (inboundMsgs s) = Some m" and "m_qos m = 2" and "m_next m = Some PUBREL" and "no_pending e s"
  shows "\<exists>rc s' p. MQTTProtocol_handlePubrels e dup i s = Some (rc, s') \<and> publications s (m_publish m) = Some p \<and>
    received s' = received s @ [\<lparr>mm_topic = p_topic p, mm_payload = p_payload p, mm_qos = 2, mm_retained = m_retain m, mm_dup = False, mm_msgid = i\<rparr>] \<and>
    inboundMsgs s' = remove_msg i (inboundMsgs s) \<and> publications s' = (publications s)(m_publish m := None) \<and>
    wire s' = wire s @ [MQTTPacket_send_pubcomp i] \<and> next_block s' = next_block s \<and> outboundMsgs s' = outboundMsgs s \<and>
    has_ma s' = has_ma s \<and> pubs_ok s'"
proof -
  obtain p where p: "publications s (m_publish m) = Some p" using pubs_ok_block [OF assms(1) in_blocks(1) [OF assms(2)]] by blast
  let ?pub = "\<lparr>pub_header = \<lparr>hdr_type = 0, hdr_dup = False, hdr_qos = 2, hdr_retain = m_retain m\<rparr>,
    pub_topic = p_topic p, pub_msgId = i, pub_payload = p_payload p\<rparr>"
  let ?s = "Protocol_processPublication e ?pub (snd (send e (MQTTPacket_send_pubcomp i) s))"
  have "pubs_ok ?s" "received (snd (send e pkt s)) = received s" for pkt using assms(1) by (simp_all add: received_def)
  with store_remove_in [of ?s i m] show ?thesis
    using assms p find_msg_id [OF assms(2)] process_received [of e ?pub]
    by (simp add: MQTTProtocol_handlePubrels_def Let_def split_beta received_def)
qed

lemma handlePubrecs_ok: "pubs_ok s \<Longrightarrow> keeps_pubs (MQTTProtocol_handlePubrecs e i s)"
  by (auto simp: MQTTProtocol_handlePubrecs_def split_beta find_msg_id replace_same split: option.split intro!: store_same_out)

lemma handlePubrels_ok: "pubs_ok s \<Longrightarrow> keeps_pubs (MQTTProtocol_handlePubrels e dup i s)"
proof (cases "\<exists>m. find_msg i (inboundMsgs s) = Some m \<and> m_qos m = 2 \<and> m_next m = Some PUBREL \<and> no_pending e s")
  case True
  then show "pubs_ok s \<Longrightarrow> ?thesis" using handlePubrels_effect [of s i _ e dup] by auto
next
  case False
  then show "pubs_ok s \<Longrightarrow> ?thesis" by (auto simp: MQTTProtocol_handlePubrels_def split: option.split)
qed

lemma cycle_dispatch_ok: "pubs_ok s \<Longrightarrow> keeps_pubs (cycle_dispatch e pack s)"
  by (auto simp: cycle_dispatch_def handlePublishes_ok handlePubrecs_ok handlePubrels_ok handlePubacks_effect handlePubcomps_effect
      release_ok MQTTProtocol_handlePingresps_def split: packet.split option.split)

lemma keepalive_ok: "pubs_ok s \<Longrightarrow> pubs_ok (MQTTProtocol_keepalive e now s)"
  by (auto simp: MQTTProtocol_keepalive_def split_beta)

lemma remove_publications_ok:
  "blocks_ok (publications s) n (map m_publish ms @ rest) \<Longrightarrow>
   \<exists>f. remove_publications ms s = Some (s\<lparr>publications := f\<rparr>) \<and> blocks_ok f n rest"
proof (induction ms arbitrary: s)
  case Nil
  then show ?case by (auto intro!: exI [of _ "publications s"])
next
  case (Cons m ms)
  then obtain p where p: "publications s (m_publish m) = Some p" "refcount p = 1"
    using blocks_ok_get [OF Cons.prems, of "m_publish m"] by auto
  let ?s = "s\<lparr>publications := (publications s)(m_publish m := None)\<rparr>"
  have "blocks_ok (publications ?s) n (map m_publish ms @ rest)"
    using blocks_ok_remove [of _ _ "[]"] Cons.prems by simp
  from Cons.IH [OF this] p show ?case by (simp add: MQTTProtocol_removePublication_def)
qed

lemma clear_session_ok:
  assumes "pubs_ok s"
  shows "\<exists>s'. clear_session s = Some s' \<and> pubs_ok s' \<and> inboundMsgs s' = [] \<and> outboundMsgs s' = [] \<and>
    dom (publications s') = set (pending_writes s)"
proof -
  let ?o = "map m_publish (outboundMsgs s) @ pending_writes s"
  obtain f where f: "remove_publications (inboundMsgs s) s = Some (s\<lparr>publications := f\<rparr>)" "blocks_ok f (next_block s) ?o"
    using remove_publications_ok [of s _ _ ?o] assms by (auto simp: pubs_ok_def blocks_def)
  then obtain g where g: "remove_publications (outboundMsgs s) (s\<lparr>publications := f, inboundMsgs := []\<rparr>) =
      Some (s\<lparr>publications := f, inboundMsgs := [], publications := g\<rparr>)" "blocks_ok g (next_block s) (pending_writes s)"
    using remove_publications_ok [of "s\<lparr>publications := f, inboundMsgs := []\<rparr>" "next_block s" "outboundMsgs s" "pending_writes s"] by auto
  then show ?thesis using f by (simp add: clear_session_def pubs_ok_def blocks_def blocks_ok_def)
qed

lemma pending_loop_ok:
  "blocks_ok (publications s) n (xs @ keep @ as) \<Longrightarrow>
   \<exists>f ws. pending_loop e keep as s = Some (s\<lparr>publications := f, pending_writes := ws\<rparr>) \<and> blocks_ok f n (xs @ ws)"
proof (induction as arbitrary: keep s)
  case Nil
  then show ?case by (auto intro!: exI [of _ "publications s"])
next
  case (Cons a as)
  then obtain p where p: "publications s a = Some p" "refcount p = 1"
    using blocks_ok_get [OF Cons.prems, of a] by auto
  let ?s = "s\<lparr>publications := (publications s)(a := None)\<rparr>"
  have "blocks_ok (publications ?s) n (xs @ keep @ as)"
    using blocks_ok_remove [of _ _ "xs @ keep"] Cons.prems by simp
  from Cons.IH [OF this] Cons.IH [of s "keep @ [a]"] Cons.prems p show ?case
    by (simp add: MQTTProtocol_removePublication_def)
qed

lemma checkPendingWrites_ok: "pubs_ok s \<Longrightarrow> \<exists>s'. MQTTProtocol_checkPendingWrites e s = Some s' \<and> pubs_ok s'"
  using pending_loop_ok [of s "next_block s" "map m_publish (inboundMsgs s) @ map m_publish (outboundMsgs s)" "[]" "pending_writes s" e]
  by (fastforce simp: MQTTProtocol_checkPendingWrites_def pubs_ok_def blocks_def)

lemma closeOnly_ok: "pubs_ok s \<Longrightarrow> \<exists>s'. MQTTAsync_closeOnly e s = Some s' \<and> pubs_ok s'"
  using checkPendingWrites_ok [of "s\<lparr>good := False, ping_outstanding := False\<rparr>" e] by (auto simp: MQTTAsync_closeOnly_def Let_def)

text \<open>The calls that reach a client: from the application, from the network, from its own timer.\<close>

datatype request =
    Send_request Publish nat bool
  | Packet_request packet
  | Keepalive_request int
  | Retry_request int bool bool
  | Deliver_request
  | Resume_request
  | Clear_request
  | Close_request

definition perform :: "net_env \<Rightarrow> request \<Rightarrow> protocol \<Rightarrow> protocol option" where
  "perform e r s =
     (case r of
        Send_request publish qos retained \<Rightarrow> map_option snd (MQTTProtocol_startPublish e publish qos retained None s)
      | Packet_request pack \<Rightarrow> map_option snd (cycle_dispatch e pack s)
      | Keepalive_request now \<Rightarrow> Some (MQTTProtocol_keepalive e now s)
      | Retry_request now doRetry regardless \<Rightarrow> MQTTProtocol_retry e now doRetry regardless s
      | Deliver_request \<Rightarrow> Some (deliver_queued e s)
      | Resume_request \<Rightarrow> resume_session e s
      | Clear_request \<Rightarrow> clear_session s
      | Close_request \<Rightarrow> MQTTAsync_closeOnly e s)"

fun fresh_id :: "request \<Rightarrow> protocol \<Rightarrow> bool" where
  "fresh_id (Send_request publish qos retained) s \<longleftrightarrow> qos = 0 \<or> find_msg (pub_msgId publish) (outboundMsgs s) = None"
| "fresh_id _ s \<longleftrightarrow> True"


end
