(* ===== verification/MqttAsync.thy ===== *)
theory MqttAsync
  imports MqttProtocol Utf8
begin

text \<open>
  The asynchronous client, \<open>sharelibs/mqtt-c/source/MQTTAsync.c\<close> with
  \<open>MQTTProtocolOut.c\<close>, for the one handle the hub creates: the queue of commands, the
  commands that wait for a response, connecting, reconnecting and closing, the bodies of the
  sending and the receiving thread (both run under \<open>mqttasync_mutex\<close>), the calls of the
  application. Callbacks are recorded in the order in which they are called. The build has no
  OPENSSL, the client no persistence. \<open>None\<close> is a use of freed memory, a read or a write
  outside of a buffer, or a search for a message id that never ends.
\<close>

section \<open>Definitions\<close>

abbreviation (input) MQTTASYNC_DISCONNECTED :: int where "MQTTASYNC_DISCONNECTED \<equiv> - 3"
abbreviation (input) MQTTASYNC_PERSISTENCE_ERROR :: int where "MQTTASYNC_PERSISTENCE_ERROR \<equiv> - 2"
abbreviation (input) MQTTASYNC_BAD_UTF8_STRING :: int where "MQTTASYNC_BAD_UTF8_STRING \<equiv> - 5"
abbreviation (input) MQTTASYNC_NULL_PARAMETER :: int where "MQTTASYNC_NULL_PARAMETER \<equiv> - 6"
abbreviation (input) MQTTASYNC_BAD_STRUCTURE :: int where "MQTTASYNC_BAD_STRUCTURE \<equiv> - 8"
abbreviation (input) MQTTASYNC_BAD_QOS :: int where "MQTTASYNC_BAD_QOS \<equiv> - 9"
abbreviation (input) MQTTASYNC_NO_MORE_MSGIDS :: int where "MQTTASYNC_NO_MORE_MSGIDS \<equiv> - 10"
abbreviation (input) MQTTASYNC_OPERATION_INCOMPLETE :: int where "MQTTASYNC_OPERATION_INCOMPLETE \<equiv> - 11"
abbreviation (input) MQTTASYNC_MAX_BUFFERED_MESSAGES :: int where "MQTTASYNC_MAX_BUFFERED_MESSAGES \<equiv> - 12"
abbreviation (input) MQTTASYNC_SSL_NOT_SUPPORTED :: int where "MQTTASYNC_SSL_NOT_SUPPORTED \<equiv> - 13"
abbreviation (input) MQTTASYNC_BAD_PROTOCOL :: int where "MQTTASYNC_BAD_PROTOCOL \<equiv> - 14"
abbreviation (input) EWOULDBLOCK :: int where "EWOULDBLOCK \<equiv> 11"
abbreviation (input) EINPROGRESS :: int where "EINPROGRESS \<equiv> 115"

text \<open>
  The union of a command: its type and the fields of that type. A command that was only zeroed
  has type 0; its connect options are read all the same.
\<close>

datatype details =
    Unset nat nat
  | Conn nat nat
  | Sub "byte list list" "nat list"
  | Unsub "byte list list"
  | Pub "byte list" "byte list" nat bool
  | Dis bool int

fun cmd_type :: "details \<Rightarrow> nat" where
  "cmd_type (Unset currentURI version) = 0"
| "cmd_type (Conn currentURI version) = msg_code CONNECT"
| "cmd_type (Sub topics qoss) = msg_code SUBSCRIBE"
| "cmd_type (Unsub topics) = msg_code UNSUBSCRIBE"
| "cmd_type (Pub destinationName payload qos retained) = msg_code PUBLISH"
| "cmd_type (Dis internal timeout) = msg_code DISCONNECT"

text \<open>Of the callbacks of a command only whether they are set.\<close>

record MQTTAsync_command =
  cmd_token :: nat
  cmd_onSuccess :: bool
  cmd_onFailure :: bool
  cmd_start :: int
  cmd_details :: details

datatype callback =
    Success_cb nat
  | Failure_cb nat "int option"
  | Connect_success_cb
  | Connect_failure_cb int
  | Connected_cb
  | Connection_lost_cb
  | Disconnected_cb
  | Delivery_complete_cb nat

text \<open>
  \<open>pending_write\<close> points to a command; the flag says whether it is still allocated. The
  login strings of a client may dangle as well.
\<close>

record MQTTAsyncs =
  ac :: protocol
  commands :: "MQTTAsync_command list"
  responses :: "MQTTAsync_command list"
  pending_write :: "(MQTTAsync_command \<times> bool) option"
  conn_cmd :: MQTTAsync_command
  disc_cmd :: MQTTAsync_command
  has_cl :: bool
  has_dc :: bool
  has_connected :: bool
  serverURI :: string
  serverURIs :: "string list"
  MQTTVersion :: nat
  login :: Clients
  stale_username :: bool
  stale_password :: bool
  createOptions :: "(bool \<times> int) option"
  shouldBeConnected :: bool
  automaticReconnect :: bool
  minRetryInterval :: int
  maxRetryInterval :: int
  connectTimeout :: int
  currentInterval :: int
  lastConnectionFailedTime :: int
  retrying :: bool
  reconnectNow :: bool
  last_timeouts :: int
  last_retry :: int
  retryLoopInterval :: int
  callbacks :: "callback list"

text \<open>
  The socket layer as the client sees it: writes and clock of the protocol, the clock in
  milliseconds, the results of \<open>Socket_new\<close> and of \<open>getsockopt\<close>.
\<close>

record async_env =
  net :: net_env
  clock_ms :: int
  socket_new :: "string \<Rightarrow> int \<Rightarrow> int"
  sock_error :: int

definition MQTTAsync_elapsed :: "async_env \<Rightarrow> int \<Rightarrow> int" where
  "MQTTAsync_elapsed e start = clock_ms e - start"

definition call :: "callback \<Rightarrow> MQTTAsyncs \<Rightarrow> MQTTAsyncs" where
  "call cb a = a\<lparr>callbacks := callbacks a @ [cb]\<rparr>"

subsection \<open>The queue of commands\<close>

definition MQTTAsync_addCommand :: "async_env \<Rightarrow> MQTTAsync_command \<Rightarrow> MQTTAsyncs \<Rightarrow> MQTTAsyncs" where
  "MQTTAsync_addCommand e command a =
     (let ty = cmd_type (cmd_details command);
          command1 = (if ty \<noteq> msg_code CONNECT \<or> connect_state (ac a) = 0 then command\<lparr>cmd_start := clock_ms e\<rparr> else command)
      in if ty = msg_code CONNECT \<or> (case cmd_details command of Dis internal timeout \<Rightarrow> internal | _ \<Rightarrow> False)
         then (case commands a of
                 head # _ \<Rightarrow> if cmd_type (cmd_details head) = ty then a else a\<lparr>commands := command1 # commands a\<rparr>
               | [] \<Rightarrow> a\<lparr>commands := [command1]\<rparr>)
         else a\<lparr>commands := commands a @ [command1]\<rparr>)"

definition new_command :: "nat \<Rightarrow> (bool \<times> bool) option \<Rightarrow> details \<Rightarrow> MQTTAsync_command" where
  "new_command token response d =
     \<lparr>cmd_token = token, cmd_onSuccess = (case response of Some (ok, _) \<Rightarrow> ok | None \<Rightarrow> False),
      cmd_onFailure = (case response of Some (_, bad) \<Rightarrow> bad | None \<Rightarrow> False), cmd_start = 0, cmd_details = d\<rparr>"

definition MQTTAsync_disconnect1 ::
    "async_env \<Rightarrow> (bool \<times> bool) option \<Rightarrow> int \<Rightarrow> bool \<Rightarrow> MQTTAsyncs \<Rightarrow> int \<times> MQTTAsyncs" where
  "MQTTAsync_disconnect1 e response timeout internal a =
     (let a1 = (if internal then a else a\<lparr>shouldBeConnected := False\<rparr>)
      in if \<not> net_connected (ac a1) then (MQTTASYNC_DISCONNECTED, a1)
         else (0, MQTTAsync_addCommand e (new_command 0 response (Dis internal timeout)) a1))"

definition MQTTAsync_disconnect_internal :: "async_env \<Rightarrow> int \<Rightarrow> MQTTAsyncs \<Rightarrow> MQTTAsyncs" where
  "MQTTAsync_disconnect_internal e timeout a = snd (MQTTAsync_disconnect1 e None timeout True a)"

definition MQTTAsync_disconnect :: "async_env \<Rightarrow> (bool \<times> bool) option \<Rightarrow> int \<Rightarrow> MQTTAsyncs \<Rightarrow> int \<times> MQTTAsyncs" where
  "MQTTAsync_disconnect e response timeout a = MQTTAsync_disconnect1 e response timeout False a"

text \<open>
  A protocol operation that asks for the session to be closed queues an internal disconnect;
  further requests find it at the head of the queue and are dropped.
\<close>

definition take_protocol :: "async_env \<Rightarrow> protocol \<Rightarrow> MQTTAsyncs \<Rightarrow> MQTTAsyncs" where
  "take_protocol e s a =
     (let a1 = a\<lparr>ac := s\<rparr>
      in if close_requests s > close_requests (ac a) then MQTTAsync_disconnect_internal e 0 a1 else a1)"

subsection \<open>Closing\<close>

definition fail_incomplete :: "MQTTAsync_command list \<Rightarrow> callback list" where
  "fail_incomplete cmds = map (\<lambda>c. Failure_cb (cmd_token c) (Some MQTTASYNC_OPERATION_INCOMPLETE)) (filter cmd_onFailure cmds)"

definition MQTTAsync_removeResponsesAndCommands :: "MQTTAsyncs \<Rightarrow> MQTTAsyncs" where
  "MQTTAsync_removeResponsesAndCommands a =
     a\<lparr>responses := [], commands := [], callbacks := callbacks a @ fail_incomplete (responses a) @ fail_incomplete (commands a),
       pending_write := map_option (\<lambda>(c, valid). (c, False)) (pending_write a)\<rparr>"

definition MQTTAsync_cleanSession :: "MQTTAsyncs \<Rightarrow> MQTTAsyncs option" where
  "MQTTAsync_cleanSession a =
     map_option (\<lambda>s. MQTTAsync_removeResponsesAndCommands (a\<lparr>ac := s\<rparr>)) (clear_session (ac a))"

definition MQTTAsync_closeSession :: "async_env \<Rightarrow> MQTTAsyncs \<Rightarrow> MQTTAsyncs option" where
  "MQTTAsync_closeSession e a = do {
     s \<leftarrow> MQTTAsync_closeOnly (net e) (ac a);
     let a1 = a\<lparr>ac := s\<rparr>;
     if cleansession s then MQTTAsync_cleanSession a1 else Some a1 }"

text \<open>The handle is closed, its commands fail, then its memory is freed.\<close>

definition MQTTAsync_destroy :: "async_env \<Rightarrow> MQTTAsyncs \<Rightarrow> MQTTAsyncs option" where
  "MQTTAsync_destroy e a = do {
     a1 \<leftarrow> MQTTAsync_closeSession e a;
     let a2 = MQTTAsync_removeResponsesAndCommands a1;
     s \<leftarrow> clear_session (ac a2);
     Some (a2\<lparr>ac := s\<rparr>) }"

definition MQTTAsync_startConnectRetry :: "async_env \<Rightarrow> MQTTAsyncs \<Rightarrow> MQTTAsyncs" where
  "MQTTAsync_startConnectRetry e a =
     (if automaticReconnect a \<and> shouldBeConnected a
      then let a1 = a\<lparr>lastConnectionFailedTime := clock_ms e\<rparr>
           in if retrying a1 then a1\<lparr>currentInterval := min (wrap32 (currentInterval a1 * 2)) (maxRetryInterval a1)\<rparr>
              else a1\<lparr>currentInterval := minRetryInterval a1, retrying := True\<rparr>
      else a)"

definition MQTTAsync_checkDisconnect :: "async_env \<Rightarrow> MQTTAsync_command \<Rightarrow> MQTTAsyncs \<Rightarrow> MQTTAsyncs option" where
  "MQTTAsync_checkDisconnect e command a =
     (case cmd_details command of
        Dis internal timeout \<Rightarrow>
          if outboundMsgs (ac a) = [] \<or> MQTTAsync_elapsed e (cmd_start command) \<ge> timeout
          then do {
            let was_connected = net_connected (ac a);
            a1 \<leftarrow> MQTTAsync_closeSession e a;
            Some (if internal
                  then MQTTAsync_startConnectRetry e (if has_cl a1 \<and> was_connected then call Connection_lost_cb a1 else a1)
                  else if cmd_onSuccess command then call Disconnected_cb a1 else a1) }
          else Some a
      | _ \<Rightarrow> Some a)"

subsection \<open>Connecting\<close>

definition MQTTAsync_checkConn :: "MQTTAsync_command \<Rightarrow> MQTTAsyncs \<Rightarrow> bool" where
  "MQTTAsync_checkConn command a =
     (case cmd_details command of
        Conn currentURI version \<Rightarrow> currentURI + 1 < length (serverURIs a) \<or> version = 4 \<and> MQTTVersion a = 0
      | Unset currentURI version \<Rightarrow> currentURI + 1 < length (serverURIs a) \<or> version = 4 \<and> MQTTVersion a = 0
      | _ \<Rightarrow> False)"

definition MQTT_DEFAULT_PORT :: int where "MQTT_DEFAULT_PORT = 1883"

text \<open>A URI without characters before the port makes the function read before its buffer.\<close>

definition MQTTProtocol_addressPort :: "string \<Rightarrow> (string \<times> int) option" where
  "MQTTProtocol_addressPort uri =
     (let colon = strrchr uri CHR '':'';
          colon_pos = (if take 1 uri = ''['' \<and>
              (case (colon, strrchr uri CHR '']'') of (Some c, Some b) \<Rightarrow> length c > length b | _ \<Rightarrow> False)
            then None else colon);
          (buf, port) = (case colon_pos of
              Some c \<Rightarrow> (take (length uri - length c) uri, atoi (tl c))
            | None \<Rightarrow> (uri, MQTT_DEFAULT_PORT))
      in if buf = [] then None
         else Some (if last buf = CHR '']'' then butlast buf else buf, port))"

text \<open>The CONNECT packet; the login strings are read.\<close>

definition write_connect :: "async_env \<Rightarrow> nat \<Rightarrow> MQTTAsyncs \<Rightarrow> (int \<times> protocol) option" where
  "write_connect e version a =
     (if stale_username a \<or> stale_password a then None
      else case MQTTPacket_send_connect (login a) version of
             None \<Rightarrow> None
           | Some None \<Rightarrow> Some (SOCKET_ERROR, ac a)
           | Some (Some pkt) \<Rightarrow> Some (send (net e) pkt (ac a)))"

definition MQTTProtocol_connect :: "async_env \<Rightarrow> string \<Rightarrow> nat \<Rightarrow> MQTTAsyncs \<Rightarrow> (int \<times> MQTTAsyncs) option" where
  "MQTTProtocol_connect e ip_address version a = do {
     (addr, port) \<leftarrow> MQTTProtocol_addressPort ip_address;
     let rc = socket_new e addr port;
     let a1 = a\<lparr>ac := (ac a)\<lparr>good := True, socket_open := (rc = 0 \<or> rc = EINPROGRESS \<or> rc = EWOULDBLOCK)\<rparr>\<rparr>;
     if rc = EINPROGRESS \<or> rc = EWOULDBLOCK then Some (rc, a1\<lparr>ac := (ac a1)\<lparr>connect_state := 1\<rparr>\<rparr>)
     else if rc = 0 then do {
       (rc, s) \<leftarrow> write_connect e version a1;
       Some (rc, a1\<lparr>ac := s\<lparr>connect_state := (if rc = 0 then 3 else 0)\<rparr>\<rparr>) }
     else Some (rc, a1) }"

definition strip_tcp :: "string \<Rightarrow> string" where
  "strip_tcp uri = (if str_starts ''tcp://'' uri then drop 6 uri else uri)"

definition next_version :: "nat \<Rightarrow> nat \<Rightarrow> nat" where
  "next_version configured version =
     (if configured = 0 then if version = 0 then 4 else if version = 4 then 3 else version else configured)"

text \<open>The options left for the next attempt after a failed one.\<close>

fun next_attempt :: "nat \<Rightarrow> details \<Rightarrow> details" where
  "next_attempt configured (Conn currentURI version) =
     (if configured = 0 then if version = 3 then Conn (currentURI + 1) 0 else Conn currentURI version
      else Conn (currentURI + 1) version)"
| "next_attempt configured (Unset currentURI version) =
     (if configured = 0 then if version = 3 then Unset (currentURI + 1) 0 else Unset currentURI version
      else Unset (currentURI + 1) version)"
| "next_attempt configured d = d"

definition nextOrClose :: "async_env \<Rightarrow> int \<Rightarrow> MQTTAsyncs \<Rightarrow> MQTTAsyncs option" where
  "nextOrClose e rc a =
     (if MQTTAsync_checkConn (conn_cmd a) a
      then do {
        s \<leftarrow> MQTTAsync_closeOnly (net e) (ac a);
        Some (MQTTAsync_addCommand e ((conn_cmd a)\<lparr>cmd_details := next_attempt (MQTTVersion a) (cmd_details (conn_cmd a))\<rparr>) (a\<lparr>ac := s\<rparr>)) }
      else do {
        a1 \<leftarrow> MQTTAsync_closeSession e a;
        Some (MQTTAsync_startConnectRetry e (if cmd_onFailure (conn_cmd a1) then call (Connect_failure_cb rc) a1 else a1)) })"

text \<open>Once the TCP connection is there (state 1), the CONNECT packet is written.\<close>

definition conn_version :: "details \<Rightarrow> nat" where
  "conn_version d = (case d of Conn _ version \<Rightarrow> version | Unset _ version \<Rightarrow> version | _ \<Rightarrow> 0)"

definition MQTTAsync_connecting :: "async_env \<Rightarrow> MQTTAsyncs \<Rightarrow> (int \<times> MQTTAsyncs) option" where
  "MQTTAsync_connecting e a = do {
     (rc, a1) \<leftarrow>
       (if connect_state (ac a) = 1
        then if sock_error e \<noteq> 0 then Some (sock_error e, a)
             else do {
               let a1 = a\<lparr>ac := (ac a)\<lparr>connect_state := 3\<rparr>\<rparr>;
               (rc, s) \<leftarrow> write_connect e (conn_version (cmd_details (conn_cmd a1))) a1;
               Some (rc, a1\<lparr>ac := s\<rparr>) }
        else Some (- 1, a));
     a2 \<leftarrow> (if rc \<noteq> 0 \<and> rc \<noteq> TCPSOCKET_INTERRUPTED then nextOrClose e (- 1) a1 else Some a1);
     Some (rc, a2) }"

definition MQTTAsync_completeConnection :: "async_env \<Rightarrow> int \<Rightarrow> MQTTAsyncs \<Rightarrow> (int \<times> MQTTAsyncs) option" where
  "MQTTAsync_completeConnection e connack_rc a =
     (if connect_state (ac a) = 3
      then if connack_rc = 0 then do {
             let a1 = a\<lparr>retrying := False, ac := (ac a)\<lparr>net_connected := True, good := True, connect_state := 0\<rparr>\<rparr>;
             a2 \<leftarrow> (if cleansession (ac a1) then MQTTAsync_cleanSession a1 else Some a1);
             s \<leftarrow> resume_session (net e) (ac a2);
             Some (if outboundMsgs (ac a2) \<noteq> [] \<and> \<not> net_connected s then MQTTASYNC_DISCONNECTED else 0, take_protocol e s a2) }
           else Some (connack_rc, a)
      else Some (- 1, a))"

text \<open>The last connect command again; the attempts at a version start over.\<close>

definition restart_command :: "MQTTAsyncs \<Rightarrow> MQTTAsync_command" where
  "restart_command a =
     (conn_cmd a)\<lparr>cmd_details := (case cmd_details (conn_cmd a) of
        Conn currentURI version \<Rightarrow> Conn currentURI (if MQTTVersion a = 0 then 0 else version)
      | Unset currentURI version \<Rightarrow> Unset currentURI (if MQTTVersion a = 0 then 0 else version)
      | d \<Rightarrow> d)\<rparr>"

definition MQTTAsync_reconnect :: "async_env \<Rightarrow> MQTTAsyncs \<Rightarrow> int \<times> MQTTAsyncs" where
  "MQTTAsync_reconnect e a =
     (if automaticReconnect a
      then if shouldBeConnected a
           then let a1 = a\<lparr>reconnectNow := True\<rparr>
                in (0, if retrying a1 then a1 else a1\<lparr>currentInterval := minRetryInterval a1, retrying := True\<rparr>)
           else (- 1, a)
      else (0, MQTTAsync_addCommand e (restart_command a) a))"

subsection \<open>The sending thread\<close>

text \<open>
  Only the first command of a client is looked at. CONNECT and DISCONNECT are always taken, the
  others when the client is connected, no write is pending and message ids are left.
\<close>

definition eligible :: "async_env \<Rightarrow> MQTTAsync_command \<Rightarrow> MQTTAsyncs \<Rightarrow> bool" where
  "eligible e cmd a =
     (let ty = cmd_type (cmd_details cmd)
      in (ty = msg_code CONNECT \<or> ty = msg_code DISCONNECT \<or> net_connected (ac a) \<and> connect_state (ac a) = 0 \<and> no_pending (net e) (ac a)) \<and>
         \<not> ((ty = msg_code PUBLISH \<or> ty = msg_code SUBSCRIBE \<or> ty = msg_code UNSUBSCRIBE) \<and> length (outboundMsgs (ac a)) \<ge> MAX_MSG_ID - 1))"

text \<open>The command is carried out: the result and the command, whose connect options may change.\<close>

definition run_connect :: "async_env \<Rightarrow> MQTTAsync_command \<Rightarrow> nat \<Rightarrow> nat \<Rightarrow> MQTTAsyncs \<Rightarrow> (int \<times> MQTTAsync_command \<times> MQTTAsyncs) option" where
  "run_connect e cmd currentURI version a =
     (if connect_state (ac a) \<noteq> 0 \<or> net_connected (ac a) then Some (0, cmd, a)
      else do {
        uri \<leftarrow> (if serverURIs a = [] then Some (serverURI a)
                else if currentURI < length (serverURIs a) then Some (strip_tcp (serverURIs a ! currentURI)) else None);
        let v = next_version (MQTTVersion a) version;
        (rc, a1) \<leftarrow> MQTTProtocol_connect e uri v a;
        Some (if connect_state (ac a1) = 0 then SOCKET_ERROR else rc, cmd\<lparr>cmd_details := Conn currentURI v\<rparr>, a1) })"

definition run_publish ::
    "async_env \<Rightarrow> MQTTAsync_command \<Rightarrow> byte list \<Rightarrow> byte list \<Rightarrow> nat \<Rightarrow> bool \<Rightarrow> MQTTAsyncs \<Rightarrow> (int \<times> MQTTAsync_command \<times> MQTTAsyncs) option" where
  "run_publish e cmd destinationName payload qos retained a = do {
     (rc, s) \<leftarrow> MQTTProtocol_startPublish (net e)
       \<lparr>pub_header = plain_header PUBLISH, pub_topic = destinationName, pub_msgId = cmd_token cmd, pub_payload = payload\<rparr> qos retained None (ac a);
     let a1 = a\<lparr>ac := s\<rparr>;
     Some (rc, cmd,
       if qos = 0
       then if rc = TCPSOCKET_COMPLETE then (if cmd_onSuccess cmd then call (Success_cb (cmd_token cmd)) a1 else a1)
            else a1\<lparr>pending_write := Some (cmd, True)\<rparr>
       else a1) }"

definition run_disconnect :: "async_env \<Rightarrow> MQTTAsync_command \<Rightarrow> MQTTAsyncs \<Rightarrow> (int \<times> MQTTAsync_command \<times> MQTTAsyncs) option" where
  "run_disconnect e cmd a =
     (if connect_state (ac a) \<noteq> 0 \<or> net_connected (ac a)
      then do {
        let a1 = (if connect_state (ac a) \<noteq> 0
          then (let a1 = a\<lparr>ac := (ac a)\<lparr>connect_state := - 2\<rparr>\<rparr>
                in if cmd_onFailure (conn_cmd a1) then call (Connect_failure_cb (- 2)) a1 else a1)
          else a);
        a2 \<leftarrow> MQTTAsync_checkDisconnect e cmd a1;
        Some (0, cmd, a2) }
      else Some (0, cmd, a))"

definition run_command :: "async_env \<Rightarrow> MQTTAsync_command \<Rightarrow> MQTTAsyncs \<Rightarrow> (int \<times> MQTTAsync_command \<times> MQTTAsyncs) option" where
  "run_command e cmd a =
     (case cmd_details cmd of
        Unset _ _ \<Rightarrow> Some (0, cmd, a)
      | Conn currentURI version \<Rightarrow> run_connect e cmd currentURI version a
      | Sub topics qoss \<Rightarrow> do {
          pkt \<leftarrow> MQTTPacket_send_subscribe topics qoss (cmd_token cmd) False;
          Some (case send (net e) pkt (ac a) of (rc, s) \<Rightarrow> (rc, cmd, a\<lparr>ac := s\<rparr>)) }
      | Unsub topics \<Rightarrow> do {
          pkt \<leftarrow> MQTTPacket_send_unsubscribe topics (cmd_token cmd) False;
          Some (case send (net e) pkt (ac a) of (rc, s) \<Rightarrow> (rc, cmd, a\<lparr>ac := s\<rparr>)) }
      | Pub destinationName payload qos retained \<Rightarrow> run_publish e cmd destinationName payload qos retained a
      | Dis internal timeout \<Rightarrow> run_disconnect e cmd a)"

text \<open>A command that is freed leaves the pointer of a pending write to it behind.\<close>

definition free_command :: "MQTTAsync_command \<Rightarrow> MQTTAsyncs \<Rightarrow> MQTTAsyncs" where
  "free_command cmd a =
     (case pending_write a of
        Some (c, valid) \<Rightarrow> if c = cmd then a\<lparr>pending_write := Some (c, False)\<rparr> else a
      | None \<Rightarrow> a)"

text \<open>Afterwards it is kept, waits for its response, is tried again or fails.\<close>

definition finish_command :: "async_env \<Rightarrow> int \<Rightarrow> MQTTAsync_command \<Rightarrow> MQTTAsyncs \<Rightarrow> MQTTAsyncs" where
  "finish_command e rc cmd a =
     (let ty = cmd_type (cmd_details cmd); failed = (rc = SOCKET_ERROR \<or> rc = MQTTASYNC_PERSISTENCE_ERROR)
      in if ty = msg_code CONNECT \<and> \<not> failed then a\<lparr>conn_cmd := cmd\<rparr>
         else if ty = msg_code DISCONNECT then a\<lparr>disc_cmd := cmd\<rparr>
         else if (case cmd_details cmd of Pub _ _ qos _ \<Rightarrow> qos = 0 | _ \<Rightarrow> False) \<and> \<not> failed
         then if rc = TCPSOCKET_INTERRUPTED then a\<lparr>responses := responses a @ [cmd]\<rparr> else free_command cmd a
         else if failed
         then let a1 = (if ty = msg_code CONNECT then (snd (MQTTAsync_disconnect e None 0 a))\<lparr>shouldBeConnected := True\<rparr>
                        else MQTTAsync_disconnect_internal e 0 a)
              in if ty = msg_code CONNECT \<and> MQTTAsync_checkConn cmd a1
                 then MQTTAsync_addCommand e (cmd\<lparr>cmd_details := next_attempt (MQTTVersion a1) (cmd_details cmd)\<rparr>) a1
                 else let a2 = (if cmd_onFailure cmd then call (Failure_cb (cmd_token cmd) None) a1 else a1)
                      in if ty = msg_code CONNECT then MQTTAsync_startConnectRetry e (a2\<lparr>conn_cmd := cmd\<rparr>)
                         else free_command cmd a2
         else a\<lparr>responses := responses a @ [cmd]\<rparr>)"

definition MQTTAsync_processCommand :: "async_env \<Rightarrow> MQTTAsyncs \<Rightarrow> (bool \<times> MQTTAsyncs) option" where
  "MQTTAsync_processCommand e a =
     (case commands a of
        [] \<Rightarrow> Some (False, a)
      | cmd # rest \<Rightarrow>
          if eligible e cmd a then do {
            (rc, cmd1, a1) \<leftarrow> run_command e cmd (a\<lparr>commands := rest\<rparr>);
            Some (True, finish_command e rc cmd1 a1) }
          else Some (False, a))"

text \<open>
  A partial write is done. The search for the response compares two fields of the same client,
  so it stops at the first one.
\<close>

definition complete_write :: "int \<Rightarrow> MQTTAsyncs \<Rightarrow> MQTTAsyncs option" where
  "complete_write rc a =
     (case pending_write a of
        None \<Rightarrow> Some a
      | Some (command, valid) \<Rightarrow>
          (case responses a of
             [] \<Rightarrow> Some (a\<lparr>pending_write := None\<rparr>)
           | com # rest \<Rightarrow>
               if \<not> valid then None
               else let a1 = (if cmd_type (cmd_details command) = msg_code PUBLISH
                         then if rc = 1 \<and> cmd_onSuccess command then call (Success_cb (cmd_token command)) a
                              else if rc = - 1 \<and> cmd_onFailure command then call (Failure_cb (cmd_token command) (Some rc)) a
                              else a
                         else a)
                    in Some (a1\<lparr>responses := rest, pending_write := None\<rparr>)))"

definition MQTTAsync_writeComplete :: "async_env \<Rightarrow> int \<Rightarrow> MQTTAsyncs \<Rightarrow> MQTTAsyncs option" where
  "MQTTAsync_writeComplete e rc a = do {
     s \<leftarrow> MQTTProtocol_checkPendingWrites (net e) (ac a);
     complete_write rc (a\<lparr>ac := s\<lparr>lastSent := clock_now (net e)\<rparr>\<rparr>) }"

definition MQTTAsync_checkTimeouts :: "async_env \<Rightarrow> MQTTAsyncs \<Rightarrow> MQTTAsyncs option" where
  "MQTTAsync_checkTimeouts e a =
     (if clock_now (net e) - last_timeouts a < 3 then Some a
      else do {
        let a1 = a\<lparr>last_timeouts := clock_now (net e)\<rparr>;
        a2 \<leftarrow> (if connect_state (ac a1) = - 2 then MQTTAsync_checkDisconnect e (disc_cmd a1) a1 else Some a1);
        if connect_state (ac a2) \<noteq> 0 \<and> MQTTAsync_elapsed e (cmd_start (conn_cmd a2)) > connectTimeout a2 * 1000
        then nextOrClose e (- 1) a2
        else if automaticReconnect a2 \<and> retrying a2 \<and>
                (reconnectNow a2 \<or> MQTTAsync_elapsed e (lastConnectionFailedTime a2) > currentInterval a2 * 1000)
        then Some ((MQTTAsync_addCommand e (restart_command a2) a2)\<lparr>reconnectNow := False\<rparr>)
        else Some a2 })"

subsection \<open>The receiving thread\<close>

text \<open>The response with a token is taken out of the list; \<open>None\<close>: there is none.\<close>

fun detach_response :: "nat \<Rightarrow> MQTTAsync_command list \<Rightarrow> (MQTTAsync_command \<times> MQTTAsync_command list) option" where
  "detach_response i [] = None"
| "detach_response i (c # cs) =
     (if cmd_token c = i then Some (c, cs) else map_option (\<lambda>(r, cs'). (r, c # cs')) (detach_response i cs))"

definition complete_response :: "nat \<Rightarrow> (MQTTAsync_command \<Rightarrow> callback list) \<Rightarrow> MQTTAsyncs \<Rightarrow> MQTTAsyncs" where
  "complete_response i cbs a =
     (case detach_response i (responses a) of
        None \<Rightarrow> a
      | Some (command, rest) \<Rightarrow> free_command command (a\<lparr>responses := rest, callbacks := callbacks a @ cbs command\<rparr>))"

definition on_success :: "MQTTAsync_command \<Rightarrow> callback list" where
  "on_success command = (if cmd_onSuccess command then [Success_cb (cmd_token command)] else [])"

definition MQTTAsync_retry :: "async_env \<Rightarrow> MQTTAsyncs \<Rightarrow> MQTTAsyncs option" where
  "MQTTAsync_retry e a =
     (let now = clock_now (net e)
      in if now - last_retry a > retryLoopInterval a then do {
           let a1 = take_protocol e (MQTTProtocol_keepalive (net e) now (ac a)) (a\<lparr>last_retry := now\<rparr>);
           s \<leftarrow> MQTTProtocol_retry (net e) now True False (ac a1);
           Some (take_protocol e s a1) }
         else map_option (\<lambda>s. take_protocol e s a) (MQTTProtocol_retry (net e) now False False (ac a)))"

text \<open>
  What \<open>MQTTAsync_cycle\<close> does with a packet; the acknowledgements of connects and
  subscriptions are returned to the thread.
\<close>

definition cycle_packet :: "async_env \<Rightarrow> packet \<Rightarrow> MQTTAsyncs \<Rightarrow> (int \<times> packet option \<times> MQTTAsyncs) option" where
  "cycle_packet e pack a = do {
     let a0 = a\<lparr>ac := (ac a)\<lparr>lastReceived := clock_now (net e)\<rparr>\<rparr>;
     (rc, s) \<leftarrow> cycle_dispatch (net e) pack (ac a0);
     let a1 = take_protocol e s a0;
     Some (case pack of
         Ack h i \<Rightarrow>
           if hdr_type h = msg_code PUBACK \<or> hdr_type h = msg_code PUBCOMP
           then (rc, None, complete_response i on_success (if has_dc a1 then call (Delivery_complete_cb i) a1 else a1))
           else (rc, if hdr_type h = msg_code UNSUBACK then Some pack else None, a1)
       | Connack h flags code \<Rightarrow> (rc, Some pack, a1)
       | Suback h i qoss \<Rightarrow> (rc, Some pack, a1)
       | _ \<Rightarrow> (rc, None, a1)) }"

text \<open>
  One round for a socket that is ready: \<open>rc\<close> and \<open>pack\<close> are what
  \<open>MQTTPacket_Factory\<close> reads from it. Without a ready socket only the retries run.
\<close>

definition MQTTAsync_cycle :: "async_env \<Rightarrow> int \<Rightarrow> packet option \<Rightarrow> MQTTAsyncs \<Rightarrow> (int \<times> packet option \<times> MQTTAsyncs) option" where
  "MQTTAsync_cycle e rc pack a = do {
     (rc1, pack1, a1) \<leftarrow>
       (if connect_state (ac a) = 1 \<or> connect_state (ac a) = 2
        then map_option (\<lambda>(rc, a'). (rc, None, a')) (MQTTAsync_connecting e a)
        else Some (rc, pack, a));
     a2 \<leftarrow> (if connect_state (ac a1) = 3 \<and> rc1 = SOCKET_ERROR then nextOrClose e (- 1) a1 else Some a1);
     (rc3, pack3, a3) \<leftarrow> (case pack1 of None \<Rightarrow> Some (rc1, None, a2) | Some p \<Rightarrow> cycle_packet e p a2);
     a4 \<leftarrow> MQTTAsync_retry e a3;
     Some (rc3, pack3, a4) }"

text \<open>The body of the loop of \<open>MQTTAsync_receiveThread\<close> after \<open>MQTTAsync_cycle\<close>.\<close>

definition receive_body :: "async_env \<Rightarrow> int \<Rightarrow> packet option \<Rightarrow> MQTTAsyncs \<Rightarrow> MQTTAsyncs option" where
  "receive_body e rc pack a =
     (if rc = SOCKET_ERROR
      then if net_connected (ac a) then Some (MQTTAsync_disconnect_internal e 0 a)
           else if connect_state (ac a) \<noteq> 0 then nextOrClose e rc a
           else map_option (\<lambda>s. a\<lparr>ac := s\<rparr>) (MQTTAsync_closeOnly (net e) (ac a))
      else let a1 = a\<lparr>ac := deliver_queued (net e) (ac a)\<rparr>
           in case pack of
                Some (Connack h flags code) \<Rightarrow> do {
                  (rc, a2) \<leftarrow> MQTTAsync_completeConnection e (int (unat code)) a1;
                  if rc = 0
                  then let a3 = (if cmd_onSuccess (conn_cmd a2) then call Connect_success_cb a2 else a2)
                       in Some (if has_connected a3 then call Connected_cb a3 else a3)
                  else nextOrClose e rc a2 }
              | Some (Suback h i qoss) \<Rightarrow>
                  Some (complete_response i (\<lambda>c. if qoss = [128] then (if cmd_onFailure c then [Failure_cb (cmd_token c) (Some 128)] else [])
                                               else on_success c) a1)
              | Some (Ack h i) \<Rightarrow> Some (complete_response i on_success a1)
              | _ \<Rightarrow> Some a1)"

subsection \<open>Calls of the application\<close>

declare assign_loop.simps [code]

definition MQTTAsync_assignMsgId :: "MQTTAsyncs \<Rightarrow> (nat \<times> MQTTAsyncs) option" where
  "MQTTAsync_assignMsgId a =
     (case assign_loop (\<lambda>i. i \<in> cmd_token ` set (commands a) \<or> i \<in> cmd_token ` set (responses a)) (msgID (ac a)) (next_id (msgID (ac a))) of
        None \<Rightarrow> None
      | Some msgid \<Rightarrow> Some (msgid, if msgid \<noteq> 0 then a\<lparr>ac := (ac a)\<lparr>msgID := msgid\<rparr>\<rparr> else a))"

definition MQTTAsync_countBufferedMessages :: "MQTTAsyncs \<Rightarrow> nat" where
  "MQTTAsync_countBufferedMessages a = length (filter (\<lambda>c. cmd_type (cmd_details c) = msg_code PUBLISH) (commands a))"

text \<open>The conditions under which a message is accepted, in the order in which they are tried.\<close>

definition MQTTAsync_send ::
    "async_env \<Rightarrow> byte list \<Rightarrow> byte list \<Rightarrow> int \<Rightarrow> bool \<Rightarrow> (bool \<times> bool) option \<Rightarrow> MQTTAsyncs \<Rightarrow> (int \<times> MQTTAsyncs) option" where
  "MQTTAsync_send e destinationName payload qos retained response a =
     (if \<not> net_connected (ac a) \<and> (case createOptions a of None \<Rightarrow> True | Some (sendWhileDisconnected, _) \<Rightarrow> \<not> sendWhileDisconnected \<or> \<not> shouldBeConnected a)
      then Some (MQTTASYNC_DISCONNECTED, a)
      else do {
        utf8 \<leftarrow> UTF8_validateString destinationName;
        if \<not> utf8 then Some (MQTTASYNC_BAD_UTF8_STRING, a)
        else if qos < 0 \<or> qos > 2 then Some (MQTTASYNC_BAD_QOS, a)
        else do {
          (msgid, a1) \<leftarrow> (if qos > 0 then MQTTAsync_assignMsgId a else Some (0, a));
          if qos > 0 \<and> msgid = 0 then Some (MQTTASYNC_NO_MORE_MSGIDS, a1)
          else if (case createOptions a1 of None \<Rightarrow> False | Some (_, m) \<Rightarrow> int (MQTTAsync_countBufferedMessages a1) \<ge> m)
          then Some (MQTTASYNC_MAX_BUFFERED_MESSAGES, a1)
          else Some (0, MQTTAsync_addCommand e (new_command msgid response (Pub (c_bytes destinationName) payload (nat qos) retained)) a1) } })"

definition MQTTAsync_sendMessage ::
    "async_env \<Rightarrow> byte list \<Rightarrow> (bool \<times> MQTTAsync_message) option \<Rightarrow> (bool \<times> bool) option \<Rightarrow> MQTTAsyncs \<Rightarrow> (int \<times> MQTTAsyncs) option" where
  "MQTTAsync_sendMessage e destinationName message response a =
     (case message of
        None \<Rightarrow> Some (MQTTASYNC_NULL_PARAMETER, a)
      | Some (struct_ok, m) \<Rightarrow>
          if \<not> struct_ok then Some (MQTTASYNC_BAD_STRUCTURE, a)
          else MQTTAsync_send e destinationName (mm_payload m) (int (mm_qos m)) (mm_retained m) response a)"

text \<open>The first topic or QoS that is refused decides.\<close>

fun check_topics :: "byte list list \<Rightarrow> int list \<Rightarrow> int option" where
  "check_topics [] qoss = Some 0"
| "check_topics (t # ts) qoss = do {
     utf8 \<leftarrow> UTF8_validateString t;
     if \<not> utf8 then Some MQTTASYNC_BAD_UTF8_STRING
     else case qoss of
            [] \<Rightarrow> None
          | q # qs \<Rightarrow> if q < 0 \<or> q > 2 then Some MQTTASYNC_BAD_QOS else check_topics ts qs }"

definition MQTTAsync_subscribeMany ::
    "async_env \<Rightarrow> byte list list \<Rightarrow> int list \<Rightarrow> (bool \<times> bool) option \<Rightarrow> MQTTAsyncs \<Rightarrow> (int \<times> MQTTAsyncs) option" where
  "MQTTAsync_subscribeMany e topics qoss response a =
     (if \<not> net_connected (ac a) then Some (MQTTASYNC_DISCONNECTED, a)
      else do {
        rc \<leftarrow> check_topics topics qoss;
        if rc \<noteq> 0 then Some (rc, a)
        else do {
          (msgid, a1) \<leftarrow> MQTTAsync_assignMsgId a;
          if msgid = 0 then Some (MQTTASYNC_NO_MORE_MSGIDS, a1)
          else Some (0, MQTTAsync_addCommand e (new_command msgid response (Sub (map c_bytes topics) (map nat (take (length topics) qoss)))) a1) } })"

definition MQTTAsync_subscribe ::
    "async_env \<Rightarrow> byte list \<Rightarrow> int \<Rightarrow> (bool \<times> bool) option \<Rightarrow> MQTTAsyncs \<Rightarrow> (int \<times> MQTTAsyncs) option" where
  "MQTTAsync_subscribe e topic qos response a = MQTTAsync_subscribeMany e [topic] [qos] response a"

definition MQTTAsync_unsubscribeMany ::
    "async_env \<Rightarrow> byte list list \<Rightarrow> (bool \<times> bool) option \<Rightarrow> MQTTAsyncs \<Rightarrow> (int \<times> MQTTAsyncs) option" where
  "MQTTAsync_unsubscribeMany e topics response a =
     (if \<not> net_connected (ac a) then Some (MQTTASYNC_DISCONNECTED, a)
      else do {
        rc \<leftarrow> check_topics topics (map (\<lambda>_. 0) topics);
        if rc \<noteq> 0 then Some (rc, a)
        else do {
          (msgid, a1) \<leftarrow> MQTTAsync_assignMsgId a;
          if msgid = 0 then Some (MQTTASYNC_NO_MORE_MSGIDS, a1)
          else Some (0, MQTTAsync_addCommand e (new_command msgid response (Unsub (map c_bytes topics))) a1) } })"

definition MQTTAsync_unsubscribe ::
    "async_env \<Rightarrow> byte list \<Rightarrow> (bool \<times> bool) option \<Rightarrow> MQTTAsyncs \<Rightarrow> (int \<times> MQTTAsyncs) option" where
  "MQTTAsync_unsubscribe e topic response a = MQTTAsync_unsubscribeMany e [topic] response a"

definition MQTTAsync_isConnected :: "MQTTAsyncs \<Rightarrow> bool" where
  "MQTTAsync_isConnected a = net_connected (ac a)"

definition MQTTAsync_setCallbacks :: "bool \<Rightarrow> bool \<Rightarrow> bool \<Rightarrow> MQTTAsyncs \<Rightarrow> int \<times> MQTTAsyncs" where
  "MQTTAsync_setCallbacks cl ma dc a =
     (if \<not> ma \<or> connect_state (ac a) \<noteq> 0 then (- 1, a)
      else (0, a\<lparr>has_cl := cl, ac := (ac a)\<lparr>has_ma := ma\<rparr>, has_dc := dc\<rparr>))"

definition MQTTAsync_setConnected :: "bool \<Rightarrow> MQTTAsyncs \<Rightarrow> int \<times> MQTTAsyncs" where
  "MQTTAsync_setConnected co a = (if connect_state (ac a) \<noteq> 0 then (- 1, a) else (0, a\<lparr>has_connected := co\<rparr>))"

definition MQTTAsync_getPendingTokens :: "MQTTAsyncs \<Rightarrow> nat list" where
  "MQTTAsync_getPendingTokens a = map cmd_token (commands a) @ map m_msgid (outboundMsgs (ac a))"

definition MQTTAsync_isComplete :: "nat \<Rightarrow> MQTTAsyncs \<Rightarrow> bool" where
  "MQTTAsync_isComplete dt a \<longleftrightarrow> dt \<notin> cmd_token ` set (commands a) \<and> dt \<notin> m_msgid ` set (outboundMsgs (ac a))"

subsection \<open>The connect options\<close>

definition setRetryLoopInterval :: "int \<Rightarrow> MQTTAsyncs \<Rightarrow> MQTTAsyncs" where
  "setRetryLoopInterval keepalive a =
     (let q = (if keepalive < 0 then - ((- keepalive) div 10) else keepalive div 10);
          proposed = (if q < 1 then 1 else if q > 5 then 5 else q)
      in if proposed < retryLoopInterval a then a\<lparr>retryLoopInterval := proposed\<rparr> else a)"

text \<open>Of a structure that is passed by pointer the flag says whether its eyecatcher is right.\<close>

record willOptions =
  wo_ok :: bool
  wo_version :: int
  wo_topicName :: "byte list"
  wo_message :: "byte list option"
  wo_payload :: "byte list option"
  wo_retained :: bool
  wo_qos :: int

record connectOptions =
  co_ok :: bool
  co_version :: int
  co_keepAliveInterval :: int
  co_cleansession :: bool
  co_will :: "willOptions option"
  co_username :: "byte list option"
  co_password :: "byte list option"
  co_binarypwd :: "byte list option"
  co_connectTimeout :: int
  co_retryInterval :: int
  co_ssl :: "(bool \<times> int) option"
  co_onSuccess :: bool
  co_onFailure :: bool
  co_serverURIs :: "string list"
  co_MQTTVersion :: nat
  co_automaticReconnect :: bool
  co_minRetryInterval :: int
  co_maxRetryInterval :: int

definition connect_checks :: "connectOptions \<Rightarrow> int option" where
  "connect_checks opt =
     (if \<not> co_ok opt \<or> co_version opt < 0 \<or> co_version opt > 5 then Some MQTTASYNC_BAD_STRUCTURE
      else case co_will opt of
             Some w \<Rightarrow>
               if \<not> wo_ok w \<or> (wo_version w \<noteq> 0 \<and> wo_version w \<noteq> 1) then Some MQTTASYNC_BAD_STRUCTURE
               else if wo_qos w < 0 \<or> wo_qos w > 2 then Some MQTTASYNC_BAD_QOS
               else None
           | None \<Rightarrow> None)"

definition ssl_and_login_checks :: "connectOptions \<Rightarrow> int option option" where
  "ssl_and_login_checks opt =
     (if co_version opt \<noteq> 0 \<and> (case co_ssl opt of Some (ok, v) \<Rightarrow> \<not> ok \<or> v < 0 \<or> v > 2 | None \<Rightarrow> False)
      then Some (Some MQTTASYNC_BAD_STRUCTURE)
      else do {
        u \<leftarrow> (case co_username opt of None \<Rightarrow> Some True | Some s \<Rightarrow> UTF8_validateString s);
        p \<leftarrow> (if u then (case co_password opt of None \<Rightarrow> Some True | Some s \<Rightarrow> UTF8_validateString s) else Some True);
        Some (if u \<and> p then None else Some MQTTASYNC_BAD_UTF8_STRING) })"

definition connect_will :: "willOptions \<Rightarrow> willMessages" where
  "connect_will w =
     \<lparr>will_topic = c_bytes (wo_topicName w),
      will_payload = (case (if wo_version w = 1 then wo_payload w else None) of
          Some d \<Rightarrow> d
        | None \<Rightarrow> (case wo_message w of Some s \<Rightarrow> c_bytes s | None \<Rightarrow> [])),
      will_retained = wo_retained w, will_qos_level = nat (wo_qos w)\<rparr>"

text \<open>
  The old login strings are freed and replaced if there are new ones; the pointers are not
  cleared if there are none. Freeing a string that is freed already is \<open>None\<close>.
\<close>

definition set_login :: "connectOptions \<Rightarrow> MQTTAsyncs \<Rightarrow> MQTTAsyncs option" where
  "set_login opt a =
     (if stale_username a \<or> stale_password a then None
      else let pwd = (case co_password opt of
                 Some p \<Rightarrow> Some (c_bytes p)
               | None \<Rightarrow> if co_version opt \<ge> 5 then co_binarypwd opt else None)
           in Some (a\<lparr>login := (login a)\<lparr>
                  cl_username := (case co_username opt of Some u \<Rightarrow> Some (c_bytes u) | None \<Rightarrow> cl_username (login a)),
                  cl_password := (case pwd of Some p \<Rightarrow> Some p | None \<Rightarrow> cl_password (login a))\<rparr>,
                stale_username := (cl_username (login a) \<noteq> None \<and> co_username opt = None),
                stale_password := (cl_password (login a) \<noteq> None \<and> pwd = None)\<rparr>))"

text \<open>The options are stored in the handle before a connect command is queued.\<close>

definition connect_settings :: "connectOptions \<Rightarrow> MQTTAsyncs \<Rightarrow> MQTTAsyncs" where
  "connect_settings opt a =
     (let a1 = a\<lparr>conn_cmd := (conn_cmd a)\<lparr>cmd_onSuccess := co_onSuccess opt, cmd_onFailure := co_onFailure opt\<rparr>,
                 connectTimeout := co_connectTimeout opt\<rparr>;
          a2 = (setRetryLoopInterval (co_keepAliveInterval opt) a1)\<lparr>
                 ac := (ac a)\<lparr>keepAliveInterval := co_keepAliveInterval opt, cleansession := co_cleansession opt\<rparr>,
                 MQTTVersion := (if co_version opt \<ge> 3 then co_MQTTVersion opt else 0)\<rparr>;
          a3 = (if co_version opt \<ge> 4
                then a2\<lparr>automaticReconnect := co_automaticReconnect opt, minRetryInterval := co_minRetryInterval opt,
                        maxRetryInterval := co_maxRetryInterval opt\<rparr>
                else a2)
      in a3\<lparr>login := (login a3)\<lparr>cl_cleansession := co_cleansession opt, cl_keepAliveInterval := nat (co_keepAliveInterval opt),
                                cl_will := map_option connect_will (co_will opt)\<rparr>\<rparr>)"

definition MQTTAsync_connect :: "async_env \<Rightarrow> connectOptions option \<Rightarrow> MQTTAsyncs \<Rightarrow> (int \<times> MQTTAsyncs) option" where
  "MQTTAsync_connect e options a =
     (case options of
        None \<Rightarrow> Some (MQTTASYNC_NULL_PARAMETER, a)
      | Some opt \<Rightarrow>
          (case connect_checks opt of
             Some rc \<Rightarrow> Some (rc, a)
           | None \<Rightarrow> do {
               bad \<leftarrow> ssl_and_login_checks opt;
               case bad of
                 Some rc \<Rightarrow> Some (rc, a)
               | None \<Rightarrow>
                   let a1 = connect_settings opt a
                   in if co_version opt \<noteq> 0 \<and> co_ssl opt \<noteq> None then Some (MQTTASYNC_SSL_NOT_SUPPORTED, a1)
                      else do {
                        a2 \<leftarrow> set_login opt a1;
                        let a3 = a2\<lparr>ac := (ac a2)\<lparr>retryInterval := co_retryInterval opt\<rparr>, shouldBeConnected := True,
                                   serverURIs := (if co_version opt \<ge> 2 then co_serverURIs opt else [])\<rparr>;
                        Some (0, MQTTAsync_addCommand e (new_command 0 (Some (co_onSuccess opt, co_onFailure opt)) (Conn 0 0)) a3) } }))"

text \<open>
  A new handle; persistence is off. Of the options whether they are well-formed, whether messages
  are accepted while disconnected, and how many.
\<close>

definition MQTTAsync_createWithOptions ::
    "string option \<Rightarrow> byte list option \<Rightarrow> (bool \<times> bool \<times> int) option \<Rightarrow> (MQTTAsyncs, int) sum option" where
  "MQTTAsync_createWithOptions uri clientId options =
     (case (uri, clientId) of
        (Some u, Some c) \<Rightarrow> do {
          utf8 \<leftarrow> UTF8_validateString c;
          if \<not> utf8 then Some (Inr MQTTASYNC_BAD_UTF8_STRING)
          else if strstr u ''://'' \<noteq> None \<and> \<not> str_starts ''tcp://'' u then Some (Inr MQTTASYNC_BAD_PROTOCOL)
          else if (case options of Some (ok, _) \<Rightarrow> \<not> ok | None \<Rightarrow> False) then Some (Inr MQTTASYNC_BAD_STRUCTURE)
          else Some (Inl
            \<lparr>ac = \<lparr>msgID = 0, outboundMsgs = [], inboundMsgs = [], publications = Map.empty, next_block = 0, pending_writes = [],
                   net_connected = False, good = False, ping_outstanding = False, keepAliveInterval = 0, retryInterval = 0,
                   lastSent = 0, lastReceived = 0, msgs_sent = 0, msgs_received = 0, close_requests = 0,
                   cleansession = False, connect_state = 0, socket_open = False, has_ma = False, ma_calls = 0,
                   messageQueue = [], arrived = [], wire = []\<rparr>,
             commands = [], responses = [], pending_write = None, conn_cmd = new_command 0 None (Unset 0 0), disc_cmd = new_command 0 None (Dis False 0),
             has_cl = False, has_dc = False, has_connected = False, serverURI = strip_tcp u, serverURIs = [], MQTTVersion = 0,
             login = \<lparr>clientID = c_bytes c, cl_username = None, cl_password = None, cl_cleansession = False, cl_keepAliveInterval = 0, cl_will = None\<rparr>,
             stale_username = False, stale_password = False, createOptions = map_option snd options, shouldBeConnected = False, automaticReconnect = False,
             minRetryInterval = 0, maxRetryInterval = 0, connectTimeout = 0, currentInterval = 0, lastConnectionFailedTime = 0,
             retrying = False, reconnectNow = False, last_timeouts = 0, last_retry = 0, retryLoopInterval = 5, callbacks = []\<rparr>) }
      | _ \<Rightarrow> Some (Inr MQTTASYNC_NULL_PARAMETER))"

definition MQTTAsync_create :: "string option \<Rightarrow> byte list option \<Rightarrow> (MQTTAsyncs, int) sum option" where
  "MQTTAsync_create uri clientId = MQTTAsync_createWithOptions uri clientId None"

end
