(* ===== verification/Accounting.thy ===== *)
theory Accounting
  imports Prelude
begin

text \<open>
  Runs of a machine that are accounted for: every step reports events, and a law between the
  states before and after and the events in between that holds for one step and composes holds
  for every run.
\<close>

text \<open>The events of a run and its last state; \<open>None\<close>: an operation is not allowed or fails.\<close>

fun run_events :: "('op \<Rightarrow> 's \<Rightarrow> 's option) \<Rightarrow> ('op \<Rightarrow> 's \<Rightarrow> bool) \<Rightarrow> ('op \<Rightarrow> 's \<Rightarrow> 'x list) \<Rightarrow> 'op list \<Rightarrow> 's \<Rightarrow> ('x list \<times> 's) option" where
  "run_events exec allowed events [] s = Some ([], s)"
| "run_events exec allowed events (op # ops) s =
     (if allowed op s
      then (case exec op s of
              None \<Rightarrow> None
            | Some s' \<Rightarrow> map_option (\<lambda>(xs, t). (events op s @ xs, t)) (run_events exec allowed events ops s'))
      else None)"

locale accounted =
  fixes exec :: "'op \<Rightarrow> 's \<Rightarrow> 's option"
    and allowed :: "'op \<Rightarrow> 's \<Rightarrow> bool"
    and events :: "'op \<Rightarrow> 's \<Rightarrow> 'x list"
    and inv :: "'s \<Rightarrow> bool"
    and law :: "'s \<Rightarrow> 'x list \<Rightarrow> 's \<Rightarrow> bool"
  assumes law_refl: "law s [] s"
    and law_trans: "law s xs t \<Longrightarrow> law t ys u \<Longrightarrow> law s (xs @ ys) u"
    and step: "inv s \<Longrightarrow> allowed op s \<Longrightarrow> exec op s = Some s' \<Longrightarrow> inv s' \<and> law s (events op s) s'"
begin

lemma run_law: "inv s \<Longrightarrow> run_events exec allowed events ops s = Some (xs, t) \<Longrightarrow> inv t \<and> law s xs t"
proof (induction ops arbitrary: s xs)
  case Nil
  then show ?case by (simp add: law_refl)
next
  case (Cons op ops)
  then obtain s' ys where "allowed op s" "exec op s = Some s'" "run_events exec allowed events ops s' = Some (ys, t)"
    and xs: "xs = events op s @ ys" by (auto split: if_splits option.splits)
  then show ?case using step [of s op s'] Cons.IH [of s' ys] Cons.prems(1) law_trans by auto
qed

end

end
