(* ===== verification/MqttRequests.thy ===== *)
theory MqttRequests
  imports MqttAsync Accounting "HOL-Library.Multiset"
begin

text \<open>
  The requests of the application to the asynchronous client of \<open>MqttAsync\<close>: publish,
  subscribe, unsubscribe. The type invariant of the client, the order in which requests are
  started, the answer that every request gets.
\<close>

section \<open>The connection\<close>

text \<open>The part of the protocol state that only connecting and closing change.\<close>

definition conn_part :: "protocol \<Rightarrow> bool \<times> int \<times> bool \<times> bool \<times> nat" where
  "conn_part s = (net_connected s, connect_state s, socket_open s, cleansession s, msgID s)"

lemma conn_part_upd [simp]:
  "conn_part (s\<lparr>outboundMsgs := x1\<rparr>) = conn_part s" "conn_part (s\<lparr>inboundMsgs := x2\<rparr>) = conn_part s"
  "conn_part (s\<lparr>publications := x3\<rparr>) = conn_part s" "conn_part (s\<lparr>next_block := x4\<rparr>) = conn_part s"
  "conn_part (s\<lparr>pending_writes := x5\<rparr>) = conn_part s" "conn_part (s\<lparr>good := x6\<rparr>) = conn_part s"
  "conn_part (s\<lparr>ping_outstanding := x7\<rparr>) = conn_part s" "conn_part (s\<lparr>lastSent := x8\<rparr>) = conn_part s"
  "conn_part (s\<lparr>lastReceived := x9\<rparr>) = conn_part s" "conn_part (s\<lparr>msgs_sent := x10\<rparr>) = conn_part s"
  "conn_part (s\<lparr>msgs_received := x11\<rparr>) = conn_part s" "conn_part (s\<lparr>close_requests := x12\<rparr>) = conn_part s"
  "conn_part (s\<lparr>ma_calls := x13\<rparr>) = conn_part s" "conn_part (s\<lparr>messageQueue := x14\<rparr>) = conn_part s"
  "conn_part (s\<lparr>arrived := x15\<rparr>) = conn_part s" "conn_part (s\<lparr>wire := x16\<rparr>) = conn_part s"
  by (simp_all add: conn_part_def)

lemma conn_part_ops [simp]:
  "conn_part (snd (send e pkt s)) = conn_part s" "conn_part (MQTTProtocol_closeSession s) = conn_part s"
  "conn_part (Protocol_processPublication e publish s) = conn_part s" "conn_part (deliver_queued e s) = conn_part s"
  "conn_part (snd (MQTTAsync_deliverMessage e mm s)) = conn_part s"
  by (auto simp: send_def Let_def MQTTProtocol_closeSession_def Protocol_processPublication_def deliver_queued_def
      MQTTAsync_deliverMessage_def split: list.split)

lemma conn_part_send: "send e pkt s = (rc, s') \<Longrightarrow> conn_part s' = conn_part s"
  by (metis conn_part_ops(1) snd_conv)

lemma conn_part_remove: "MQTTProtocol_removePublication b s = Some s' \<Longrightarrow> conn_part s' = conn_part s"
  by (auto simp: MQTTProtocol_removePublication_def split: option.splits if_splits)

lemma conn_part_publications: "remove_publications ms s = Some s' \<Longrightarrow> conn_part s' = conn_part s"
  by (induction ms arbitrary: s) (auto simp: bind_eq_Some_conv dest: conn_part_remove)

lemma conn_part_pending: "pending_loop e keep as s = Some s' \<Longrightarrow> conn_part s' = conn_part s"
  by (induction as arbitrary: keep s) (auto simp: bind_eq_Some_conv dest: conn_part_remove split: if_splits)

lemma conn_part_publish: "MQTTProtocol_startPublish e publish qos retained None s = Some (rc, s') \<Longrightarrow> conn_part s' = conn_part s"
  by (auto simp: MQTTProtocol_startPublish_def MQTTProtocol_createMessage_def MQTTProtocol_storePublication_def
      MQTTProtocol_startPublishCommon_def MQTTProtocol_storeQoS0_def Let_def split_beta bind_eq_Some_conv
      dest: conn_part_send split: if_splits)

lemma conn_part_dispatch: "cycle_dispatch e pack s = Some (rc, s') \<Longrightarrow> conn_part s' = conn_part s"
  by (auto simp: cycle_dispatch_def MQTTProtocol_handlePublishes_def MQTTProtocol_storePublication_def MQTTProtocol_handlePubacks_def
      MQTTProtocol_handlePubcomps_def MQTTProtocol_handlePubrecs_def MQTTProtocol_handlePubrels_def MQTTProtocol_handlePingresps_def
      Let_def split_beta bind_eq_Some_conv dest!: conn_part_remove conn_part_send split: packet.splits option.splits if_splits)

lemma conn_part_keepalive [simp]: "conn_part (MQTTProtocol_keepalive e now s) = conn_part s"
  by (auto simp: MQTTProtocol_keepalive_def split_beta)

lemma conn_part_retries: "retries_loop e now regardless pre ms s = Some s' \<Longrightarrow> conn_part s' = conn_part s"
proof (induction ms arbitrary: pre s)
  case (Cons m ms)
  then show ?case by (auto simp: split_beta dest!: Cons.IH split: if_splits option.splits)
qed auto

lemma conn_part_retry: "MQTTProtocol_retry e now doRetry regardless s = Some s' \<Longrightarrow> conn_part s' = conn_part s"
  by (auto simp: MQTTProtocol_retry_def MQTTProtocol_retries_def dest: conn_part_retries split: if_splits)

lemma conn_part_resume: "resume_session e s = Some s' \<Longrightarrow> conn_part s' = conn_part s"
  by (auto simp: resume_session_def dest: conn_part_retry split: if_splits)

lemma closeOnly_conn:
  assumes "MQTTAsync_closeOnly e s = Some s'"
  shows "conn_part s' = (False, 0, False, cleansession s, msgID s)"
proof (cases "socket_open s")
  case False
  then show ?thesis using assms by (auto simp: MQTTAsync_closeOnly_def Let_def conn_part_def)
next
  case True
  then obtain s2 where s2: "MQTTProtocol_checkPendingWrites e (s\<lparr>good := False, ping_outstanding := False\<rparr>) = Some s2"
    and s': "s' = (if net_connected s2 \<and> no_pending e s2 then snd (send e MQTTPacket_send_disconnect s2) else s2)
      \<lparr>socket_open := False, net_connected := False, connect_state := 0\<rparr>"
    using assms by (auto simp: MQTTAsync_closeOnly_def Let_def bind_eq_Some_conv)
  have "conn_part s2 = conn_part s" using s2 conn_part_pending by (fastforce simp: MQTTProtocol_checkPendingWrites_def)
  then show ?thesis using conn_part_ops(1) [of e MQTTPacket_send_disconnect s2] by (auto simp: s' conn_part_def)
qed

lemma clear_session_conn:
  assumes "clear_session s = Some s'"
  shows "conn_part s' = (net_connected s, connect_state s, socket_open s, cleansession s, 0)"
proof -
  obtain s1 s3 where "remove_publications (inboundMsgs s) s = Some s1" "remove_publications (outboundMsgs s1) (s1\<lparr>inboundMsgs := []\<rparr>) = Some s3"
    and s': "s' = s3\<lparr>outboundMsgs := [], messageQueue := [], msgID := 0\<rparr>"
    using assms by (auto simp: clear_session_def bind_eq_Some_conv)
  then have "conn_part s3 = conn_part s" by (metis conn_part_publications conn_part_upd(2))
  then show ?thesis by (simp add: s' conn_part_def)
qed

text \<open>
  A client is connected only in state 0 and over an open socket; a connect attempt (states 1 and
  3) has an open socket; ids stay within their range.
\<close>

fun conn_good :: "bool \<times> int \<times> bool \<times> bool \<times> nat \<Rightarrow> bool" where
  "conn_good (connected, state, socket, clean, i) \<longleftrightarrow>
     state \<in> {- 2, 0, 1, 3} \<and> (connected \<longrightarrow> state = 0 \<and> socket) \<and> (state = 1 \<or> state = 3 \<longrightarrow> socket) \<and> i \<le> MAX_MSG_ID"

fun is_request :: "details \<Rightarrow> bool" where
  "is_request (Unset currentURI version) = False"
| "is_request (Conn currentURI version) = False"
| "is_request (Dis internal timeout) = False"
| "is_request d = True"

fun needs_id :: "details \<Rightarrow> bool" where
  "needs_id (Sub topics qoss) = True"
| "needs_id (Unsub topics) = True"
| "needs_id (Pub destinationName payload qos retained) = (qos > 0)"
| "needs_id d = False"

definition token_ok :: "MQTTAsync_command \<Rightarrow> bool" where
  "token_ok c \<longleftrightarrow> (if needs_id (cmd_details c) then cmd_token c \<noteq> 0 else cmd_token c = 0) \<and> cmd_token c \<le> MAX_MSG_ID"

definition tokens :: "MQTTAsync_command list \<Rightarrow> nat list" where
  "tokens cs = filter (\<lambda>t. t \<noteq> 0) (map cmd_token cs)"

text \<open>Only a message of QoS 0, which has no id, leaves a pending write.\<close>

definition pending_ok :: "(MQTTAsync_command \<times> bool) option \<Rightarrow> bool" where
  "pending_ok p \<longleftrightarrow> (case p of None \<Rightarrow> True | Some (c, valid) \<Rightarrow> cmd_token c = 0)"

lemma pending_ok_simps [simp]: "pending_ok None" "pending_ok (Some (c, valid)) \<longleftrightarrow> cmd_token c = 0"
    "pending_ok (map_option (\<lambda>(c, valid). (c, False)) p) = pending_ok p"
  by (auto simp: pending_ok_def split: option.split)

text \<open>Commands that need an id have one of their own.\<close>

definition async_ok :: "MQTTAsyncs \<Rightarrow> bool" where
  "async_ok a \<longleftrightarrow> conn_good (conn_part (ac a)) \<and> list_all token_ok (commands a) \<and> list_all token_ok (responses a) \<and>
     token_ok (conn_cmd a) \<and> \<not> is_request (cmd_details (conn_cmd a)) \<and> distinct (tokens (commands a @ responses a)) \<and>
     pending_ok (pending_write a)"

text \<open>The requests that wait to be sent, in their order; those that wait for an answer, and the answers given.\<close>

definition requests :: "MQTTAsyncs \<Rightarrow> (nat \<times> details) list" where
  "requests a = map (\<lambda>c. (cmd_token c, cmd_details c)) (filter (is_request \<circ> cmd_details) (commands a))"

definition answerable :: "MQTTAsyncs \<Rightarrow> bool" where
  "answerable a \<longleftrightarrow> list_all (\<lambda>c. cmd_token c \<noteq> 0 \<longrightarrow> cmd_onSuccess c \<and> cmd_onFailure c) (commands a @ responses a)"

fun answer :: "callback \<Rightarrow> nat list" where
  "answer (Success_cb t) = [t]"
| "answer (Failure_cb t code) = [t]"
| "answer cb = []"

definition answers :: "callback list \<Rightarrow> nat list" where
  "answers cbs = filter (\<lambda>t. t \<noteq> 0) (concat (map answer cbs))"

definition ledger :: "MQTTAsyncs \<Rightarrow> nat multiset" where
  "ledger a = mset (answers (callbacks a)) + mset (tokens (commands a @ responses a))"

text \<open>A step inside of the client that neither accepts nor starts a request.\<close>

definition silent :: "MQTTAsyncs \<Rightarrow> MQTTAsyncs \<Rightarrow> bool" where
  "silent a a' \<longleftrightarrow> (async_ok a \<longrightarrow> async_ok a' \<and>
     (\<not> cleansession (ac a) \<longrightarrow> \<not> cleansession (ac a') \<and> requests a' = requests a) \<and>
     (answerable a \<longrightarrow> answerable a' \<and> ledger a' = ledger a))"

lemma silent_refl [simp]: "silent a a"
  by (simp add: silent_def)

lemma silent_trans [trans]: "silent a b \<Longrightarrow> silent b c \<Longrightarrow> silent a c"
  by (simp add: silent_def)

text \<open>Lists of commands and callbacks that stay the same, and the connection with them.\<close>

definition same_lists :: "MQTTAsyncs \<Rightarrow> MQTTAsyncs \<Rightarrow> bool" where
  "same_lists a a' \<longleftrightarrow> commands a' = commands a \<and> responses a' = responses a \<and> conn_cmd a' = conn_cmd a \<and> answers (callbacks a') = answers (callbacks a) \<and>
     (pending_ok (pending_write a) \<longrightarrow> pending_ok (pending_write a'))"

lemma same_silent:
  assumes "same_lists a a'" and "cleansession (ac a') = cleansession (ac a)"
    and "conn_good (conn_part (ac a)) \<Longrightarrow> conn_good (conn_part (ac a'))"
  shows "silent a a'"
  using assms by (auto simp: silent_def same_lists_def async_ok_def requests_def answerable_def ledger_def)

lemma same_lists_upd [simp]:
  "same_lists a (a\<lparr>ac := s\<rparr>)" "same_lists a (a\<lparr>retrying := b\<rparr>)" "same_lists a a"
  by (simp_all add: same_lists_def)

lemma answers_simps [simp]: "answers [] = []" "answers (xs @ ys) = answers xs @ answers ys"
  by (simp_all add: answers_def)

lemma answers_single [simp]: "answers [cb] = filter (\<lambda>t. t \<noteq> 0) (answer cb)"
  by (simp add: answers_def)

lemma tokens_simps [simp]:
  "tokens [] = []" "tokens (c # cs) = (if cmd_token c = 0 then tokens cs else cmd_token c # tokens cs)" "tokens (cs @ ds) = tokens cs @ tokens ds"
  by (simp_all add: tokens_def)

lemma silent_protocol: "conn_part s = conn_part (ac a) \<Longrightarrow> silent a (a\<lparr>ac := s\<rparr>)"
  by (rule same_silent) (simp_all add: conn_part_def)

lemma silent_call: "answer cb = [] \<or> answer cb = [0] \<Longrightarrow> silent a (call cb a)"
  by (rule same_silent) (auto simp: call_def same_lists_def answers_def)

lemma silent_add:
  assumes "\<not> is_request (cmd_details c)" and "cmd_token c = 0"
  shows "silent a (MQTTAsync_addCommand e c a)"
proof -
  have "\<not> needs_id (cmd_details c)" using assms(1) by (cases "cmd_details c") auto
  then show ?thesis using assms
    by (auto simp: silent_def MQTTAsync_addCommand_def Let_def async_ok_def token_ok_def requests_def answerable_def ledger_def
        split: list.split)
qed

lemma new_command_simps [simp]:
  "cmd_token (new_command t r d) = t" "cmd_details (new_command t r d) = d"
  by (simp_all add: new_command_def)

lemma silent_disconnect1: "silent a (snd (MQTTAsync_disconnect1 e r t i a))"
proof -
  have "silent a (a\<lparr>shouldBeConnected := False\<rparr>)" by (rule same_silent) (simp_all add: same_lists_def)
  then show ?thesis
    using silent_add [of "new_command 0 r (Dis i t)"] silent_trans by (auto simp: MQTTAsync_disconnect1_def Let_def)
qed

lemma silent_disconnect: "silent a (MQTTAsync_disconnect_internal e t a)" "silent a (snd (MQTTAsync_disconnect e r t a))"
  by (simp_all add: MQTTAsync_disconnect_internal_def MQTTAsync_disconnect_def silent_disconnect1)

lemma silent_take: "conn_part s = conn_part (ac a) \<Longrightarrow> silent a (take_protocol e s a)"
  using silent_trans [OF silent_protocol silent_disconnect(1)] silent_protocol by (simp add: take_protocol_def Let_def)

lemma silent_ok: "(async_ok a \<Longrightarrow> silent a b) \<Longrightarrow> silent a b"
  by (auto simp: silent_def)

lemma answers_fail:
  "list_all (\<lambda>c. cmd_token c \<noteq> 0 \<longrightarrow> cmd_onSuccess c \<and> cmd_onFailure c) cs \<Longrightarrow> answers (fail_incomplete cs) = tokens cs"
  by (induction cs) (auto simp: fail_incomplete_def answers_def)

lemma remove_all_silent:
  assumes "cleansession (ac a)"
  shows "silent a (MQTTAsync_removeResponsesAndCommands a)"
  using assms answers_fail [of "responses a"] answers_fail [of "commands a"]
  by (auto simp: silent_def MQTTAsync_removeResponsesAndCommands_def async_ok_def answerable_def ledger_def)

lemma cleanSession_silent:
  assumes "cleansession (ac a)" and "MQTTAsync_cleanSession a = Some a'"
  shows "silent a a'"
proof -
  obtain s where s: "clear_session (ac a) = Some s" and a': "a' = MQTTAsync_removeResponsesAndCommands (a\<lparr>ac := s\<rparr>)"
    using assms(2) by (auto simp: MQTTAsync_cleanSession_def)
  have c: "conn_part s = (net_connected (ac a), connect_state (ac a), socket_open (ac a), cleansession (ac a), 0)"
    by (rule clear_session_conn [OF s])
  then have "silent a (a\<lparr>ac := s\<rparr>)" by (intro same_silent) (auto simp: conn_part_def)
  also have "silent (a\<lparr>ac := s\<rparr>) a'" unfolding a' using c assms(1) by (intro remove_all_silent) (simp add: conn_part_def)
  finally show ?thesis .
qed

lemma closeOnly_silent:
  assumes "MQTTAsync_closeOnly e (ac a) = Some s"
  shows "silent a (a\<lparr>ac := s\<rparr>)" and "cleansession s = cleansession (ac a)"
  using closeOnly_conn [OF assms] by (auto intro!: same_silent simp: conn_part_def)

lemma closeSession_silent:
  assumes "MQTTAsync_closeSession e a = Some a'"
  shows "silent a a'"
proof -
  obtain s where s: "MQTTAsync_closeOnly (net e) (ac a) = Some s"
    and a': "(if cleansession s then MQTTAsync_cleanSession (a\<lparr>ac := s\<rparr>) else Some (a\<lparr>ac := s\<rparr>)) = Some a'"
    using assms by (auto simp: MQTTAsync_closeSession_def Let_def bind_eq_Some_conv)
  note closeOnly_silent(1) [OF s]
  also have "silent (a\<lparr>ac := s\<rparr>) a'" using a' cleanSession_silent [of "a\<lparr>ac := s\<rparr>"] by (auto split: if_splits)
  finally show ?thesis .
qed

lemma silent_retry: "silent a (MQTTAsync_startConnectRetry e a)"
  by (rule same_silent) (simp_all add: MQTTAsync_startConnectRetry_def Let_def same_lists_def)

lemma silent_after [intro!]:
  "silent a b \<Longrightarrow> silent a (MQTTAsync_startConnectRetry e b)"
  "silent a b \<Longrightarrow> answer cb = [] \<or> answer cb = [0] \<Longrightarrow> silent a (call cb b)"
  "silent a b \<Longrightarrow> silent a (MQTTAsync_disconnect_internal e t b)"
  "silent a b \<Longrightarrow> conn_part s = conn_part (ac b) \<Longrightarrow> silent a (take_protocol e s b)"
  "silent a b \<Longrightarrow> \<not> is_request (cmd_details c) \<Longrightarrow> cmd_token c = 0 \<Longrightarrow> silent a (MQTTAsync_addCommand e c b)"
  by (blast intro: silent_trans silent_retry silent_call silent_disconnect silent_take silent_add)+

lemma checkDisconnect_silent: "MQTTAsync_checkDisconnect e c a = Some a' \<Longrightarrow> silent a a'"
  by (auto simp: MQTTAsync_checkDisconnect_def Let_def bind_eq_Some_conv dest!: closeSession_silent
      split: details.splits if_splits)

text \<open>The connect command of a client in good order is no request.\<close>

lemma conn_cmd_ok: "async_ok a \<Longrightarrow> \<not> is_request (cmd_details (conn_cmd a)) \<and> cmd_token (conn_cmd a) = 0"
  by (cases "cmd_details (conn_cmd a)") (auto simp: async_ok_def token_ok_def)

lemma next_attempt_request [simp]: "is_request (next_attempt v d) = is_request d" "cmd_type (next_attempt v d) = cmd_type d"
    "needs_id (next_attempt v d) = needs_id d"
  by (cases d; simp)+

lemma nextOrClose_silent: "nextOrClose e rc a = Some a' \<Longrightarrow> silent a a'"
proof (rule silent_ok)
  assume r: "nextOrClose e rc a = Some a'" and "async_ok a"
  then have "\<not> is_request (cmd_details (conn_cmd a))" "cmd_token (conn_cmd a) = 0" using conn_cmd_ok by fastforce+
  with r show "silent a a'"
    by (auto simp: nextOrClose_def bind_eq_Some_conv dest!: closeSession_silent dest: closeOnly_silent(1) split: if_splits)
qed

lemma write_connect_conn: "write_connect e v a = Some (rc, s) \<Longrightarrow> conn_part s = conn_part (ac a)"
  by (auto simp: write_connect_def dest: conn_part_send split: if_splits option.splits)

lemma connecting_silent: "MQTTAsync_connecting e a = Some (rc, a') \<Longrightarrow> silent a a'"
proof -
  assume r: "MQTTAsync_connecting e a = Some (rc, a')"
  have wr: "silent a (a\<lparr>ac := s\<rparr>)" if "write_connect e v (a\<lparr>ac := (ac a)\<lparr>connect_state := 3\<rparr>\<rparr>) = Some (rc1, s)" "connect_state (ac a) = 1" for v rc1 s
    using write_connect_conn [OF that(1)] that(2) by (intro same_silent) (auto simp: conn_part_def)
  obtain a1 where "silent a a1" "a' = a1 \<or> nextOrClose e (- 1) a1 = Some a'"
  proof (cases "connect_state (ac a) = 1 \<and> sock_error e = 0")
    case True
    then show ?thesis using r wr that unfolding MQTTAsync_connecting_def Let_def
      by (auto simp: bind_eq_Some_conv split: if_splits)
  next
    case False
    then show ?thesis using r that [of a] unfolding MQTTAsync_connecting_def Let_def
      by (auto simp: bind_eq_Some_conv split: if_splits)
  qed
  then show ?thesis using nextOrClose_silent silent_trans by blast
qed

lemma completeConnection_silent: "MQTTAsync_completeConnection e code a = Some (rc, a') \<Longrightarrow> silent a a'"
proof -
  assume r: "MQTTAsync_completeConnection e code a = Some (rc, a')"
  let ?a1 = "a\<lparr>retrying := False, ac := (ac a)\<lparr>net_connected := True, good := True, connect_state := 0\<rparr>\<rparr>"
  have "silent a ?a1" if "connect_state (ac a) = 3"
    using that by (intro same_silent) (auto simp: conn_part_def same_lists_def)
  moreover have "silent ?a1 a2" if "(if cleansession (ac ?a1) then MQTTAsync_cleanSession ?a1 else Some ?a1) = Some a2" for a2
    using that cleanSession_silent [of ?a1] by (simp split: if_splits)
  ultimately show ?thesis
    using r by (auto simp: MQTTAsync_completeConnection_def Let_def bind_eq_Some_conv dest!: conn_part_resume split: if_splits
        intro: silent_trans)
qed

lemma silent_restart: "silent a (MQTTAsync_addCommand e (restart_command a) a)"
proof (rule silent_ok)
  assume "async_ok a"
  from conn_cmd_ok [OF this] show "silent a (MQTTAsync_addCommand e (restart_command a) a)"
    by (intro silent_add) (auto simp: restart_command_def split: details.splits)
qed

lemma reconnect_silent: "silent a (snd (MQTTAsync_reconnect e a))"
  using silent_restart [of a] by (auto simp: MQTTAsync_reconnect_def Let_def intro!: same_silent simp: same_lists_def)

lemma checkTimeouts_silent: "MQTTAsync_checkTimeouts e a = Some a' \<Longrightarrow> silent a a'"
proof -
  assume r: "MQTTAsync_checkTimeouts e a = Some a'"
  let ?a1 = "a\<lparr>last_timeouts := clock_now (net e)\<rparr>"
  have s1: "silent a ?a1" by (rule same_silent) (simp_all add: same_lists_def)
  have now: "silent b (b\<lparr>reconnectNow := False\<rparr>)" for b by (rule same_silent) (simp_all add: same_lists_def)
  show "silent a a'"
  proof (cases "clock_now (net e) - last_timeouts a < 3")
    case True
    then show ?thesis using r by (simp add: MQTTAsync_checkTimeouts_def)
  next
    case False
    let ?r = "if connect_state (ac ?a1) = - 2 then MQTTAsync_checkDisconnect e (disc_cmd ?a1) ?a1 else Some ?a1"
    let ?f = "\<lambda>a2. if connect_state (ac a2) \<noteq> 0 \<and> MQTTAsync_elapsed e (cmd_start (conn_cmd a2)) > connectTimeout a2 * 1000
        then nextOrClose e (- 1) a2
        else if automaticReconnect a2 \<and> retrying a2 \<and>
                (reconnectNow a2 \<or> MQTTAsync_elapsed e (lastConnectionFailedTime a2) > currentInterval a2 * 1000)
        then Some ((MQTTAsync_addCommand e (restart_command a2) a2)\<lparr>reconnectNow := False\<rparr>)
        else Some a2"
    have "Option.bind ?r ?f = Some a'" using r False unfolding MQTTAsync_checkTimeouts_def Let_def by simp
    then obtain a2 where a2: "?r = Some a2" and f: "?f a2 = Some a'" unfolding bind_eq_Some_conv by blast
    have r2: "nextOrClose e (- 1) a2 = Some a' \<or> a' = a2 \<or> a' = (MQTTAsync_addCommand e (restart_command a2) a2)\<lparr>reconnectNow := False\<rparr>"
      using f by (simp split: if_splits)
    have "silent ?a1 a2" using a2 checkDisconnect_silent [of e "disc_cmd ?a1" ?a1 a2] by (simp only: split: if_splits) auto
    with s1 have "silent a a2" by (rule silent_trans)
    also have "silent a2 a'"
      using r2 silent_trans [OF silent_restart now] nextOrClose_silent silent_refl by blast
    finally show ?thesis .
  qed
qed

lemma retry_silent: "MQTTAsync_retry e a = Some a' \<Longrightarrow> silent a a'"
proof -
  assume r: "MQTTAsync_retry e a = Some a'"
  have "silent a (a\<lparr>last_retry := t\<rparr>)" for t by (rule same_silent) (simp_all add: same_lists_def)
  with r show ?thesis
    by (auto simp: MQTTAsync_retry_def Let_def bind_eq_Some_conv dest!: conn_part_retry split: if_splits)
qed

text \<open>A response that is taken out of the list is answered.\<close>

lemma detach_response_split: "detach_response i rs = Some (c, rest) \<Longrightarrow> \<exists>pre post. rs = pre @ c # post \<and> rest = pre @ post \<and> cmd_token c = i"
proof (induction rs arbitrary: rest)
  case (Cons r rs)
  show ?case
  proof (cases "cmd_token r = i")
    case True
    with Cons.prems show ?thesis by (intro exI [of _ "[]"] exI [of _ rest]) auto
  next
    case False
    with Cons.prems obtain rest' where "detach_response i rs = Some (c, rest')" and rest: "rest = r # rest'" by auto
    with Cons.IH obtain pre post where "rs = pre @ c # post" "rest' = pre @ post" "cmd_token c = i" by blast
    then show ?thesis by (intro exI [of _ "r # pre"] exI [of _ post]) (simp add: rest)
  qed
qed simp

lemma free_command_fields [simp]:
  "ac (free_command c a) = ac a" "commands (free_command c a) = commands a" "responses (free_command c a) = responses a"
  "conn_cmd (free_command c a) = conn_cmd a" "callbacks (free_command c a) = callbacks a"
  "pending_ok (pending_write (free_command c a)) = pending_ok (pending_write a)"
  by (auto simp: free_command_def split: option.split)

lemma complete_response_silent:
  assumes "\<And>c. cmd_token c = 0 \<Longrightarrow> answers (cbs c) = []"
    and "\<And>c. cmd_token c \<noteq> 0 \<Longrightarrow> cmd_onSuccess c \<Longrightarrow> cmd_onFailure c \<Longrightarrow> answers (cbs c) = [cmd_token c]"
  shows "silent a (complete_response i cbs a)"
proof (cases "detach_response i (responses a)")
  case None
  then show ?thesis by (simp add: complete_response_def)
next
  case (Some x)
  then obtain c rest where d: "detach_response i (responses a) = Some (c, rest)" by (cases x) auto
  then obtain pre post where "responses a = pre @ c # post" "rest = pre @ post" using detach_response_split by blast
  with d show ?thesis using assms [of c]
    by (auto simp: silent_def complete_response_def async_ok_def answerable_def ledger_def requests_def split: if_splits)
qed

lemma on_success_silent: "silent a (complete_response i on_success a)"
  by (rule complete_response_silent) (simp_all add: on_success_def answers_def)

lemma cycle_packet_silent: "cycle_packet e pack a = Some (rc, p, a') \<Longrightarrow> silent a a'"
proof -
  assume r: "cycle_packet e pack a = Some (rc, p, a')"
  let ?a0 = "a\<lparr>ac := (ac a)\<lparr>lastReceived := clock_now (net e)\<rparr>\<rparr>"
  have a0: "silent a ?a0" by (rule silent_protocol) simp
  obtain rc1 s where s: "cycle_dispatch (net e) pack (ac ?a0) = Some (rc1, s)"
    using r unfolding cycle_packet_def Let_def bind_eq_Some_conv by force
  have a':
    "a' = take_protocol e s ?a0 \<or> (\<exists>i. a' = complete_response i on_success (take_protocol e s ?a0)) \<or>
     (\<exists>i. a' = complete_response i on_success (call (Delivery_complete_cb i) (take_protocol e s ?a0)))"
    using r unfolding cycle_packet_def Let_def s by (cases pack) (auto split: if_splits)
  have a1: "silent a (take_protocol e s ?a0)" by (rule silent_after(4) [OF a0 conn_part_dispatch [OF s]])
  then have "silent a (call (Delivery_complete_cb i) (take_protocol e s ?a0))" for i by auto
  with a1 a' show ?thesis using silent_trans [OF _ on_success_silent] by blast
qed

lemma cycle_silent: "MQTTAsync_cycle e rc pack a = Some (rc', p, a') \<Longrightarrow> silent a a'"
proof -
  assume "MQTTAsync_cycle e rc pack a = Some (rc', p, a')"
  then obtain rc1 pack1 a1 a2 rc3 pack3 a3 where
    1: "(if connect_state (ac a) = 1 \<or> connect_state (ac a) = 2
        then map_option (\<lambda>(rc, a'). (rc, None, a')) (MQTTAsync_connecting e a)
        else Some (rc, pack, a)) = Some (rc1, pack1, a1)"
    and 2: "(if connect_state (ac a1) = 3 \<and> rc1 = SOCKET_ERROR then nextOrClose e (- 1) a1 else Some a1) = Some a2"
    and 3: "(case pack1 of None \<Rightarrow> Some (rc1, None, a2) | Some p \<Rightarrow> cycle_packet e p a2) = Some (rc3, pack3, a3)"
    and 4: "MQTTAsync_retry e a3 = Some a'"
    unfolding MQTTAsync_cycle_def by (fastforce simp: bind_eq_Some_conv simp del: if_split)
  have "silent a a1" using 1 connecting_silent by (auto split: if_splits)
  also have "silent a1 a2" using 2 nextOrClose_silent by (auto split: if_splits)
  also have "silent a2 a3" using 3 cycle_packet_silent by (auto split: option.splits)
  also have "silent a3 a'" by (rule retry_silent [OF 4])
  finally show ?thesis .
qed

lemma receive_body_silent: "receive_body e rc pack a = Some a' \<Longrightarrow> silent a a'"
proof -
  assume r: "receive_body e rc pack a = Some a'"
  let ?a1 = "a\<lparr>ac := deliver_queued (net e) (ac a)\<rparr>"
  have a1: "silent a ?a1" by (rule silent_protocol) simp
  show ?thesis
  proof (cases "rc = SOCKET_ERROR")
    case True
    then show ?thesis using r nextOrClose_silent closeOnly_silent(1)
      by (auto simp: receive_body_def split: if_splits)
  next
    case False
    have sub: "silent ?a1 (complete_response i (\<lambda>c. if q = [128] then (if cmd_onFailure c then [Failure_cb (cmd_token c) (Some 128)] else [])
                                               else on_success c) ?a1)" for i q
      by (rule complete_response_silent) (simp_all add: on_success_def answers_def)
    have con: "silent ?a1 a'" if "MQTTAsync_completeConnection e code ?a1 = Some (rc2, a2)"
      "(if rc2 = 0 then let a3 = (if cmd_onSuccess (conn_cmd a2) then call Connect_success_cb a2 else a2)
                       in Some (if has_connected a3 then call Connected_cb a3 else a3)
                  else nextOrClose e rc2 a2) = Some a'" for code rc2 a2
      using that completeConnection_silent [OF that(1)] nextOrClose_silent [of e rc2 a2 a'] silent_trans [of ?a1 a2 a']
      by (auto simp: Let_def split: if_splits)
    show ?thesis using r False
      by (auto simp: receive_body_def bind_eq_Some_conv Let_def [of "ac_update _ _"] split: option.splits packet.splits
          intro: a1 silent_trans [OF a1 sub] silent_trans [OF a1 on_success_silent] silent_trans [OF a1 con])
  qed
qed

section \<open>Requests that are started\<close>

text \<open>Queueing an internal disconnect changes only the front of the queue.\<close>

lemma disconnect_internal_front:
  "\<exists>pre. MQTTAsync_disconnect_internal e t a = a\<lparr>commands := pre @ commands a\<rparr> \<and>
     list_all (\<lambda>c. \<not> is_request (cmd_details c) \<and> token_ok c \<and> cmd_token c = 0) pre"
proof (cases "MQTTAsync_disconnect_internal e t a = a")
  case True
  then show ?thesis by (intro exI [of _ "[]"]) simp
next
  case False
  then show ?thesis
    by (intro exI [of _ "[(new_command 0 None (Dis True t))\<lparr>cmd_start := clock_ms e\<rparr>]"])
      (auto simp: MQTTAsync_disconnect_internal_def MQTTAsync_disconnect1_def MQTTAsync_addCommand_def Let_def token_ok_def
        split: list.splits if_splits)
qed

text \<open>The first request leaves the queue and waits for its answer or has it.\<close>

definition starts :: "MQTTAsync_command \<Rightarrow> MQTTAsyncs \<Rightarrow> MQTTAsyncs \<Rightarrow> bool" where
  "starts c a a' \<longleftrightarrow> (async_ok a \<longrightarrow> async_ok a' \<and>
     (\<not> cleansession (ac a) \<longrightarrow> \<not> cleansession (ac a') \<and> requests a = (cmd_token c, cmd_details c) # requests a') \<and>
     (answerable a \<longrightarrow> answerable a' \<and> ledger a' = ledger a))"

text \<open>What running a request leaves: the lists, the connection; a request of QoS 0 may have been answered.\<close>

lemma run_request:
  assumes "is_request (cmd_details c)" and "run_command e c a = Some (rc, c', a')" and "token_ok c"
  shows "c' = c \<and> same_lists a a' \<and> conn_part (ac a') = conn_part (ac a)"
proof -
  have pub: "c' = c \<and> same_lists a a' \<and> conn_part (ac a') = conn_part (ac a)"
    if "run_publish e c t p q r a = Some (rc, c', a')" "cmd_details c = Pub t p q r" for t p q r
    using that assms(3)
    by (auto simp: run_publish_def bind_eq_Some_conv Let_def same_lists_def call_def answers_def token_ok_def
        dest!: conn_part_publish)
  show ?thesis
  proof (cases "cmd_details c")
    case Sub
    then show ?thesis using assms(2) by (auto simp: run_command_def bind_eq_Some_conv split_beta)
  next
    case Unsub
    then show ?thesis using assms(2) by (auto simp: run_command_def bind_eq_Some_conv split_beta)
  next
    case Pub
    then show ?thesis using assms(2) pub by (auto simp: run_command_def)
  qed (use assms(1) in auto)
qed

lemma finish_request:
  assumes "is_request (cmd_details c)" and "token_ok c"
  obtains "finish_command e rc c a = a\<lparr>responses := responses a @ [c]\<rparr>"
  | "finish_command e rc c a = free_command c a" and "cmd_token c = 0"
  | "finish_command e rc c a = free_command c
       (if cmd_onFailure c then call (Failure_cb (cmd_token c) None) (MQTTAsync_disconnect_internal e 0 a)
        else MQTTAsync_disconnect_internal e 0 a)"
proof (cases "cmd_details c")
  case (Sub topics qoss)
  then show ?thesis using that by (cases "rc = SOCKET_ERROR \<or> rc = MQTTASYNC_PERSISTENCE_ERROR") (auto simp: finish_command_def Let_def)
next
  case (Unsub topics)
  then show ?thesis using that by (cases "rc = SOCKET_ERROR \<or> rc = MQTTASYNC_PERSISTENCE_ERROR") (auto simp: finish_command_def Let_def)
next
  case (Pub t p q r)
  then have "q = 0 \<Longrightarrow> cmd_token c = 0" using assms(2) by (simp add: token_ok_def)
  with Pub show ?thesis using that
    by (cases "rc = SOCKET_ERROR \<or> rc = MQTTASYNC_PERSISTENCE_ERROR"; cases "q = 0"; cases "rc = TCPSOCKET_INTERRUPTED")
      (auto simp: finish_command_def Let_def)
qed (use assms(1) in auto)

lemma process_started:
  assumes "commands a = c # rest" and "MQTTAsync_processCommand e a = Some (b, a')"
  shows "a' = a \<and> \<not> b \<and> \<not> eligible e c a \<or>
    (\<exists>rc c' a1. b \<and> eligible e c a \<and> run_command e c (a\<lparr>commands := rest\<rparr>) = Some (rc, c', a1) \<and> a' = finish_command e rc c' a1)"
  using assms by (auto simp: MQTTAsync_processCommand_def bind_eq_Some_conv split: if_splits)

lemma process_request:
  assumes "commands a = c # rest" and "is_request (cmd_details c)" and "MQTTAsync_processCommand e a = Some (True, a')"
  shows "starts c a a'"
proof (cases "async_ok a")
  case True
  then have c: "token_ok c" using assms(1) by (simp add: async_ok_def)
  obtain rc c' a1 where run: "run_command e c (a\<lparr>commands := rest\<rparr>) = Some (rc, c', a1)" and a': "a' = finish_command e rc c' a1"
    using process_started [OF assms(1,3)] by auto
  have pend: "pending_ok (pending_write a1)" using True run_request [OF assms(2) run c] by (simp add: same_lists_def async_ok_def)
  have c': "c' = c" and a1: "commands a1 = rest" "responses a1 = responses a" "conn_cmd a1 = conn_cmd a"
      "answers (callbacks a1) = answers (callbacks a)" "conn_part (ac a1) = conn_part (ac a)"
    using run_request [OF assms(2) run c] by (simp_all add: same_lists_def)
  have clean: "cleansession (ac a1) = cleansession (ac a)" using a1(5) by (simp add: conn_part_def)
  note defs = starts_def async_ok_def answerable_def ledger_def requests_def call_def
  show ?thesis
  proof (rule finish_request [OF assms(2) c, of e rc a1])
    assume "finish_command e rc c a1 = a1\<lparr>responses := responses a1 @ [c]\<rparr>"
    then show ?thesis using True assms(1,2) by (auto simp: a' c' a1 clean pend defs)
  next
    assume "finish_command e rc c a1 = free_command c a1" "cmd_token c = 0"
    then show ?thesis using True assms(1,2) by (auto simp: a' c' a1 clean pend defs)
  next
    obtain pre where pre: "MQTTAsync_disconnect_internal e 0 a1 = a1\<lparr>commands := pre @ commands a1\<rparr>"
        "list_all (\<lambda>c. \<not> is_request (cmd_details c) \<and> token_ok c \<and> cmd_token c = 0) pre"
      using disconnect_internal_front by blast
    then have "tokens pre = []" "filter (is_request \<circ> cmd_details) pre = []" "list_all token_ok pre"
        "list_all (\<lambda>c. cmd_token c = 0 \<or> cmd_onSuccess c \<and> cmd_onFailure c) pre"
      by (auto simp: tokens_def filter_empty_conv list_all_iff)
    moreover assume "finish_command e rc c a1 = free_command c
       (if cmd_onFailure c then call (Failure_cb (cmd_token c) None) (MQTTAsync_disconnect_internal e 0 a1)
        else MQTTAsync_disconnect_internal e 0 a1)"
    ultimately show ?thesis using True assms(1,2) by (auto simp: a' c' a1 clean pend defs pre(1) list_all_iff)
  qed
qed (simp add: starts_def)

text \<open>Connects and disconnects start no request.\<close>

lemma finish_disconnect: "cmd_type (cmd_details c) = msg_code DISCONNECT \<Longrightarrow> silent a (finish_command e rc c a)"
  by (rule same_silent) (simp_all add: finish_command_def Let_def same_lists_def)

lemma finish_connect:
  assumes "cmd_details c = Conn u v" and "cmd_token c = 0"
  shows "silent a (finish_command e rc c a)"
proof -
  have upd: "silent b (b\<lparr>conn_cmd := c\<rparr>)" "silent b (b\<lparr>shouldBeConnected := True\<rparr>)" for b
    using assms by (auto simp: silent_def async_ok_def token_ok_def requests_def answerable_def ledger_def)
  let ?a1 = "(snd (MQTTAsync_disconnect e None 0 a))\<lparr>shouldBeConnected := True\<rparr>"
  let ?a2 = "if cmd_onFailure c then call (Failure_cb 0 None) ?a1 else ?a1"
  have a1: "silent a ?a1" by (rule silent_trans [OF silent_disconnect(2) upd(2)])
  then have a2: "silent a ?a2" by auto
  have "silent a (MQTTAsync_addCommand e (c\<lparr>cmd_details := next_attempt w (Conn u v)\<rparr>) ?a1)" for w
    using a1 assms(2) by auto
  moreover have "silent a (MQTTAsync_startConnectRetry e (?a2\<lparr>conn_cmd := c\<rparr>))"
    by (rule silent_after(1), rule silent_trans [OF a2 upd(1)])
  ultimately show ?thesis using assms upd(1)
    by (cases "rc = SOCKET_ERROR \<or> rc = MQTTASYNC_PERSISTENCE_ERROR"; cases "cmd_onFailure c"; cases "MQTTAsync_checkConn c ?a1")
      (simp_all add: finish_command_def Let_def)
qed

lemma finish_unset:
  assumes "cmd_details c = Unset u v" and "cmd_token c = 0"
  shows "silent a (finish_command e 0 c a)"
  using assms by (auto simp: finish_command_def Let_def silent_def async_ok_def token_ok_def requests_def answerable_def ledger_def)

lemma connect_silent:
  assumes r: "MQTTProtocol_connect e uri v a = Some (rc, a')" and c: "connect_state (ac a) = 0" "\<not> net_connected (ac a)"
  shows "silent a a'"
proof -
  let ?b = "\<lambda>open. a\<lparr>ac := (ac a)\<lparr>good := True, socket_open := open\<rparr>\<rparr>"
  have w: "conn_part s = (False, 0, True, cleansession (ac a), msgID (ac a))"
    if "write_connect e v (?b True) = Some (rc1, s)" for rc1 s
    using write_connect_conn [OF that] c by (simp add: conn_part_def)
  obtain addr port where ap: "MQTTProtocol_addressPort uri = Some (addr, port)"
    using r by (auto simp: MQTTProtocol_connect_def bind_eq_Some_conv)
  let ?n = "socket_new e addr port"
  show ?thesis
  proof (cases "?n = EINPROGRESS \<or> ?n = EWOULDBLOCK")
    case True
    then have "a' = (?b True)\<lparr>ac := (ac (?b True))\<lparr>connect_state := 1\<rparr>\<rparr>"
      using r by (auto simp: MQTTProtocol_connect_def ap Let_def)
    then show ?thesis using c by (intro same_silent) (auto simp: conn_part_def)
  next
    case pending: False
    show ?thesis
    proof (cases "?n = 0")
      case True
      then obtain rc1 s where s: "write_connect e v (?b True) = Some (rc1, s)"
        and a': "a' = (?b True)\<lparr>ac := s\<lparr>connect_state := (if rc1 = 0 then 3 else 0)\<rparr>\<rparr>"
        using r by (auto simp: MQTTProtocol_connect_def ap Let_def bind_eq_Some_conv)
      then show ?thesis using w [OF s] c by (intro same_silent) (auto simp: conn_part_def)
    next
      case False
      then have "a' = ?b False" using r pending by (simp add: MQTTProtocol_connect_def ap Let_def)
      then show ?thesis using c by (intro same_silent) (auto simp: conn_part_def)
    qed
  qed
qed

lemma process_other:
  assumes "commands a = c # rest" and "\<not> is_request (cmd_details c)" and "MQTTAsync_processCommand e a = Some (b, a')"
  shows "silent a a'"
proof (rule silent_ok)
  assume ok: "async_ok a"
  then have c: "cmd_token c = 0" using assms(1,2) by (cases "cmd_details c") (auto simp: async_ok_def token_ok_def)
  let ?a0 = "a\<lparr>commands := rest\<rparr>"
  have a0: "silent a ?a0" using assms(1,2) c by (auto simp: silent_def async_ok_def requests_def answerable_def ledger_def)
  consider "a' = a" | rc c' a1 where "run_command e c ?a0 = Some (rc, c', a1)" "a' = finish_command e rc c' a1"
    using process_started [OF assms(1,3)] by auto
  then show "silent a a'"
  proof cases
    case 2
    have "silent ?a0 a1 \<and> silent a1 a'"
    proof (cases "cmd_details c")
      case (Unset u v)
      then show ?thesis using 2 c finish_unset by (auto simp: run_command_def)
    next
      case (Conn u v)
      then have "silent ?a0 a1" "\<exists>v. cmd_details c' = Conn u v" "cmd_token c' = 0"
        using 2(1) c connect_silent [of e _ _ ?a0]
        by (auto simp: run_command_def run_connect_def bind_eq_Some_conv Let_def split: if_splits)
      then show ?thesis using 2(2) finish_connect by auto
    next
      case (Dis i t)
      let ?b = "?a0\<lparr>ac := (ac a)\<lparr>connect_state := - 2\<rparr>\<rparr>"
      have b: "silent ?a0 ?b" if "connect_state (ac a) \<noteq> 0"
        using that by (intro same_silent) (auto simp: conn_part_def)
      then have "silent ?a0 (call (Connect_failure_cb (- 2)) ?b)" if "connect_state (ac a) \<noteq> 0"
        using that by auto
      with b have "silent ?a0 a1" "c' = c" using 2(1) Dis
        by (auto simp: run_command_def run_disconnect_def bind_eq_Some_conv Let_def dest!: checkDisconnect_silent
            intro: silent_trans split: if_splits)
      then show ?thesis using 2(2) Dis finish_disconnect by auto
    qed (use assms(2) in auto)
    with a0 show ?thesis using silent_trans by blast
  qed simp
qed

section \<open>Requests that are accepted\<close>

text \<open>A request joins the end of the queue; it gets an answer if its callbacks are set.\<close>

definition accepts :: "nat \<Rightarrow> details \<Rightarrow> bool \<Rightarrow> MQTTAsyncs \<Rightarrow> MQTTAsyncs \<Rightarrow> bool" where
  "accepts i d called a a' \<longleftrightarrow> (async_ok a \<longrightarrow> async_ok a' \<and>
     (\<not> cleansession (ac a) \<longrightarrow> \<not> cleansession (ac a') \<and> requests a' = requests a @ [(i, d)]) \<and>
     (called \<and> answerable a \<longrightarrow> answerable a' \<and> ledger a' = ledger a + (if i = 0 then {#} else {#i#})))"

lemma add_request:
  assumes "is_request d" and "token_ok (new_command i r d)" and "i \<noteq> 0 \<Longrightarrow> i \<notin> set (tokens (commands a @ responses a))"
  shows "accepts i d (r = Some (True, True)) a (MQTTAsync_addCommand e (new_command i r d) a)"
proof -
  have "cmd_type d \<noteq> msg_code CONNECT \<and> \<not> (case d of Dis internal timeout \<Rightarrow> internal | _ \<Rightarrow> False)" using assms(1) by (cases d) auto
  then have add: "MQTTAsync_addCommand e (new_command i r d) a = a\<lparr>commands := commands a @ [(new_command i r d)\<lparr>cmd_start := clock_ms e\<rparr>]\<rparr>"
    by (simp add: MQTTAsync_addCommand_def)
  show ?thesis using assms unfolding add
    by (auto simp: accepts_def async_ok_def token_ok_def requests_def answerable_def ledger_def new_command_def)
qed

lemma assignMsgId_fresh:
  assumes "async_ok a" and "MQTTAsync_assignMsgId a = Some (i, a1)"
  shows "silent a a1 \<and> commands a1 = commands a \<and> responses a1 = responses a \<and>
    (i \<noteq> 0 \<longrightarrow> i \<le> MAX_MSG_ID \<and> i \<notin> set (tokens (commands a @ responses a)) \<and> msgID (ac a1) = i)"
proof -
  have m: "msgID (ac a) \<le> 65535" using assms(1) by (simp add: async_ok_def conn_part_def MAX_MSG_ID_def)
  have fresh: "i \<le> MAX_MSG_ID \<and> i \<notin> set (tokens (commands a @ responses a))" if "i \<noteq> 0"
    using assms(2) assign_loop_outcomes(2) [OF m _ that] by (auto simp: MQTTAsync_assignMsgId_def MAX_MSG_ID_def tokens_def split: option.splits)
  have a1: "a1 = (if i \<noteq> 0 then a\<lparr>ac := (ac a)\<lparr>msgID := i\<rparr>\<rparr> else a)"
    using assms(2) by (auto simp: MQTTAsync_assignMsgId_def split: option.splits)
  have "silent a a1" using a1 fresh by (auto intro!: same_silent simp: conn_part_def)
  then show ?thesis using a1 fresh by simp
qed

text \<open>Only a call that returns 0 accepts a request.\<close>

definition outcome :: "int \<Rightarrow> bool \<Rightarrow> details \<Rightarrow> bool \<Rightarrow> MQTTAsyncs \<Rightarrow> MQTTAsyncs \<Rightarrow> bool" where
  "outcome rc numbered d called a a' \<longleftrightarrow>
     (if rc = 0 then accepts (if numbered then msgID (ac a') else 0) d called a a' else silent a a')"

lemma addCommand_ac [simp]: "ac (MQTTAsync_addCommand e c a) = ac a"
  by (simp add: MQTTAsync_addCommand_def Let_def split: list.split)

lemma silent_accepts: "silent a b \<Longrightarrow> accepts i d called b c \<Longrightarrow> accepts i d called a c"
  by (simp add: silent_def accepts_def)

lemma accepts_ok: "(async_ok a \<Longrightarrow> accepts i d called a b) \<Longrightarrow> accepts i d called a b"
  by (auto simp: accepts_def)

lemma numbered_outcome:
  assumes "async_ok a" and "MQTTAsync_assignMsgId a = Some (i, a1)" and "is_request d" and "needs_id d"
  shows "if i = 0 then silent a a1 else outcome 0 True d (r = Some (True, True)) a (MQTTAsync_addCommand e (new_command i r d) a1)"
proof (cases "i = 0")
  case False
  then have fresh: "silent a a1" "i \<le> MAX_MSG_ID" "i \<notin> set (tokens (commands a1 @ responses a1))" "msgID (ac a1) = i"
    using assignMsgId_fresh [OF assms(1,2)] by auto
  then have "accepts i d (r = Some (True, True)) a1 (MQTTAsync_addCommand e (new_command i r d) a1)"
    using False assms(3,4) by (intro add_request) (auto simp: token_ok_def)
  then show ?thesis using False fresh silent_accepts by (simp add: outcome_def)
qed (use assignMsgId_fresh [OF assms(1,2)] in auto)

lemma send_outcome:
  assumes "async_ok a" and r: "MQTTAsync_send e t p q retained resp a = Some (rc, a')"
  shows "outcome rc (q > 0) (Pub (c_bytes t) p (nat q) retained) (resp = Some (True, True)) a a'"
proof (cases "rc = 0 \<and> q > 0")
  case True
  then obtain i a1 where "MQTTAsync_assignMsgId a = Some (i, a1)" "i \<noteq> 0"
    and "a' = MQTTAsync_addCommand e (new_command i resp (Pub (c_bytes t) p (nat q) retained)) a1"
    using r by (auto simp: MQTTAsync_send_def bind_eq_Some_conv split: if_splits option.splits)
  then show ?thesis using numbered_outcome [OF assms(1), of i a1 "Pub (c_bytes t) p (nat q) retained"] True by simp
next
  case other: False
  show ?thesis
  proof (cases "rc = 0")
    case True
    then have q: "q = 0" and a': "a' = MQTTAsync_addCommand e (new_command 0 resp (Pub (c_bytes t) p (nat q) retained)) a"
      using r other by (auto simp: MQTTAsync_send_def bind_eq_Some_conv split: if_splits option.splits)
    then show ?thesis using True add_request [of "Pub (c_bytes t) p 0 retained" 0 resp a e] by (simp add: outcome_def token_ok_def)
  next
    case False
    then have "a' = a \<or> (\<exists>i. MQTTAsync_assignMsgId a = Some (i, a'))"
      using r by (auto simp: MQTTAsync_send_def bind_eq_Some_conv split: if_splits option.splits)
    then have "silent a a'" using assignMsgId_fresh [OF assms(1)] by auto
    then show ?thesis using False by (simp add: outcome_def)
  qed
qed

lemma subscribeMany_outcome:
  assumes "async_ok a" and r: "MQTTAsync_subscribeMany e topics qoss resp a = Some (rc, a')"
  shows "outcome rc True (Sub (map c_bytes topics) (map nat (take (length topics) qoss))) (resp = Some (True, True)) a a'"
  using r numbered_outcome [OF assms(1), of _ _ "Sub (map c_bytes topics) (map nat (take (length topics) qoss))" resp e]
  by (auto simp: MQTTAsync_subscribeMany_def bind_eq_Some_conv outcome_def split: if_splits)

lemma unsubscribeMany_outcome:
  assumes "async_ok a" and r: "MQTTAsync_unsubscribeMany e topics resp a = Some (rc, a')"
  shows "outcome rc True (Unsub (map c_bytes topics)) (resp = Some (True, True)) a a'"
  using r numbered_outcome [OF assms(1), of _ _ "Unsub (map c_bytes topics)" resp e]
  by (auto simp: MQTTAsync_unsubscribeMany_def bind_eq_Some_conv outcome_def split: if_splits)

section \<open>The remaining calls\<close>

text \<open>A connect call may change whether sessions are kept; nothing else of what is counted.\<close>

definition with_clean :: "bool \<Rightarrow> MQTTAsyncs \<Rightarrow> MQTTAsyncs" where
  "with_clean b a = a\<lparr>ac := (ac a)\<lparr>cleansession := b\<rparr>\<rparr>"

lemma with_clean_simps [simp]:
  "async_ok (with_clean b a) = async_ok a" "requests (with_clean b a) = requests a" "ledger (with_clean b a) = ledger a"
  "answerable (with_clean b a) = answerable a" "cleansession (ac (with_clean b a)) = b"
  by (simp_all add: with_clean_def async_ok_def requests_def ledger_def answerable_def conn_part_def)

lemma set_login_fields:
  "set_login opt a = Some a' \<Longrightarrow> same_lists a a' \<and> ac a' = ac a"
  by (auto simp: set_login_def Let_def same_lists_def split: if_splits)

lemma connect_settings_silent: "silent (with_clean (co_cleansession opt) a) (connect_settings opt a)"
  by (auto simp: silent_def connect_settings_def setRetryLoopInterval_def Let_def with_clean_def async_ok_def token_ok_def
      requests_def answerable_def ledger_def conn_part_def)

lemma connect_call:
  assumes "MQTTAsync_connect e options a = Some (rc, a')"
  shows "a' = a \<or> (\<exists>opt. options = Some opt \<and> silent (with_clean (co_cleansession opt) a) a')"
proof (cases "a' = a")
  case False
  then obtain opt where opt: "options = Some opt" and "a' = connect_settings opt a \<or>
      (\<exists>a2 uris. set_login opt (connect_settings opt a) = Some a2 \<and>
        a' = MQTTAsync_addCommand e (new_command 0 (Some (co_onSuccess opt, co_onFailure opt)) (Conn 0 0))
          (a2\<lparr>ac := (ac a2)\<lparr>retryInterval := co_retryInterval opt\<rparr>, shouldBeConnected := True, serverURIs := uris\<rparr>))"
    using assms by (auto simp: MQTTAsync_connect_def bind_eq_Some_conv Let_def split: option.splits if_splits)
  then show ?thesis
  proof (elim disjE exE conjE)
    fix a2 :: MQTTAsyncs and uris
    let ?a3 = "a2\<lparr>ac := (ac a2)\<lparr>retryInterval := co_retryInterval opt\<rparr>, shouldBeConnected := True, serverURIs := uris\<rparr>"
    assume l: "set_login opt (connect_settings opt a) = Some a2"
      and a': "a' = MQTTAsync_addCommand e (new_command 0 (Some (co_onSuccess opt, co_onFailure opt)) (Conn 0 0)) ?a3"
    have "silent (connect_settings opt a) ?a3" using set_login_fields [OF l]
      by (intro same_silent) (auto simp: same_lists_def conn_part_def)
    then have "silent (with_clean (co_cleansession opt) a) ?a3" by (rule silent_trans [OF connect_settings_silent])
    then have "silent (with_clean (co_cleansession opt) a) a'" unfolding a' by (rule silent_after(5)) simp_all
    with opt show ?thesis by blast
  qed (use opt connect_settings_silent in auto)
qed simp

lemma silent_setters:
  "silent a (snd (MQTTAsync_setCallbacks cl ma dc a))" "silent a (snd (MQTTAsync_setConnected co a))"
  by (auto intro!: same_silent simp: MQTTAsync_setCallbacks_def MQTTAsync_setConnected_def same_lists_def conn_part_def)

lemma complete_write_ok:
  assumes "complete_write rc a = Some a'" and "async_ok a"
  shows "async_ok a' \<and> requests a' = requests a \<and> ac a' = ac a"
  using assms by (auto simp: complete_write_def async_ok_def requests_def call_def Let_def disjoint_iff
      split: option.splits list.splits if_splits)

lemma complete_write_answers:
  assumes "complete_write rc a = Some a'" and "async_ok a" and "answerable a"
    and "pending_write a = None \<or> responses a = [] \<or> cmd_token (hd (responses a)) = 0"
  shows "answerable a' \<and> ledger a' = ledger a"
  using assms by (auto simp: complete_write_def async_ok_def answerable_def ledger_def call_def Let_def
      split: option.splits list.splits if_splits)

lemma writeComplete_start:
  assumes "MQTTAsync_writeComplete e rc a = Some a'"
  obtains s where "silent a (a\<lparr>ac := s\<rparr>)" and "complete_write rc (a\<lparr>ac := s\<rparr>) = Some a'"
proof -
  obtain s where s: "MQTTProtocol_checkPendingWrites (net e) (ac a) = Some s"
    and r: "complete_write rc (a\<lparr>ac := s\<lparr>lastSent := clock_now (net e)\<rparr>\<rparr>) = Some a'"
    using assms by (auto simp: MQTTAsync_writeComplete_def bind_eq_Some_conv)
  have "conn_part s = conn_part (ac a)" using s conn_part_pending by (fastforce simp: MQTTProtocol_checkPendingWrites_def)
  then show ?thesis using r by (intro that [of "s\<lparr>lastSent := clock_now (net e)\<rparr>"]) (simp_all add: silent_protocol)
qed

section \<open>Runs of the client\<close>

text \<open>
  The calls of the application and the steps of the two threads, in any order: each runs under
  the mutex of the client.
\<close>

datatype async_op =
    Send_message "byte list" "(bool \<times> MQTTAsync_message) option" "(bool \<times> bool) option"
  | Send "byte list" "byte list" int bool "(bool \<times> bool) option"
  | Subscribe_many "byte list list" "int list" "(bool \<times> bool) option"
  | Unsubscribe_many "byte list list" "(bool \<times> bool) option"
  | Connect "connectOptions option"
  | Disconnect "(bool \<times> bool) option" int
  | Reconnect
  | Set_callbacks bool bool bool
  | Set_connected bool
  | Process_command
  | Check_timeouts
  | Write_complete int
  | Retry
  | Cycle int "packet option"
  | Receive int "packet option"

fun apply_op :: "async_env \<Rightarrow> async_op \<Rightarrow> MQTTAsyncs \<Rightarrow> (int \<times> MQTTAsyncs) option" where
  "apply_op e (Send_message t m r) a = MQTTAsync_sendMessage e t m r a"
| "apply_op e (Send t p q retained r) a = MQTTAsync_send e t p q retained r a"
| "apply_op e (Subscribe_many topics qoss r) a = MQTTAsync_subscribeMany e topics qoss r a"
| "apply_op e (Unsubscribe_many topics r) a = MQTTAsync_unsubscribeMany e topics r a"
| "apply_op e (Connect options) a = MQTTAsync_connect e options a"
| "apply_op e (Disconnect r t) a = Some (MQTTAsync_disconnect e r t a)"
| "apply_op e Reconnect a = Some (MQTTAsync_reconnect e a)"
| "apply_op e (Set_callbacks cl ma dc) a = Some (MQTTAsync_setCallbacks cl ma dc a)"
| "apply_op e (Set_connected co) a = Some (MQTTAsync_setConnected co a)"
| "apply_op e Process_command a = map_option (\<lambda>(b, a'). (of_bool b, a')) (MQTTAsync_processCommand e a)"
| "apply_op e Check_timeouts a = map_option (Pair 0) (MQTTAsync_checkTimeouts e a)"
| "apply_op e (Write_complete rc) a = map_option (Pair 0) (MQTTAsync_writeComplete e rc a)"
| "apply_op e Retry a = map_option (Pair 0) (MQTTAsync_retry e a)"
| "apply_op e (Cycle rc pack) a = map_option (\<lambda>(rc, _, a'). (rc, a')) (MQTTAsync_cycle e rc pack a)"
| "apply_op e (Receive rc pack) a = map_option (Pair 0) (receive_body e rc pack a)"

definition exec_op :: "async_env \<times> async_op \<Rightarrow> MQTTAsyncs \<Rightarrow> MQTTAsyncs option" where
  "exec_op eo a = map_option snd (apply_op (fst eo) (snd eo) a)"

text \<open>A call that is given a request: whether it needs an id, and the request.\<close>

fun op_request :: "async_op \<Rightarrow> (bool \<times> details) option" where
  "op_request (Send_message t (Some (ok, m)) r) = Some (mm_qos m > 0, Pub (c_bytes t) (mm_payload m) (mm_qos m) (mm_retained m))"
| "op_request (Send t p q retained r) = Some (q > 0, Pub (c_bytes t) p (nat q) retained)"
| "op_request (Subscribe_many topics qoss r) = Some (True, Sub (map c_bytes topics) (map nat (take (length topics) qoss)))"
| "op_request (Unsubscribe_many topics r) = Some (True, Unsub (map c_bytes topics))"
| "op_request op = None"

fun op_callbacks :: "async_op \<Rightarrow> (bool \<times> bool) option" where
  "op_callbacks (Send_message t m r) = r"
| "op_callbacks (Send t p q retained r) = r"
| "op_callbacks (Subscribe_many topics qoss r) = r"
| "op_callbacks (Unsubscribe_many topics r) = r"
| "op_callbacks op = None"

datatype event = Accepted nat details | Started nat details

text \<open>
  A request is accepted when its call returns 0, under the id that was assigned last; it is
  started when the sending thread takes it from the queue.
\<close>

definition op_events :: "async_env \<times> async_op \<Rightarrow> MQTTAsyncs \<Rightarrow> event list" where
  "op_events eo a =
     (case op_request (snd eo) of
        Some (numbered, d) \<Rightarrow>
          (case apply_op (fst eo) (snd eo) a of
             Some (rc, a') \<Rightarrow> if rc = 0 then [Accepted (if numbered then msgID (ac a') else 0) d] else []
           | None \<Rightarrow> [])
      | None \<Rightarrow>
          (case commands a of
             c # _ \<Rightarrow> if snd eo = Process_command \<and> is_request (cmd_details c) \<and> eligible (fst eo) c a
                     then [Started (cmd_token c) (cmd_details c)] else []
           | [] \<Rightarrow> []))"

definition started :: "event list \<Rightarrow> (nat \<times> details) list" where
  "started xs = concat (map (\<lambda>x. case x of Started i d \<Rightarrow> [(i, d)] | Accepted i d \<Rightarrow> []) xs)"

definition accepted :: "event list \<Rightarrow> (nat \<times> details) list" where
  "accepted xs = concat (map (\<lambda>x. case x of Started i d \<Rightarrow> [] | Accepted i d \<Rightarrow> [(i, d)]) xs)"

lemma event_simps [simp]:
  "started [] = []" "started (xs @ ys) = started xs @ started ys" "started [Started i d] = [(i, d)]" "started [Accepted i d] = []"
  "accepted [] = []" "accepted (xs @ ys) = accepted xs @ accepted ys" "accepted [Accepted i d] = [(i, d)]" "accepted [Started i d] = []"
  by (simp_all add: started_def accepted_def)

text \<open>One operation: it accepts, starts, or does neither; connects and finished writes are apart.\<close>

lemma op_request_outcome:
  assumes "async_ok a" and "op_request op = Some (numbered, d)" and "apply_op e op a = Some (rc, a')"
  shows "outcome rc numbered d (op_callbacks op = Some (True, True)) a a'"
proof (cases op)
  case (Send_message t m r)
  then obtain ok mm where m: "m = Some (ok, mm)" and d: "numbered = (mm_qos mm > 0)" "d = Pub (c_bytes t) (mm_payload mm) (mm_qos mm) (mm_retained mm)"
    using assms(2) by (cases m) auto
  show ?thesis using assms(3) send_outcome [OF assms(1), of e t "mm_payload mm" "int (mm_qos mm)" "mm_retained mm" r rc a'] d Send_message m
    by (auto simp: MQTTAsync_sendMessage_def outcome_def split: if_splits)
next
  case (Send t p q retained r)
  then show ?thesis using assms(2,3) send_outcome [OF assms(1), of e t p q retained r rc a'] by auto
qed (use assms subscribeMany_outcome unsubscribeMany_outcome in auto)

lemma process_step:
  assumes "apply_op e Process_command a = Some (rc, a')"
  shows "(op_events (e, Process_command) a = [] \<and> silent a a') \<or>
    (\<exists>c. op_events (e, Process_command) a = [Started (cmd_token c) (cmd_details c)] \<and> starts c a a')"
proof (cases "commands a")
  case Nil
  then show ?thesis using assms by (simp add: op_events_def MQTTAsync_processCommand_def)
next
  case (Cons c rest)
  obtain b where b: "MQTTAsync_processCommand e a = Some (b, a')" using assms by auto
  show ?thesis
  proof (cases "is_request (cmd_details c) \<and> eligible e c a")
    case True
    then have "b" using process_started [OF Cons b] by auto
    then show ?thesis using process_request [OF Cons] True Cons b by (auto simp: op_events_def)
  next
    case False
    then have "silent a a'" using process_other [OF Cons _ b] process_started [OF Cons b] by auto
    then show ?thesis using False Cons by (auto simp: op_events_def)
  qed
qed

lemma silent_pair: "silent a (snd r) \<Longrightarrow> r = (rc, a') \<Longrightarrow> silent a a'"
  by simp

lemma silent_step:
  assumes "apply_op e op a = Some (rc, a')" and "op_request op = None" and "op \<noteq> Process_command"
    and "\<forall>options. op \<noteq> Connect options" and "\<forall>code. op \<noteq> Write_complete code"
  shows "silent a a'"
  using assms
  by (cases op rule: op_request.cases)
    (auto simp: MQTTAsync_sendMessage_def dest: checkTimeouts_silent retry_silent cycle_silent receive_body_silent
      silent_pair [OF silent_setters(1)] silent_pair [OF silent_setters(2)] silent_pair [OF silent_disconnect(2)] silent_pair [OF reconnect_silent])

text \<open>Operations that keep the session; operations under which every numbered request can be answered.\<close>

definition keeps_session :: "async_env \<times> async_op \<Rightarrow> MQTTAsyncs \<Rightarrow> bool" where
  "keeps_session eo a = (case snd eo of Connect (Some opt) \<Rightarrow> \<not> co_cleansession opt | _ \<Rightarrow> True)"

definition answers_all :: "async_env \<times> async_op \<Rightarrow> MQTTAsyncs \<Rightarrow> bool" where
  "answers_all eo a = (case snd eo of
     Write_complete rc \<Rightarrow> pending_write a = None \<or> responses a = [] \<or> cmd_token (hd (responses a)) = 0
   | op \<Rightarrow> op_request op = None \<or> op_callbacks op = Some (True, True))"

definition in_order :: "MQTTAsyncs \<Rightarrow> event list \<Rightarrow> MQTTAsyncs \<Rightarrow> bool" where
  "in_order a xs a' \<longleftrightarrow> started xs @ requests a' = requests a @ accepted xs"

definition accepted_ids :: "event list \<Rightarrow> nat list" where
  "accepted_ids xs = filter (\<lambda>i. i \<noteq> 0) (map fst (accepted xs))"

definition balanced :: "MQTTAsyncs \<Rightarrow> event list \<Rightarrow> MQTTAsyncs \<Rightarrow> bool" where
  "balanced a xs a' \<longleftrightarrow> ledger a' = ledger a + mset (accepted_ids xs)"

lemma accepted_ids_simps [simp]: "accepted_ids [] = []" "accepted_ids (xs @ ys) = accepted_ids xs @ accepted_ids ys"
    "accepted_ids [Started i d] = []" "accepted_ids [Accepted i d] = (if i = 0 then [] else [i])"
  by (simp_all add: accepted_ids_def)

text \<open>The kinds of step an operation can be, with what it reports.\<close>

lemma op_kinds:
  assumes "async_ok a" and "apply_op e op a = Some (rc, a')"
  obtains (accept) i d where "op_events (e, op) a = [Accepted i d]" "accepts i d (op_callbacks op = Some (True, True)) a a'" "op_request op \<noteq> None"
  | (start) c where "op_events (e, op) a = [Started (cmd_token c) (cmd_details c)]" "starts c a a'"
  | (silent) "op_events (e, op) a = []" "silent a a'"
  | (connect) opt where "op_events (e, op) a = []" "op = Connect (Some opt)" "silent (with_clean (co_cleansession opt) a) a'"
  | (written) code s where "op_events (e, op) a = []" "op = Write_complete code" "silent a (a\<lparr>ac := s\<rparr>)" "complete_write code (a\<lparr>ac := s\<rparr>) = Some a'"
proof (cases "op_request op")
  case (Some x)
  then obtain numbered d where r: "op_request op = Some (numbered, d)" by (cases x) auto
  from op_request_outcome [OF assms(1) this assms(2)] show ?thesis
    using accept silent r assms(2) by (cases "rc = 0") (auto simp: outcome_def op_events_def)
next
  case None
  have quiet: "op_events (e, op) a = []" if "op \<noteq> Process_command" using None that by (simp add: op_events_def split: list.split)
  consider "op = Process_command" | options where "op = Connect options" | code where "op = Write_complete code"
    | "op \<noteq> Process_command" "\<forall>options. op \<noteq> Connect options" "\<forall>code. op \<noteq> Write_complete code" by blast
  then show ?thesis
  proof cases
    case 1
    then show ?thesis using process_step [of e a rc a'] assms(2) start silent by blast
  next
    case 2
    then show ?thesis using connect_call [of e options a rc a'] assms(2) quiet silent connect by auto
  next
    case 3
    then have "MQTTAsync_writeComplete e code a = Some a'" using assms(2) by auto
    then obtain s where "silent a (a\<lparr>ac := s\<rparr>)" "complete_write code (a\<lparr>ac := s\<rparr>) = Some a'"
      by (rule writeComplete_start)
    then show ?thesis using written 3 quiet by auto
  next
    case 4
    then show ?thesis using silent_step [OF assms(2) None] quiet silent by auto
  qed
qed

lemma exec_opE: "exec_op (e, op) a = Some a' \<Longrightarrow> (\<And>rc. apply_op e op a = Some (rc, a') \<Longrightarrow> thesis) \<Longrightarrow> thesis"
  by (auto simp: exec_op_def)

lemma op_ok:
  assumes "async_ok a" and "exec_op (e, op) a = Some a'"
  shows "async_ok a'"
proof -
  obtain rc where r: "apply_op e op a = Some (rc, a')" using exec_opE [OF assms(2)] by blast
  show ?thesis using assms(1)
    by (cases rule: op_kinds [OF assms(1) r]) (auto simp: accepts_def starts_def silent_def dest: complete_write_ok)
qed

lemma op_in_order:
  assumes "async_ok a" and "\<not> cleansession (ac a)" and "keeps_session (e, op) a" and "exec_op (e, op) a = Some a'"
  shows "\<not> cleansession (ac a') \<and> in_order a (op_events (e, op) a) a'"
proof -
  obtain rc where r: "apply_op e op a = Some (rc, a')" using exec_opE [OF assms(4)] by blast
  from assms(1) r show ?thesis
  proof (cases rule: op_kinds)
    case (connect opt)
    then show ?thesis using assms by (simp add: silent_def in_order_def keeps_session_def)
  next
    case (written code s)
    then show ?thesis using assms complete_write_ok [OF written(4)] by (simp add: silent_def in_order_def)
  qed (use assms in \<open>auto simp: accepts_def starts_def silent_def in_order_def\<close>)
qed

lemma op_balanced:
  assumes "async_ok a" and "answerable a" and "answers_all (e, op) a" and "exec_op (e, op) a = Some a'"
  shows "answerable a' \<and> balanced a (op_events (e, op) a) a'"
proof -
  obtain rc where r: "apply_op e op a = Some (rc, a')" using exec_opE [OF assms(4)] by blast
  from assms(1) r show ?thesis
  proof (cases rule: op_kinds)
    case (accept i d)
    then have "op_callbacks op = Some (True, True)" using assms(3) by (cases op) (auto simp: answers_all_def)
    with accept show ?thesis using assms by (simp add: accepts_def balanced_def)
  next
    case (written code s)
    then show ?thesis using assms complete_write_answers [OF written(4)] by (simp add: silent_def balanced_def answers_all_def)
  qed (use assms in \<open>auto simp: starts_def silent_def balanced_def\<close>)
qed

interpretation typed_run: accounted exec_op "\<lambda>_ _. True" op_events async_ok "\<lambda>_ _ _. True"
  by unfold_locales (use op_ok in auto)

interpretation ordered_run: accounted exec_op keeps_session op_events "\<lambda>a. async_ok a \<and> \<not> cleansession (ac a)" in_order
  by unfold_locales (use op_ok op_in_order in \<open>auto simp: in_order_def\<close>)

interpretation answered_run: accounted exec_op answers_all op_events "\<lambda>a. async_ok a \<and> answerable a" balanced
  by unfold_locales (use op_ok op_balanced in \<open>auto simp: balanced_def\<close>)

section \<open>From creation to destruction\<close>

lemma create_fresh:
  assumes "MQTTAsync_createWithOptions uri clientId options = Some (Inl a)"
  shows "async_ok a \<and> \<not> cleansession (ac a) \<and> requests a = [] \<and> answerable a \<and> ledger a = {#}"
proof -
  have "commands a = [] \<and> responses a = [] \<and> callbacks a = [] \<and> pending_write a = None \<and> conn_cmd a = new_command 0 None (Unset 0 0) \<and>
      conn_part (ac a) = (False, 0, False, False, 0)"
    using assms by (auto simp: MQTTAsync_createWithOptions_def bind_eq_Some_conv conn_part_def split: option.splits if_splits)
  moreover from this have "\<not> cleansession (ac a)" by (simp add: conn_part_def)
  ultimately show ?thesis by (simp add: async_ok_def requests_def answerable_def ledger_def token_ok_def MAX_MSG_ID_def)
qed

lemma destroy_answers:
  assumes "async_ok a" and "answerable a" and "MQTTAsync_destroy e a = Some d"
  shows "mset (answers (callbacks d)) = ledger a" and "commands d = []" and "responses d = []"
proof -
  obtain a1 s where a1: "MQTTAsync_closeSession e a = Some a1" and d: "d = (MQTTAsync_removeResponsesAndCommands a1)\<lparr>ac := s\<rparr>"
    using assms(3) by (auto simp: MQTTAsync_destroy_def Let_def bind_eq_Some_conv)
  have "answerable a1" "ledger a1 = ledger a" using closeSession_silent [OF a1] assms(1,2) by (simp_all add: silent_def)
  moreover from this(1) have "answers (fail_incomplete (responses a1)) = tokens (responses a1)"
      "answers (fail_incomplete (commands a1)) = tokens (commands a1)"
    by (auto intro!: answers_fail simp: answerable_def)
  ultimately show "mset (answers (callbacks d)) = ledger a" "commands d = []" "responses d = []"
    by (simp_all add: d MQTTAsync_removeResponsesAndCommands_def ledger_def add.commute)
qed

text \<open>
  C20: Type invariant of the client handle, kept by every call and every step of the threads
  from its creation on: it is connected only over an open socket and in connect state 0, connect
  attempts have a socket, message ids are at most 65535, queued and waiting requests that need
  an id have one of their own, the others have 0.
\<close>

theorem async_types:
  assumes "MQTTAsync_createWithOptions uri clientId options = Some (Inl a)" and "run_events exec_op (\<lambda>_ _. True) op_events ops a = Some (xs, t)"
  shows "async_ok t"
  using typed_run.run_law [OF _ assms(2)] create_fresh [OF assms(1)] by blast

text \<open>
  C19: As long as sessions are kept, the client starts the publish, subscribe and unsubscribe
  requests in the order in which it accepted them and loses none, across disconnects and
  reconnects: the requests started followed by those in the queue are the requests accepted.
\<close>

theorem requests_in_order:
  assumes "MQTTAsync_createWithOptions uri clientId options = Some (Inl a)" and "run_events exec_op keeps_session op_events ops a = Some (xs, t)"
  shows "started xs @ requests t = accepted xs"
  using ordered_run.run_law [OF _ assms(2)] create_fresh [OF assms(1)] by (auto simp: in_order_def)

text \<open>
  C18: Every publish with QoS above 0, subscribe and unsubscribe that the asynchronous client
  accepts with both callbacks set is answered exactly once: in every interleaving of calls,
  sending thread, receiving thread, lost connections and reconnects the ids answered plus the
  ids still waiting are the ids accepted, and MQTTAsync_destroy answers all that wait. Apart are
  writes of QoS 0 that finish while another request waits first.
\<close>

theorem requests_answered:
  assumes "MQTTAsync_createWithOptions uri clientId options = Some (Inl a)" and "run_events exec_op answers_all op_events ops a = Some (xs, t)"
  shows "mset (answers (callbacks t)) + mset (tokens (commands t @ responses t)) = mset (accepted_ids xs) \<and>
    (\<forall>e d. MQTTAsync_destroy e t = Some d \<longrightarrow> mset (answers (callbacks d)) = mset (accepted_ids xs))"
proof -
  have t: "async_ok t" "answerable t" "ledger t = mset (accepted_ids xs)"
    using answered_run.run_law [OF _ assms(2)] create_fresh [OF assms(1)] by (auto simp: balanced_def)
  then show ?thesis using destroy_answers(1) [OF t(1,2)] by (auto simp: ledger_def)
qed

section \<open>Connecting\<close>

text \<open>One attempt that fails at once: no socket can be had.\<close>

definition no_socket :: "async_env \<Rightarrow> bool" where
  "no_socket e \<longleftrightarrow> (\<forall>addr port. socket_new e addr port \<notin> {0, EINPROGRESS, EWOULDBLOCK})"

definition idle :: "MQTTAsyncs \<Rightarrow> bool" where
  "idle a \<longleftrightarrow> \<not> net_connected (ac a) \<and> connect_state (ac a) = 0"

lemma failed_attempt:
  assumes "no_socket e" and "idle a" and "MQTTVersion a = 0" and c: "commands a = [c]" "cmd_details c = Conn u v" "v \<noteq> 3"
    and uri: "u < length (serverURIs a)" "MQTTProtocol_addressPort (strip_tcp (serverURIs a ! u)) \<noteq> None"
  shows "MQTTAsync_processCommand e a = Some (True, finish_command e SOCKET_ERROR (c\<lparr>cmd_details := Conn u (next_version 0 v)\<rparr>)
    (a\<lparr>commands := [], ac := (ac a)\<lparr>good := True, socket_open := False\<rparr>\<rparr>))"
proof -
  obtain addr port where ap: "MQTTProtocol_addressPort (strip_tcp (serverURIs a ! u)) = Some (addr, port)" using uri(2) by auto
  have "socket_new e addr port \<notin> {0, EINPROGRESS, EWOULDBLOCK}" using assms(1) by (simp add: no_socket_def)
  moreover have "serverURIs a \<noteq> []" using uri(1) by auto
  ultimately show ?thesis using assms(2,3) c uri(1)
    by (simp add: MQTTAsync_processCommand_def eligible_def run_command_def run_connect_def MQTTProtocol_connect_def ap Let_def idle_def)
qed

text \<open>The handle has one command left, a connect to server \<open>u\<close> that was last tried with version \<open>v\<close>.\<close>

definition attempting :: "string list \<Rightarrow> bool \<Rightarrow> callback list \<Rightarrow> nat \<Rightarrow> nat \<Rightarrow> MQTTAsyncs \<Rightarrow> bool" where
  "attempting uris told cbs u v a \<longleftrightarrow> idle a \<and> MQTTVersion a = 0 \<and> serverURIs a = uris \<and> callbacks a = cbs \<and>
     (case commands a of [c] \<Rightarrow> cmd_details c = Conn u v \<and> cmd_onFailure c = told \<and> cmd_token c = 0 | _ \<Rightarrow> False)"

fun process_n :: "async_env \<Rightarrow> nat \<Rightarrow> MQTTAsyncs \<Rightarrow> MQTTAsyncs option" where
  "process_n e 0 a = Some a"
| "process_n e (Suc n) a = Option.bind (process_n e n a) (\<lambda>a'. map_option snd (MQTTAsync_processCommand e a'))"

lemma attempt_fails:
  assumes "no_socket e" and "\<forall>uri \<in> set uris. MQTTProtocol_addressPort (strip_tcp uri) \<noteq> None"
    and "attempting uris told cbs u v a" and "u < length uris" and "v = 0 \<or> v = 4"
  shows "\<exists>a'. map_option snd (MQTTAsync_processCommand e a) = Some a' \<and>
    (if v = 0 then attempting uris told cbs u 4 a'
     else if u + 1 < length uris then attempting uris told cbs (u + 1) 0 a'
     else commands a' = [] \<and> callbacks a' = cbs @ (if told then [Failure_cb 0 None] else []))"
proof -
  obtain c where c: "commands a = [c]" "cmd_details c = Conn u v" "cmd_onFailure c = told" "cmd_token c = 0"
    and a: "idle a" "MQTTVersion a = 0" "serverURIs a = uris" "callbacks a = cbs"
    using assms(3) by (auto simp: attempting_def split: list.splits)
  have uri: "MQTTProtocol_addressPort (strip_tcp (serverURIs a ! u)) \<noteq> None" using assms(2,4) a(3) by simp
  have p: "MQTTAsync_processCommand e a = Some (True, finish_command e SOCKET_ERROR (c\<lparr>cmd_details := Conn u (next_version 0 v)\<rparr>)
    (a\<lparr>commands := [], ac := (ac a)\<lparr>good := True, socket_open := False\<rparr>\<rparr>))"
    using assms(4,5) by (intro failed_attempt [OF assms(1) a(1,2) c(1,2) _ _ uri]) (auto simp: a)
  show ?thesis unfolding p using c a assms(4,5)
    by (auto simp: finish_command_def MQTTAsync_disconnect_def MQTTAsync_disconnect1_def idle_def Let_def next_version_def
        MQTTAsync_checkConn_def MQTTAsync_addCommand_def attempting_def call_def MQTTAsync_startConnectRetry_def)
qed


section \<open>Behaviour the callers do not expect\<close>

text \<open>A finished write takes the first response out of the list, whichever it is.\<close>

lemma detach_none: "i \<notin> cmd_token ` set rs \<Longrightarrow> detach_response i rs = None"
  by (induction rs) auto

text \<open>
  C22: When an interrupted write of QoS 0 is finished, MQTTAsync_writeComplete takes the first
  waiting request out of the list, whichever it is: a request with an id is removed without an
  answer, and its acknowledgement finds nothing.
\<close>

theorem write_complete_forgets_response:
  assumes "MQTTAsync_writeComplete e rc a = Some a'" and "pending_write a = Some (c, True)" and "responses a = com # rest"
    and "async_ok a" and "cmd_token com \<noteq> 0"
  shows "responses a' = rest \<and> answers (callbacks a') = answers (callbacks a) \<and> complete_response (cmd_token com) cbs a' = a'"
proof -
  have c: "cmd_token c = 0" using assms(2,4) by (simp add: async_ok_def)
  then have r: "responses a' = rest" "answers (callbacks a') = answers (callbacks a)"
    using assms(1,2,3) by (auto simp: MQTTAsync_writeComplete_def complete_write_def bind_eq_Some_conv Let_def call_def)
  have "cmd_token com \<notin> cmd_token ` set rest" using assms(3-5) by (auto simp: async_ok_def tokens_def)
  then show ?thesis using r by (simp add: complete_response_def detach_none)
qed

text \<open>A disconnect that may wait for messages in flight is not looked at again.\<close>

theorem disconnect_forgotten:
  assumes "commands a = [c]" and "cmd_details c = Dis False timeout" and "net_connected (ac a)" and "connect_state (ac a) = 0"
    and "outboundMsgs (ac a) \<noteq> []" and "MQTTAsync_elapsed e (cmd_start c) < timeout" and "\<not> retrying a"
  shows "\<exists>a'. MQTTAsync_processCommand e a = Some (True, a') \<and> commands a' = [] \<and>
    (\<forall>e2. \<exists>a2. MQTTAsync_checkTimeouts e2 a' = Some a2 \<and> ac a2 = ac a \<and> commands a2 = [] \<and> callbacks a2 = callbacks a)"
  using assms
  by (auto simp: MQTTAsync_processCommand_def eligible_def run_command_def run_disconnect_def MQTTAsync_checkDisconnect_def
      finish_command_def MQTTAsync_checkTimeouts_def Let_def)

text \<open>A connect without login after one with a login leaves the freed strings in the handle.\<close>

lemma connect_accepted:
  assumes "MQTTAsync_connect e (Some opt) a = Some (0, a')"
  shows "connect_checks opt = None \<and> ssl_and_login_checks opt = Some None \<and> \<not> (co_version opt \<noteq> 0 \<and> co_ssl opt \<noteq> None) \<and>
    (\<exists>a2. set_login opt (connect_settings opt a) = Some a2 \<and> stale_username a' = stale_username a2)"
proof -
  have "connect_checks opt \<noteq> Some 0" "ssl_and_login_checks opt \<noteq> Some (Some 0)"
    by (auto simp: connect_checks_def ssl_and_login_checks_def bind_eq_Some_conv split: option.splits if_splits)
  then have checks: "connect_checks opt = None" "ssl_and_login_checks opt = Some None"
    using assms by (auto simp: MQTTAsync_connect_def bind_eq_Some_conv split: option.splits) (metis not_None_eq)
  have "stale_username (MQTTAsync_addCommand e c b) = stale_username b" for c b
    by (simp add: MQTTAsync_addCommand_def Let_def split: list.split)
  then show ?thesis using assms
    by (auto simp: MQTTAsync_connect_def checks bind_eq_Some_conv Let_def split: if_splits)
qed

lemma connect_settings_login [simp]:
  "cl_username (login (connect_settings opt a)) = cl_username (login a)" "stale_username (connect_settings opt a) = stale_username a"
  by (simp_all add: connect_settings_def setRetryLoopInterval_def Let_def)

theorem connect_leaves_freed_login:
  assumes "MQTTAsync_connect e (Some opt) a = Some (0, a')" and "co_username opt = None" and "cl_username (login a) \<noteq> None"
  shows "stale_username a' \<and> write_connect e2 version a' = None \<and> MQTTAsync_connect e2 (Some opt) a' = None"
proof -
  obtain a2 where ok: "connect_checks opt = None" "ssl_and_login_checks opt = Some None" "\<not> (co_version opt \<noteq> 0 \<and> co_ssl opt \<noteq> None)"
    and a2: "set_login opt (connect_settings opt a) = Some a2" "stale_username a' = stale_username a2"
    using connect_accepted [OF assms(1)] by blast
  have stale: "stale_username a'" using a2 assms(2,3) by (auto simp: set_login_def Let_def split: if_splits)
  moreover have "set_login opt (connect_settings opt a') = None" using stale by (simp add: set_login_def)
  ultimately show ?thesis using ok by (auto simp: write_connect_def MQTTAsync_connect_def Let_def)
qed

end
