(* ===== verification/Qos2Exchange.thy ===== *)
theory Qos2Exchange
  imports Prelude "HOL-Library.Multiset" "HOL-Library.Sublist"
begin

text \<open>
  What the delivery of QoS 2 messages promises, independent of the code: a sender and a
  receiver joined by two FIFO channels that may lose any of the packets they hold at any time, a
  sender that may repeat the packet it is waiting on. The invariant describes, for every
  message id, what the two channels can hold in each phase; from it follows that every
  published message is delivered at most once, and exactly once when its exchange is
  finished.
\<close>

section \<open>Definitions\<close>

datatype phase = WaitRec | WaitComp

text \<open>
  \<open>sending\<close> and \<open>holding\<close>: the exchanges of the sender and the messages the receiver
  keeps. In the channel \<open>down\<close> a body stands for PUBLISH and \<open>None\<close> for PUBREL,
  in the channel \<open>up\<close> \<open>True\<close> for PUBREC and \<open>False\<close> for PUBCOMP.
\<close>

record 'b exchange =
  sending :: "nat \<rightharpoonup> phase \<times> 'b"
  holding :: "nat \<rightharpoonup> 'b"
  down :: "(nat \<times> 'b option) list"
  up :: "(nat \<times> bool) list"
  published :: "'b list"
  delivered :: "'b list"

inductive exch_step :: "'b exchange \<Rightarrow> 'b exchange \<Rightarrow> bool" where
  start: "sending s i = None \<Longrightarrow>
    exch_step s (s\<lparr>sending := (sending s)(i \<mapsto> (WaitRec, b)), down := down s @ [(i, Some b)], published := published s @ [b]\<rparr>)"
| again_publish: "sending s i = Some (WaitRec, b) \<Longrightarrow> exch_step s (s\<lparr>down := down s @ [(i, Some b)]\<rparr>)"
| again_pubrel: "sending s i = Some (WaitComp, b) \<Longrightarrow> exch_step s (s\<lparr>down := down s @ [(i, None)]\<rparr>)"
| lose: "subseq d (down s) \<Longrightarrow> subseq u (up s) \<Longrightarrow> exch_step s (s\<lparr>down := d, up := u\<rparr>)"
| get_publish: "down s = (i, Some b) # r \<Longrightarrow>
    exch_step s (s\<lparr>holding := (holding s)(i \<mapsto> b), down := r, up := up s @ [(i, True)]\<rparr>)"
| get_pubrel: "down s = (i, None) # r \<Longrightarrow> holding s i = Some b \<Longrightarrow>
    exch_step s (s\<lparr>holding := (holding s)(i := None), down := r, up := up s @ [(i, False)], delivered := delivered s @ [b]\<rparr>)"
| skip_pubrel: "down s = (i, None) # r \<Longrightarrow> holding s i = None \<Longrightarrow> exch_step s (s\<lparr>down := r\<rparr>)"
| get_pubrec: "up s = (i, True) # r \<Longrightarrow> sending s i = Some (WaitRec, b) \<Longrightarrow>
    exch_step s (s\<lparr>sending := (sending s)(i \<mapsto> (WaitComp, b)), up := r, down := down s @ [(i, None)]\<rparr>)"
| skip_pubrec: "up s = (i, True) # r \<Longrightarrow> \<nexists>b. sending s i = Some (WaitRec, b) \<Longrightarrow> exch_step s (s\<lparr>up := r\<rparr>)"
| get_pubcomp: "up s = (i, False) # r \<Longrightarrow> sending s i = Some (WaitComp, b) \<Longrightarrow>
    exch_step s (s\<lparr>sending := (sending s)(i := None), up := r\<rparr>)"
| skip_pubcomp: "up s = (i, False) # r \<Longrightarrow> \<nexists>b. sending s i = Some (WaitComp, b) \<Longrightarrow> exch_step s (s\<lparr>up := r\<rparr>)"

definition exch_init :: "'b exchange" where
  "exch_init = \<lparr>sending = Map.empty, holding = Map.empty, down = [], up = [], published = [], delivered = []\<rparr>"

section \<open>Invariant\<close>

text \<open>What a channel holds for one message id.\<close>

definition for_id :: "nat \<Rightarrow> (nat \<times> 'x) list \<Rightarrow> 'x list" where
  "for_id i xs = map snd (filter (\<lambda>x. fst x = i) xs)"

lemma for_id_simps [simp]:
  "for_id i [] = []" "for_id i (x # xs) = (if fst x = i then snd x # for_id i xs else for_id i xs)"
  "for_id i (xs @ ys) = for_id i xs @ for_id i ys"
  by (simp_all add: for_id_def)

text \<open>A word of one letter, PUBRELs then PUBLISHes of one body, the other way round, PUBRECs and a last PUBCOMP.\<close>

definition only :: "'x \<Rightarrow> 'x list \<Rightarrow> bool" where
  "only x w \<longleftrightarrow> (\<forall>y \<in> set w. y = x)"

fun rel_pub :: "'b \<Rightarrow> 'b option list \<Rightarrow> bool" where
  "rel_pub b [] \<longleftrightarrow> True"
| "rel_pub b (None # w) \<longleftrightarrow> rel_pub b w"
| "rel_pub b (Some c # w) \<longleftrightarrow> c = b \<and> only (Some b) w"

fun pub_rel :: "'b \<Rightarrow> 'b option list \<Rightarrow> bool" where
  "pub_rel b [] \<longleftrightarrow> True"
| "pub_rel b (Some c # w) \<longleftrightarrow> c = b \<and> pub_rel b w"
| "pub_rel b (None # w) \<longleftrightarrow> only None w"

fun recs_comp :: "bool list \<Rightarrow> bool" where
  "recs_comp [] \<longleftrightarrow> True"
| "recs_comp (True # w) \<longleftrightarrow> recs_comp w"
| "recs_comp (False # w) \<longleftrightarrow> w = []"

fun id_inv :: "(phase \<times> 'b) option \<Rightarrow> 'b option \<Rightarrow> 'b option list \<Rightarrow> bool list \<Rightarrow> bool" where
  "id_inv None h d u \<longleftrightarrow> h = None \<and> only None d \<and> u = []"
| "id_inv (Some (WaitRec, b)) None d u \<longleftrightarrow> rel_pub b d \<and> u = []"
| "id_inv (Some (WaitRec, b)) (Some b') d u \<longleftrightarrow> b' = b \<and> only (Some b) d \<and> only True u"
| "id_inv (Some (WaitComp, b)) (Some b') d u \<longleftrightarrow> b' = b \<and> pub_rel b d \<and> only True u"
| "id_inv (Some (WaitComp, b)) None d u \<longleftrightarrow> only None d \<and> recs_comp u"

text \<open>The exchanges whose message has not been delivered yet.\<close>

definition undelivered :: "'b exchange \<Rightarrow> nat set" where
  "undelivered s = {i. \<exists>p b. sending s i = Some (p, b) \<and> (p = WaitComp \<longrightarrow> holding s i \<noteq> None)}"

definition body_of :: "'b exchange \<Rightarrow> nat \<Rightarrow> 'b" where
  "body_of s i = snd (the (sending s i))"

definition exch_inv :: "'b exchange \<Rightarrow> bool" where
  "exch_inv s \<longleftrightarrow> finite (dom (sending s)) \<and>
     (\<forall>i. id_inv (sending s i) (holding s i) (for_id i (down s)) (for_id i (up s))) \<and>
     mset (published s) = mset (delivered s) + image_mset (body_of s) (mset_set (undelivered s))"

section \<open>Lemmas\<close>

lemma only_simps [simp]:
  "only x []" "only x (y # w) \<longleftrightarrow> y = x \<and> only x w" "only x (v @ w) \<longleftrightarrow> only x v \<and> only x w"
  by (auto simp: only_def)

lemma pub_rel_snoc [simp]: "pub_rel b w \<Longrightarrow> pub_rel b (w @ [None])"
  by (induction b w rule: pub_rel.induct) auto

lemma only_pub_rel [simp]: "only (Some b) w \<Longrightarrow> pub_rel b w"
  by (induction w) auto

lemma rel_pub_snoc [simp]: "rel_pub b w \<Longrightarrow> rel_pub b (w @ [Some b])"
  by (induction b w rule: rel_pub.induct) auto

lemma only_rel_pub [simp]: "only None w \<Longrightarrow> rel_pub b w"
  by (induction w) auto

lemma only_rel_pub_Some: "only (Some b) w \<Longrightarrow> rel_pub b w"
  by (cases w) auto

lemma only_pub_rel_None: "only None w \<Longrightarrow> pub_rel b w"
  by (cases w) auto

lemma only_recs_comp [simp]: "only True w \<Longrightarrow> recs_comp w" "only True w \<Longrightarrow> recs_comp (w @ [False])"
  by (induction w) auto

text \<open>The letters at the front of the channels, phase by phase.\<close>

lemma id_inv_publish:
  "id_inv p h (Some b # d) u \<Longrightarrow> id_inv p (Some b) d (u @ [True]) \<and> (\<exists>ph. p = Some (ph, b) \<and> (ph = WaitComp \<longrightarrow> h \<noteq> None))"
  by (cases "(p, h, Some b # d, u)" rule: id_inv.cases) auto

lemma id_inv_pubrel:
  "id_inv p (Some b) (None # d) u \<Longrightarrow> id_inv p None d (u @ [False]) \<and> p = Some (WaitComp, b)"
  by (cases "(p, Some b, None # d, u)" rule: id_inv.cases) auto

lemma id_inv_skip_pubrel: "id_inv p None (None # d) u \<Longrightarrow> id_inv p None d u"
  by (cases "(p, None :: 'a option, None # d, u)" rule: id_inv.cases) auto

lemma id_inv_pubrec:
  "id_inv (Some (WaitRec, b)) h d (True # u) \<Longrightarrow> id_inv (Some (WaitComp, b)) h (d @ [None]) u \<and> h = Some b"
  by (cases h) auto

lemma id_inv_skip_pubrec: "id_inv p h d (True # u) \<Longrightarrow> \<nexists>b. p = Some (WaitRec, b) \<Longrightarrow> id_inv p h d u"
  by (cases "(p, h, d, True # u)" rule: id_inv.cases) auto

lemma id_inv_pubcomp: "id_inv (Some (WaitComp, b)) h d (False # u) \<Longrightarrow> id_inv None None d u \<and> h = None"
  by (cases h) auto

lemma id_inv_no_pubcomp: "id_inv p h d (False # u) \<Longrightarrow> \<exists>b. p = Some (WaitComp, b)"
  by (cases "(p, h, d, False # u)" rule: id_inv.cases) auto

lemma id_inv_again: "id_inv (Some (WaitRec, b)) h d u \<Longrightarrow> id_inv (Some (WaitRec, b)) h (d @ [Some b]) u"
    "id_inv (Some (WaitComp, b)) h d u \<Longrightarrow> id_inv (Some (WaitComp, b)) h (d @ [None]) u"
  by (cases h; simp)+

lemma id_inv_start: "id_inv None h d u \<Longrightarrow> id_inv (Some (WaitRec, b)) h (d @ [Some b]) u"
  by simp

lemma only_subseq: "subseq v w \<Longrightarrow> only x w \<Longrightarrow> only x v"
  by (induction rule: list_emb.induct) auto

lemma rel_pub_subseq: "subseq v w \<Longrightarrow> rel_pub b w \<Longrightarrow> rel_pub b v"
proof (induction rule: list_emb.induct)
  case (list_emb_Cons xs ys y)
  then show ?case by (cases y) (auto dest: only_subseq intro: only_rel_pub_Some)
next
  case (list_emb_Cons2 x y xs ys)
  then show ?case by (cases y) (auto dest: only_subseq)
qed simp

lemma pub_rel_subseq: "subseq v w \<Longrightarrow> pub_rel b w \<Longrightarrow> pub_rel b v"
proof (induction rule: list_emb.induct)
  case (list_emb_Cons xs ys y)
  then show ?case by (cases y) (auto dest: only_subseq intro: only_pub_rel_None)
next
  case (list_emb_Cons2 x y xs ys)
  then show ?case by (cases y) (auto dest: only_subseq)
qed simp

lemma recs_comp_subseq: "subseq v w \<Longrightarrow> recs_comp w \<Longrightarrow> recs_comp v"
proof (induction rule: list_emb.induct)
  case (list_emb_Cons xs ys y)
  then show ?case by (cases y) auto
next
  case (list_emb_Cons2 x y xs ys)
  then show ?case by (cases y) auto
qed simp

lemma id_inv_lose: "id_inv p h d u \<Longrightarrow> subseq d' d \<Longrightarrow> subseq u' u \<Longrightarrow> id_inv p h d' u'"
  by (cases "(p, h, d, u)" rule: id_inv.cases)
    (auto dest: only_subseq rel_pub_subseq pub_rel_subseq recs_comp_subseq)

lemma for_id_subseq: "subseq xs ys \<Longrightarrow> subseq (for_id i xs) (for_id i ys)"
  by (auto simp: for_id_def intro: subseq_map subseq_filter)

text \<open>The bodies that are still to be delivered.\<close>

definition pending :: "'b exchange \<Rightarrow> 'b multiset" where
  "pending s = image_mset (body_of s) (mset_set (undelivered s))"

lemma pending_same:
  assumes "undelivered s' = undelivered s" and "\<And>i. i \<in> undelivered s \<Longrightarrow> body_of s' i = body_of s i"
  shows "pending s' = pending s"
proof (cases "finite (undelivered s)")
  case True
  then show ?thesis using assms by (auto simp: pending_def intro: image_mset_cong)
qed (simp add: pending_def assms(1))

lemma pending_channels [simp]: "pending (s\<lparr>up := u\<rparr>) = pending s" "pending (s\<lparr>down := d\<rparr>) = pending s"
  by (simp_all add: pending_def undelivered_def body_of_def [abs_def])

lemma finite_undelivered: "finite (dom (sending s)) \<Longrightarrow> finite (undelivered s)"
  by (rule finite_subset [of _ "dom (sending s)"]) (auto simp: undelivered_def)

lemma exch_inv_ids: "exch_inv s \<Longrightarrow> id_inv (sending s i) (holding s i) (for_id i (down s)) (for_id i (up s))"
  by (simp add: exch_inv_def)

lemma exch_inv_init: "exch_inv exch_init"
  by (simp add: exch_inv_def exch_init_def undelivered_def)

lemma ids_step:
  assumes "exch_step s s'" and "\<And>i. id_inv (sending s i) (holding s i) (for_id i (down s)) (for_id i (up s))"
  shows "id_inv (sending s' i) (holding s' i) (for_id i (down s')) (for_id i (up s'))"
  using assms(1)
proof cases
  case (get_publish j b r)
  then show ?thesis using assms(2) [of i] id_inv_publish [of "sending s j" "holding s j" b] by (cases "i = j") simp_all
next
  case (get_pubrel j r b)
  then show ?thesis using assms(2) [of i] id_inv_pubrel [of "sending s j" b] by (cases "i = j") simp_all
next
  case (get_pubrec j r b)
  then show ?thesis using assms(2) [of i] id_inv_pubrec [of b "holding s j"] by (cases "i = j") simp_all
next
  case (get_pubcomp j r b)
  then show ?thesis using assms(2) [of i] id_inv_pubcomp [of b "holding s j"] by (cases "i = j") simp_all
next
  case (skip_pubrec j r)
  then show ?thesis using assms(2) [of i] id_inv_skip_pubrec [of "sending s i"] by (cases "i = j") simp_all
next
  case (skip_pubcomp j r)
  then show ?thesis using assms(2) [of i] id_inv_no_pubcomp [of "sending s i"] by (cases "i = j") auto
next
  case (skip_pubrel j r)
  then show ?thesis using assms(2) [of i] id_inv_skip_pubrel [of "sending s i"] by (cases "i = j") simp_all
next
  case (start j b)
  then show ?thesis using assms(2) [of i] id_inv_start by (cases "i = j") simp_all
next
  case (again_publish j b)
  then show ?thesis using assms(2) [of i] id_inv_again(1) by (cases "i = j") simp_all
next
  case (again_pubrel j b)
  then show ?thesis using assms(2) [of i] id_inv_again(2) by (cases "i = j") simp_all
next
  case (lose d u)
  then show ?thesis using id_inv_lose [OF assms(2) [of i] for_id_subseq for_id_subseq] by simp
qed

lemma pending_step:
  assumes step: "exch_step s s'" and fin: "finite (dom (sending s))"
    and ids: "\<And>i. id_inv (sending s i) (holding s i) (for_id i (down s)) (for_id i (up s))"
    and eq: "mset (published s) = mset (delivered s) + pending s"
  shows "mset (published s') = mset (delivered s') + pending s'"
  using step
proof cases
  case (start j b)
  have j: "j \<notin> undelivered s" using start by (simp add: undelivered_def)
  have "undelivered s' = insert j (undelivered s)" using start by (auto simp: undelivered_def)
  moreover have "image_mset (body_of s') (mset_set (undelivered s)) = pending s"
    unfolding pending_def using start j by (intro image_mset_cong) (auto simp: body_of_def finite_undelivered [OF fin])
  moreover have "body_of s' j = b" using start by (simp add: body_of_def)
  ultimately have "pending s' = add_mset b (pending s)"
    using j finite_undelivered [OF fin] unfolding pending_def [of s'] by simp
  then show ?thesis using eq start by simp
next
  case (get_pubrel j r b)
  then have sj: "sending s j = Some (WaitComp, b)" using ids [of j] by (auto dest: id_inv_pubrel)
  then have j: "j \<in> undelivered s" using get_pubrel by (simp add: undelivered_def)
  have "undelivered s' = undelivered s - {j}" using get_pubrel sj by (auto simp: undelivered_def)
  moreover have "body_of s' = body_of s" using get_pubrel by (simp add: body_of_def fun_eq_iff)
  moreover have "pending s = add_mset b (image_mset (body_of s) (mset_set (undelivered s - {j})))"
    using j sj finite_undelivered [OF fin] by (simp add: pending_def mset_set.remove body_of_def)
  ultimately have "pending s = add_mset b (pending s')" by (simp add: pending_def)
  then show ?thesis using eq get_pubrel by simp
next
  case (get_publish j b r)
  then have "\<exists>ph. sending s j = Some (ph, b) \<and> (ph = WaitComp \<longrightarrow> holding s j \<noteq> None)"
    using ids [of j] by (auto dest: id_inv_publish)
  then have "pending s' = pending s"
    using get_publish by (intro pending_same) (auto simp: undelivered_def body_of_def)
  then show ?thesis using eq get_publish by simp
next
  case (get_pubrec j r b)
  then have "holding s j = Some b" using ids [of j] by (auto dest: id_inv_pubrec)
  then have "pending s' = pending s"
    using get_pubrec by (intro pending_same) (auto simp: undelivered_def body_of_def)
  then show ?thesis using eq get_pubrec by simp
next
  case (get_pubcomp j r b)
  then have "holding s j = None" using ids [of j] by (auto dest: id_inv_pubcomp)
  then have "pending s' = pending s"
    using get_pubcomp by (intro pending_same) (auto simp: undelivered_def body_of_def)
  then show ?thesis using eq get_pubcomp by simp
qed (use eq in simp_all)

lemma exch_inv_step: "exch_step s s' \<Longrightarrow> exch_inv s \<Longrightarrow> exch_inv s'"
proof -
  assume step: "exch_step s s'" and inv: "exch_inv s"
  from step have "finite (dom (sending s'))"
    using inv by cases (simp_all add: exch_inv_def)
  then show ?thesis
    using step inv ids_step [OF step] pending_step [OF step]
    by (simp add: exch_inv_def flip: pending_def)
qed

lemma exch_inv_reachable: "exch_step\<^sup>*\<^sup>* s s' \<Longrightarrow> exch_inv s \<Longrightarrow> exch_inv s'"
  by (induction rule: rtranclp_induct) (auto intro: exch_inv_step)

lemma exactly_once:
  assumes "exch_step\<^sup>*\<^sup>* exch_init s"
  shows "mset (delivered s) \<subseteq># mset (published s)"
    and "sending s = Map.empty \<Longrightarrow> mset (delivered s) = mset (published s)"
  using exch_inv_reachable [OF assms exch_inv_init] by (auto simp: exch_inv_def undelivered_def)

end
