(* ===== verification/MqttDelivery.thy ===== *)
theory MqttDelivery
  imports MqttProtocol Qos2Exchange
begin

text \<open>
  The QoS 2 delivery between two clients of the library: a sender and a receiver, each a state
  of the protocol component, joined by the packets they write. Whatever the network does - lose
  any of the packets, report any result of a write, keep writes pending - the pair implements
  the abstract exchange, so that every message offered is handed to the receiving application
  at most once, and exactly once when the sender has forgotten it.
\<close>

section \<open>Definitions\<close>

text \<open>Topic, payload and retained flag of a message.\<close>

type_synonym body = "byte list \<times> byte list \<times> bool"

record link =
  sender :: protocol
  receiver :: protocol
  down_wire :: "byte list list"
  up_wire :: "byte list list"
  offered :: "body list"

definition written :: "protocol \<Rightarrow> protocol \<Rightarrow> byte list list" where
  "written s s' = drop (length (wire s)) (wire s')"

text \<open>A topic is a C string and a packet has at most four bytes of remaining length.\<close>

fun fits_packet :: "body \<Rightarrow> bool" where
  "fits_packet (t, b, r) \<longleftrightarrow> 0 \<notin> set t \<and> length t < 65536 \<and> length t + length b + 4 < 268435456"

text \<open>
  The steps: the application publishes under an id that is free, the timer of the sender asks
  for retries, a connection is established again, packets get lost, packets are received, a
  message that the application has refused is offered to it again.
\<close>

inductive link_step :: "link \<Rightarrow> link \<Rightarrow> bool" where
  publish: "find_msg i (outboundMsgs (sender l)) = None \<Longrightarrow> i < 65536 \<Longrightarrow> fits_packet (t, b, r) \<Longrightarrow>
    MQTTProtocol_startPublish e \<lparr>pub_header = h, pub_topic = t, pub_msgId = i, pub_payload = b\<rparr> 2 r None (sender l) = Some (rc, s') \<Longrightarrow>
    link_step l (l\<lparr>sender := s', down_wire := down_wire l @ written (sender l) s', offered := offered l @ [(t, b, r)]\<rparr>)"
| retry: "MQTTProtocol_retry e now doRetry regardless (sender l) = Some s' \<Longrightarrow>
    link_step l (l\<lparr>sender := s', down_wire := down_wire l @ written (sender l) s'\<rparr>)"
| reconnect: "resume_session e ((sender l)\<lparr>net_connected := True, good := True, connect_state := 0\<rparr>) = Some s' \<Longrightarrow>
    link_step l (l\<lparr>sender := s', down_wire := down_wire l @ written (sender l) s'\<rparr>)"
| lose_packets: "subseq d (down_wire l) \<Longrightarrow> subseq u (up_wire l) \<Longrightarrow> link_step l (l\<lparr>down_wire := d, up_wire := u\<rparr>)"
| arrive: "down_wire l = pkt # d \<Longrightarrow> MQTTPacket_Factory 0 pkt = Some (rc0, Some pack, []) \<Longrightarrow>
    cycle_dispatch e pack (receiver l) = Some (rc, s') \<Longrightarrow>
    link_step l (l\<lparr>receiver := s', down_wire := d, up_wire := up_wire l @ written (receiver l) s'\<rparr>)"
| acknowledge: "up_wire l = pkt # u \<Longrightarrow> MQTTPacket_Factory 0 pkt = Some (rc0, Some pack, []) \<Longrightarrow>
    cycle_dispatch e pack (sender l) = Some (rc, s') \<Longrightarrow>
    link_step l (l\<lparr>sender := s', up_wire := u, down_wire := down_wire l @ written (sender l) s'\<rparr>)"
| hand_over: "link_step l (l\<lparr>receiver := deliver_queued e (receiver l)\<rparr>)"

definition link_start :: "link \<Rightarrow> bool" where
  "link_start l \<longleftrightarrow> outboundMsgs (sender l) = [] \<and> inboundMsgs (receiver l) = [] \<and> received (receiver l) = [] \<and> has_ma (receiver l) \<and>
     down_wire l = [] \<and> up_wire l = [] \<and> offered l = [] \<and> pubs_ok (sender l) \<and> pubs_ok (receiver l)"

fun delivered_body :: "MQTTAsync_message \<Rightarrow> body" where
  "delivered_body m = (mm_topic m, mm_payload m, mm_retained m)"

section \<open>The abstract state\<close>

definition msg_body :: "(nat \<rightharpoonup> Publications) \<Rightarrow> Messages \<Rightarrow> body" where
  "msg_body f m = (p_topic (the (f (m_publish m))), p_payload (the (f (m_publish m))), m_retain m)"

definition sending_of :: "protocol \<Rightarrow> nat \<rightharpoonup> phase \<times> body" where
  "sending_of s i = map_option (\<lambda>m. (if m_next m = Some PUBREC then WaitRec else WaitComp, msg_body (publications s) m))
     (find_msg i (outboundMsgs s))"

definition holding_of :: "protocol \<Rightarrow> nat \<rightharpoonup> body" where
  "holding_of s i = map_option (msg_body (publications s)) (find_msg i (inboundMsgs s))"

definition abs_link :: "(nat \<times> body option) list \<Rightarrow> (nat \<times> bool) list \<Rightarrow> link \<Rightarrow> body exchange" where
  "abs_link d u l = \<lparr>sending = sending_of (sender l), holding = holding_of (receiver l), down = d, up = u,
     published = offered l, delivered = map delivered_body (received (receiver l))\<rparr>"

text \<open>The packets that stand for the letters of the channels.\<close>

fun carries_down :: "byte list \<Rightarrow> nat \<times> body option \<Rightarrow> bool" where
  "carries_down pkt (i, Some (t, b, r)) \<longleftrightarrow> i < 65536 \<and> fits_packet (t, b, r) \<and>
     (\<exists>h dup. pkt = MQTTPacket_send_publish \<lparr>pub_header = h, pub_topic = t, pub_msgId = i, pub_payload = b\<rparr> dup 2 r)"
| "carries_down pkt (i, None) \<longleftrightarrow> i < 65536 \<and> pkt = MQTTPacket_send_pubrel i False"

fun carries_up :: "byte list \<Rightarrow> nat \<times> bool \<Rightarrow> bool" where
  "carries_up pkt (i, True) \<longleftrightarrow> i < 65536 \<and> pkt = MQTTPacket_send_pubrec i"
| "carries_up pkt (i, False) \<longleftrightarrow> i < 65536 \<and> pkt = MQTTPacket_send_pubcomp i"

definition out_msg_ok :: "(nat \<rightharpoonup> Publications) \<Rightarrow> Messages \<Rightarrow> bool" where
  "out_msg_ok f m \<longleftrightarrow> m_qos m = 2 \<and> m_next m \<in> {Some PUBREC, Some PUBCOMP} \<and> m_msgid m < 65536 \<and> fits_packet (msg_body f m)"

definition sender_ok :: "protocol \<Rightarrow> bool" where
  "sender_ok s \<longleftrightarrow> pubs_ok s \<and> (\<forall>m \<in> set (outboundMsgs s). out_msg_ok (publications s) m)"

definition receiver_ok :: "protocol \<Rightarrow> bool" where
  "receiver_ok s \<longleftrightarrow> pubs_ok s \<and> has_ma s \<and> (\<forall>m \<in> set (inboundMsgs s). m_qos m = 2 \<and> m_next m = Some PUBREL)"

definition implements :: "link \<Rightarrow> body exchange \<Rightarrow> bool" where
  "implements l x \<longleftrightarrow> sender_ok (sender l) \<and> receiver_ok (receiver l) \<and>
     (\<exists>d u. list_all2 carries_down (down_wire l) d \<and> list_all2 carries_up (up_wire l) u \<and> x = abs_link d u l)"

section \<open>Packets\<close>

lemma ack_read:
  assumes "i < 65536" and "ty \<in> {PUBREC, PUBREL, PUBCOMP}"
  shows "MQTTPacket_Factory 0 (MQTTPacket_send_ack ty i False) =
    Some (TCPSOCKET_COMPLETE, Some (Ack ((plain_header ty)\<lparr>hdr_qos := (if ty = PUBREL then 1 else 0)\<rparr>) i), [])"
proof -
  let ?h = "(plain_header ty)\<lparr>hdr_dup := False, hdr_qos := (if ty = PUBREL then 1 else 0)\<rparr>"
  have h: "hdr_type ?h < 16" "hdr_qos ?h < 4" "new_packets (hdr_type ?h) = Some MQTTPacket_ack"
    using assms(2) by (auto simp: plain_header_def new_packets_def)
  then have "MQTTPacket_ack (header_byte ?h) (writeInt i) = Some (Some (Ack ?h i))"
    using readInt_writeInt [OF assms(1), of "[]"] by (simp add: MQTTPacket_ack_def header_byte_bits)
  from factory_reads [OF _ h this, of 0 "[]"] show ?thesis
    using assms(2) by (auto simp: MQTTPacket_send_ack_def plain_header_def)
qed

lemma find_msg_append: "find_msg i (ms @ ns) = (case find_msg i ms of None \<Rightarrow> find_msg i ns | Some m \<Rightarrow> Some m)"
  by (induction ms) auto

lemma find_replace:
  "m_msgid m' = i \<Longrightarrow> find_msg i ms \<noteq> None \<Longrightarrow> find_msg j (replace_msg i m' ms) = (if j = i then Some m' else find_msg j ms)"
  by (induction ms) (auto simp: messageIDCompare_def)

lemma find_remove: "distinct (map m_msgid ms) \<Longrightarrow> find_msg j (remove_msg i ms) = (if j = i then None else find_msg j ms)"
  by (induction ms) (auto simp: messageIDCompare_def find_msg_None)

lemma publish_read:
  assumes "i < 65536" and "fits_packet (t, b, r)"
  shows "\<exists>rc. MQTTPacket_Factory 0 (MQTTPacket_send_publish \<lparr>pub_header = h, pub_topic = t, pub_msgId = i, pub_payload = b\<rparr> dup 2 r) =
    Some (rc, Some (Publish_packet \<lparr>pub_header = \<lparr>hdr_type = 3, hdr_dup = dup, hdr_qos = 2, hdr_retain = r\<rparr>,
      pub_topic = t, pub_msgId = i, pub_payload = b\<rparr>), [])"
  using factory_publish [of "\<lparr>pub_header = h, pub_topic = t, pub_msgId = i, pub_payload = b\<rparr>" 2 0 dup r "[]"] assms by simp

text \<open>What the packets of the letters make the client do.\<close>

lemma down_letter [case_names 1 2]:
  fixes y :: "nat \<times> body option"
  shows "(\<And>i t b r. y = (i, Some (t, b, r)) \<Longrightarrow> P) \<Longrightarrow> (\<And>i. y = (i, None) \<Longrightarrow> P) \<Longrightarrow> P"
  by (metis option.exhaust prod.exhaust)

lemma publish_dispatched:
  assumes "carries_down pkt (i, Some (t, b, r))" and "MQTTPacket_Factory 0 pkt = Some (rc0, Some pack, [])"
    and "cycle_dispatch e pack s = Some (rc, s')"
  shows "\<exists>dup. i < 65536 \<and> fits_packet (t, b, r) \<and> MQTTProtocol_handlePublishes e
    \<lparr>pub_header = \<lparr>hdr_type = 3, hdr_dup = dup, hdr_qos = 2, hdr_retain = r\<rparr>, pub_topic = t, pub_msgId = i, pub_payload = b\<rparr> s = Some (rc, s')"
proof -
  obtain h dup where pkt: "pkt = MQTTPacket_send_publish \<lparr>pub_header = h, pub_topic = t, pub_msgId = i, pub_payload = b\<rparr> dup 2 r"
    and i: "i < 65536" "fits_packet (t, b, r)" using assms(1) by auto
  then show ?thesis using assms(2,3) publish_read [OF i, of h dup] by (auto simp: cycle_dispatch_def)
qed

lemma pubrel_dispatched:
  "carries_down pkt (i, None) \<Longrightarrow> MQTTPacket_Factory 0 pkt = Some (rc0, Some pack, []) \<Longrightarrow>
   cycle_dispatch e pack s = Some (rc, s') \<Longrightarrow> i < 65536 \<and> MQTTProtocol_handlePubrels e False i s = Some (rc, s')"
  using ack_read [of i PUBREL] by (auto simp: MQTTPacket_send_pubrel_def cycle_dispatch_def plain_header_def)

lemma pubrec_dispatched:
  "carries_up pkt (i, True) \<Longrightarrow> MQTTPacket_Factory 0 pkt = Some (rc0, Some pack, []) \<Longrightarrow>
   cycle_dispatch e pack s = Some (rc, s') \<Longrightarrow> i < 65536 \<and> MQTTProtocol_handlePubrecs e i s = Some (rc, s')"
  using ack_read [of i PUBREC] by (auto simp: MQTTPacket_send_pubrec_def cycle_dispatch_def plain_header_def)

lemma pubcomp_dispatched:
  "carries_up pkt (i, False) \<Longrightarrow> MQTTPacket_Factory 0 pkt = Some (rc0, Some pack, []) \<Longrightarrow>
   cycle_dispatch e pack s = Some (rc, s') \<Longrightarrow> i < 65536 \<and> MQTTProtocol_handlePubcomps e i s = Some (rc, s')"
  using ack_read [of i PUBCOMP] by (auto simp: MQTTPacket_send_pubcomp_def cycle_dispatch_def plain_header_def)

section \<open>The sender\<close>

lemma written_send [simp]: "wire s = w \<Longrightarrow> drop (length w) (wire (snd (send e pkt s))) = [pkt]"
  by simp

lemma blocks_apart:
  assumes "pubs_ok s"
  shows "m \<in> set (outboundMsgs s) \<Longrightarrow> m_publish m \<noteq> next_block s" "m \<in> set (inboundMsgs s) \<Longrightarrow> m_publish m \<noteq> next_block s"
    and "m \<in> set (outboundMsgs s) \<Longrightarrow> m' \<in> set (outboundMsgs s) \<Longrightarrow> m \<noteq> m' \<Longrightarrow> m_publish m \<noteq> m_publish m'"
    and "m \<in> set (inboundMsgs s) \<Longrightarrow> m' \<in> set (inboundMsgs s) \<Longrightarrow> m \<noteq> m' \<Longrightarrow> m_publish m \<noteq> m_publish m'"
  using assms blocks_ok_fresh [of "publications s" "next_block s" "blocks s"]
  by (auto simp: pubs_ok_def blocks_ok_def blocks_def distinct_map inj_on_def image_iff)

lemma msg_body_upd [simp]: "m_publish m \<noteq> a \<Longrightarrow> msg_body (f(a := x)) m = msg_body f m"
  by (simp add: msg_body_def)

lemma find_msg_in: "find_msg i ms = Some m \<Longrightarrow> m \<in> set ms \<and> m_msgid m = i"
  by (auto dest!: find_msg_split)

lemma publish_sim:
  assumes ok: "sender_ok s" and free: "find_msg i (outboundMsgs s) = None" and i: "i < 65536" and body: "fits_packet (t, b, r)"
    and run: "MQTTProtocol_startPublish e \<lparr>pub_header = h, pub_topic = t, pub_msgId = i, pub_payload = b\<rparr> 2 r None s = Some (rc, s')"
  shows "sender_ok s'" and "sending_of s' = (sending_of s)(i \<mapsto> (WaitRec, (t, b, r)))"
    and "\<exists>pkt. written s s' = [pkt] \<and> carries_down pkt (i, Some (t, b, r))"
proof -
  have st: "pubs_ok s" using ok by (simp add: sender_ok_def)
  let ?p = "\<lparr>refcount = 1, p_topic = t, p_payload = b\<rparr>"
  let ?m = "\<lparr>m_qos = 2, m_retain = r, m_msgid = i, m_publish = next_block s, m_lastTouch = clock_now e, m_next = Some PUBREC\<rparr>"
  define f where "f = (publications s)(next_block s \<mapsto> ?p)"
  let ?s = "s\<lparr>publications := f, next_block := Suc (next_block s), outboundMsgs := outboundMsgs s @ [?m]\<rparr>"
  let ?pkt = "MQTTPacket_send_publish \<lparr>pub_header = h, pub_topic = t, pub_msgId = i, pub_payload = b\<rparr> False 2 r"
  have "c_bytes t = t" using body by (simp add: c_bytes_id)
  then have s': "s' = snd (send e ?pkt ?s)"
    using run unfolding startPublish_effect [OF st zero_less_numeral] by (auto simp: Let_def f_def split: if_splits dest: sym)
  have "pubs_ok s'" unfolding s' pubs_ok_send f_def using st free by (intro store_add_out) simp_all
  moreover have new: "msg_body f ?m = (t, b, r)" by (simp add: msg_body_def f_def)
  moreover have old: "msg_body f m = msg_body (publications s) m" if "m \<in> set (outboundMsgs s)" for m
    using blocks_apart(1) [OF st that] by (simp add: f_def)
  ultimately show "sender_ok s'" using ok i body by (simp add: s' sender_ok_def out_msg_ok_def)
  show "sending_of s' = (sending_of s)(i \<mapsto> (WaitRec, (t, b, r)))"
    using free old new by (auto simp: fun_eq_iff s' sending_of_def find_msg_append dest: find_msg_in split: option.split)
  show "\<exists>pkt. written s s' = [pkt] \<and> carries_down pkt (i, Some (t, b, r))"
    using i body by (auto simp: s' written_def)
qed

lemma choose_list: "\<forall>w \<in> set ws. \<exists>x. R w x \<and> Q x \<Longrightarrow> \<exists>d. list_all2 R ws d \<and> (\<forall>x \<in> set d. Q x)"
proof (induction ws)
  case (Cons w ws)
  then obtain x d where "R w x" "Q x" "list_all2 R ws d" "\<forall>x \<in> set d. Q x" by auto
  then show ?case by (intro exI [of _ "x # d"]) simp
qed simp

lemma find_msg_self: "distinct (map m_msgid ms) \<Longrightarrow> m \<in> set ms \<Longrightarrow> find_msg (m_msgid m) ms = Some m"
  by (induction ms) auto

text \<open>The letters a sender may repeat.\<close>

fun repeats :: "(nat \<rightharpoonup> phase \<times> body) \<Rightarrow> nat \<times> body option \<Rightarrow> bool" where
  "repeats f (i, Some b) \<longleftrightarrow> f i = Some (WaitRec, b)"
| "repeats f (i, None) \<longleftrightarrow> (\<exists>b. f i = Some (WaitComp, b))"

lemma resent_carries:
  assumes "sender_ok s" and "m \<in> set (outboundMsgs s)" and "resent (publications s) m w"
  shows "\<exists>x. carries_down w x \<and> repeats (sending_of s) x"
proof -
  have m: "m_qos m = 2" "m_msgid m < 65536" "fits_packet (msg_body (publications s) m)"
    using assms(1,2) by (auto simp: sender_ok_def out_msg_ok_def)
  have find: "find_msg (m_msgid m) (outboundMsgs s) = Some m"
    using assms(1,2) by (simp add: sender_ok_def pubs_ok_def find_msg_self)
  show ?thesis
  proof (cases "m_next m = Some PUBREC")
    case True
    then obtain p where "publications s (m_publish m) = Some p" "w = retry_publish m p"
      using assms(3) by (auto simp: resent_def)
    then have "carries_down w (m_msgid m, Some (msg_body (publications s) m))"
      using m by (auto simp: msg_body_def retry_publish_def)
    then show ?thesis using True find by (intro exI [of _ "(m_msgid m, Some (msg_body (publications s) m))"]) (simp add: sending_of_def)
  next
    case False
    then have "carries_down w (m_msgid m, None)" using assms(3) m by (simp add: resent_def)
    then show ?thesis using False find by (intro exI [of _ "(m_msgid m, None)"]) (simp add: sending_of_def msg_body_def)
  qed
qed

lemma msg_body_state [simp]:
  "msg_body f (m\<lparr>m_lastTouch := t\<rparr>) = msg_body f m" "msg_body f (m\<lparr>m_next := x\<rparr>) = msg_body f m"
  by (simp_all add: msg_body_def)

lemma sender_ok_msgs: "sender_ok s \<longleftrightarrow> pubs_ok s \<and> list_all (out_msg_ok (publications s)) (untouched (outboundMsgs s))"
  by (auto simp: sender_ok_def out_msg_ok_def untouched_def list_all_iff)

lemma sending_of_untouched:
  "sending_of s i = map_option (\<lambda>m. (if m_next m = Some PUBREC then WaitRec else WaitComp, msg_body (publications s) m))
     (find_msg i (untouched (outboundMsgs s)))"
proof -
  have "find_msg i (untouched ms) = map_option (\<lambda>m. m\<lparr>m_lastTouch := 0\<rparr>) (find_msg i ms)" for ms
    by (induction ms) auto
  then show ?thesis by (simp add: sending_of_def option.map_comp comp_def)
qed

lemma retried_sim:
  assumes ok: "sender_ok s" and run: "retried s (outboundMsgs s) (Some s')"
  shows "sender_ok s'" and "sending_of s' = sending_of s"
    and "\<exists>d. list_all2 carries_down (written s s') d \<and> (\<forall>x \<in> set d. repeats (sending_of s) x)"
proof -
  obtain ws where same: "same_store s s'" and out: "untouched (outboundMsgs s') = untouched (outboundMsgs s)"
    and ws: "wire s' = wire s @ ws" "\<forall>w \<in> set ws. \<exists>m \<in> set (outboundMsgs s). resent (publications s) m w"
    using run by (auto simp: retried_def)
  have pubs: "publications s' = publications s" using same by (simp add: same_store_def)
  show "sending_of s' = sending_of s" by (simp add: fun_eq_iff sending_of_untouched out pubs)
  have "pubs_ok s'" using retried_ok [OF run] ok by (simp add: sender_ok_def)
  then show "sender_ok s'" using ok by (simp add: sender_ok_msgs out pubs)
  show "\<exists>d. list_all2 carries_down (written s s') d \<and> (\<forall>x \<in> set d. repeats (sending_of s) x)"
    using ws resent_carries [OF ok] by (intro choose_list) (auto simp: written_def)
qed

text \<open>An acknowledgement reaches the sender.\<close>

lemma pubrec_sim:
  assumes ok: "sender_ok s" and i: "i < 65536" and run: "MQTTProtocol_handlePubrecs e i s = Some (rc, s')"
  shows "sender_ok s'"
    and "sending_of s i = Some (WaitRec, b) \<Longrightarrow> sending_of s' = (sending_of s)(i \<mapsto> (WaitComp, b)) \<and> written s s' = [MQTTPacket_send_pubrel i False]"
    and "\<nexists>b. sending_of s i = Some (WaitRec, b) \<Longrightarrow> s' = s"
proof -
  have st: "pubs_ok s" using ok by (simp add: sender_ok_def)
  have qos: "m_qos m = 2" if "find_msg i (outboundMsgs s) = Some m" for m
    using ok find_msg_in [OF that] by (simp add: sender_ok_def out_msg_ok_def)
  show skip: "\<nexists>b. sending_of s i = Some (WaitRec, b) \<Longrightarrow> s' = s"
    using run qos by (auto simp: MQTTProtocol_handlePubrecs_def sending_of_def msg_body_def split: option.splits if_splits)
  have go: "sender_ok s' \<and> sending_of s' = (sending_of s)(i \<mapsto> (WaitComp, b)) \<and> written s s' = [MQTTPacket_send_pubrel i False]"
    if b: "sending_of s i = Some (WaitRec, b)" for b
  proof -
    obtain m where m: "find_msg i (outboundMsgs s) = Some m" "m_next m = Some PUBREC" "msg_body (publications s) m = b"
      using b by (auto simp: sending_of_def split: if_splits)
    let ?m = "m\<lparr>m_next := Some PUBCOMP, m_lastTouch := clock_now e\<rparr>"
    have s': "s' = (snd (send e (MQTTPacket_send_pubrel i False) s))\<lparr>outboundMsgs := replace_msg i ?m (outboundMsgs s)\<rparr>"
      using run m qos by (auto simp: MQTTProtocol_handlePubrecs_def split_beta)
    have "pubs_ok s'" using handlePubrecs_ok [OF st, of e i] run by (simp add: keeps_pubs_def)
    moreover have "n = ?m \<or> n \<in> set (outboundMsgs s)" if "n \<in> set (replace_msg i ?m (outboundMsgs s))" for n
      using find_msg_split [OF m(1)] that by auto
    moreover have "out_msg_ok (publications s) ?m"
      using ok m find_msg_in [OF m(1)] by (auto simp: sender_ok_def out_msg_ok_def)
    ultimately have "sender_ok s'" using ok by (auto simp: sender_ok_def s')
    then show ?thesis using m find_msg_in [OF m(1)]
      by (auto simp: s' sending_of_def fun_eq_iff find_replace written_def)
  qed
  show "sending_of s i = Some (WaitRec, b) \<Longrightarrow> sending_of s' = (sending_of s)(i \<mapsto> (WaitComp, b)) \<and> written s s' = [MQTTPacket_send_pubrel i False]"
    using go by blast
  show "sender_ok s'" using go skip ok by blast
qed

lemma pubcomp_sim:
  assumes ok: "sender_ok s" and run: "MQTTProtocol_handlePubcomps e i s = Some (rc, s')"
  shows "sender_ok s'" and "written s s' = []"
    and "sending_of s i = Some (WaitComp, b) \<Longrightarrow> sending_of s' = (sending_of s)(i := None)"
    and "\<nexists>b. sending_of s i = Some (WaitComp, b) \<Longrightarrow> s' = s"
proof -
  have st: "pubs_ok s" using ok by (simp add: sender_ok_def)
  have msg: "m_qos m = 2 \<and> (m_next m = Some PUBREC \<or> m_next m = Some PUBCOMP)" if "find_msg i (outboundMsgs s) = Some m" for m
    using ok find_msg_in [OF that] by (auto simp: sender_ok_def out_msg_ok_def)
  show skip: "\<nexists>b. sending_of s i = Some (WaitComp, b) \<Longrightarrow> s' = s"
    using run msg unfolding handlePubcomps_effect [OF st]
    by (auto simp: sending_of_def msg_body_def split: option.splits if_splits)
  have go: "sender_ok s' \<and> sending_of s' = (sending_of s)(i := None) \<and> written s s' = []"
    if b: "sending_of s i = Some (WaitComp, b)" for b
  proof -
    obtain m where m: "find_msg i (outboundMsgs s) = Some m" "m_next m = Some PUBCOMP"
      using b msg by (auto simp: sending_of_def split: if_splits)
    define f where "f = (publications s)(m_publish m := None)"
    have s': "s' = s\<lparr>publications := f, outboundMsgs := remove_msg i (outboundMsgs s), msgs_sent := msgs_sent s + 1\<rparr>"
      using run m msg unfolding handlePubcomps_effect [OF st] by (simp add: release_def f_def)
    have sub: "n \<in> set (outboundMsgs s) \<and> n \<noteq> m" if "n \<in> set (remove_msg i (outboundMsgs s))" for n
      using find_msg_split [OF m(1)] st that by (auto simp: pubs_ok_def)
    have body: "msg_body f n = msg_body (publications s) n" if "n \<in> set (outboundMsgs s)" "n \<noteq> m" for n
      using blocks_apart(3) [OF st that(1)] find_msg_in [OF m(1)] that(2) by (simp add: f_def)
    have "pubs_ok s'" using release_ok [OF st m(1)] by (simp add: s' release_def f_def)
    then have "sender_ok s'" using ok sub body by (simp add: sender_ok_def out_msg_ok_def s')
    moreover have "sending_of s' j = ((sending_of s)(i := None)) j" for j
      using st m(1) body [of "the (find_msg j (outboundMsgs s))"] find_msg_in [of j "outboundMsgs s"] find_msg_in [OF m(1)]
      by (cases "find_msg j (outboundMsgs s)") (auto simp: s' sending_of_def find_remove pubs_ok_def)
    ultimately show ?thesis by (simp add: fun_eq_iff s' written_def)
  qed
  show "sending_of s i = Some (WaitComp, b) \<Longrightarrow> sending_of s' = (sending_of s)(i := None)"
    using go by blast
  show "sender_ok s'" "written s s' = []" using go skip ok by (auto simp: written_def)
qed

section \<open>The receiver\<close>

lemma publish_received:
  assumes ok: "receiver_ok s" and body: "fits_packet (t, b, r)" and go: "no_pending e s"
    and run: "MQTTProtocol_handlePublishes e \<lparr>pub_header = \<lparr>hdr_type = 3, hdr_dup = dup, hdr_qos = 2, hdr_retain = r\<rparr>,
      pub_topic = t, pub_msgId = i, pub_payload = b\<rparr> s = Some (rc, s')"
  shows "receiver_ok s'" and "holding_of s' = (holding_of s)(i \<mapsto> (t, b, r))" and "received s' = received s"
    and "written s s' = [MQTTPacket_send_pubrec i]"
proof -
  have st: "pubs_ok s" using ok by (simp add: receiver_ok_def)
  let ?pub = "\<lparr>pub_header = \<lparr>hdr_type = 3, hdr_dup = dup, hdr_qos = 2, hdr_retain = r\<rparr>, pub_topic = t, pub_msgId = i, pub_payload = b\<rparr>"
  let ?m = "\<lparr>m_qos = 2, m_retain = r, m_msgid = i, m_publish = next_block s, m_lastTouch = 0, m_next = Some PUBREL\<rparr>"
  let ?ms = "if find_msg i (inboundMsgs s) = None then inboundMsgs s @ [?m] else replace_msg i ?m (inboundMsgs s)"
  define f where "f = publications (hold e ?pub s)"
  have "c_bytes t = t" using body by (simp add: c_bytes_id)
  then have new: "msg_body f ?m = (t, b, r)"
    using blocks_apart(2) [OF st, of "the (find_msg i (inboundMsgs s))"] find_msg_in [of i "inboundMsgs s"]
    by (cases "find_msg i (inboundMsgs s)") (auto simp: f_def hold_def held_def msg_body_def Let_def)
  have old: "msg_body f n = msg_body (publications s) n" if n: "n \<in> set (inboundMsgs s)" "m_msgid n \<noteq> i" for n
  proof -
    have "m_publish n \<noteq> m_publish m" if "find_msg i (inboundMsgs s) = Some m" for m
      using blocks_apart(4) [OF st n(1)] find_msg_in [OF that] n(2) by blast
    then show ?thesis using blocks_apart(2) [OF st n(1)]
      by (cases "find_msg i (inboundMsgs s)") (simp_all add: f_def hold_def Let_def)
  qed
  have s': "s' = snd (send e (MQTTPacket_send_pubrec i) (hold e ?pub s))"
    using run handlePublishes_qos2 [OF st _ go, of ?pub] by simp
  have ins: "inboundMsgs (hold e ?pub s) = ?ms" by (auto simp: hold_def Let_def split: option.split)
  have sub: "n = ?m \<or> n \<in> set (inboundMsgs s)" if "n \<in> set ?ms" for n
    using find_msg_split [of i "inboundMsgs s"] that by (auto split: if_splits)
  have "has_ma (hold e ?pub s) = has_ma s" by (auto simp: hold_def Let_def split: option.split)
  then show "receiver_ok s'" using hold_ok [OF st, of e ?pub] ok sub by (fastforce simp: receiver_ok_def s' ins)
  show "received s' = received s" "written s s' = [MQTTPacket_send_pubrec i]"
    by (auto simp: s' written_def received_def hold_def Let_def split: option.split)
  have "holding_of s' j = ((holding_of s)(i \<mapsto> (t, b, r))) j" for j
    using new old find_msg_in [of j "inboundMsgs s"]
    by (auto simp: s' holding_of_def ins find_msg_append find_replace f_def [symmetric] split: option.split)
  then show "holding_of s' = (holding_of s)(i \<mapsto> (t, b, r))" by blast
qed

lemma pubrel_received:
  assumes ok: "receiver_ok s" and run: "MQTTProtocol_handlePubrels e False i s = Some (rc, s')" 
  shows "receiver_ok s'"
    and "holding_of s i = Some b \<Longrightarrow> no_pending e s \<Longrightarrow> holding_of s' = (holding_of s)(i := None) \<and>
      map delivered_body (received s') = map delivered_body (received s) @ [b] \<and> written s s' = [MQTTPacket_send_pubcomp i]"
    and "holding_of s i = None \<or> \<not> no_pending e s \<Longrightarrow> s' = s"
proof -
  have st: "pubs_ok s" using ok by (simp add: receiver_ok_def)
  have msg: "m_qos m = 2 \<and> m_next m = Some PUBREL" if "find_msg i (inboundMsgs s) = Some m" for m
    using ok find_msg_in [OF that] by (auto simp: receiver_ok_def)
  show skip: "holding_of s i = None \<or> \<not> no_pending e s \<Longrightarrow> s' = s"
    using run msg by (auto simp: MQTTProtocol_handlePubrels_def holding_of_def split: option.splits)
  have go: "receiver_ok s' \<and> holding_of s' = (holding_of s)(i := None) \<and>
      map delivered_body (received s') = map delivered_body (received s) @ [b] \<and> written s s' = [MQTTPacket_send_pubcomp i]"
    if b: "holding_of s i = Some b" and pend: "no_pending e s" for b
  proof -
    obtain m where m: "find_msg i (inboundMsgs s) = Some m" and mb: "msg_body (publications s) m = b"
      using b by (auto simp: holding_of_def)
    obtain p where p: "publications s (m_publish m) = Some p"
      and s': "received s' = received s @ [\<lparr>mm_topic = p_topic p, mm_payload = p_payload p, mm_qos = 2, mm_retained = m_retain m, mm_dup = False, mm_msgid = i\<rparr>]"
        "inboundMsgs s' = remove_msg i (inboundMsgs s)" "publications s' = (publications s)(m_publish m := None)"
        "wire s' = wire s @ [MQTTPacket_send_pubcomp i]" "has_ma s' = has_ma s" "pubs_ok s'"
      using handlePubrels_effect [OF st m _ _ pend, of False] msg [OF m] run by auto
    have sub: "n \<in> set (inboundMsgs s) \<and> n \<noteq> m" if "n \<in> set (remove_msg i (inboundMsgs s))" for n
      using find_msg_split [OF m] st that by (auto simp: pubs_ok_def)
    have body: "msg_body (publications s') n = msg_body (publications s) n" if "n \<in> set (inboundMsgs s)" "n \<noteq> m" for n
      using blocks_apart(4) [OF st that(1)] find_msg_in [OF m] that(2) by (simp add: s')
    have "receiver_ok s'" using ok sub s' by (simp add: receiver_ok_def)
    moreover have "holding_of s' j = ((holding_of s)(i := None)) j" for j
      using st m body [of "the (find_msg j (inboundMsgs s))"] find_msg_in [of j "inboundMsgs s"] find_msg_in [OF m]
      by (cases "find_msg j (inboundMsgs s)") (auto simp: s'(2) holding_of_def find_remove pubs_ok_def)
    ultimately show ?thesis using mb p by (simp add: fun_eq_iff s' written_def msg_body_def)
  qed
  show "holding_of s i = Some b \<Longrightarrow> no_pending e s \<Longrightarrow> holding_of s' = (holding_of s)(i := None) \<and>
      map delivered_body (received s') = map delivered_body (received s) @ [b] \<and> written s s' = [MQTTPacket_send_pubcomp i]"
    using go by blast
  show "receiver_ok s'" using go skip ok by (cases "holding_of s i") auto
qed

section \<open>The refinement\<close>

lemma repeat_steps:
  "\<forall>y \<in> set d. repeats (sending x) y \<Longrightarrow> exch_step\<^sup>*\<^sup>* x (x\<lparr>down := down x @ d\<rparr>)"
proof (induction d arbitrary: x)
  case (Cons y d)
  have "exch_step x (x\<lparr>down := down x @ [y]\<rparr>)"
    using Cons.prems by (cases "(sending x, y)" rule: repeats.cases) (auto intro: exch_step.intros)
  moreover have "exch_step\<^sup>*\<^sup>* (x\<lparr>down := down x @ [y]\<rparr>) (x\<lparr>down := down x @ y # d\<rparr>)"
    using Cons.IH [of "x\<lparr>down := down x @ [y]\<rparr>"] Cons.prems by simp
  ultimately show ?case by (rule converse_rtranclp_into_rtranclp)
qed simp

lemma all2_subseq: "subseq xs' xs \<Longrightarrow> list_all2 R xs ys \<Longrightarrow> \<exists>ys'. subseq ys' ys \<and> list_all2 R xs' ys'"
proof (induction arbitrary: ys rule: list_emb.induct)
  case (list_emb_Cons xs' xs x)
  then obtain y zs ys' where "ys = y # zs" "subseq ys' zs" "list_all2 R xs' ys'" by (force simp: list_all2_Cons1)
  then show ?case by (intro exI [of _ ys']) (simp add: list_emb.list_emb_Cons)
next
  case (list_emb_Cons2 x' x xs' xs)
  then obtain y zs ys' where "ys = y # zs" "R x y" "subseq ys' zs" "list_all2 R xs' ys'" by (force simp: list_all2_Cons1)
  then show ?case using list_emb_Cons2(1) by (intro exI [of _ "y # ys'"]) simp
qed auto

lemma implements_step: "exch_step x x' \<Longrightarrow> implements l' x' \<Longrightarrow> \<exists>x'. exch_step x x' \<and> implements l' x'"
  by blast

text \<open>One step of the sender, of the receiver and of the network, each with the abstract steps it takes.\<close>

lemma repeated_refines:
  assumes "implements l x" and run: "retried (sender l) (outboundMsgs (sender l)) (Some s')"
  shows "\<exists>x'. exch_step\<^sup>*\<^sup>* x x' \<and> implements (l\<lparr>sender := s', down_wire := down_wire l @ written (sender l) s'\<rparr>) x'"
proof -
  obtain d u where ok: "sender_ok (sender l)" "receiver_ok (receiver l)"
    and chan: "list_all2 carries_down (down_wire l) d" "list_all2 carries_up (up_wire l) u" and x: "x = abs_link d u l"
    using assms(1) by (auto simp: implements_def)
  note sim = retried_sim [OF ok(1) run]
  obtain d' where "list_all2 carries_down (written (sender l) s') d'" "\<forall>y \<in> set d'. repeats (sending x) y"
    using sim(3) by (auto simp: x abs_link_def)
  then show ?thesis using repeat_steps [of d' x] sim(1,2) ok chan
    by (intro exI [of _ "x\<lparr>down := down x @ d'\<rparr>"]) (auto simp: implements_def x abs_link_def list_all2_appendI)
qed

lemma publish_refines:
  assumes "implements l x" and "find_msg i (outboundMsgs (sender l)) = None" and "i < 65536" and "fits_packet (t, b, r)"
    and "MQTTProtocol_startPublish e \<lparr>pub_header = h, pub_topic = t, pub_msgId = i, pub_payload = b\<rparr> 2 r None (sender l) = Some (rc, s')"
  shows "\<exists>x'. exch_step x x' \<and>
    implements (l\<lparr>sender := s', down_wire := down_wire l @ written (sender l) s', offered := offered l @ [(t, b, r)]\<rparr>) x'"
proof -
  obtain d u where ok: "sender_ok (sender l)" "receiver_ok (receiver l)"
    and chan: "list_all2 carries_down (down_wire l) d" "list_all2 carries_up (up_wire l) u" and x: "x = abs_link d u l"
    using assms(1) by (auto simp: implements_def)
  note sim = publish_sim [OF ok(1) assms(2-5)]
  obtain pkt where pkt: "written (sender l) s' = [pkt]" "carries_down pkt (i, Some (t, b, r))" using sim(3) by blast
  have step: "exch_step x (x\<lparr>sending := (sending x)(i \<mapsto> (WaitRec, (t, b, r))), down := down x @ [(i, Some (t, b, r))],
      published := published x @ [(t, b, r)]\<rparr>)"
    using assms(2) by (intro exch_step.start) (simp add: x abs_link_def sending_of_def)
  show ?thesis
    by (rule implements_step [OF step]) (use pkt ok chan sim(1,2) in \<open>auto simp: implements_def x abs_link_def list_all2_appendI\<close>)
qed

lemma arrive_refines:
  assumes "implements l x" and "down_wire l = pkt # ds" and "MQTTPacket_Factory 0 pkt = Some (rc0, Some pack, [])"
    and "cycle_dispatch e pack (receiver l) = Some (rc, s')"
  shows "\<exists>x'. exch_step x x' \<and> implements (l\<lparr>receiver := s', down_wire := ds, up_wire := up_wire l @ written (receiver l) s'\<rparr>) x'"
proof -
  obtain y d u where ok: "sender_ok (sender l)" "receiver_ok (receiver l)"
    and chan: "carries_down pkt y" "list_all2 carries_down ds d" "list_all2 carries_up (up_wire l) u" and x: "x = abs_link (y # d) u l"
    using assms(1,2) by (auto simp: implements_def list_all2_Cons1)
  have dropped: "\<exists>x'. exch_step x x' \<and> implements (l\<lparr>receiver := s', down_wire := ds, up_wire := up_wire l @ written (receiver l) s'\<rparr>) x'"
    if same: "s' = receiver l"
    by (rule implements_step [OF exch_step.lose [of d x u]])
      (use ok chan(2,3) in \<open>auto simp: implements_def x abs_link_def written_def same list_emb_Cons\<close>)
  show ?thesis
  proof (cases y rule: down_letter)
    case (1 i t b r)
    then obtain dup where i: "i < 65536" "fits_packet (t, b, r)"
      and run: "MQTTProtocol_handlePublishes e \<lparr>pub_header = \<lparr>hdr_type = 3, hdr_dup = dup, hdr_qos = 2, hdr_retain = r\<rparr>,
        pub_topic = t, pub_msgId = i, pub_payload = b\<rparr> (receiver l) = Some (rc, s')"
      using publish_dispatched [of pkt i t b r] chan(1) assms(3,4) by blast
    show ?thesis
    proof (cases "no_pending e (receiver l)")
      case True
      note sim = publish_received [OF ok(2) i(2) True run]
      have step: "exch_step x (x\<lparr>holding := (holding x)(i \<mapsto> (t, b, r)), down := d, up := up x @ [(i, True)]\<rparr>)"
        by (rule exch_step.get_publish) (simp add: x 1 abs_link_def)
      show ?thesis
        by (rule implements_step [OF step]) (use ok(1) chan(2,3) i sim in \<open>auto simp: implements_def x abs_link_def list_all2_appendI\<close>)
    qed (use run dropped in \<open>simp add: MQTTProtocol_handlePublishes_def Let_def\<close>)
  next
    case (2 i)
    then have i: "i < 65536" and run: "MQTTProtocol_handlePubrels e False i (receiver l) = Some (rc, s')"
      using pubrel_dispatched [of pkt i] chan(1) assms(3,4) by blast+
    note sim = pubrel_received [OF ok(2) run]
    show ?thesis
    proof (cases "holding_of (receiver l) i = None \<or> \<not> no_pending e (receiver l)")
      case False
      then obtain b where b: "holding_of (receiver l) i = Some b" "no_pending e (receiver l)" by auto
      have step: "exch_step x (x\<lparr>holding := (holding x)(i := None), down := d, up := up x @ [(i, False)], delivered := delivered x @ [b]\<rparr>)"
        by (rule exch_step.get_pubrel) (simp_all add: x 2 b abs_link_def)
      show ?thesis
        by (rule implements_step [OF step])
          (use ok(1) chan(2,3) i sim(1) sim(2) [OF b] in \<open>auto simp: implements_def x abs_link_def list_all2_appendI\<close>)
    qed (use dropped sim(3) in blast)
  qed
qed

lemma acknowledge_refines:
  assumes "implements l x" and "up_wire l = pkt # us" and "MQTTPacket_Factory 0 pkt = Some (rc0, Some pack, [])"
    and "cycle_dispatch e pack (sender l) = Some (rc, s')"
  shows "\<exists>x'. exch_step x x' \<and> implements (l\<lparr>sender := s', up_wire := us, down_wire := down_wire l @ written (sender l) s'\<rparr>) x'"
proof -
  obtain i rec d u where ok: "sender_ok (sender l)" "receiver_ok (receiver l)"
    and chan: "carries_up pkt (i, rec)" "list_all2 carries_up us u" "list_all2 carries_down (down_wire l) d" and x: "x = abs_link d ((i, rec) # u) l"
    using assms(1,2) by (auto simp: implements_def list_all2_Cons1)
  have dropped: "\<exists>x'. exch_step x x' \<and> implements (l\<lparr>sender := s', up_wire := us, down_wire := down_wire l @ written (sender l) s'\<rparr>) x'"
    if same: "s' = sender l"
    by (rule implements_step [OF exch_step.lose [of d x u]])
      (use ok chan(2,3) in \<open>auto simp: implements_def x abs_link_def written_def same list_emb_Cons\<close>)
  show ?thesis
  proof (cases "rec")
    case True
    then have i: "i < 65536" and run: "MQTTProtocol_handlePubrecs e i (sender l) = Some (rc, s')"
      using pubrec_dispatched [of pkt i] chan(1) assms(3,4) by auto
    note sim = pubrec_sim [OF ok(1) i run]
    show ?thesis
    proof (cases "\<exists>b. sending_of (sender l) i = Some (WaitRec, b)")
      case b: True
      then obtain b where b: "sending_of (sender l) i = Some (WaitRec, b)" by blast
      have step: "exch_step x (x\<lparr>sending := (sending x)(i \<mapsto> (WaitComp, b)), up := u, down := down x @ [(i, None)]\<rparr>)"
        by (rule exch_step.get_pubrec) (simp_all add: x True b abs_link_def)
      show ?thesis
        by (rule implements_step [OF step])
          (use ok(2) chan(2,3) i sim(1) sim(2) [OF b] in \<open>auto simp: implements_def x abs_link_def list_all2_appendI\<close>)
    qed (use dropped sim(3) in blast)
  next
    case False
    then have i: "i < 65536" and run: "MQTTProtocol_handlePubcomps e i (sender l) = Some (rc, s')"
      using pubcomp_dispatched [of pkt i] chan(1) assms(3,4) by auto
    note sim = pubcomp_sim [OF ok(1) run]
    show ?thesis
    proof (cases "\<exists>b. sending_of (sender l) i = Some (WaitComp, b)")
      case b: True
      then obtain b where b: "sending_of (sender l) i = Some (WaitComp, b)" by blast
      have step: "exch_step x (x\<lparr>sending := (sending x)(i := None), up := u\<rparr>)"
        by (rule exch_step.get_pubcomp) (simp_all add: x False b abs_link_def)
      show ?thesis
        by (rule implements_step [OF step])
          (use ok(2) chan(2,3) sim(1,2) sim(3) [OF b] in \<open>auto simp: implements_def x abs_link_def\<close>)
    qed (use dropped sim(4) in blast)
  qed
qed

lemma lose_refines:
  assumes "implements l x" and "subseq ds (down_wire l)" and "subseq us (up_wire l)"
  shows "\<exists>x'. exch_step x x' \<and> implements (l\<lparr>down_wire := ds, up_wire := us\<rparr>) x'"
proof -
  obtain d u where ok: "sender_ok (sender l)" "receiver_ok (receiver l)"
    and chan: "list_all2 carries_down (down_wire l) d" "list_all2 carries_up (up_wire l) u" and x: "x = abs_link d u l"
    using assms(1) by (auto simp: implements_def)
  obtain d' u' where sub: "subseq d' d" "list_all2 carries_down ds d'" "subseq u' u" "list_all2 carries_up us u'"
    using all2_subseq [OF assms(2) chan(1)] all2_subseq [OF assms(3) chan(2)] by blast
  show ?thesis
    by (rule implements_step [OF exch_step.lose [of d' x u']]) (use sub ok in \<open>auto simp: implements_def x abs_link_def\<close>)
qed

lemma link_refines:
  assumes "link_step l l'" and x: "implements l x"
  shows "\<exists>x'. exch_step\<^sup>*\<^sup>* x x' \<and> implements l' x'"
  using assms(1)
proof cases
  case (publish i t b r e h rc s')
  then show ?thesis using publish_refines [OF x publish(2-5)] by blast
next
  case (retry e now doRetry regardless s')
  then show ?thesis using repeated_refines [OF x, of s'] retry_effect [of "sender l" e now doRetry regardless] x
    by (simp add: implements_def sender_ok_def)
next
  case (reconnect e s')
  let ?s = "(sender l)\<lparr>net_connected := True, good := True, connect_state := 0\<rparr>"
  have "retried ?s (outboundMsgs ?s) (Some s')"
    using resume_session_effect [of ?s e] reconnect(2) x by (simp add: implements_def sender_ok_def)
  then have "\<exists>x'. exch_step\<^sup>*\<^sup>* x x' \<and> implements (l\<lparr>sender := s', down_wire := down_wire l @ written ?s s'\<rparr>) x'"
    using repeated_refines [of "l\<lparr>sender := ?s\<rparr>" x s'] x
    by (simp add: implements_def sender_ok_def abs_link_def sending_of_def [abs_def])
  then show ?thesis by (simp add: reconnect(1) written_def)
next
  case (hand_over e)
  have "implements l' x"
    using x deliver_queued_ok deliver_queued_received by (auto simp: implements_def receiver_ok_def abs_link_def hand_over holding_of_def [abs_def])
  then show ?thesis by blast
next
  case (lose_packets ds us)
  then show ?thesis using lose_refines [OF x lose_packets(2,3)] by blast
next
  case (arrive pkt ds rc0 pack e rc s')
  then show ?thesis using arrive_refines [OF x arrive(2-4)] by blast
next
  case (acknowledge pkt us rc0 pack e rc s')
  then show ?thesis using acknowledge_refines [OF x acknowledge(2-4)] by blast
qed

lemma start_implements: "link_start l \<Longrightarrow> implements l exch_init"
  by (simp add: link_start_def implements_def sender_ok_def receiver_ok_def abs_link_def exch_init_def sending_of_def holding_of_def fun_eq_iff)

lemma run_implements: "link_step\<^sup>*\<^sup>* l l' \<Longrightarrow> implements l x \<Longrightarrow> \<exists>x'. exch_step\<^sup>*\<^sup>* x x' \<and> implements l' x'"
proof (induction rule: rtranclp_induct)
  case (step l1 l2)
  then show ?case using link_refines by (meson rtranclp_trans)
qed blast

text \<open>
  C17: QoS 2 delivery between two clients, over packets read back from their bytes: whatever
  packets the network loses, whatever the writes return and whatever the receiving application
  refuses at first, the messages handed over or queued for it are among the published ones, each
  at most as often as it was published, and exactly those when the sender has no message left.
\<close>

theorem exactly_once_delivery:
  assumes "link_start l" and "link_step\<^sup>*\<^sup>* l l'"
  shows "mset (map delivered_body (arrived (receiver l') @ messageQueue (receiver l'))) \<subseteq># mset (offered l') \<and>
    (outboundMsgs (sender l') = [] \<longrightarrow>
      mset (map delivered_body (arrived (receiver l') @ messageQueue (receiver l'))) = mset (offered l'))"
proof -
  obtain x where x: "exch_step\<^sup>*\<^sup>* exch_init x" "implements l' x"
    using run_implements [OF assms(2) start_implements [OF assms(1)]] by blast
  then have "delivered x = map delivered_body (received (receiver l'))" "published x = offered l'"
    "outboundMsgs (sender l') = [] \<Longrightarrow> sending x = Map.empty"
    by (auto simp: implements_def abs_link_def sending_of_def)
  then show ?thesis using exactly_once [OF x(1)] by (simp add: received_def)
qed

section \<open>A lost PUBCOMP\<close>

text \<open>
  The receiver has delivered the message of an id and forgotten it, and no PUBCOMP for it is on
  its way. The sender repeats its PUBREL without the duplicate flag, which the receiver answers
  only with it.
\<close>

definition stuck :: "nat \<Rightarrow> body exchange \<Rightarrow> bool" where
  "stuck i x \<longleftrightarrow> (\<exists>b. sending x i = Some (WaitComp, b)) \<and> holding x i = None \<and>
     only None (for_id i (down x)) \<and> only True (for_id i (up x))"

lemma stuck_step:
  assumes "exch_step x x'" and "stuck i x"
  shows "stuck i x'"
  using assms(1)
proof cases
  case (lose d u)
  then show ?thesis using assms(2) only_subseq [OF for_id_subseq, of d] only_subseq [OF for_id_subseq, of u] by (auto simp: stuck_def)
qed (use assms(2) in \<open>auto simp: stuck_def split: if_splits\<close>)

lemma stuck_run: "exch_step\<^sup>*\<^sup>* x x' \<Longrightarrow> stuck i x \<Longrightarrow> stuck i x'"
  by (induction rule: rtranclp_induct) (auto intro: stuck_step)

text \<open>
  C25: When the PUBCOMP of an exchange is lost, the exchange never ends: the sender repeats
  PUBREL without the duplicate flag, the receiver answers an unknown id only with it, and the
  message stays outbound in every continuation.
\<close>

theorem lost_pubcomp_never_released:
  assumes "link_start l0" and "link_step\<^sup>*\<^sup>* l0 l" and "link_step\<^sup>*\<^sup>* l l'"
    and "find_msg i (outboundMsgs (sender l)) = Some m" and "m_next m = Some PUBCOMP" and "find_msg i (inboundMsgs (receiver l)) = None"
    and "down_wire l = []" and "up_wire l = []"
  shows "find_msg i (outboundMsgs (sender l')) \<noteq> None"
proof -
  obtain x where x: "implements l x"
    using run_implements [OF assms(2) start_implements [OF assms(1)]] by blast
  then have "stuck i x"
    using assms(4-8) by (auto simp: implements_def stuck_def abs_link_def sending_of_def holding_of_def msg_body_def)
  moreover obtain x' where "exch_step\<^sup>*\<^sup>* x x'" "implements l' x'" using run_implements [OF assms(3) x] by blast
  ultimately show ?thesis
    using stuck_run [of x x' i] by (auto simp: stuck_def implements_def abs_link_def sending_of_def)
qed

end
