(* ===== verification/DeliveryExamples.thy ===== *)
theory DeliveryExamples
  imports MqttDelivery
begin

text \<open>
  Concrete runs of the message delivery: a sender that publishes one QoS 2 message, the exchange
  carried out to its end, and the same exchange with its last packet lost.
\<close>

section \<open>Definitions\<close>

definition good_net :: net_env where
  "good_net = \<lparr>write_rc = (\<lambda>_. 0), noPendingWrites = (\<lambda>_. True), write_done = (\<lambda>_. True), ma_rc = (\<lambda>_. True), clock_now = 5, on_heap = False\<rparr>"

definition idle_client :: protocol where
  "idle_client = \<lparr>msgID = 0, outboundMsgs = [], inboundMsgs = [], publications = Map.empty, next_block = 0, pending_writes = [],
     net_connected = True, good = True, ping_outstanding = False, keepAliveInterval = 60, retryInterval = 20,
     lastSent = 0, lastReceived = 0, msgs_sent = 0, msgs_received = 0, close_requests = 0, cleansession = False, connect_state = 0, socket_open = True,
     has_ma = True, ma_calls = 0, messageQueue = [], arrived = [], wire = []\<rparr>"

definition idle_link :: link where
  "idle_link = \<lparr>sender = idle_client, receiver = idle_client, down_wire = [], up_wire = [], offered = []\<rparr>"

text \<open>The steps as functions.\<close>

definition can_publish :: "nat \<Rightarrow> body \<Rightarrow> link \<Rightarrow> bool" where
  "can_publish i x l \<longleftrightarrow> (case x of (t, b, r) \<Rightarrow> find_msg i (outboundMsgs (sender l)) = None \<and> i < 65536 \<and> fits_packet (t, b, r) \<and>
     MQTTProtocol_startPublish good_net \<lparr>pub_header = \<lparr>hdr_type = 3, hdr_dup = False, hdr_qos = 0, hdr_retain = False\<rparr>, pub_topic = t, pub_msgId = i, pub_payload = b\<rparr> 2 r None (sender l) \<noteq> None)"

definition do_publish :: "nat \<Rightarrow> body \<Rightarrow> link \<Rightarrow> link" where
  "do_publish i x l = (case x of (t, b, r) \<Rightarrow>
     let s' = snd (the (MQTTProtocol_startPublish good_net
           \<lparr>pub_header = \<lparr>hdr_type = 3, hdr_dup = False, hdr_qos = 0, hdr_retain = False\<rparr>, pub_topic = t, pub_msgId = i, pub_payload = b\<rparr> 2 r None (sender l)))
     in l\<lparr>sender := s', down_wire := down_wire l @ written (sender l) s', offered := offered l @ [(t, b, r)]\<rparr>)"

definition next_pack :: "byte list list \<Rightarrow> packet option" where
  "next_pack pkts = (case pkts of [] \<Rightarrow> None
     | pkt # _ \<Rightarrow> (case MQTTPacket_Factory 0 pkt of Some (_, Some pack, []) \<Rightarrow> Some pack | _ \<Rightarrow> None))"

definition dispatched :: "byte list list \<Rightarrow> protocol \<Rightarrow> protocol option" where
  "dispatched pkts s = Option.bind (next_pack pkts) (\<lambda>pack. map_option snd (cycle_dispatch good_net pack s))"

definition do_arrive :: "link \<Rightarrow> link" where
  "do_arrive l = (let s' = the (dispatched (down_wire l) (receiver l))
     in l\<lparr>receiver := s', down_wire := tl (down_wire l), up_wire := up_wire l @ written (receiver l) s'\<rparr>)"

definition do_acknowledge :: "link \<Rightarrow> link" where
  "do_acknowledge l = (let s' = the (dispatched (up_wire l) (sender l))
     in l\<lparr>sender := s', up_wire := tl (up_wire l), down_wire := down_wire l @ written (sender l) s'\<rparr>)"

text \<open>One message: topic t, payload hi.\<close>

definition hello :: body where "hello = ([116], [104, 105], False)"

definition link1 :: link where "link1 = do_publish 7 hello idle_link"
definition link2 :: link where "link2 = do_arrive link1"
definition link3 :: link where "link3 = do_acknowledge link2"
definition link4 :: link where "link4 = do_arrive link3"
definition link5 :: link where "link5 = do_acknowledge link4"
definition link_lost :: link where "link_lost = link4\<lparr>down_wire := [], up_wire := []\<rparr>"

section \<open>The runs\<close>

lemma publish_step: "can_publish i x l \<Longrightarrow> link_step l (do_publish i x l)"
proof -
  assume can: "can_publish i x l"
  obtain t b r where x: "x = (t, b, r)" by (cases x)
  let ?run = "MQTTProtocol_startPublish good_net \<lparr>pub_header = \<lparr>hdr_type = 3, hdr_dup = False, hdr_qos = 0, hdr_retain = False\<rparr>, pub_topic = t, pub_msgId = i, pub_payload = b\<rparr> 2 r None (sender l)"
  obtain rc s' where "?run = Some (rc, s')" using can by (auto simp: can_publish_def x)
  then show ?thesis using can link_step.publish [of i l t b r good_net "\<lparr>hdr_type = 3, hdr_dup = False, hdr_qos = 0, hdr_retain = False\<rparr>" rc s']
    by (simp add: can_publish_def do_publish_def x Let_def)
qed

lemma next_packE: "next_pack pkts = Some pack \<Longrightarrow> \<exists>pkt r rc. pkts = pkt # r \<and> MQTTPacket_Factory 0 pkt = Some (rc, Some pack, [])"
  by (auto simp: next_pack_def split: list.splits option.splits prod.splits)

lemma arrive_step: "dispatched (down_wire l) (receiver l) \<noteq> None \<Longrightarrow> link_step l (do_arrive l)"
proof -
  assume "dispatched (down_wire l) (receiver l) \<noteq> None"
  then obtain pack rc s' where "next_pack (down_wire l) = Some pack" "cycle_dispatch good_net pack (receiver l) = Some (rc, s')"
    by (auto simp: dispatched_def bind_eq_Some_conv)
  then show ?thesis using next_packE [of "down_wire l"] link_step.arrive [of l]
    by (fastforce simp: do_arrive_def dispatched_def)
qed

lemma acknowledge_step: "dispatched (up_wire l) (sender l) \<noteq> None \<Longrightarrow> link_step l (do_acknowledge l)"
proof -
  assume "dispatched (up_wire l) (sender l) \<noteq> None"
  then obtain pack rc s' where "next_pack (up_wire l) = Some pack" "cycle_dispatch good_net pack (sender l) = Some (rc, s')"
    by (auto simp: dispatched_def bind_eq_Some_conv)
  then show ?thesis using next_packE [of "up_wire l"] link_step.acknowledge [of l]
    by (fastforce simp: do_acknowledge_def dispatched_def)
qed

lemma idle_start: "link_start idle_link"
  by (simp add: link_start_def idle_link_def idle_client_def received_def pubs_ok_def blocks_def blocks_ok_def)

text \<open>The states of the run, with the packets left folded.\<close>

lemma read_hello: "next_pack (MQTTPacket_send_publish
    \<lparr>pub_header = \<lparr>hdr_type = 3, hdr_dup = False, hdr_qos = 0, hdr_retain = False\<rparr>, pub_topic = [116], pub_msgId = 7, pub_payload = [104, 105]\<rparr> False 2 False # r) =
  Some (Publish_packet \<lparr>pub_header = \<lparr>hdr_type = 3, hdr_dup = False, hdr_qos = 2, hdr_retain = False\<rparr>,
    pub_topic = [116], pub_msgId = 7, pub_payload = [104, 105]\<rparr>)"
  using publish_read [of 7 "[116]" "[104, 105]" False "\<lparr>hdr_type = 3, hdr_dup = False, hdr_qos = 0, hdr_retain = False\<rparr>" False] by (auto simp: next_pack_def)

lemma read_acks:
  "next_pack (MQTTPacket_send_pubrec 7 # r) = Some (Ack (plain_header PUBREC) 7)"
  "next_pack (MQTTPacket_send_pubcomp 7 # r) = Some (Ack (plain_header PUBCOMP) 7)"
  "next_pack (MQTTPacket_send_pubrel 7 False # r) = Some (Ack ((plain_header PUBREL)\<lparr>hdr_qos := 1\<rparr>) 7)"
  using ack_read [of 7 PUBREC] ack_read [of 7 PUBCOMP] ack_read [of 7 PUBREL]
  by (simp_all add: next_pack_def MQTTPacket_send_pubrec_def MQTTPacket_send_pubcomp_def MQTTPacket_send_pubrel_def)
    (simp_all add: plain_header_def)

lemmas run_simps = Let_def written_def good_net_def send_def no_pending_def hello_def idle_link_def idle_client_def
  MQTTProtocol_startPublish_def MQTTProtocol_createMessage_def MQTTProtocol_storePublication_def MQTTProtocol_startPublishCommon_def

lemma hello_published:
  "can_publish 7 hello idle_link"
  "link1 = idle_link\<lparr>sender := idle_client\<lparr>publications := [0 \<mapsto> \<lparr>refcount = 1, p_topic = [116], p_payload = [104, 105]\<rparr>], next_block := 1,
       outboundMsgs := [\<lparr>m_qos = 2, m_retain = False, m_msgid = 7, m_publish = 0, m_lastTouch = 5, m_next = Some PUBREC\<rparr>],
       wire := [MQTTPacket_send_publish \<lparr>pub_header = \<lparr>hdr_type = 3, hdr_dup = False, hdr_qos = 0, hdr_retain = False\<rparr>, pub_topic = [116], pub_msgId = 7, pub_payload = [104, 105]\<rparr> False 2 False], lastSent := 5\<rparr>,
     down_wire := [MQTTPacket_send_publish \<lparr>pub_header = \<lparr>hdr_type = 3, hdr_dup = False, hdr_qos = 0, hdr_retain = False\<rparr>, pub_topic = [116], pub_msgId = 7, pub_payload = [104, 105]\<rparr> False 2 False], offered := [hello]\<rparr>"
  by (simp_all add: can_publish_def link1_def do_publish_def run_simps c_bytes_id)

lemmas dispatch_simps = dispatched_def cycle_dispatch_def read_hello read_acks plain_header_def good_net_def send_def no_pending_def Let_def written_def
  messageIDCompare_def

lemma hello_arrived:
  "dispatched (down_wire link1) (receiver link1) \<noteq> None"
  "link2 = link1\<lparr>receiver := idle_client\<lparr>publications := [0 \<mapsto> \<lparr>refcount = 1, p_topic = [116], p_payload = [104, 105]\<rparr>], next_block := 1,
       inboundMsgs := [\<lparr>m_qos = 2, m_retain = False, m_msgid = 7, m_publish = 0, m_lastTouch = 0, m_next = Some PUBREL\<rparr>],
       wire := [MQTTPacket_send_pubrec 7], lastSent := 5\<rparr>, down_wire := [], up_wire := [MQTTPacket_send_pubrec 7]\<rparr>"
  by (simp_all add: link2_def do_arrive_def hello_published(2) idle_link_def idle_client_def dispatch_simps MQTTProtocol_handlePublishes_def
      MQTTProtocol_storePublication_def c_bytes_id)

lemma hello_received:
  "dispatched (up_wire link2) (sender link2) \<noteq> None"
  "link3 = link2\<lparr>sender := (sender link2)\<lparr>
       outboundMsgs := [\<lparr>m_qos = 2, m_retain = False, m_msgid = 7, m_publish = 0, m_lastTouch = 5, m_next = Some PUBCOMP\<rparr>],
       wire := wire (sender link2) @ [MQTTPacket_send_pubrel 7 False]\<rparr>, up_wire := [], down_wire := [MQTTPacket_send_pubrel 7 False]\<rparr>"
  by (simp_all add: link3_def do_acknowledge_def hello_arrived(2) hello_published(2) idle_link_def idle_client_def dispatch_simps
      MQTTProtocol_handlePubrecs_def)

lemma hello_released:
  "dispatched (down_wire link3) (receiver link3) \<noteq> None"
  "link4 = link3\<lparr>receiver := (receiver link3)\<lparr>publications := Map.empty, inboundMsgs := [], msgs_received := 1, ma_calls := 1,
       arrived := [\<lparr>mm_topic = [116], mm_payload = [104, 105], mm_qos = 2, mm_retained = False, mm_dup = False, mm_msgid = 7\<rparr>],
       wire := wire (receiver link3) @ [MQTTPacket_send_pubcomp 7]\<rparr>, down_wire := [], up_wire := [MQTTPacket_send_pubcomp 7]\<rparr>"
  by (simp_all add: link4_def do_arrive_def hello_received(2) hello_arrived(2) hello_published(2) idle_link_def idle_client_def dispatch_simps
      MQTTProtocol_handlePubrels_def Protocol_processPublication_def MQTTAsync_deliverMessage_def)

lemma hello_completed:
  "dispatched (up_wire link4) (sender link4) \<noteq> None"
  "outboundMsgs (sender link5) = []" "receiver link5 = receiver link4" "offered link5 = [hello]"
  by (simp_all add: link5_def do_acknowledge_def hello_released(2) hello_received(2) hello_arrived(2) hello_published(2) idle_link_def idle_client_def
      dispatch_simps MQTTProtocol_handlePubcomps_def MQTTProtocol_removePublication_def)

lemma run_to_link4: "link_step\<^sup>*\<^sup>* idle_link link4"
proof -
  have "link_step idle_link link1" using publish_step [OF hello_published(1)] by (simp add: link1_def)
  moreover have "link_step link1 link2" using arrive_step [OF hello_arrived(1)] by (simp add: link2_def)
  moreover have "link_step link2 link3" using acknowledge_step [OF hello_received(1)] by (simp add: link3_def)
  moreover have "link_step link3 link4" using arrive_step [OF hello_released(1)] by (simp add: link4_def)
  ultimately show ?thesis by (meson converse_rtranclp_into_rtranclp rtranclp.rtrancl_refl)
qed

lemma run_to_link5: "link_step\<^sup>*\<^sup>* idle_link link5"
  using run_to_link4 acknowledge_step [OF hello_completed(1)] by (simp add: link5_def)

lemma run_to_lost: "link_step\<^sup>*\<^sup>* idle_link link_lost"
  using run_to_link4 link_step.lose_packets [of "[]" link4 "[]"] by (simp add: link_lost_def)

section \<open>Witnesses\<close>

theorem exactly_once_delivery_witness:
  "outboundMsgs (sender link5) = [] \<and> length (offered link5) = 1 \<and>
   mset (map delivered_body (arrived (receiver link5) @ messageQueue (receiver link5))) = mset (offered link5)"
  using exactly_once_delivery [OF idle_start run_to_link5] hello_completed by simp

theorem lost_pubcomp_never_released_witness:
  "arrived (receiver link_lost) \<noteq> [] \<and> find_msg 7 (outboundMsgs (sender link_lost)) \<noteq> None"
  using lost_pubcomp_never_released [OF idle_start run_to_lost rtranclp.rtrancl_refl, of 7]
  by (simp add: link_lost_def hello_released(2) hello_received(2) hello_arrived(2) hello_published(2) idle_link_def idle_client_def)

theorem assign_msg_id_witness:
  "MQTTProtocol_assignMsgId (sender link1) = Some (1, (sender link1)\<lparr>msgID := 1\<rparr>) \<and> find_msg 1 (outboundMsgs (sender link1)) = None"
proof -
  have "MQTTProtocol_assignMsgId (sender link1) = Some (1, (sender link1)\<lparr>msgID := 1\<rparr>)"
    unfolding MQTTProtocol_assignMsgId_def
    by (subst assign_loop.simps) (simp add: hello_published(2) idle_client_def next_id_def MAX_MSG_ID_def)
  then show ?thesis
    using assign_msg_id [of "sender link1"] by (simp add: hello_published(2) idle_client_def MAX_MSG_ID_def)
qed


end
