(* ===== verification/AsyncExamples.thy ===== *)
theory AsyncExamples
  imports MqttRequests DeliveryExamples
begin

text \<open>
  A concrete run of the asynchronous client: a handle is created and connected, a subscription
  and a message are accepted, the subscription is sent and answered, the handle is destroyed.
\<close>

section \<open>Definitions\<close>

definition tcp_env :: async_env where
  "tcp_env = \<lparr>net = good_net, clock_ms = 5000, socket_new = (\<lambda>_ _. 0), sock_error = 0\<rparr>"

definition plain_options :: connectOptions where
  "plain_options = \<lparr>co_ok = True, co_version = 5, co_keepAliveInterval = 60, co_cleansession = False, co_will = None,
     co_username = None, co_password = None, co_binarypwd = None, co_connectTimeout = 30, co_retryInterval = 20, co_ssl = None,
     co_onSuccess = True, co_onFailure = True, co_serverURIs = [], co_MQTTVersion = 0, co_automaticReconnect = True,
     co_minRetryInterval = 1, co_maxRetryInterval = 60\<rparr>"

definition handle0 :: MQTTAsyncs where
  "handle0 =
     \<lparr>ac = \<lparr>msgID = 0, outboundMsgs = [], inboundMsgs = [], publications = Map.empty, next_block = 0, pending_writes = [],
            net_connected = False, good = False, ping_outstanding = False, keepAliveInterval = 0, retryInterval = 0,
            lastSent = 0, lastReceived = 0, msgs_sent = 0, msgs_received = 0, close_requests = 0,
            cleansession = False, connect_state = 0, socket_open = False, has_ma = False, ma_calls = 0,
            messageQueue = [], arrived = [], wire = []\<rparr>,
      commands = [], responses = [], pending_write = None, conn_cmd = new_command 0 None (Unset 0 0), disc_cmd = new_command 0 None (Dis False 0),
      has_cl = False, has_dc = False, has_connected = False, serverURI = ''localhost:1883'', serverURIs = [], MQTTVersion = 0,
      login = \<lparr>clientID = [104, 117, 98], cl_username = None, cl_password = None, cl_cleansession = False, cl_keepAliveInterval = 0, cl_will = None\<rparr>,
      stale_username = False, stale_password = False, createOptions = None, shouldBeConnected = False, automaticReconnect = False,
      minRetryInterval = 0, maxRetryInterval = 0, connectTimeout = 0, currentInterval = 0, lastConnectionFailedTime = 0,
      retrying = False, reconnectNow = False, last_timeouts = 0, last_retry = 0, retryLoopInterval = 5, callbacks = []\<rparr>"

definition both :: "(bool \<times> bool) option" where "both = Some (True, True)"

definition connect1 :: MQTTAsync_command where
  "connect1 = \<lparr>cmd_token = 0, cmd_onSuccess = True, cmd_onFailure = True, cmd_start = 5000, cmd_details = Conn 0 0\<rparr>"

definition subscribe1 :: MQTTAsync_command where
  "subscribe1 = \<lparr>cmd_token = 1, cmd_onSuccess = True, cmd_onFailure = True, cmd_start = 5000, cmd_details = Sub [[116]] [1]\<rparr>"

definition publish2 :: MQTTAsync_command where
  "publish2 = \<lparr>cmd_token = 2, cmd_onSuccess = True, cmd_onFailure = True, cmd_start = 5000, cmd_details = Pub [116] [104, 105] 1 False\<rparr>"

definition connect_pkt :: "byte list" where
  "connect_pkt = [16, 15, 0, 4, 77, 81, 84, 84, 4, 0, 0, 60, 0, 3, 104, 117, 98]"

definition subscribe_pkt :: "byte list" where
  "subscribe_pkt = [130, 6, 0, 1, 0, 1, 116, 1]"

definition handle1 :: MQTTAsyncs where
  "handle1 = handle0\<lparr>conn_cmd := (conn_cmd handle0)\<lparr>cmd_onSuccess := True, cmd_onFailure := True\<rparr>, connectTimeout := 30,
     ac := (ac handle0)\<lparr>keepAliveInterval := 60, retryInterval := 20\<rparr>, automaticReconnect := True, minRetryInterval := 1,
     maxRetryInterval := 60, login := (login handle0)\<lparr>cl_keepAliveInterval := 60\<rparr>, shouldBeConnected := True, commands := [connect1]\<rparr>"

definition handle2 :: MQTTAsyncs where
  "handle2 = handle1\<lparr>commands := [], conn_cmd := connect1\<lparr>cmd_details := Conn 0 4\<rparr>,
     ac := (ac handle1)\<lparr>good := True, socket_open := True, wire := [connect_pkt], lastSent := 5, connect_state := 3\<rparr>\<rparr>"

definition handle3 :: MQTTAsyncs where
  "handle3 = handle2\<lparr>ac := (ac handle2)\<lparr>net_connected := True, connect_state := 0\<rparr>, callbacks := [Connect_success_cb]\<rparr>"

definition handle4 :: MQTTAsyncs where
  "handle4 = handle3\<lparr>ac := (ac handle3)\<lparr>msgID := 1\<rparr>, commands := [subscribe1]\<rparr>"

definition handle5 :: MQTTAsyncs where
  "handle5 = handle4\<lparr>ac := (ac handle4)\<lparr>msgID := 2\<rparr>, commands := [subscribe1, publish2]\<rparr>"

definition handle6 :: MQTTAsyncs where
  "handle6 = handle5\<lparr>ac := (ac handle5)\<lparr>wire := [connect_pkt, subscribe_pkt]\<rparr>, commands := [publish2], responses := [subscribe1]\<rparr>"

definition handle7 :: MQTTAsyncs where
  "handle7 = handle6\<lparr>responses := [], callbacks := [Connect_success_cb, Success_cb 1]\<rparr>"

definition session :: "(async_env \<times> async_op) list" where
  "session = map (Pair tcp_env) [Connect (Some plain_options), Process_command,
     Receive 0 (Some (Connack (plain_header CONNACK) 0 0)), Subscribe_many [[116]] [1] both, Send [116] [104, 105] 1 False both,
     Process_command, Receive 0 (Some (Suback (plain_header SUBACK) 1 [1]))]"

definition session_events :: "event list" where
  "session_events = [Accepted 1 (Sub [[116]] [1]), Accepted 2 (Pub [116] [104, 105] 1 False), Started 1 (Sub [[116]] [1])]"

definition down_env :: async_env where
  "down_env = tcp_env\<lparr>socket_new := (\<lambda>_ _. - 1)\<rparr>"

definition two_servers :: MQTTAsyncs where
  "two_servers = handle1\<lparr>serverURIs := [''tcp://a:1'', ''tcp://b:2'']\<rparr>"

definition late_qos0 :: MQTTAsync_command where
  "late_qos0 = \<lparr>cmd_token = 0, cmd_onSuccess = True, cmd_onFailure = True, cmd_start = 5000, cmd_details = Pub [116] [104] 0 False\<rparr>"

definition interrupted :: MQTTAsyncs where
  "interrupted = handle6\<lparr>commands := [], responses := [subscribe1, late_qos0], pending_write := Some (late_qos0, True)\<rparr>"

definition old_login :: MQTTAsyncs where
  "old_login = handle0\<lparr>login := (login handle0)\<lparr>cl_username := Some [117]\<rparr>\<rparr>"

definition wait_disconnect :: MQTTAsync_command where
  "wait_disconnect = \<lparr>cmd_token = 0, cmd_onSuccess = True, cmd_onFailure = True, cmd_start = 5000, cmd_details = Dis False 1000\<rparr>"

definition in_flight :: MQTTAsyncs where
  "in_flight = handle7\<lparr>commands := [wait_disconnect],
     ac := (ac handle7)\<lparr>outboundMsgs := [\<lparr>m_qos = 1, m_retain = False, m_msgid = 2, m_publish = 0, m_lastTouch = 5, m_next = Some PUBACK\<rparr>]\<rparr>\<rparr>"

section \<open>The steps\<close>

lemmas handle_defs = handle0_def handle1_def handle2_def handle3_def handle4_def handle5_def handle6_def handle7_def

lemma utf8_examples: "UTF8_validateString [104, 117, 98] = Some True" "UTF8_validateString [116] = Some True"
  by code_simp+

lemma c_bytes_examples: "c_bytes [104, 117, 98] = [104, 117, 98]" "c_bytes [116] = [116]"
  by code_simp+

lemma packet_examples:
  "MQTTPacket_send_connect (login handle1) 4 = Some (Some connect_pkt)"
  "MQTTPacket_send_subscribe [[116]] [1] 1 False = Some subscribe_pkt"
  by (code_simp, code_simp)

lemma address_example: "MQTTProtocol_addressPort ''localhost:1883'' = Some (''localhost'', 1883)"
  by code_simp

lemma created: "MQTTAsync_createWithOptions (Some ''tcp://localhost:1883'') (Some [104, 117, 98]) None = Some (Inl handle0)"
proof -
  have "strip_tcp ''tcp://localhost:1883'' = ''localhost:1883''" "str_starts ''tcp://'' ''tcp://localhost:1883''" by code_simp+
  then show ?thesis by (simp add: MQTTAsync_createWithOptions_def utf8_examples c_bytes_examples handle0_def)
qed

lemma step1: "apply_op tcp_env (Connect (Some plain_options)) handle0 = Some (0, handle1)"
  by (simp add: MQTTAsync_connect_def connect_checks_def ssl_and_login_checks_def connect_settings_def set_login_def
      setRetryLoopInterval_def MQTTAsync_addCommand_def new_command_def plain_options_def handle_defs tcp_env_def connect1_def)

lemma step2: "apply_op tcp_env Process_command handle1 = Some (1, handle2)"
  using packet_examples(1)
  by (simp add: MQTTAsync_processCommand_def eligible_def run_command_def run_connect_def MQTTProtocol_connect_def write_connect_def
      next_version_def address_example finish_command_def handle_defs tcp_env_def good_net_def connect1_def send_def)

lemma step3: "apply_op tcp_env (Receive 0 (Some (Connack (plain_header CONNACK) 0 0))) handle2 = Some (0, handle3)"
  by (simp add: receive_body_def deliver_queued_def MQTTAsync_completeConnection_def resume_session_def take_protocol_def
      handle_defs connect1_def call_def)

lemma step4: "apply_op tcp_env (Subscribe_many [[116]] [1] both) handle3 = Some (0, handle4)"
  by (simp add: MQTTAsync_subscribeMany_def MQTTAsync_assignMsgId_def assign_loop.simps next_id_def MAX_MSG_ID_def utf8_examples
      c_bytes_examples MQTTAsync_addCommand_def new_command_def both_def handle_defs tcp_env_def subscribe1_def)

lemma step5: "apply_op tcp_env (Send [116] [104, 105] 1 False both) handle4 = Some (0, handle5)"
  by (simp add: MQTTAsync_send_def MQTTAsync_assignMsgId_def assign_loop.simps next_id_def MAX_MSG_ID_def utf8_examples
      c_bytes_examples MQTTAsync_addCommand_def new_command_def both_def handle_defs tcp_env_def subscribe1_def publish2_def)

lemma step6: "apply_op tcp_env Process_command handle5 = Some (1, handle6)"
  by (simp add: MQTTAsync_processCommand_def eligible_def run_command_def packet_examples finish_command_def handle_defs
      tcp_env_def good_net_def subscribe1_def send_def no_pending_def MAX_MSG_ID_def del: One_nat_def)

lemma step7: "apply_op tcp_env (Receive 0 (Some (Suback (plain_header SUBACK) 1 [1]))) handle6 = Some (0, handle7)"
  by (simp add: receive_body_def deliver_queued_def complete_response_def on_success_def free_command_def handle_defs subscribe1_def)

lemmas session_steps = step1 step2 step3 step4 step5 step6 step7

lemma session_events_steps:
  "op_events (tcp_env, Connect (Some plain_options)) handle0 = []"
  "op_events (tcp_env, Process_command) handle1 = []"
  "op_events (tcp_env, Receive 0 (Some (Connack (plain_header CONNACK) 0 0))) handle2 = []"
  "op_events (tcp_env, Subscribe_many [[116]] [1] both) handle3 = [Accepted 1 (Sub [[116]] [1])]"
  "op_events (tcp_env, Send [116] [104, 105] 1 False both) handle4 = [Accepted 2 (Pub [116] [104, 105] 1 False)]"
  "op_events (tcp_env, Process_command) handle5 = [Started 1 (Sub [[116]] [1])]"
  "op_events (tcp_env, Receive 0 (Some (Suback (plain_header SUBACK) 1 [1]))) handle6 = []"
proof -
  have "ac handle4 = (ac handle3)\<lparr>msgID := 1\<rparr>" "ac handle5 = (ac handle4)\<lparr>msgID := 2\<rparr>" by (simp_all add: handle4_def handle5_def)
  then show "op_events (tcp_env, Subscribe_many [[116]] [1] both) handle3 = [Accepted 1 (Sub [[116]] [1])]"
      "op_events (tcp_env, Send [116] [104, 105] 1 False both) handle4 = [Accepted 2 (Pub [116] [104, 105] 1 False)]"
    by (simp_all add: op_events_def step4 step5 c_bytes_examples del: apply_op.simps)
  have "commands handle0 = []" "commands handle1 = [connect1]" "commands handle2 = []" "commands handle6 = [publish2]"
    by (simp_all add: handle_defs)
  then show "op_events (tcp_env, Connect (Some plain_options)) handle0 = []"
      "op_events (tcp_env, Process_command) handle1 = []"
      "op_events (tcp_env, Receive 0 (Some (Connack (plain_header CONNACK) 0 0))) handle2 = []"
      "op_events (tcp_env, Receive 0 (Some (Suback (plain_header SUBACK) 1 [1]))) handle6 = []"
    by (simp_all add: op_events_def connect1_def)
  have "eligible tcp_env subscribe1 handle5"
    by (simp add: eligible_def subscribe1_def handle_defs tcp_env_def good_net_def no_pending_def MAX_MSG_ID_def)
  moreover have "commands handle5 = [subscribe1, publish2]" by (simp add: handle5_def)
  ultimately show "op_events (tcp_env, Process_command) handle5 = [Started 1 (Sub [[116]] [1])]"
    by (simp add: op_events_def subscribe1_def)
qed

lemma session_run:
  assumes "\<forall>x \<in> set session. \<forall>a. (\<exists>rc. snd x = Write_complete rc) \<or> al x a"
  shows "run_events exec_op al op_events session handle0 = Some (session_events, handle7)"
  using assms
  by (simp add: session_def exec_op_def session_steps session_events_steps session_events_def del: apply_op.simps One_nat_def)

section \<open>The properties at this run\<close>

theorem async_types_witness: "async_ok handle7"
  by (rule async_types [OF created session_run]) simp

theorem requests_in_order_witness:
  "started session_events @ requests handle7 = accepted session_events \<and> requests handle7 = [(2, Pub [116] [104, 105] 1 False)]"
proof -
  have "run_events exec_op keeps_session op_events session handle0 = Some (session_events, handle7)"
    by (rule session_run) (simp add: session_def keeps_session_def plain_options_def)
  from requests_in_order [OF created this] show ?thesis by (simp add: handle_defs requests_def publish2_def)
qed

theorem requests_answered_witness:
  "mset (answers (callbacks handle7)) + mset (tokens (commands handle7 @ responses handle7)) = mset (accepted_ids session_events) \<and>
   (\<exists>d. MQTTAsync_destroy tcp_env handle7 = Some d \<and> mset (answers (callbacks d)) = {#1, 2#})"
proof -
  have run: "run_events exec_op answers_all op_events session handle0 = Some (session_events, handle7)"
    by (rule session_run) (simp add: session_def answers_all_def both_def)
  have "\<exists>d. MQTTAsync_destroy tcp_env handle7 = Some d"
    by (simp add: MQTTAsync_destroy_def MQTTAsync_closeSession_def MQTTAsync_closeOnly_def MQTTProtocol_checkPendingWrites_def clear_session_def
        MQTTAsync_removeResponsesAndCommands_def send_def no_pending_def good_net_def tcp_env_def handle_defs)
  moreover have "mset (accepted_ids session_events) = {#1, 2#}" by (simp add: session_events_def accepted_ids_def accepted_def)
  ultimately show ?thesis using requests_answered [OF created run] by auto
qed


theorem write_complete_forgets_response_witness:
  "\<exists>a'. MQTTAsync_writeComplete tcp_env 1 interrupted = Some a' \<and> responses a' = [late_qos0] \<and> complete_response 1 on_success a' = a'"
proof -
  have "\<exists>a'. MQTTAsync_writeComplete tcp_env 1 interrupted = Some a'"
    by (simp add: MQTTAsync_writeComplete_def complete_write_def MQTTProtocol_checkPendingWrites_def interrupted_def handle_defs)
  then obtain a' where a': "MQTTAsync_writeComplete tcp_env 1 interrupted = Some a'" by blast
  have "async_ok interrupted"
    by (simp add: async_ok_def interrupted_def handle_defs conn_part_def token_ok_def subscribe1_def late_qos0_def connect1_def MAX_MSG_ID_def)
  from write_complete_forgets_response [OF a' _ _ this, of late_qos0 subscribe1 "[late_qos0]" on_success] show ?thesis
    using a' by (simp add: interrupted_def subscribe1_def)
qed

theorem connect_leaves_freed_login_witness:
  "\<exists>a'. MQTTAsync_connect tcp_env (Some plain_options) old_login = Some (0, a') \<and> write_connect tcp_env 4 a' = None"
proof -
  have "\<exists>a'. MQTTAsync_connect tcp_env (Some plain_options) old_login = Some (0, a')"
    by (simp add: MQTTAsync_connect_def connect_checks_def ssl_and_login_checks_def connect_settings_def set_login_def
        setRetryLoopInterval_def plain_options_def old_login_def handle_defs)
  then obtain a' where a': "MQTTAsync_connect tcp_env (Some plain_options) old_login = Some (0, a')" by blast
  from connect_leaves_freed_login [OF this, of tcp_env 4] show ?thesis
    using a' by (simp add: old_login_def plain_options_def)
qed

theorem disconnect_forgotten_witness:
  "\<exists>a'. MQTTAsync_processCommand tcp_env in_flight = Some (True, a') \<and> commands a' = [] \<and>
     (\<exists>a2. MQTTAsync_checkTimeouts (tcp_env\<lparr>clock_ms := 100000\<rparr>) a' = Some a2 \<and> net_connected (ac a2) \<and> callbacks a2 = callbacks in_flight)"
proof -
  have "commands in_flight = [wait_disconnect]" "cmd_details wait_disconnect = Dis False 1000" "net_connected (ac in_flight)"
      "connect_state (ac in_flight) = 0" "outboundMsgs (ac in_flight) \<noteq> []"
      "MQTTAsync_elapsed tcp_env (cmd_start wait_disconnect) < 1000" "\<not> retrying in_flight"
    by (simp_all add: in_flight_def wait_disconnect_def handle_defs MQTTAsync_elapsed_def tcp_env_def)
  from disconnect_forgotten [OF this] obtain a' where a': "MQTTAsync_processCommand tcp_env in_flight = Some (True, a')" "commands a' = []"
    "\<forall>e2. \<exists>a2. MQTTAsync_checkTimeouts e2 a' = Some a2 \<and> ac a2 = ac in_flight \<and> commands a2 = [] \<and> callbacks a2 = callbacks in_flight"
    by blast
  then obtain a2 where "MQTTAsync_checkTimeouts (tcp_env\<lparr>clock_ms := 100000\<rparr>) a' = Some a2" "ac a2 = ac in_flight" "callbacks a2 = callbacks in_flight"
    by blast
  with a'(1,2) show ?thesis using \<open>net_connected (ac in_flight)\<close> by auto
qed

end
