(* ===== verification/Spec2Isabelle.thy ===== *)
theory Spec2Isabelle
  imports Examples AsyncExamples
begin

text \<open>
  \<^bold>\<open>A verification library for mqttmsghub\<close>

  The program is a message hub on a gateway device (\<open>src/source/mqttmsghub\<close> with the
  helpers of \<open>src/source/sharelibs\<close>). Local programs post JSON requests to its HTTP
  API; the hub encrypts the payload and publishes it to an MQTT broker. While the broker
  cannot be reached, requests are kept in an offline cache (one file per message and a
  bounded priority queue of headers) and sent by a sender thread after the next
  connection. Commands that arrive on the subscribed topics are written to named pipes by a
  thread pool. Counters of sent and discarded messages are kept in an INI file and reported
  after every connection.

  \<^bold>\<open>The parts and their theories\<close>

  \<^item> \<open>Prelude\<close>: C integers and strings, decimal conversion, list lemmas, the locale
    \<open>budgeted_simulation\<close> (a step law gives the law for every operation sequence).
  \<^item> \<open>StringUtils\<close>, \<open>Base64\<close>, \<open>FilePath\<close>, \<open>DList\<close>, \<open>SList\<close>,
    \<open>IniParser\<close>: \<open>sharelibs/utils\<close>. Buffers are lists with explicit bounds,
    \<open>None\<close> is an access outside; the two linked lists live in an explicit heap of
    nodes; the file system is a map from paths to contents with a room left on the disk.
    The lists refine an abstract deque and sequence.
  \<^item> \<open>Config\<close>, \<open>MsgCounter\<close>: \<open>config.c\<close>, \<open>devicesn.c\<close>,
    \<open>msgcounter.c\<close>.
  \<^item> \<open>Cipher\<close>: CBC mode, the payload format and the signature check of
    \<open>mqttmsghub/cipher\<close> and \<open>libtomcrypt/src/modes/cbc\<close>, over any block cipher; the
    hash and the RSA primitives are parameters. \<open>AesTables\<close> and \<open>Aes\<close> are the
    tables and the code of the block cipher (\<open>ciphers/aes\<close>); the locale
    \<open>inverse_rounds\<close> states what its tables have to satisfy. \<open>AesField\<close> and
    \<open>AesSpec\<close> are the standard FIPS 197 it is compared with.
  \<^item> \<open>MqttWrapper\<close>: \<open>mqttclientwrapper.c\<close>. The calls to the Paho client are a trace,
    its answers a function of the trace and the call; callbacks are steps of
    \<open>mqtt_step\<close>. The locale \<open>connected_callback\<close> is what the wrapper expects of the
    callback; \<open>App\<close> interprets it on the hub's callback.
  \<^item> \<open>Json\<close>, \<open>JsonTokener\<close>, \<open>JsonRoundTrip\<close>, \<open>JsonResult\<close>: values, printing and
    accessors (\<open>json_object.c\<close>, \<open>json_helper.c\<close>), and the tokener
    (\<open>json_tokener.c\<close>), a machine with one definition per \<open>case\<close> of its switch.
    \<open>SendParser\<close> is the request parser (\<open>mqttsendreqbodyparser.c\<close>) over any tokener,
    \<open>SendDocument\<close> puts it on the tokener of json-c. \<open>LinkHash\<close> is the hash table
    that holds the members of an object (\<open>linkhash.c\<close>).
  \<^item> \<open>MqttPacket\<close>, \<open>Utf8\<close>: the packets of the Paho client (\<open>MQTTPacket.c\<close>,
    \<open>MQTTPacketOut.c\<close>) as byte sequences, built and read, and its UTF-8 check
    (\<open>utf-8.c\<close>).
  \<^item> \<open>MqttProtocol\<close>, \<open>Qos2Exchange\<close>, \<open>MqttDelivery\<close>: the delivery of messages
    (\<open>MQTTProtocolClient.c\<close>) with its message lists and reference-counted publications;
    an abstract exchange of QoS 2; two clients joined by the packets on the wire, any of
    which may be lost, which refine it.
  \<^item> \<open>MqttAsync\<close>, \<open>MqttRequests\<close>: the asynchronous client (\<open>MQTTAsync.c\<close>,
    \<open>MQTTProtocolOut.c\<close>) for one handle: the record \<open>MQTTAsyncs\<close>, its queue of
    commands and list of waiting requests, one definition per function, the bodies of both
    threads; callbacks are recorded in the state. \<open>async_op\<close> lists the calls and steps
    that interleave under its mutex; \<open>MqttRequests\<close> shows what holds of every run. The
    locale \<open>accounted\<close> of \<open>Accounting\<close> carries a law of one step to every run
    and is interpreted for the type invariant, the order and the answers of requests.
  \<^item> \<open>OfflineCache\<close>, \<open>OfflineSender\<close>: \<open>offlinemsgcache.c\<close>. The queue refines a
    bounded priority queue (\<open>spec_enqueue\<close>); threads interleave at the lock operations
    (\<open>cache_step\<close>).
  \<^item> \<open>ThreadPool\<close>, \<open>MsgReceive\<close>: \<open>threadpool.c\<close>, \<open>threadpoolwrapper.c\<close>,
    \<open>msgrevhandler.c\<close>, \<open>writepipe.c\<close>; workers and callers are the steps of
    \<open>pool_step\<close>.
  \<^item> \<open>HttpHub\<close>: \<open>httprequestcallback.c\<close>, \<open>httpserver.c\<close>, \<open>netutils.c\<close>; the
    responses are part of the state.
  \<^item> \<open>Schedule\<close>, \<open>App\<close>: \<open>schedulejob.c\<close>, \<open>timerhelper.c\<close>, \<open>app.c\<close>,
    \<open>sysutils.c\<close>, \<open>logger.c\<close>; the results of system calls are fields of
    \<open>app_env\<close>.
  \<^item> \<open>Examples\<close>, \<open>DeliveryExamples\<close>, \<open>AsyncExamples\<close>: concrete states and documents at which the hypotheses of the
    properties hold, with the conclusions they give.

  The state of the program is one record that grows with the components: files, paths,
  configuration, counters, client, cache, pool and pipes, HTTP responses, timer,
  application. Every operation takes the record of its component and leaves the fields of
  later ones alone.

  \<^bold>\<open>What is shown\<close>

  \<^item> The offline cache: an admitted message is stored with its file, the queue stays
    within its capacity and in order, a displaced message has the lowest priority, the
    sender publishes every cached message once and in order and terminates, a restart
    rebuilds the queue, a cached request is sent as it was accepted, and in every
    interleaving there is at most one sender.
  \<^item> Requests: which bodies are accepted, what is published, cached, counted and answered
    on every branch.
  \<^item> JSON: the tokener stops on every input, and printing and parsing are inverse; the
    hash table of an object implements its ordered list of members.
  \<^item> Cipher: the table-driven AES is the cipher of FIPS 197 and its decryption inverts it,
    and the payload format with AES in CBC mode is decrypted to what was encrypted.
  \<^item> MQTT packets: a PUBLISH packet is read back as it was sent, packets fill their buffers
    exactly, the UTF-8 check accepts exactly the well formed strings.
  \<^item> MQTT delivery: QoS 2 delivers exactly once whatever the network loses, stored
    publications are never used after they are freed, message ids are fresh.
  \<^item> Asynchronous client: its type invariant, requests are started in the order in which
    they were accepted and answered exactly once, a connect tries every server and ends.
  \<^item> Client, counters, schedule, callback: the status of the wrapper, conservation of the
    counts, the report after a connection, the second counter without overflow.
  \<^item> Thread pool and commands: order, completeness of a graceful shutdown, one task per
    command.
  \<^item> Helpers: round trips of base64 and INI files, trimming, splitting, the refinement of
    the linked list.
  \<^item> Flaws: buffer overruns, an endless loop with a capacity that is not positive, a
    message reported as cached without a file, an exchange that never ends after a lost
    PUBCOMP, a request whose answer is lost by a finished write, a disconnect that is
    forgotten, freed login strings that are sent. They are theorems about the definitions and
    are listed as findings.

  \<^bold>\<open>Loops and bounds\<close>

  Loops are structural recursion or have a termination proof. Those that may run forever
  (\<open>evict_loop\<close>, the sender's loop, the wait for a serial number, the main loop of the
  tokener, the search for a message id) are partial functions into \<open>option\<close>; that they return is proved where it
  holds. There is no fuel. Integers keep their C width through \<open>wrap32\<close>,
  \<open>usub64\<close>, \<open>is_int32\<close> and \<open>is_int64\<close>; bytes are 8-bit words.

  \<^bold>\<open>Not modelled\<close>

  Logging and log texts; failures of \<open>malloc\<close>; locales. Of the Paho library: sockets and
  threads, which are seen through their results, the synchronous client, which the hub does
  not call, persistence and SSL, which are switched off; the wrapper of the hub is modelled
  over the answers of the library and not composed with \<open>MqttAsync\<close>. libhttpd, zlog,
  libtommath and the rest of libtomcrypt are vendored libraries: libhttpd is seen through
  its calls and answers, the hash and the RSA primitives are parameters.
  \<open>processstatus.c\<close>, \<open>sysstatus.c\<close>, \<open>httpwrapper.c\<close> and
  \<open>filechangewatcher.c\<close> wrap \<open>/proc\<close>, libcurl and inotify. Reference counts, deep
  copies, pointer paths and the other printing flags of json-c are not used by the hub.
\<close>

end
